(* ===== verification/Prelude.thy ===== *)
theory Prelude
  imports Main "HOL-Library.Word"
begin

text \<open>
  Shared ground of the development: the machine integer types and the Rust operations on them
  (saturating and wrapping arithmetic), results with the early return of the question mark
  operator, the standard library's text operations that the parsers use, and the lemmas and
  named collections the component theories draw on.

  Conventions. \<open>Result<T, E>\<close> is \<open>'e + 't\<close> with \<open>Inl\<close> the error; a function that may
  panic returns an option whose \<open>None\<close> is the panic. \<open>u8\<close>, \<open>u16\<close> and \<open>u32\<close> are words.
  \<open>i32\<close> values are integers brought back into range by \<open>wrap_i32\<close> wherever the code adds or
  multiplies, which is what a release build does. \<open>usize\<close>, \<open>u64\<close> and \<open>Duration\<close> values
  are natural numbers; the code never brings them near their bounds, and each theory says why.
  Text is a list of characters, read as the code points U+0000 to U+00FF.
\<close>

unbundle bit_operations_syntax

section \<open>Machine integers\<close>

type_synonym u8 = "8 word"
type_synonym u16 = "16 word"
type_synonym u32 = "32 word"
type_synonym i32 = int
type_synonym byte = u8

text \<open>Points in time and spans, in nanoseconds unless a name says otherwise.\<close>

type_synonym duration = nat
type_synonym instant = nat
type_synonym systime = nat \<comment> \<open>wall-clock time: nanoseconds since the epoch\<close>

abbreviation from_secs :: "nat \<Rightarrow> duration" where
  "from_secs s \<equiv> s * 1000000000"

abbreviation from_millis :: "nat \<Rightarrow> duration" where
  "from_millis s \<equiv> s * 1000000"

named_theorems ranges \<open>bounds of values read from the wire or a configuration\<close>
named_theorems run_simps \<open>how a run over a list of inputs unfolds\<close>

definition sat_inc :: "nat \<Rightarrow> nat \<Rightarrow> nat" where
  \<comment> \<open>\<open>saturating_add(1)\<close> on an unsigned integer whose largest value is \<open>m\<close>\<close>
  "sat_inc m n = (if n < m then Suc n else n)"

lemma sat_inc_le [simp]: "n \<le> m \<Longrightarrow> sat_inc m n \<le> m"
  by (simp add: sat_inc_def)

lemma sat_inc_mono: "k \<le> n \<Longrightarrow> k \<le> sat_inc m n"
  by (simp add: sat_inc_def)

lemma sat_inc_upto: "sat_inc m n \<le> Suc n"
  by (simp add: sat_inc_def)

lemma sat_inc_reaches: "k \<le> m \<Longrightarrow> k \<le> Suc n \<Longrightarrow> k \<le> sat_inc m n"
  by (auto simp: sat_inc_def)

definition sat_inc_u8 :: "u8 \<Rightarrow> u8" where
  \<comment> \<open>\<open>saturating_add(1)\<close> on a byte\<close>
  "sat_inc_u8 x = (if x = 255 then x else x + 1)"

lemma unat_sat_inc_u8 [simp]: "unat (sat_inc_u8 x) = sat_inc 255 (unat x)"
proof (cases "x = 255")
  case False
  then have "unat x \<noteq> 255" by (simp add: word_unat_eq_iff)
  moreover have "unat x < 256" using unsigned_less[of x] by simp
  ultimately have "unat x < 255" by simp
  then have "unat (x + 1) = unat x + 1" by (simp add: unat_word_ariths)
  with \<open>unat x < 255\<close> False show ?thesis by (simp add: sat_inc_u8_def sat_inc_def)
qed (simp add: sat_inc_u8_def sat_inc_def)

definition wrap_i32 :: "int \<Rightarrow> i32" where
  "wrap_i32 x = signed_take_bit 31 x"

definition is_i32 :: "int \<Rightarrow> bool" where
  "is_i32 x \<longleftrightarrow> - (2 ^ 31) \<le> x \<and> x < 2 ^ 31"

lemma wrap_i32_id [simp]: "is_i32 x \<Longrightarrow> wrap_i32 x = x"
  by (simp add: wrap_i32_def is_i32_def signed_take_bit_int_eq_self)

lemma is_i32_wrap [simp]: "is_i32 (wrap_i32 x)"
  using signed_take_bit_int_greater_eq_minus_exp[of 31 x] signed_take_bit_int_less_exp[of 31 x]
  by (simp add: wrap_i32_def is_i32_def)

text \<open>Truncating division, as Rust's \<open>/\<close> and \<open>%\<close> on signed integers.\<close>

definition trunc_div :: "int \<Rightarrow> int \<Rightarrow> int" where
  "trunc_div a b = sgn a * sgn b * (\<bar>a\<bar> div \<bar>b\<bar>)"

definition trunc_mod :: "int \<Rightarrow> int \<Rightarrow> int" where
  "trunc_mod a b = a - b * trunc_div a b"

lemma unat_u8 [ranges]: "unat (x :: u8) < 256"
  using unsigned_less[of x] by simp

lemma unat_u8_le [ranges]: "unat (x :: u8) \<le> 255"
  using unat_u8[of x] by simp

lemma unat_u16 [ranges]: "unat (x :: u16) < 65536"
  using unsigned_less[of x] by simp

lemma unat_of_nat_u8 [simp]: "n < 256 \<Longrightarrow> unat (of_nat n :: u8) = n"
  by (simp add: unat_of_nat take_bit_nat_eq_self)

lemma unat_of_nat_u16 [simp]: "n < 65536 \<Longrightarrow> unat (of_nat n :: u16) = n"
  by (simp add: unat_of_nat take_bit_nat_eq_self)

lemma u8_eqI: "unat (x :: u8) = unat y \<Longrightarrow> x = y"
  by (simp add: word_unat_eq_iff)

lemma u16_eqI: "unat (x :: u16) = unat y \<Longrightarrow> x = y"
  by (simp add: word_unat_eq_iff)

lemma of_nat_unat_u8 [simp]: "(of_nat (unat (x :: u8)) :: u8) = x"
  by simp

lemma unat_ucast_u16 [simp]: "unat (ucast (b :: u8) :: u16) = unat b"
  using unat_u8[of b] by (simp add: unsigned_ucast_eq take_bit_nat_eq_self)

text \<open>A byte shifted over another, as big-endian readers combine them.\<close>

lemma or_nat_bytes: "b < 256 \<Longrightarrow> (a * 256) OR b = a * 256 + b" for a b :: nat
proof -
  assume b: "b < 256"
  have "push_bit 8 a AND b = 0"
  proof (rule bit_eqI)
    fix n
    have "bit b n \<Longrightarrow> n < 8"
    proof (rule ccontr)
      assume "bit b n" "\<not> n < 8"
      then have "(2::nat) ^ 8 \<le> 2 ^ n" by (intro power_increasing) auto
      with b have "b < 2 ^ n" by simp
      then show False using \<open>bit b n\<close> by (simp add: bit_iff_odd)
    qed
    then show "bit (push_bit 8 a AND b) n = bit (0::nat) n" by (auto simp: bit_simps)
  qed
  then show ?thesis by (simp add: disjunctive_add_eq_or[symmetric] push_bit_eq_mult)
qed

lemma unat_join_u16: "unat (push_bit 8 (ucast (hi :: u8)) OR ucast (lo :: u8) :: u16) = unat hi * 256 + unat lo"
proof -
  have "unat (push_bit 8 (ucast hi) :: u16) = unat hi * 256"
    using unat_u8[of hi] by (simp add: push_bit_eq_mult unat_word_ariths)
  then show ?thesis by (simp add: unsigned_or_eq or_nat_bytes unat_u8)
qed

lemma join_split_u16: "(push_bit 8 (ucast (ucast (drop_bit 8 x) :: u8)) OR ucast (ucast x :: u8) :: u16) = x" for x :: u16
proof (rule u16_eqI)
  have x: "unat x < 65536" by (rule unat_u16)
  have "unat (ucast (drop_bit 8 x) :: u8) = unat x div 256"
    using less_mult_imp_div_less[of "unat x" 256 256] x
    by (simp add: unsigned_ucast_eq drop_bit_eq_div take_bit_eq_mod unat_div)
  moreover have "unat (ucast x :: u8) = unat x mod 256"
    by (simp add: unsigned_ucast_eq take_bit_eq_mod)
  ultimately show "unat (push_bit 8 (ucast (ucast (drop_bit 8 x) :: u8)) OR ucast (ucast x :: u8) :: u16) = unat x"
    by (simp only: unat_join_u16) simp
qed

section \<open>Results\<close>

text \<open>The question mark operator: continue with the value, or return the error.\<close>

definition rbind :: "'e + 'a \<Rightarrow> ('a \<Rightarrow> 'e + 'b) \<Rightarrow> 'e + 'b" where
  "rbind r f = (case r of Inl e \<Rightarrow> Inl e | Inr x \<Rightarrow> f x)"

lemma rbind_simps [simp]:
  "rbind (Inl e) f = Inl e"
  "rbind (Inr x) f = f x"
  by (simp_all add: rbind_def)

lemma rbind_Inr_iff: "rbind r f = Inr y \<longleftrightarrow> (\<exists>x. r = Inr x \<and> f x = Inr y)"
  by (cases r) auto

definition map_err :: "('e \<Rightarrow> 'f) \<Rightarrow> 'e + 'a \<Rightarrow> 'f + 'a" where
  "map_err g r = (case r of Inl e \<Rightarrow> Inl (g e) | Inr x \<Rightarrow> Inr x)"

lemma map_err_simps [simp]:
  "map_err g (Inl e) = Inl (g e)"
  "map_err g (Inr x) = Inr x"
  by (simp_all add: map_err_def)

definition map_ok :: "('a \<Rightarrow> 'b) \<Rightarrow> 'e + 'a \<Rightarrow> 'e + 'b" where
  "map_ok g r = (case r of Inl e \<Rightarrow> Inl e | Inr x \<Rightarrow> Inr (g x))"

lemma map_ok_simps [simp]:
  "map_ok g (Inl e) = Inl e"
  "map_ok g (Inr x) = Inr (g x)"
  by (simp_all add: map_ok_def)

fun is_ok :: "'e + 'a \<Rightarrow> bool" where
  "is_ok (Inl _) = False"
| "is_ok (Inr _) = True"

fun ok :: "'e + 'a \<Rightarrow> 'a option" where
  "ok (Inl _) = None"
| "ok (Inr x) = Some x"

section \<open>Arrays\<close>

text \<open>Writing into a fixed array panics out of bounds, and so does taking a slice.\<close>

definition store :: "'a list \<Rightarrow> nat \<Rightarrow> 'a \<Rightarrow> 'a list option" where
  "store xs i x = (if i < length xs then Some (xs[i := x]) else None)"

definition slice :: "'a list \<Rightarrow> nat \<Rightarrow> nat \<Rightarrow> 'a list option" where
  "slice xs a b = (if a \<le> b \<and> b \<le> length xs then Some (take (b - a) (drop a xs)) else None)"

lemma store_Some [simp]: "i < length xs \<Longrightarrow> store xs i x = Some (xs[i := x])"
  by (simp add: store_def)

lemma slice_Some [simp]:
  "a \<le> b \<Longrightarrow> b \<le> length xs \<Longrightarrow> slice xs a b = Some (take (b - a) (drop a xs))"
  by (simp add: slice_def)

lemma take_update_snoc: "i < length xs \<Longrightarrow> take (Suc i) (xs[i := x]) = take i xs @ [x]"
  by (simp add: take_Suc_conv_app_nth)

lemma take_update_same [simp]: "n \<le> i \<Longrightarrow> take n (xs[i := x]) = take n xs"
  by (simp add: take_update_cancel)

section \<open>Text\<close>

text \<open>Decimal and hexadecimal output, as \<open>{}\<close>, \<open>{:02}\<close> and \<open>{:02x}\<close> print it.\<close>

definition digit_char :: "nat \<Rightarrow> char" where
  "digit_char d = char_of (48 + d)"

definition digit_val :: "char \<Rightarrow> nat" where
  "digit_val c = of_char c - 48"

definition is_digit :: "char \<Rightarrow> bool" where
  "is_digit c \<longleftrightarrow> 48 \<le> (of_char c :: nat) \<and> (of_char c :: nat) \<le> 57"

fun show_nat :: "nat \<Rightarrow> string" where
  "show_nat n = (if n < 10 then [digit_char n] else show_nat (n div 10) @ [digit_char (n mod 10)])"

declare show_nat.simps [simp del]

definition show_int :: "int \<Rightarrow> string" where
  "show_int i = (if i < 0 then CHR ''-'' # show_nat (nat (- i)) else show_nat (nat i))"

definition zero_pad :: "nat \<Rightarrow> string \<Rightarrow> string" where
  "zero_pad w s = replicate (w - length s) CHR ''0'' @ s"

definition right_align :: "nat \<Rightarrow> string \<Rightarrow> string" where \<comment> \<open>\<open>{:>w}\<close>\<close>
  "right_align w s = replicate (w - length s) CHR '' '' @ s"

definition left_align :: "nat \<Rightarrow> string \<Rightarrow> string" where \<comment> \<open>\<open>{:<w}\<close>\<close>
  "left_align w s = s @ replicate (w - length s) CHR '' ''"

definition em_dash :: string where \<comment> \<open>U+2014, in UTF-8\<close>
  "em_dash = [CHR 0xE2, CHR 0x80, CHR 0x94]"

definition hex_char :: "nat \<Rightarrow> char" where
  "hex_char d = (if d < 10 then char_of (48 + d) else char_of (87 + d))"

definition show_hex2 :: "u8 \<Rightarrow> string" where
  "show_hex2 b = [hex_char (unat b div 16), hex_char (unat b mod 16)]"

text \<open>Parsing an unsigned integer whose largest value is \<open>m\<close>: one optional plus sign, then at least
  one digit and nothing else; a larger value is an error.\<close>

definition dec_value :: "string \<Rightarrow> nat" where
  "dec_value ds = foldl (\<lambda>acc c. acc * 10 + digit_val c) 0 ds"

definition parse_digits :: "string \<Rightarrow> nat option" where
  "parse_digits ds = (if ds \<noteq> [] \<and> list_all is_digit ds then Some (dec_value ds) else None)"

definition parse_uint :: "nat \<Rightarrow> string \<Rightarrow> nat option" where
  "parse_uint m s =
     (case parse_digits (case s of c # cs \<Rightarrow> if c = CHR ''+'' then cs else s | [] \<Rightarrow> []) of
        Some v \<Rightarrow> if v \<le> m then Some v else None
      | None \<Rightarrow> None)"

definition parse_i32 :: "string \<Rightarrow> i32 option" where
  "parse_i32 s =
     (let neg = (s \<noteq> [] \<and> hd s = CHR ''-'');
          ds = (if s \<noteq> [] \<and> hd s \<in> {CHR ''-'', CHR ''+''} then tl s else s)
      in case parse_digits ds of
           Some v \<Rightarrow> let i = (if neg then - int v else int v) in if is_i32 i then Some i else None
         | None \<Rightarrow> None)"

definition U8_MAX :: nat where "U8_MAX = 255"
definition U16_MAX :: nat where "U16_MAX = 65535"
definition U32_MAX :: nat where "U32_MAX = 2 ^ 32 - 1"
definition U64_MAX :: nat where "U64_MAX = 2 ^ 64 - 1"

lemma digit_char [simp]: "d < 10 \<Longrightarrow> digit_val (digit_char d) = d" "d < 10 \<Longrightarrow> is_digit (digit_char d)"
  by (simp_all add: digit_val_def digit_char_def is_digit_def take_bit_nat_eq_self)

lemma dec_value_snoc [simp]: "dec_value (ds @ [c]) = dec_value ds * 10 + digit_val c"
  by (simp add: dec_value_def)

lemma dec_value_Nil [simp]: "dec_value [] = 0"
  by (simp add: dec_value_def)

lemma show_nat_ne [simp]: "show_nat n \<noteq> []"
  by (subst show_nat.simps) simp

lemma show_nat_digits: "list_all is_digit (show_nat n)"
  by (induction n rule: show_nat.induct) (subst show_nat.simps, simp)

lemma dec_value_show [simp]: "dec_value (show_nat n) = n"
proof (induction n rule: show_nat.induct)
  case (1 n)
  show ?case
  proof (cases "n < 10")
    case True
    then show ?thesis by (subst show_nat.simps) (simp add: dec_value_def)
  next
    case False
    with 1 show ?thesis by (subst show_nat.simps) simp
  qed
qed

lemma parse_digits_show [simp]: "parse_digits (show_nat n) = Some n"
  by (simp add: parse_digits_def show_nat_digits)

lemma is_digit_sign [simp]: "\<not> is_digit CHR ''+''" "\<not> is_digit CHR ''-''"
  by (simp_all add: is_digit_def)

lemma show_nat_hd: "is_digit (hd (show_nat n))"
  using show_nat_digits[of n] by (cases "show_nat n") auto

lemma parse_uint_show [simp]: "parse_uint m (show_nat n) = (if n \<le> m then Some n else None)"
proof -
  have "hd (show_nat n) \<noteq> CHR ''+''" using show_nat_hd[of n] by auto
  then have "(case show_nat n of c # cs \<Rightarrow> if c = CHR ''+'' then cs else show_nat n | [] \<Rightarrow> []) = show_nat n"
    by (cases "show_nat n") auto
  then show ?thesis by (simp add: parse_uint_def)
qed

lemma parse_uint_le: "parse_uint m s = Some v \<Longrightarrow> v \<le> m"
  by (auto simp: parse_uint_def split: option.splits if_splits)

text \<open>Whitespace, control characters, lines and splitting.\<close>

definition is_ws :: "char \<Rightarrow> bool" where
  \<comment> \<open>\<open>char::is_whitespace\<close> on U+0000 to U+00FF\<close>
  "is_ws c \<longleftrightarrow> (let n = (of_char c :: nat) in (9 \<le> n \<and> n \<le> 13) \<or> n = 32 \<or> n = 133 \<or> n = 160)"

definition is_control :: "char \<Rightarrow> bool" where
  "is_control c \<longleftrightarrow> (let n = (of_char c :: nat) in n < 32 \<or> (127 \<le> n \<and> n < 160))"

definition trim_start :: "string \<Rightarrow> string" where "trim_start s = dropWhile is_ws s"
definition trim_end :: "string \<Rightarrow> string" where "trim_end s = rev (dropWhile is_ws (rev s))"
definition trim :: "string \<Rightarrow> string" where "trim s = trim_end (trim_start s)"

abbreviation newline :: char where "newline \<equiv> CHR 0x0A"
abbreviation carriage :: char where "carriage \<equiv> CHR 0x0D"

definition strip_cr :: "string \<Rightarrow> string" where
  "strip_cr s = (if s \<noteq> [] \<and> last s = carriage then butlast s else s)"

fun lines_from :: "string \<Rightarrow> string \<Rightarrow> string list" where
  "lines_from acc [] = (if acc = [] then [] else [acc])"
| "lines_from acc (c # cs) =
     (if c = newline then strip_cr acc # lines_from [] cs else lines_from (acc @ [c]) cs)"

definition text_lines :: "string \<Rightarrow> string list" where
  \<comment> \<open>\<open>str::lines\<close>\<close>
  "text_lines s = lines_from [] s"

definition split_once :: "char \<Rightarrow> string \<Rightarrow> (string \<times> string) option" where
  "split_once c s =
     (if c \<in> set s then Some (takeWhile (\<lambda>x. x \<noteq> c) s, tl (dropWhile (\<lambda>x. x \<noteq> c) s)) else None)"

definition starts_with :: "string \<Rightarrow> string \<Rightarrow> bool" where
  "starts_with p s \<longleftrightarrow> take (length p) s = p"

definition strip_prefix :: "string \<Rightarrow> string \<Rightarrow> string option" where
  "strip_prefix p s = (if starts_with p s then Some (drop (length p) s) else None)"

definition str_contains :: "string \<Rightarrow> string \<Rightarrow> bool" where
  "str_contains needle s \<longleftrightarrow> list_ex (\<lambda>i. starts_with needle (drop i s)) [0..<Suc (length s)]"

definition rsplit_once :: "char \<Rightarrow> string \<Rightarrow> (string \<times> string) option" where
  "rsplit_once c s = map_option (\<lambda>(a, b). (rev b, rev a)) (split_once c (rev s))"

definition trim_matches :: "char \<Rightarrow> string \<Rightarrow> string" where
  "trim_matches c s = rev (dropWhile (\<lambda>x. x = c) (rev (dropWhile (\<lambda>x. x = c) s)))"

lemma lines_from_prefix:
  "newline \<notin> set l \<Longrightarrow> lines_from acc (l @ newline # rest) = strip_cr (acc @ l) # lines_from [] rest"
  by (induction l arbitrary: acc) auto

lemma text_lines_Cons:
  "newline \<notin> set l \<Longrightarrow> text_lines (l @ newline # rest) = strip_cr l # text_lines rest"
  by (simp add: text_lines_def lines_from_prefix)

lemma strip_cr_id: "carriage \<notin> set l \<Longrightarrow> strip_cr l = l"
  by (metis last_in_set strip_cr_def)

lemma text_lines_Nil [simp]: "text_lines [] = []"
  by (simp add: text_lines_def)

lemma text_lines_unlines:
  assumes "\<forall>l \<in> set ls. newline \<notin> set l \<and> carriage \<notin> set l"
  shows "text_lines (concat (map (\<lambda>l. l @ [newline]) ls)) = ls"
  using assms
proof (induction ls)
  case (Cons l ls)
  then show ?case by (simp add: text_lines_Cons strip_cr_id)
qed simp

lemma split_once_mid: "c \<notin> set xs \<Longrightarrow> split_once c (xs @ c # ys) = Some (xs, ys)"
proof -
  assume "c \<notin> set xs"
  then have "takeWhile (\<lambda>x. x \<noteq> c) (xs @ c # ys) = xs" "dropWhile (\<lambda>x. x \<noteq> c) (xs @ c # ys) = c # ys"
    by (induction xs) auto
  then show ?thesis by (simp add: split_once_def)
qed

lemma strip_prefix_append [simp]: "strip_prefix p (p @ s) = Some s"
  by (simp add: strip_prefix_def starts_with_def)

lemma digit_not_ws: "is_digit c \<Longrightarrow> \<not> is_ws c \<and> c \<noteq> newline \<and> c \<noteq> carriage"
  by (auto simp: is_digit_def is_ws_def Let_def)

lemma dropWhile_hd: "s = [] \<or> \<not> P (hd s) \<Longrightarrow> dropWhile P s = s"
  by (cases s) auto

lemma trim_Nil [simp]: "trim [] = []"
  by (simp add: trim_def trim_start_def trim_end_def)

lemma trim_ends:
  assumes "s \<noteq> []" "\<not> is_ws (hd s)" "\<not> is_ws (last s)"
  shows "trim s = s"
proof -
  have "dropWhile is_ws s = s" using assms(2) by (intro dropWhile_hd) simp
  moreover have "dropWhile is_ws (rev s) = rev s" using assms(3) by (intro dropWhile_hd) (simp add: hd_rev)
  ultimately show ?thesis by (simp add: trim_def trim_start_def trim_end_def)
qed

lemma trim_digits [simp]: "list_all is_digit s \<Longrightarrow> trim s = s"
proof (cases "s = []")
  case False
  assume "list_all is_digit s"
  then have "is_digit (hd s)" "is_digit (last s)" using False by (simp_all add: list_all_iff)
  then show ?thesis using False digit_not_ws by (intro trim_ends) blast+
qed simp

lemma trim_show_nat [simp]: "trim (show_nat n) = show_nat n"
  by (simp add: show_nat_digits)

lemma parse_uint_Nil [simp]: "parse_uint m [] = None"
  by (simp add: parse_uint_def parse_digits_def)

end
