(* ===== verification/Bcd.thy ===== *)
theory Bcd
  imports Prelude
begin

text \<open>
  Binary-coded decimal (\<open>crates/argon-proto/src/bcd.rs\<close>): \<open>decode\<close> and \<open>encode\<close> with their
  two error types, and that they are inverse to each other on exactly the valid values.
\<close>

datatype invalid_bcd = InvalidBcd u8
datatype out_of_range = OutOfRange u8

definition bcd_decode :: "u8 \<Rightarrow> invalid_bcd + u8" where
  "bcd_decode byte =
     (let lo = byte AND 0x0F; hi = drop_bit 4 byte
      in if 9 < lo \<or> 9 < hi then Inl (InvalidBcd byte) else Inr (hi * 10 + lo))"

definition bcd_encode :: "u8 \<Rightarrow> out_of_range + u8" where
  "bcd_encode value =
     (if 99 < value then Inl (OutOfRange value)
      else Inr (push_bit 4 (value div 10) OR (value mod 10)))"

text \<open>Both on the number a byte holds: two decimal digits against two nibbles.\<close>

lemma low_nibble: "unat ((b :: u8) AND 0x0F) = unat b mod 16"
proof -
  have "b AND 0x0F = take_bit 4 b"
    by (simp add: take_bit_eq_mask mask_eq_exp_minus_1)
  then show ?thesis
    by (simp add: take_bit_eq_mod unat_mod)
qed

lemma high_nibble: "unat (drop_bit 4 (b :: u8)) = unat b div 16"
  by (simp add: drop_bit_eq_div unat_div)

lemma bcd_decode_nat:
  "bcd_decode b =
     (if unat b mod 16 \<le> 9 \<and> unat b div 16 \<le> 9
      then Inr (of_nat (unat b div 16 * 10 + unat b mod 16)) else Inl (InvalidBcd b))"
proof -
  have lt: "(9 < b AND 0x0F) = (9 < unat b mod 16)" "(9 < drop_bit 4 b) = (9 < unat b div 16)"
    by (simp_all add: word_less_nat_alt low_nibble high_nibble)
  have "drop_bit 4 b * 10 + (b AND 0x0F) = of_nat (unat (drop_bit 4 b) * 10 + unat (b AND 0x0F))"
    by simp
  then have "drop_bit 4 b * 10 + (b AND 0x0F) = of_nat (unat b div 16 * 10 + unat b mod 16)"
    unfolding low_nibble high_nibble by simp
  with lt show ?thesis
    unfolding bcd_decode_def Let_def by (simp add: not_less)
qed

lemma bcd_encode_nat:
  "bcd_encode v =
     (if unat v \<le> 99 then Inr (of_nat (unat v div 10 * 16 + unat v mod 10))
      else Inl (OutOfRange v))"
proof (cases "unat v \<le> 99")
  case True
  let ?hi = "push_bit 4 (v div 10)" and ?lo = "v mod 10"
  have d: "unat (v div 10) = unat v div 10" "unat (v mod 10) = unat v mod 10"
    by (simp_all add: unat_div unat_mod)
  have lo: "?lo = take_bit 4 ?lo"
    by (simp add: word_unat_eq_iff take_bit_eq_mod unat_mod)
  have "?hi AND ?lo = 0"
    by (subst lo) (auto intro!: bit_eqI simp: bit_simps)
  then have "?hi OR ?lo = ?hi + ?lo"
    by (simp add: disjunctive_add_eq_or)
  also have "\<dots> = of_nat (unat v div 10 * 16 + unat v mod 10)"
    by (simp add: push_bit_eq_mult d [symmetric] algebra_simps)
  finally have "?hi OR ?lo = of_nat (unat v div 10 * 16 + unat v mod 10)" .
  moreover have "\<not> 99 < v" using True by (simp add: word_less_nat_alt)
  ultimately show ?thesis using True by (simp add: bcd_encode_def)
next
  case False
  then have "99 < v" by (simp add: word_less_nat_alt)
  with False show ?thesis by (simp add: bcd_encode_def)
qed

lemma bcd_decode_encode: "bcd_encode v = Inr b \<Longrightarrow> bcd_decode b = Inr v"
proof -
  assume e: "bcd_encode v = Inr b"
  then have le: "unat v \<le> 99" and b: "b = of_nat (unat v div 10 * 16 + unat v mod 10)"
    by (auto simp: bcd_encode_nat split: if_splits)
  have hi: "unat v div 10 \<le> 9" using le by linarith
  have ub: "unat b = unat v div 10 * 16 + unat v mod 10"
    unfolding b by (subst unat_of_nat_u8) (use hi in linarith, simp)
  have "unat b mod 16 = unat v mod 10" "unat b div 16 = unat v div 10"
    unfolding ub by simp_all
  with hi show ?thesis by (simp add: bcd_decode_nat)
qed

lemma bcd_encode_decode: "bcd_decode b = Inr v \<Longrightarrow> bcd_encode v = Inr b"
proof -
  assume e: "bcd_decode b = Inr v"
  then have lo: "unat b mod 16 \<le> 9" and hi: "unat b div 16 \<le> 9"
    and v: "v = of_nat (unat b div 16 * 10 + unat b mod 16)"
    by (auto simp: bcd_decode_nat split: if_splits)
  have uv: "unat v = unat b div 16 * 10 + unat b mod 16"
    unfolding v by (subst unat_of_nat_u8) (use lo hi in linarith, simp)
  have "unat v div 10 = unat b div 16" "unat v mod 10 = unat b mod 16"
    unfolding uv using lo by simp_all
  moreover have "unat v \<le> 99" using lo hi uv by linarith
  ultimately show ?thesis by (simp add: bcd_encode_nat)
qed

lemma bcd_decode_le: "bcd_decode b = Inr v \<Longrightarrow> unat v \<le> 99"
  by (drule bcd_encode_decode) (auto simp: bcd_encode_nat split: if_splits)

lemma bcd_encode_ok: "unat v \<le> 99 \<Longrightarrow> \<exists>b. bcd_encode v = Inr b"
  by (simp add: bcd_encode_nat)

text \<open>BCD decoding and encoding are inverse to each other: a byte decodes to a value exactly
  when that value encodes to the byte, so every accepted byte has both nibbles at most 9 and
  every value up to 99 has one encoding.\<close>

theorem bcd_roundtrip: "bcd_decode b = Inr v \<longleftrightarrow> bcd_encode v = Inr b"
  by (blast intro: bcd_decode_encode bcd_encode_decode)

end
