(* ===== verification/Calendar.thy ===== *)
theory Calendar
  imports Prelude
begin

text \<open>
  The Gregorian calendar by its rules (leap years, month lengths, a count of days from
  1970-01-01), and the arithmetic that the conversion in \<open>ups/status.rs\<close> rests on: years counted
  from March within a 400-year era, and months by the 153-day rule. No code is modelled here.
\<close>

section \<open>The calendar\<close>

definition leap :: "nat \<Rightarrow> bool" where
  "leap y \<longleftrightarrow> y mod 4 = 0 \<and> (y mod 100 \<noteq> 0 \<or> y mod 400 = 0)"

definition month_days :: "nat \<Rightarrow> nat \<Rightarrow> nat" where
  "month_days y m = (if m = 2 then if leap y then 29 else 28 else if m \<in> {4, 6, 9, 11} then 30 else 31)"

definition year_days :: "nat \<Rightarrow> nat" where
  "year_days y = (if leap y then 366 else 365)"

definition day_count :: "nat \<Rightarrow> nat \<Rightarrow> nat \<Rightarrow> nat" where
  \<comment> \<open>whole days from 1970-01-01 to the date\<close>
  "day_count y m d = sum_list (map year_days [1970..<y]) + sum_list (map (month_days y) [1..<m]) + (d - 1)"

definition real_day :: "nat \<Rightarrow> nat \<Rightarrow> nat \<Rightarrow> bool" where
  "real_day y m d \<longleftrightarrow> 1 \<le> m \<and> m \<le> 12 \<and> 1 \<le> d \<and> d \<le> month_days y m"

lemma leap_century: "n \<le> 99 \<Longrightarrow> leap (2000 + n) \<longleftrightarrow> n mod 4 = 0"
proof -
  assume n: "n \<le> 99"
  have "(n + 500 * 4) mod 4 = n mod 4" "(n + 20 * 100) mod 100 = n" "(n + 5 * 400) mod 400 = n"
    using n by (simp_all only: mod_mult_self1 mod_less)
  then have "(2000 + n) mod 4 = n mod 4" "(2000 + n) mod 100 = n" "(2000 + n) mod 400 = n"
    by (simp_all add: add.commute)
  moreover have "n = 0 \<longrightarrow> n mod 4 = 0" by simp
  ultimately show "leap (2000 + n) \<longleftrightarrow> n mod 4 = 0" by (auto simp: leap_def)
qed

section \<open>Months from March, and years of an era\<close>

definition mlen :: "nat \<Rightarrow> nat" where
  "mlen mp = (if mp \<in> {1, 3, 6, 8} then 30 else if mp = 11 then 29 else 31)"

lemma upto11: "(mp :: nat) \<le> 11 \<Longrightarrow> mp \<in> {0,1,2,3,4,5,6,7,8,9,10,11}"
  unfolding insert_iff empty_iff by presburger

lemma month_join:
  assumes "mp \<le> 11" "e < mlen mp"
  shows "(5 * ((153 * mp + 2) div 5 + e) + 2) div 153 = mp"
  using upto11[OF assms(1)] assms(2) by (elim insertE emptyE) (simp_all add: mlen_def)

lemma month_split:
  assumes "doy \<le> (365::nat)"
  shows "(5 * doy + 2) div 153 \<le> 11"
    and "(153 * ((5 * doy + 2) div 153) + 2) div 5 \<le> doy"
    and "doy - (153 * ((5 * doy + 2) div 153) + 2) div 5 < mlen ((5 * doy + 2) div 153)"
proof -
  define mp where "mp = (5 * doy + 2) div 153"
  have b: "153 * mp \<le> 5 * doy + 2" "5 * doy + 2 < 153 * mp + 153"
    unfolding mp_def by linarith+
  show le: "(5 * doy + 2) div 153 \<le> 11" using assms by linarith
  have m: "mp \<in> {0,1,2,3,4,5,6,7,8,9,10,11}" using upto11 le unfolding mp_def .
  have "(153 * mp + 2) div 5 \<le> doy \<and> doy - (153 * mp + 2) div 5 < mlen mp"
    using m b assms by (elim insertE emptyE) (simp_all add: mlen_def)
  then show "(153 * ((5 * doy + 2) div 153) + 2) div 5 \<le> doy"
    "doy - (153 * ((5 * doy + 2) div 153) + 2) div 5 < mlen ((5 * doy + 2) div 153)"
    unfolding mp_def by simp_all
qed

definition year_of_era :: "nat \<Rightarrow> nat" where
  "year_of_era doe = (doe - doe div 1460 + doe div 36524 - doe div 146096) div 365"

definition day_base :: "nat \<Rightarrow> nat" where
  "day_base yoe = 365 * yoe + yoe div 4 - yoe div 100"

lemma year_in_century:
  assumes "k \<le> 24" "j \<le> 3" "d \<le> 365" "d = 365 \<longrightarrow> j = 3" "doe = 1461 * k + 365 * j + d" "doe < 36524"
  shows "year_of_era doe = 4 * k + j" "day_base (4 * k + j) = 1461 * k + 365 * j"
proof -
  have z: "doe div 36524 = 0" "doe div 146096 = 0" using assms(6) by simp_all
  have "year_of_era doe = (doe - doe div 1460) div 365" by (simp add: year_of_era_def z)
  also have "\<dots> = 4 * k + j"
  proof (cases "k + 365 * j + d < 1460")
    case True
    then have "doe div 1460 = k" using assms(5) by simp
    moreover have "d < 365" using True assms by auto
    ultimately show ?thesis using assms(5) by simp
  next
    case False
    then have j: "j = 3" using assms by linarith
    have "doe div 1460 = k + 1" using assms False by simp
    then show ?thesis using assms j False by simp
  qed
  finally show "year_of_era doe = 4 * k + j" .
  have "(4 * k + j) div 4 = k" "(4 * k + j) div 100 = 0" using assms(1,2) by simp_all
  then show "day_base (4 * k + j) = 1461 * k + 365 * j" by (simp add: day_base_def)
qed

lemma century_parts:
  assumes "doe < (36524::nat)"
  obtains k j d where "k \<le> 24" "j \<le> 3" "d \<le> 365" "d = 365 \<longrightarrow> j = 3" "doe = 1461 * k + 365 * j + d"
proof
  let ?k = "doe div 1461" and ?r = "doe mod 1461"
  let ?j = "min 3 (?r div 365)"
  show "?k \<le> 24" using assms by linarith
  show "?j \<le> 3" by simp
  have r: "?r < 1461" by simp
  show "?r - 365 * ?j \<le> 365" using r by (auto simp: min_def)
  show "?r - 365 * ?j = 365 \<longrightarrow> ?j = 3" using r by (auto simp: min_def)
  show "doe = 1461 * ?k + 365 * ?j + (?r - 365 * ?j)" by (cases "?r div 365 \<le> 3") (simp_all add: min_def)
qed

lemma year_last:
  assumes "145731 \<le> doe" "doe < (146097::nat)"
  shows "year_of_era doe = 399"
proof -
  have "doe div 1460 = 99 \<and> doe < 146000 \<or> doe div 1460 = 100 \<and> 146000 \<le> doe" using assms by linarith
  moreover have "doe div 36524 = 3 \<and> doe < 146096 \<or> doe div 36524 = 4 \<and> doe = 146096" using assms by linarith
  moreover have "doe div 146096 = 0 \<and> doe < 146096 \<or> doe div 146096 = 1 \<and> doe = 146096" using assms by linarith
  ultimately show ?thesis using assms unfolding year_of_era_def by auto
qed

lemma year_bounds:
  assumes "doe < (146097::nat)"
  shows "year_of_era doe \<le> 399"
    and "year_of_era doe = 399 \<Longrightarrow> 145731 \<le> doe"
    and "year_of_era doe \<le> 99 \<Longrightarrow> doe < 36524"
proof -
  define a b c where "a = doe div 1460" "b = doe div 36524" "c = doe div 146096"
  have y: "year_of_era doe = (doe - a + b - c) div 365" by (simp add: year_of_era_def a_b_c_def)
  have bounds: "1460 * a \<le> doe" "doe < 1460 * a + 1460" "36524 * b \<le> doe" "doe < 36524 * b + 36524"
    "c \<le> 1" "c = 1 \<longrightarrow> doe = 146096" "c = 0 \<longrightarrow> doe < 146096"
    unfolding a_b_c_def using assms by linarith+
  show "year_of_era doe \<le> 399" unfolding y using bounds assms by linarith
  show "145731 \<le> doe" if "year_of_era doe = 399"
  proof (rule ccontr)
    assume "\<not> 145731 \<le> doe"
    moreover from this have "c = 0" using bounds by (cases "c = 0") auto
    moreover have "b \<le> 3" using calculation bounds(3) by linarith
    ultimately have "doe - a + b - c < 145635" using bounds(1-4) by linarith
    with that show False unfolding y by simp
  qed
  show "doe < 36524" if "year_of_era doe \<le> 99"
  proof (rule ccontr)
    assume "\<not> doe < 36524"
    moreover from this have "1 \<le> b" using bounds(4) by linarith
    ultimately have "36500 \<le> doe - a + b - c" using bounds by (cases "c = 0") linarith+
    with that show False unfolding y by simp
  qed
qed

section \<open>The conversion both ways\<close>

definition civil :: "nat \<Rightarrow> nat \<times> nat \<times> nat" where
  "civil z =
     (let era = z div 146097; doe = z - era * 146097; yoe = year_of_era doe;
          doy = doe - day_base yoe; mp = (5 * doy + 2) div 153;
          month = (if mp < 10 then mp + 3 else mp - 9)
      in (yoe + era * 400 + (if month \<le> 2 then 1 else 0), month, doy - (153 * mp + 2) div 5 + 1))"

definition era_day :: "nat \<Rightarrow> nat \<Rightarrow> nat \<Rightarrow> nat" where
  "era_day y m d =
     (let y1 = y - (if m \<le> 2 then 1 else 0); era = y1 div 400; yoe = y1 - era * 400;
          mp = (if 2 < m then m - 3 else m + 9)
      in era * 146097 + (yoe * 365 + yoe div 4 - yoe div 100 + ((153 * mp + 2) div 5 + d - 1)))"

definition march_day :: "nat \<Rightarrow> nat \<Rightarrow> nat" where
  "march_day m d = (153 * (if 2 < m then m - 3 else m + 9) + 2) div 5 + d - 1"

lemma march_day_month:
  assumes "1 \<le> m" "m \<le> 12" "1 \<le> d" "d \<le> mlen (if 2 < m then m - 3 else m + 9)"
  shows "(5 * march_day m d + 2) div 153 = (if 2 < m then m - 3 else m + 9)"
    and "march_day m d - (153 * (if 2 < m then m - 3 else m + 9) + 2) div 5 + 1 = d"
    and "march_day m d \<le> 365"
    and "2 < m \<Longrightarrow> march_day m d \<le> 305"
    and "march_day m d = 365 \<Longrightarrow> m = 2 \<and> d = 29"
proof -
  let ?mp = "if 2 < m then m - 3 else m + 9"
  have mp: "?mp \<le> 11" using assms(1,2) by (cases "2 < m") auto
  have e: "march_day m d = (153 * ?mp + 2) div 5 + (d - 1)" using assms by (simp add: march_day_def)
  show "(5 * march_day m d + 2) div 153 = ?mp"
    unfolding e using assms by (intro month_join[OF mp]) simp
  show "march_day m d - (153 * ?mp + 2) div 5 + 1 = d" unfolding e using assms by simp
  have m: "m \<in> {1,2,3,4,5,6,7,8,9,10,11,12}" using assms(1,2) unfolding insert_iff empty_iff by presburger
  show "march_day m d \<le> 365"
    using m assms(3,4) by (elim insertE emptyE) (simp_all add: march_day_def mlen_def)
  show "march_day m d \<le> 305" if "2 < m"
    using m that assms(3,4) by (elim insertE emptyE) (simp_all add: march_day_def mlen_def)
  show "m = 2 \<and> d = 29" if "march_day m d = 365"
    using m that assms(3,4) by (elim insertE emptyE) (simp_all add: march_day_def mlen_def)
qed

lemma month_days_mlen: "month_days y m \<le> mlen (if 2 < m then m - 3 else m + 9)" if "1 \<le> m" "m \<le> 12"
proof -
  have "m \<in> {1,2,3,4,5,6,7,8,9,10,11,12}" using that unfolding insert_iff empty_iff by presburger
  then show ?thesis by (elim insertE emptyE) (simp_all add: month_days_def mlen_def)
qed

lemma era_day_civil:
  assumes y: "2000 \<le> y" "y \<le> 2099" and real: "real_day y m d"
  shows "civil (era_day y m d) = (y, m, d)"
proof -
  have m: "1 \<le> m" "m \<le> 12" "1 \<le> d" and d: "d \<le> mlen (if 2 < m then m - 3 else m + 9)"
    using real month_days_mlen[of m y] by (auto simp: real_day_def)
  define mp where "mp = (if 2 < m then m - 3 else m + 9)"
  note md = march_day_month[OF m d, folded mp_def]
  have month: "(if mp < 10 then mp + 3 else mp - 9) = m" using m by (auto simp: mp_def)
  have conv: "civil (era * 146097 + doe) = (y, m, d)"
    if "doe < 146097" "year_of_era doe = yoe" "doe = day_base yoe + march_day m d"
      "y = yoe + era * 400 + (if m \<le> 2 then 1 else 0)" for era doe yoe
  proof -
    have "(era * 146097 + doe) div 146097 = era" using that(1) by simp
    then show ?thesis unfolding civil_def Let_def using that md(1,2) month
      by (cases "mp < 10") auto
  qed
  show ?thesis
  proof (cases "y = 2000 \<and> m \<le> 2")
    case True
    have "era_day y m d = 4 * 146097 + (145731 + march_day m d)"
      using True by (simp add: era_day_def march_day_def Let_def)
    moreover have "civil (4 * 146097 + (145731 + march_day m d)) = (y, m, d)"
      using True md(3) by (intro conv[where yoe = 399]) (simp_all add: year_last day_base_def)
    ultimately show ?thesis by simp
  next
    case False
    define n where "n = y - (if m \<le> 2 then 1 else 0) - 2000"
    define k j where "k = n div 4" "j = n mod 4"
    have n: "y - (if m \<le> 2 then 1 else 0) = 2000 + n" "n \<le> 99" "n = 4 * k + j" "k \<le> 24" "j \<le> 3"
      using False y by (auto simp: n_def k_j_def)
    have "j = 3 \<and> n < 99" if "march_day m d = 365"
    proof -
      from md(5)[OF that] have "m = 2" "d = 29" by simp_all
      with real have "leap y" by (auto simp: real_day_def month_days_def split: if_splits)
      moreover have yn: "y = 2000 + (n + 1)" using n(1) False y \<open>m = 2\<close> by auto
      moreover have "n + 1 \<le> 99" using yn y by simp
      ultimately have "(n + 1) mod 4 = 0" using leap_century[of "n + 1"] by simp
      with yn y show ?thesis unfolding k_j_def by presburger
    qed
    then have "1461 * k + 365 * j + march_day m d < 36524" "march_day m d = 365 \<longrightarrow> j = 3"
      using md(3) n by (cases "march_day m d = 365"; linarith; fail | auto)+
    note c = year_in_century[OF n(4,5) md(3) this(2) refl this(1)]
    have "era_day y m d = 5 * 146097 + (day_base n + march_day m d)"
    proof -
      have "(2000 + n) div 400 = 5" "2000 + n - 5 * 400 = n" using n(2) by simp_all
      then show ?thesis unfolding era_day_def Let_def n(1) march_day_def day_base_def
        by (simp only: mult.commute)
    qed
    moreover have "civil (5 * 146097 + (day_base n + march_day m d)) = (y, m, d)"
      using c n md(3) False y by (intro conv[where yoe = n]) auto
    ultimately show ?thesis by simp
  qed
qed

lemma mlen_month_days:
  assumes "mp \<le> 11" "mp \<noteq> 11"
  shows "month_days y (if mp < 10 then mp + 3 else mp - 9) = mlen mp"
  using upto11[OF assms(1)] assms(2) by (elim insertE emptyE) (simp_all add: month_days_def mlen_def)

lemma civil_era_day:
  assumes c: "civil z = (y, m, d)" and y: "2000 \<le> y" "y \<le> 2099"
  shows "real_day y m d \<and> era_day y m d = z"
proof -
  define era doe yoe doy mp where "era = z div 146097" "doe = z - era * 146097"
    "yoe = year_of_era doe" "doy = doe - day_base yoe" "mp = (5 * doy + 2) div 153"
  note defs = this
  note parts = c[unfolded civil_def Let_def, folded defs(1), folded defs(2), folded defs(3),
        folded defs(4), folded defs(5), unfolded prod.inject]
  have m: "m = (if mp < 10 then mp + 3 else mp - 9)" and d: "d = doy - (153 * mp + 2) div 5 + 1"
    using parts by simp_all
  have ye: "y = yoe + era * 400 + (if m \<le> 2 then 1 else 0)"
    using parts unfolding m[symmetric] by simp
  have "doe = z mod 146097" by (simp add: defs(1,2) minus_div_mult_eq_mod)
  then have doe: "doe < 146097" and z: "z = era * 146097 + doe" by (simp_all add: defs(1))
  have yoe: "yoe \<le> 399" using year_bounds(1)[OF doe] by (simp add: defs(3))
  have key: "day_base yoe \<le> doe \<and> doy \<le> 365 \<and> (doy = 365 \<longrightarrow> leap (yoe + era * 400 + 1))"
  proof (cases "era = 5")
    case True
    then have "yoe \<le> 99" using ye y by (auto split: if_splits)
    then have small: "doe < 36524" using year_bounds(3)[OF doe] by (simp add: defs(3))
    from century_parts[OF this] obtain k j e
      where kj: "k \<le> 24" "j \<le> 3" "e \<le> 365" "e = 365 \<longrightarrow> j = 3" "doe = 1461 * k + 365 * j + e" by blast
    note yc = year_in_century[OF kj small]
    have yk: "yoe = 4 * k + j" unfolding defs(3) by (rule yc(1))
    have "leap (2000 + (yoe + 1))" if "e = 365"
    proof -
      have "yoe + 1 \<le> 99" using kj small that yk by linarith
      moreover have "yoe + 1 = 0 + (k + 1) * 4" using kj(4) that yk by simp
      then have "(yoe + 1) mod 4 = 0" by (simp only: mod_mult_self1 mod_0)
      ultimately show ?thesis by (rule iffD2[OF leap_century])
    qed
    moreover have "yoe + era * 400 + 1 = 2000 + (yoe + 1)" using True by simp
    moreover have "day_base yoe = 1461 * k + 365 * j" unfolding yk by (rule yc(2))
    moreover from this have "doy = e" unfolding defs(4) kj(5) by simp
    ultimately show ?thesis using kj(3,5) by simp
  next
    case False
    then have "era = 4 \<and> yoe = 399" using ye y yoe by (auto split: if_splits)
    moreover from this have "145731 \<le> doe" using year_bounds(2)[OF doe] by (simp add: defs(3))
    ultimately show ?thesis using doe by (simp add: defs(4) day_base_def leap_def)
  qed
  note ms = month_split[OF conjunct1[OF conjunct2[OF key]], folded defs(5)]
  have mrange: "1 \<le> m" "m \<le> 12" using ms(1) by (auto simp: m)
  have mback: "(if 2 < m then m - 3 else m + 9) = mp" using ms(1) by (auto simp: m)
  have dm: "d \<le> mlen mp" using ms(3) by (simp add: d)
  have "d \<le> month_days y m"
  proof (cases "mp = 11")
    case False
    then show ?thesis using dm mlen_month_days[OF ms(1)] by (simp add: m)
  next
    case True
    then have "m = 2" "d \<le> 29" using dm by (simp_all add: m mlen_def)
    moreover have "leap y" if "d = 29"
    proof -
      have "doy = 365" using that d True ms(2) by simp
      then show ?thesis using key ye \<open>m = 2\<close> by simp
    qed
    ultimately show ?thesis by (cases "d = 29") (auto simp: month_days_def)
  qed
  then have real: "real_day y m d" using mrange by (simp add: real_day_def d)
  have "y - (if m \<le> 2 then 1 else 0) = yoe + era * 400" using ye by simp
  moreover have "(yoe + era * 400) div 400 = era" using yoe by simp
  ultimately have "era_day y m d = era * 146097 + (day_base yoe + doy)"
    unfolding era_day_def Let_def mback using ms(2) by (simp add: d day_base_def mult.commute)
  then show ?thesis using real key z by (simp add: defs(4))
qed

lemma civil_iff:
  assumes "2000 \<le> y" "y \<le> 2099"
  shows "civil z = (y, m, d) \<longleftrightarrow> real_day y m d \<and> era_day y m d = z"
  using era_day_civil[OF assms] civil_era_day[OF _ assms] by blast

section \<open>Agreement with the count of days\<close>

lemma quarter_up: "(n + 3) div 4 = n div 4 + (if n mod 4 = 0 then 0 else 1)" for n :: nat
proof -
  define q r where "q = n div 4" and "r = n mod 4"
  have n: "n = r + q * 4" "r < 4" unfolding q_def r_def by simp_all
  then have "r \<in> {0, 1, 2, 3}" by auto
  moreover have "(r + q * 4 + 3) div 4 = q + (r + 3) div 4"
    using div_mult_self1[of 4 "r + 3" q] by (simp add: ac_simps)
  ultimately show ?thesis unfolding q_def[symmetric] r_def[symmetric] using n by auto
qed

lemma years_before: "n \<le> 100 \<Longrightarrow> sum_list (map year_days [1970..<2000 + n]) = 10957 + 365 * n + (n + 3) div 4"
proof (induction n)
  case 0
  show ?case by (simp add: year_days_def leap_def)
next
  case (Suc n)
  have "[1970..<2000 + Suc n] = [1970..<2000 + n] @ [2000 + n]"
    by (simp only: add_Suc_right upt_Suc) simp
  with Suc show ?case
    using leap_century[of n] quarter_up[of n] div_add_self1[of 4 n] by (simp add: year_days_def)
qed

lemma from_one: "[Suc 0..<numeral k] = (if 1 < (numeral k :: nat) then 1 # [2..<numeral k] else [])"
  by (subst upt_rec) (simp add: numeral_2_eq_2)

lemma months_before:
  assumes "1 \<le> m" "m \<le> 12"
  shows "sum_list (map (month_days y) [1..<m]) =
    (if 2 < m then (153 * (m - 3) + 2) div 5 + (if leap y then 60 else 59)
     else (153 * (m + 9) + 2) div 5 - 306)"
proof -
  have "m \<in> {1,2,3,4,5,6,7,8,9,10,11,12}" using assms unfolding insert_iff empty_iff by presburger
  then show ?thesis by (elim insertE emptyE) (simp_all add: month_days_def from_one)
qed

lemma era_day_at:
  assumes "y - (if m \<le> 2 then 1 else 0) = 2000 + n" "n \<le> 99"
  shows "era_day y m d =
    730485 + (n * 365 + n div 4 + ((153 * (if 2 < m then m - 3 else m + 9) + 2) div 5 + d - 1))"
proof -
  have "(2000 + n) div 400 = 5" "2000 + n - 5 * 400 = n" "n div 100 = 0" using assms(2) by simp_all
  then show ?thesis unfolding era_day_def Let_def assms(1) by simp
qed

lemma era_day_count:
  assumes y: "2000 \<le> y" "y \<le> 2099" and m: "1 \<le> m" "m \<le> 12" "1 \<le> d"
  shows "era_day y m d = 719468 + day_count y m d"
proof -
  define n where "n = y - 2000"
  have n: "y = 2000 + n" "n \<le> 99" using y by (simp_all add: n_def)
  have yb: "sum_list (map year_days [1970..<y]) = 10957 + 365 * n + (n + 3) div 4"
    using years_before[of n] n by simp
  have lp: "leap y \<longleftrightarrow> n mod 4 = 0" using n leap_century by simp
  show ?thesis
  proof (cases "2 < m")
    case True
    define k q where "k = (153 * (m - 3) + 2) div 5" and "q = n div 4"
    have "era_day y m d = 730485 + (n * 365 + q + (k + d - 1))"
      using era_day_at[of y m n d] True n by (simp add: k_def q_def)
    moreover have "day_count y m d =
        10957 + 365 * n + (n + 3) div 4 + k + (if n mod 4 = 0 then 60 else 59) + (d - 1)"
      using True unfolding day_count_def yb months_before[OF m(1,2)] lp k_def by simp
    ultimately show ?thesis using m(3) unfolding quarter_up q_def[symmetric] by simp
  next
    case False
    then have m12: "m = 1 \<or> m = 2" using m by auto
    define k where "k = (153 * (m + 9) + 2) div 5"
    have k: "306 \<le> k" using m12 by (auto simp: k_def)
    have dc: "day_count y m d = 10957 + 365 * n + (n + 3) div 4 + (k - 306) + (d - 1)"
      using False unfolding day_count_def yb months_before[OF m(1,2)] k_def by simp
    show ?thesis
    proof (cases n)
      case 0
      then show ?thesis using m12 m(3) n dc by (auto simp: era_day_def k_def)
    next
      case (Suc j)
      have "era_day y m d = 730485 + (j * 365 + j div 4 + (k + d - 1))"
        using era_day_at[of y m j d] False n Suc by (simp add: k_def)
      moreover have "(n + 3) div 4 = j div 4 + 1" using Suc by simp
      ultimately show ?thesis using m(3) dc k Suc by simp
    qed
  qed
qed

end
