(* ===== verification/Framing.thy ===== *)
theory Framing
  imports Prelude
begin

text \<open>
  What the two byte-at-a-time frame readers of the code have in common: how a caller feeds them
  a byte string (\<open>SerialLink::read_matching\<close>, the simulator's serve loop and the tests all
  run the same inner loop), and the contract a caller relies on. The contract is the locale
  \<open>stream_decoder\<close>; the UPS reader and the Zigbee reader are interpretations of it.
\<close>

text \<open>
  One run of the inner loop \<open>for b in bytes { match reader.push(b) ... }\<close>: the reader
  afterwards and everything it reported, in order. \<open>None\<close> is a panic in \<open>push\<close>.
\<close>

fun feed :: "('r \<Rightarrow> byte \<Rightarrow> ('r \<times> 'o option) option) \<Rightarrow> 'r \<Rightarrow> byte list \<Rightarrow> ('r \<times> 'o list) option"
where
  "feed push r [] = Some (r, [])"
| "feed push r (b # bs) =
     (case push r b of
        None \<Rightarrow> None
      | Some (r', out) \<Rightarrow>
          (case feed push r' bs of
             None \<Rightarrow> None
           | Some (r'', outs) \<Rightarrow>
               Some (r'', case out of None \<Rightarrow> outs | Some x \<Rightarrow> x # outs)))"

lemma feed_quiet [run_simps]:
  "push r b = Some (r', None) \<Longrightarrow> feed push r (b # bs) = feed push r' bs"
  by (simp split: option.splits)

lemma feed_report [run_simps]:
  "push r b = Some (r', Some x) \<Longrightarrow>
   feed push r (b # bs) = map_option (\<lambda>(r'', outs). (r'', x # outs)) (feed push r' bs)"
  by (auto split: option.splits)

lemma feed_append:
  "feed push r (xs @ ys) =
     (case feed push r xs of
        None \<Rightarrow> None
      | Some (r', outs) \<Rightarrow> map_option (\<lambda>(r'', outs'). (r'', outs @ outs')) (feed push r' ys))"
proof (induction xs arbitrary: r)
  case Nil
  show ?case by (cases "feed push r ys") auto
next
  case (Cons b xs)
  show ?case by (auto simp: Cons.IH split: option.splits)
qed

lemma feed_append_Some:
  "feed push r xs = Some (r', outs) \<Longrightarrow> feed push r' ys = Some (r'', outs') \<Longrightarrow>
   feed push r (xs @ ys) = Some (r'', outs @ outs')"
  by (simp add: feed_append)

lemma feed_total:
  assumes step: "\<And>r b. good r \<Longrightarrow> \<exists>r' out. push r b = Some (r', out) \<and> good r'"
    and "good r"
  shows "\<exists>r' outs. feed push r bs = Some (r', outs) \<and> good r'"
  using \<open>good r\<close>
proof (induction bs arbitrary: r)
  case (Cons b bs)
  from step[OF Cons.prems] obtain r1 out where 1: "push r b = Some (r1, out)" "good r1" by blast
  from Cons.IH[OF 1(2)] obtain r2 outs where "feed push r1 bs = Some (r2, outs)" "good r2" by blast
  with 1 show ?case by auto
qed simp

text \<open>
  The contract. \<open>idle\<close> readers hold no partial frame. A complete frame is reported as that
  frame and leaves the reader idle; a frame whose last byte arrived changed is reported as an
  error and also leaves the reader idle, so damage costs the frame it hits and no other.
\<close>

locale stream_decoder =
  fixes push :: "'r \<Rightarrow> byte \<Rightarrow> ('r \<times> ('e + 'f) option) option"
    and idle :: "'r \<Rightarrow> bool"
    and wire :: "'f \<Rightarrow> byte list"
    and valid :: "'f \<Rightarrow> bool"
    and damaged :: "'f \<Rightarrow> byte \<Rightarrow> 'e"
  assumes decodes: "idle r \<Longrightarrow> valid f \<Longrightarrow> \<exists>r'. feed push r (wire f) = Some (r', [Inr f]) \<and> idle r'"
    and rejects: "idle r \<Longrightarrow> valid f \<Longrightarrow> c \<noteq> last (wire f) \<Longrightarrow>
      \<exists>r'. feed push r (butlast (wire f) @ [c]) = Some (r', [Inl (damaged f c)]) \<and> idle r'"
begin

text \<open>A frame as sent: intact, or with its check byte replaced.\<close>

fun sent :: "'f \<times> byte option \<Rightarrow> byte list" where
  "sent (f, None) = wire f"
| "sent (f, Some c) = butlast (wire f) @ [c]"

fun received :: "'f \<times> byte option \<Rightarrow> 'e + 'f" where
  "received (f, None) = Inr f"
| "received (f, Some c) = (if c = last (wire f) then Inr f else Inl (damaged f c))"

lemma one_sent:
  assumes "idle r" "valid (fst x)" "wire (fst x) \<noteq> []"
  shows "\<exists>r'. feed push r (sent x) = Some (r', [received x]) \<and> idle r'"
proof (cases x)
  case (Pair f d)
  show ?thesis
  proof (cases d)
    case None
    with assms Pair show ?thesis by (simp add: decodes)
  next
    case (Some c)
    show ?thesis
    proof (cases "c = last (wire f)")
      case True
      with assms Pair Some show ?thesis by (simp add: decodes)
    next
      case False
      with assms Pair Some show ?thesis by (simp add: rejects)
    qed
  qed
qed

lemma stream_received:
  assumes "idle r" "\<forall>x \<in> set xs. valid (fst x) \<and> wire (fst x) \<noteq> []"
  shows "\<exists>r'. feed push r (concat (map sent xs)) = Some (r', map received xs) \<and> idle r'"
  using assms
proof (induction xs arbitrary: r)
  case (Cons x xs)
  from Cons.prems obtain r1 where 1: "feed push r (sent x) = Some (r1, [received x])" "idle r1"
    using one_sent[of r x] by auto
  from Cons.IH[OF 1(2)] Cons.prems obtain r2
    where 2: "feed push r1 (concat (map sent xs)) = Some (r2, map received xs)" "idle r2"
    by auto
  from feed_append_Some[OF 1(1) 2(1)] 2(2) show ?case by auto
qed simp

lemma stream_decoded:
  assumes "idle r" "\<forall>f \<in> set fs. valid f"
  shows "\<exists>r'. feed push r (concat (map wire fs)) = Some (r', map Inr fs) \<and> idle r'"
  using assms
proof (induction fs arbitrary: r)
  case (Cons f fs)
  from Cons.prems obtain r1 where 1: "feed push r (wire f) = Some (r1, [Inr f])" "idle r1"
    using decodes[of r f] by auto
  from Cons.IH[OF 1(2)] Cons.prems obtain r2
    where 2: "feed push r1 (concat (map wire fs)) = Some (r2, map Inr fs)" "idle r2"
    by auto
  from feed_append_Some[OF 1(1) 2(1)] 2(2) show ?case by auto
qed simp

end

end
