(* ===== verification/UpsFrame.thy ===== *)
theory UpsFrame
  imports Framing
begin

text \<open>
  The UPS serial frame codec (\<open>crates/argon-proto/src/ups/frame.rs\<close>) and the command bytes
  (\<open>ups/mod.rs\<close>). The reader is the code's state machine over a fixed buffer of 259 bytes;
  every store and slice of the buffer is checked, so a panic would show as \<open>None\<close>.

  The abstract specification is \<open>scan\<close>, a parser of the whole byte string; the reader is
  proved to compute it on every input, and round trip, rejection, resynchronisation and
  soundness follow from that refinement.
\<close>

section \<open>Commands\<close>

datatype command =
  BatteryStatus | ChargeCurrent | SetRtc | FirmwareVersion | GetRtc | SetWake | GetWake
| Acknowledge | ResetMeter

fun as_byte :: "command \<Rightarrow> u8" where
  "as_byte BatteryStatus = 0"
| "as_byte ChargeCurrent = 2"
| "as_byte SetRtc = 3"
| "as_byte FirmwareVersion = 4"
| "as_byte GetRtc = 5"
| "as_byte SetWake = 6"
| "as_byte GetWake = 7"
| "as_byte Acknowledge = 8"
| "as_byte ResetMeter = 9"

fun is_destructive :: "command \<Rightarrow> bool" where
  "is_destructive ResetMeter = True"
| "is_destructive SetRtc = True"
| "is_destructive SetWake = True"
| "is_destructive _ = False"

definition from_byte :: "u8 \<Rightarrow> command option" where
  "from_byte b =
     (if b = 0 then Some BatteryStatus
      else if b = 2 then Some ChargeCurrent
      else if b = 3 then Some SetRtc
      else if b = 4 then Some FirmwareVersion
      else if b = 5 then Some GetRtc
      else if b = 6 then Some SetWake
      else if b = 7 then Some GetWake
      else if b = 8 then Some Acknowledge
      else if b = 9 then Some ResetMeter
      else None)"

lemma from_byte_as_byte [simp]: "from_byte (as_byte c) = Some c"
  by (cases c) (simp_all add: from_byte_def)

lemma as_byte_from_byte: "from_byte b = Some c \<Longrightarrow> as_byte c = b"
  by (auto simp: from_byte_def split: if_splits)

section \<open>Frames\<close>

definition START_BYTE :: u8 where "START_BYTE = 0xFE"
definition MAX_PAYLOAD :: nat where "MAX_PAYLOAD = 255"
definition MAX_FRAME :: nat where "MAX_FRAME = MAX_PAYLOAD + 4"

record frame =
  f_cmd :: u8
  f_len :: u8
  f_payload :: "u8 list"

datatype frame_error =
  PayloadTooLong nat
| BufferTooSmall nat nat
| BadChecksum u8 u8
| Desync nat

definition frame_new :: "u8 \<Rightarrow> u8 list \<Rightarrow> frame_error + frame" where
  "frame_new c payload =
     (if length payload \<le> 255
      then Inr \<lparr>f_cmd = c, f_len = of_nat (length payload),
                f_payload = payload @ replicate (MAX_PAYLOAD - length payload) 0\<rparr>
      else Inl (PayloadTooLong (length payload)))"

definition frame_payload :: "frame \<Rightarrow> u8 list" where
  "frame_payload f = take (unat (f_len f)) (f_payload f)"

definition checksum :: "u8 list \<Rightarrow> u8" where
  "checksum bytes = foldl (+) 0 bytes"

definition encode_into :: "frame \<Rightarrow> u8 list \<Rightarrow> frame_error + (nat \<times> u8 list)" where
  "encode_into f out =
     (let len = unat (f_len f); total = len + 4
      in if length out < total then Inl (BufferTooSmall total (length out))
         else let out1 = out[0 := START_BYTE, 1 := f_len f, 2 := f_cmd f];
                  out2 = take 3 out1 @ frame_payload f @ drop (3 + len) out1;
                  out3 = out2[total - 1 := checksum (take (total - 1) out2)]
              in Inr (total, out3))"

definition encode_read :: "u8 \<Rightarrow> u8 list" where
  "encode_read c = [START_BYTE, 0x00, c, c + START_BYTE]"

text \<open>The type invariant every constructor of the code establishes.\<close>

definition frame_ok :: "frame \<Rightarrow> bool" where
  "frame_ok f \<longleftrightarrow> (\<exists>p. frame_new (f_cmd f) p = Inr f)"

text \<open>The bytes of a frame on the wire, as the format describes them.\<close>

definition frame_bytes :: "u8 \<Rightarrow> u8 list \<Rightarrow> u8 list" where
  "frame_bytes c p =
     (let body = [START_BYTE, of_nat (length p), c] @ p in body @ [checksum body])"

definition wire :: "frame \<Rightarrow> u8 list" where
  "wire f = frame_bytes (f_cmd f) (frame_payload f)"

definition frame_of :: "u8 \<Rightarrow> u8 list \<Rightarrow> frame" where
  "frame_of c p = \<lparr>f_cmd = c, f_len = of_nat (length p),
                   f_payload = p @ replicate (MAX_PAYLOAD - length p) 0\<rparr>"

lemma frame_new_ok [simp]: "length p \<le> 255 \<Longrightarrow> frame_new c p = Inr (frame_of c p)"
  by (simp add: frame_new_def frame_of_def)

lemma frame_new_too_long [simp]: "255 < length p \<Longrightarrow> frame_new c p = Inl (PayloadTooLong (length p))"
  by (simp add: frame_new_def)

lemma frame_of_sel [simp]:
  "f_cmd (frame_of c p) = c"
  "length p \<le> 255 \<Longrightarrow> frame_payload (frame_of c p) = p"
  by (simp_all add: frame_of_def frame_payload_def)

lemma frame_ok_cases:
  assumes "frame_ok f"
  obtains c p where "f = frame_of c p" "length p \<le> 255"
proof -
  from assms obtain p where p: "frame_new (f_cmd f) p = Inr f" by (auto simp: frame_ok_def)
  then have "length p \<le> 255" by (auto simp: frame_new_def split: if_splits)
  with p that[of "f_cmd f" p] show thesis by simp
qed

lemma frame_ok_of [simp]: "length p \<le> 255 \<Longrightarrow> frame_ok (frame_of c p)"
  by (auto simp: frame_ok_def intro!: exI[of _ p])

lemma frame_ok_payload: "frame_ok f \<Longrightarrow> length (frame_payload f) \<le> 255 \<and> f_len f = of_nat (length (frame_payload f))"
  by (erule frame_ok_cases) (simp add: frame_of_def frame_payload_def)

lemma wire_frame_of [simp]: "length p \<le> 255 \<Longrightarrow> wire (frame_of c p) = frame_bytes c p"
  by (simp add: wire_def)

lemma length_frame_bytes [simp]: "length (frame_bytes c p) = length p + 4"
  by (simp add: frame_bytes_def Let_def)

lemma encode_into_eq:
  assumes ok: "frame_ok f" and room: "length (wire f) \<le> length out"
  shows "encode_into f out = Inr (length (wire f), wire f @ drop (length (wire f)) out)"
proof -
  from ok obtain c p where f: "f = frame_of c p" and p: "length p \<le> 255" by (rule frame_ok_cases)
  let ?n = "length p"
  have len: "unat (f_len f) = ?n" using p by (simp add: f frame_of_def)
  have pay: "frame_payload f = p" and cmd: "f_cmd f = c" using f p by simp_all
  have w: "wire f = frame_bytes c p" using f p by simp
  then have room': "?n + 4 \<le> length out" using room by simp
  let ?h = "[START_BYTE, of_nat ?n, c]"
  obtain a b c' rest where out: "out = a # b # c' # rest"
    using room' by (cases out; cases "tl out"; cases "tl (tl out)") auto
  have hd3: "take 3 (out[0 := START_BYTE, 1 := f_len f, 2 := f_cmd f]) = ?h"
    by (simp add: out f frame_of_def numeral_3_eq_3)
  have dr: "drop (3 + ?n) (out[0 := START_BYTE, 1 := f_len f, 2 := f_cmd f]) = drop ?n rest"
    by (simp add: out numeral_3_eq_3)
  have split_rest: "drop ?n rest = rest ! ?n # drop (Suc ?n) rest"
    using room' by (simp add: out Cons_nth_drop_Suc)
  show ?thesis
    using room' unfolding encode_into_def Let_def len pay hd3 dr w
    by (simp add: out split_rest frame_bytes_def Let_def list_update_append take_append not_less
        Suc_diff_le numeral_3_eq_3)
qed

section \<open>The reader\<close>

datatype reader_state = Hunting | LenState | CmdState | PayloadState | ChecksumState

record frame_reader =
  rd_state :: reader_state
  rd_buf :: "u8 list"
  rd_have :: nat
  rd_want_payload :: nat
  rd_dropped :: nat

definition reader_new :: frame_reader where
  "reader_new = \<lparr>rd_state = Hunting, rd_buf = replicate MAX_FRAME 0, rd_have = 0,
                 rd_want_payload = 0, rd_dropped = 0\<rparr>"

definition reader_reset :: "frame_reader \<Rightarrow> frame_reader" where
  "reader_reset r = r\<lparr>rd_state := Hunting, rd_have := 0, rd_want_payload := 0, rd_dropped := 0\<rparr>"

definition USIZE_MAX :: nat where "USIZE_MAX = 2 ^ 64 - 1"

definition push :: "frame_reader \<Rightarrow> u8 \<Rightarrow> (frame_reader \<times> (frame_error + frame) option) option" where
  "push r byte =
     (case rd_state r of
        Hunting \<Rightarrow>
          if byte = START_BYTE then
            (case store (rd_buf r) 0 byte of
               None \<Rightarrow> None
             | Some buf \<Rightarrow>
                 let r1 = r\<lparr>rd_buf := buf, rd_have := 1, rd_state := LenState\<rparr>
                 in if 0 < rd_dropped r1
                    then Some (r1\<lparr>rd_dropped := 0\<rparr>, Some (Inl (Desync (rd_dropped r1))))
                    else Some (r1, None))
          else Some (r\<lparr>rd_dropped := sat_inc USIZE_MAX (rd_dropped r)\<rparr>, None)
      | LenState \<Rightarrow>
          map_option (\<lambda>buf. (r\<lparr>rd_buf := buf, rd_have := 2, rd_want_payload := unat byte,
                               rd_state := CmdState\<rparr>, None))
            (store (rd_buf r) 1 byte)
      | CmdState \<Rightarrow>
          map_option (\<lambda>buf. (r\<lparr>rd_buf := buf, rd_have := 3,
                               rd_state := if rd_want_payload r = 0 then ChecksumState
                                           else PayloadState\<rparr>, None))
            (store (rd_buf r) 2 byte)
      | PayloadState \<Rightarrow>
          map_option (\<lambda>buf.
              let r1 = r\<lparr>rd_buf := buf, rd_have := rd_have r + 1\<rparr>
              in (if rd_have r1 = rd_want_payload r1 + 3 then r1\<lparr>rd_state := ChecksumState\<rparr> else r1,
                  None))
            (store (rd_buf r) (rd_have r) byte)
      | ChecksumState \<Rightarrow>
          (case slice (rd_buf r) 0 (rd_have r) of
             None \<Rightarrow> None
           | Some held \<Rightarrow>
               let want = checksum held;
                   r1 = r\<lparr>rd_state := Hunting, rd_have := 0, rd_want_payload := 0\<rparr>
               in if byte = want
                  then map_option (\<lambda>payload. (r1, Some (frame_new (rd_buf r ! 2) payload)))
                         (slice (rd_buf r) 3 (rd_have r))
                  else Some (r1, Some (Inl (BadChecksum byte want)))))"

section \<open>What the reader holds\<close>

text \<open>The bytes of an unfinished frame: a start byte, and no more than its length byte allows.\<close>

definition unfinished :: "u8 list \<Rightarrow> bool" where
  "unfinished body \<longleftrightarrow> body \<noteq> [] \<and> hd body = START_BYTE \<and>
     (1 < length body \<longrightarrow> length body \<le> unat (body ! 1) + 3)"

definition state_after :: "u8 list \<Rightarrow> reader_state" where
  "state_after body =
     (if length body = 1 then LenState else if length body = 2 then CmdState
      else if length body = unat (body ! 1) + 3 then ChecksumState else PayloadState)"

definition holds :: "frame_reader \<Rightarrow> u8 list \<Rightarrow> bool" where
  "holds r body \<longleftrightarrow> unfinished body \<and> length (rd_buf r) = MAX_FRAME \<and> rd_have r = length body \<and>
     take (length body) (rd_buf r) = body \<and> rd_dropped r = 0 \<and> rd_state r = state_after body \<and>
     (1 < length body \<longrightarrow> rd_want_payload r = unat (body ! 1))"

definition hunting :: "nat \<Rightarrow> frame_reader \<Rightarrow> bool" where
  "hunting d r \<longleftrightarrow> rd_state r = Hunting \<and> length (rd_buf r) = MAX_FRAME \<and> rd_dropped r = d"

definition reader_ok :: "frame_reader \<Rightarrow> bool" where
  "reader_ok r \<longleftrightarrow> (\<exists>d. hunting d r) \<or> (\<exists>body. holds r body)"

lemma MAX_FRAME [simp]: "MAX_FRAME = 259" "MAX_PAYLOAD = 255"
  by (simp_all add: MAX_FRAME_def MAX_PAYLOAD_def)

lemma unfinished_length: "unfinished body \<Longrightarrow> length body \<le> 258"
  using unat_u8_le[of "body ! 1"] by (cases "1 < length body") (auto simp: unfinished_def)

lemma push_skip: "hunting d r \<Longrightarrow> b \<noteq> START_BYTE \<Longrightarrow>
    push r b = Some (r\<lparr>rd_dropped := sat_inc USIZE_MAX d\<rparr>, None) \<and>
    hunting (sat_inc USIZE_MAX d) (r\<lparr>rd_dropped := sat_inc USIZE_MAX d\<rparr>)"
  by (simp add: hunting_def push_def)

lemma push_start:
  assumes "hunting d r"
  shows "\<exists>r'. push r START_BYTE = Some (r', if 0 < d then Some (Inl (Desync d)) else None) \<and>
             holds r' [START_BYTE]"
  using assms take_update_snoc[of 0 "rd_buf r" START_BYTE]
  by (auto simp: hunting_def push_def holds_def unfinished_def state_after_def Let_def)

lemma push_hold:
  assumes h: "holds r body" and u: "unfinished (body @ [b])"
  shows "\<exists>r'. push r b = Some (r', None) \<and> holds r' (body @ [b])"
proof -
  have len: "length body < 259" and buf: "length (rd_buf r) = 259"
    using unfinished_length[of body] h by (auto simp: holds_def)
  have snoc: "take (Suc (length body)) ((rd_buf r)[length body := b]) = body @ [b]"
    using h len buf take_update_snoc[of "length body" "rd_buf r" b] by (simp add: holds_def)
  have ne: "body \<noteq> []" using h by (auto simp: holds_def unfinished_def)
  consider "length body = 1" | "length body = 2" | "2 < length body"
    using ne by (cases body; cases "tl body") auto
  then show ?thesis
  proof cases
    case 1
    then show ?thesis using h u snoc buf
      by (auto simp: holds_def push_def state_after_def Let_def nth_append)
  next
    case 2
    then show ?thesis using h u snoc buf
      by (auto simp: holds_def push_def state_after_def Let_def nth_append numeral_3_eq_3)
  next
    case 3
    then have "length body < unat (body ! 1) + 3"
      using u by (auto simp: unfinished_def nth_append)
    with 3 show ?thesis using h u snoc buf len
      by (auto simp: holds_def push_def state_after_def Let_def nth_append)
  qed
qed

lemma feed_hold:
  assumes "holds r body" "unfinished (body @ xs)"
  shows "\<exists>r'. feed push r xs = Some (r', []) \<and> holds r' (body @ xs)"
  using assms
proof (induction xs arbitrary: r body)
  case (Cons x xs)
  have "unfinished (body @ [x])"
    using Cons.prems by (auto simp: unfinished_def nth_append holds_def split: if_splits)
  from push_hold[OF Cons.prems(1) this] obtain r1
    where 1: "push r x = Some (r1, None)" "holds r1 (body @ [x])" by blast
  from Cons.IH[OF 1(2)] Cons.prems(2) obtain r2
    where "feed push r1 xs = Some (r2, [])" "holds r2 (body @ x # xs)" by auto
  with 1 show ?case by (auto simp: feed_quiet)
qed simp

definition header :: "u8 list \<Rightarrow> u8 \<Rightarrow> u8 list" where
  "header p c = [START_BYTE, of_nat (length p), c] @ p"

lemma frame_bytes_header: "frame_bytes c p = header p c @ [checksum (header p c)]"
  by (simp add: frame_bytes_def header_def Let_def)

lemma unfinished_header: "length p \<le> 255 \<Longrightarrow> unfinished (header p c)"
  by (simp add: unfinished_def header_def)

lemma push_check:
  assumes h: "holds r (header p c)" and p: "length p \<le> 255"
  shows "\<exists>r'. push r b = Some (r', Some (if b = checksum (header p c) then Inr (frame_of c p)
                  else Inl (BadChecksum b (checksum (header p c))))) \<and> hunting 0 r'"
proof -
  have buf: "length (rd_buf r) = 259" and tk: "take (length p + 3) (rd_buf r) = header p c"
    using h by (simp_all add: holds_def header_def numeral_3_eq_3)
  have st: "rd_state r = ChecksumState" "rd_have r = length p + 3" "rd_dropped r = 0"
    using h p by (simp_all add: holds_def header_def state_after_def)
  have cmd: "rd_buf r ! 2 = c"
    using arg_cong[OF tk, of "\<lambda>xs. xs ! 2"] by (simp add: header_def)
  have "drop 3 (take (length p + 3) (rd_buf r)) = p"
    unfolding tk by (simp add: header_def)
  then have pay: "take (length p) (drop 3 (rd_buf r)) = p"
    by (simp add: drop_take)
  show ?thesis
    using p by (simp add: push_def st buf tk cmd pay hunting_def)
qed

section \<open>The abstract parser\<close>

text \<open>
  What the byte string means, read from the left: outside a frame a byte that is not a start
  byte is counted and dropped; a start byte reports the count, if there is one, and opens a
  frame whose second byte says where its checksum lies. A frame cut off by the end of the
  input reports nothing yet.
\<close>

function scan :: "nat \<Rightarrow> u8 list \<Rightarrow> (frame_error + frame) list" where
  "scan d [] = []"
| "scan d (b # bs) =
     (if b \<noteq> START_BYTE then scan (sat_inc USIZE_MAX d) bs
      else (if 0 < d then [Inl (Desync d)] else []) @
        (if 2 \<le> length bs \<and> unat (bs ! 0) + 2 < length bs
         then let p = take (unat (bs ! 0)) (drop 2 bs); c = bs ! 1; got = bs ! (unat (bs ! 0) + 2);
                  want = checksum (header p c)
              in (if got = want then Inr (frame_of c p) else Inl (BadChecksum got want)) #
                 scan 0 (drop (unat (bs ! 0) + 3) bs)
         else []))"
  by pat_completeness auto

termination by (relation "measure (length \<circ> snd)") auto

lemma unfinished_short:
  assumes "\<not> (2 \<le> length bs \<and> unat (bs ! 0) + 2 < length bs)"
  shows "unfinished (START_BYTE # bs)"
  using assms by (cases bs) (auto simp: unfinished_def not_le not_less)

lemma split_frame:
  assumes "2 \<le> length bs" "unat (bs ! 0) + 2 < length bs"
  defines "p \<equiv> take (unat (bs ! 0)) (drop 2 bs)"
  shows "START_BYTE # bs =
           header p (bs ! 1) @ bs ! (unat (bs ! 0) + 2) # drop (unat (bs ! 0) + 3) bs"
    and "length p \<le> 255"
proof -
  obtain l c rest where bs: "bs = l # c # rest"
    using assms(1) by (cases bs; cases "tl bs") auto
  have lt: "unat l < length rest" using assms(2) by (simp add: bs)
  have p: "p = take (unat l) rest" "length p = unat l" using lt by (simp_all add: p_def bs)
  show "START_BYTE # bs =
           header p (bs ! 1) @ bs ! (unat (bs ! 0) + 2) # drop (unat (bs ! 0) + 3) bs"
    using id_take_nth_drop[OF lt] lt by (simp add: bs header_def p numeral_3_eq_3)
  show "length p \<le> 255" using unat_u8_le[of l] p by simp
qed

lemma feed_scan:
  assumes "hunting d r"
  shows "\<exists>r'. feed push r bs = Some (r', scan d bs) \<and> reader_ok r'"
  using assms
proof (induction "length bs" arbitrary: d r bs rule: less_induct)
  case less
  show ?case
  proof (cases bs)
    case Nil
    with less.prems show ?thesis by (auto simp: reader_ok_def)
  next
    case (Cons b bs')
    show ?thesis
    proof (cases "b = START_BYTE")
      case False
      from push_skip[OF less.prems False] less.hyps[of bs' "sat_inc USIZE_MAX d"] Cons False
      show ?thesis by (fastforce simp: feed_quiet)
    next
      case True
      let ?pre = "if 0 < d then [Inl (Desync d)] else []"
      let ?full = "2 \<le> length bs' \<and> unat (bs' ! 0) + 2 < length bs'"
      from push_start[OF less.prems] obtain r1
        where 1: "push r START_BYTE = Some (r1, if 0 < d then Some (Inl (Desync d)) else None)"
          "holds r1 [START_BYTE]" by blast
      show ?thesis
      proof (cases ?full)
        case False
        from feed_hold[OF 1(2)] unfinished_short[OF False] obtain r2
          where 2: "feed push r1 bs' = Some (r2, [])" "holds r2 (START_BYTE # bs')" by auto
        from 1 2 False show ?thesis by (auto simp: Cons True reader_ok_def)
      next
        case full: True
        let ?p = "take (unat (bs' ! 0)) (drop 2 bs')" and ?c = "bs' ! 1"
        let ?got = "bs' ! (unat (bs' ! 0) + 2)" and ?rest = "drop (unat (bs' ! 0) + 3) bs'"
        let ?out = "if ?got = checksum (header ?p ?c) then Inr (frame_of ?c ?p)
                    else Inl (BadChecksum ?got (checksum (header ?p ?c)))"
        have sp: "START_BYTE # bs' = header ?p ?c @ ?got # ?rest" and p: "length ?p \<le> 255"
          using split_frame[of bs'] full by auto
        have tl: "bs' = tl (header ?p ?c) @ ?got # ?rest"
          using arg_cong[OF sp, of tl] by (simp add: header_def)
        have hd: "[START_BYTE] @ tl (header ?p ?c) = header ?p ?c" by (simp add: header_def)
        have "unfinished ([START_BYTE] @ tl (header ?p ?c))"
          unfolding hd using p by (rule unfinished_header)
        from feed_hold[OF 1(2) this] obtain r2
          where 2: "feed push r1 (tl (header ?p ?c)) = Some (r2, [])" "holds r2 (header ?p ?c)"
          unfolding hd by blast
        from push_check[OF 2(2) p, of ?got] obtain r3
          where 3: "push r2 ?got = Some (r3, Some ?out)" "hunting 0 r3" by blast
        have "length ?rest < length bs" using Cons full by simp
        from less.hyps[OF this 3(2)] obtain r4
          where 4: "feed push r3 ?rest = Some (r4, scan 0 ?rest)" "reader_ok r4" by blast
        have "feed push r2 (?got # ?rest) = Some (r4, ?out # scan 0 ?rest)"
          using 3(1) 4(1) by simp
        from feed_append_Some[OF 2(1) this] tl
        have "feed push r1 bs' = Some (r4, ?out # scan 0 ?rest)" by simp
        with 1(1) 4(2) full show ?thesis by (auto simp: Cons True Let_def)
      qed
    qed
  qed
qed

lemma hunting_new [simp]: "hunting 0 reader_new"
  by (simp add: hunting_def reader_new_def)

lemma reader_ok_new [simp]: "reader_ok reader_new"
  unfolding reader_ok_def using hunting_new by blast

lemma hunting_reset: "reader_ok r \<Longrightarrow> hunting 0 (reader_reset r)"
  by (auto simp: reader_ok_def hunting_def holds_def reader_reset_def)

lemma push_total: "reader_ok r \<Longrightarrow> \<exists>r' out. push r b = Some (r', out) \<and> reader_ok r'"
proof -
  assume "reader_ok r"
  then consider d where "hunting d r" | body where "holds r body" by (auto simp: reader_ok_def)
  then show ?thesis
  proof cases
    case (1 d)
    from feed_scan[OF this, of "[b]"] show ?thesis by (auto split: option.splits)
  next
    case (2 body)
    show ?thesis
    proof (cases "unfinished (body @ [b])")
      case True
      from push_hold[OF 2 this] show ?thesis by (auto simp: reader_ok_def)
    next
      case False
      have big: "2 < length body" "length body = unat (body ! 1) + 3"
        using False 2 by (auto simp: holds_def unfinished_def nth_append split: if_splits)
      let ?p = "drop 3 body"
      have "body = header ?p (body ! 2)" "length ?p \<le> 255"
        using big 2 unat_u8_le[of "body ! 1"]
        by (cases body; cases "tl body"; cases "tl (tl body)";
            auto simp: holds_def unfinished_def header_def numeral_3_eq_3)+
      with push_check[of r ?p "body ! 2" b] 2 show ?thesis by (auto simp: reader_ok_def)
    qed
  qed
qed

lemma feed_push_total: "reader_ok r \<Longrightarrow> \<exists>r' outs. feed push r bs = Some (r', outs) \<and> reader_ok r'"
  by (rule feed_total[where good = reader_ok, OF push_total])

lemma scan_frame:
  assumes "length p \<le> 255"
  shows "scan 0 (header p c @ got # rest) =
    (if got = checksum (header p c) then Inr (frame_of c p)
     else Inl (BadChecksum got (checksum (header p c)))) # scan 0 rest"
  using assms by (simp add: header_def nth_append Let_def numeral_3_eq_3)

lemma scan_noise:
  "START_BYTE \<notin> set xs \<Longrightarrow> d + length xs \<le> USIZE_MAX \<Longrightarrow> scan d (xs @ bs) = scan (d + length xs) bs"
  by (induction xs arbitrary: d) (auto simp: sat_inc_def simp del: scan.simps(2) simp add: scan.simps(2)[of _ _ "_ @ _"])

lemma scan_sound:
  "Inr f \<in> set (scan d bs) \<Longrightarrow> frame_ok f \<and> (\<exists>pre post. bs = pre @ wire f @ post)"
proof (induction d bs rule: scan.induct)
  case (2 d b bs)
  show ?case
  proof (cases "b = START_BYTE")
    case False
    with 2 obtain pre post where "frame_ok f" "bs = pre @ wire f @ post" by auto
    then have "frame_ok f \<and> b # bs = (b # pre) @ wire f @ post" by simp
    then show ?thesis by blast
  next
    case True
    let ?full = "2 \<le> length bs \<and> unat (bs ! 0) + 2 < length bs"
    from 2(3) True have full: ?full by (auto split: if_splits)
    let ?p = "take (unat (bs ! 0)) (drop 2 bs)" and ?c = "bs ! 1"
    let ?got = "bs ! (unat (bs ! 0) + 2)" and ?rest = "drop (unat (bs ! 0) + 3) bs"
    have sp: "START_BYTE # bs = header ?p ?c @ ?got # ?rest" and p: "length ?p \<le> 255"
      using split_frame[of bs] full by auto
    from 2(3) True full consider "?got = checksum (header ?p ?c)" "f = frame_of ?c ?p"
      | "Inr f \<in> set (scan 0 ?rest)"
      by (auto simp: Let_def split: if_splits)
    then show ?thesis
    proof cases
      case 1
      then have "wire f = header ?p ?c @ [?got]" using p by (simp add: frame_bytes_header)
      with sp True have "b # bs = [] @ wire f @ ?rest" by simp
      moreover have "frame_ok f" using 1 p by simp
      ultimately show ?thesis by blast
    next
      case 2
      then have "frame_ok f \<and> (\<exists>pre post. ?rest = pre @ wire f @ post)"
        using "2.IH"(2) True full by simp
      then obtain pre post where "frame_ok f" "?rest = pre @ wire f @ post" by blast
      then have "b # bs = (header ?p ?c @ ?got # pre) @ wire f @ post" using sp True by simp
      with \<open>frame_ok f\<close> show ?thesis by blast
    qed
  qed
qed simp

section \<open>The contract\<close>

lemma feed_frame:
  assumes "hunting 0 r" "length p \<le> 255"
  shows "\<exists>r'. feed push r (header p c @ [got]) =
      Some (r', [if got = checksum (header p c) then Inr (frame_of c p)
                 else Inl (BadChecksum got (checksum (header p c)))]) \<and> hunting 0 r'"
proof -
  from push_start[OF assms(1)] obtain r1
    where 1: "push r START_BYTE = Some (r1, None)" "holds r1 [START_BYTE]" by auto
  have hd: "[START_BYTE] @ tl (header p c) = header p c" by (simp add: header_def)
  from feed_hold[OF 1(2), of "tl (header p c)"] unfinished_header[OF assms(2), of c] obtain r2
    where 2: "feed push r1 (tl (header p c)) = Some (r2, [])" "holds r2 (header p c)"
    unfolding hd by blast
  have "feed push r ([START_BYTE] @ tl (header p c)) = Some (r2, [])" using 1(1) 2(1) by simp
  then have 3: "feed push r (header p c) = Some (r2, [])" unfolding hd .
  from push_check[OF 2(2) assms(2), of got] feed_append_Some[OF 3] show ?thesis
    by fastforce
qed

definition bad_check :: "frame \<Rightarrow> u8 \<Rightarrow> frame_error" where
  "bad_check f got = BadChecksum got (last (wire f))"

interpretation ups_frames: stream_decoder push "hunting 0" wire frame_ok bad_check
proof
  fix r f assume h: "hunting 0 r" "frame_ok f"
  from h(2) obtain c p where f: "f = frame_of c p" "length p \<le> 255" by (rule frame_ok_cases)
  from feed_frame[OF h(1) f(2), of c "checksum (header p c)"] f
  show "\<exists>r'. feed push r (wire f) = Some (r', [Inr f]) \<and> hunting 0 r'"
    by (simp add: frame_bytes_header)
  fix b assume "b \<noteq> last (wire f)"
  with feed_frame[OF h(1) f(2), of c b] f
  show "\<exists>r'. feed push r (butlast (wire f) @ [b]) = Some (r', [Inl (bad_check f b)]) \<and> hunting 0 r'"
    by (simp add: frame_bytes_header bad_check_def)
qed

text \<open>C8: The UPS frame reader computes the abstract parser: fed any byte string from its initial
  state it never panics and reports exactly what \<open>scan\<close> reads in the string, in order. Its
  buffer, its five states and its counters are an implementation of that parser.\<close>

theorem ups_reader_computes_scan: "\<exists>r. feed push reader_new bs = Some (r, scan 0 bs)"
  using feed_scan[of 0 reader_new bs] by auto

text \<open>A frame the reader reports was on the wire: whatever bytes it is fed, each accepted frame is
  well formed and its encoding, checksum included, is a contiguous part of the input.\<close>

theorem ups_reader_sound:
  assumes "feed push reader_new bs = Some (r, outs)" "Inr f \<in> set outs"
  shows "frame_ok f \<and> (\<exists>before after. bs = before @ wire f @ after)"
  using assms feed_scan[of 0 reader_new bs] scan_sound[of f 0 bs] by auto

theorem ups_reader_sound_witness:
  "frame_ok (frame_of 7 [1, 2]) \<and>
   (\<exists>before after. [3, 0xFE, 2, 7, 1, 2, 0x0A, 9] = before @ wire (frame_of 7 [1, 2]) @ after)"
proof -
  have "\<exists>r. feed push reader_new [3, 0xFE, 2, 7, 1, 2, 0x0A, 9] =
      Some (r, [Inl (Desync 1), Inr (frame_of 7 [1, 2])])"
    using feed_scan[of 0 reader_new "[3, 0xFE, 2, 7, 1, 2, 0x0A, 9]"]
    by (auto simp: START_BYTE_def sat_inc_def USIZE_MAX_def header_def checksum_def)
  then show ?thesis using ups_reader_sound by fastforce
qed

text \<open>C9: Encoding then reading gives the frames back, and damage costs only the frame it hits: for a
  stream of frames serialised by \<open>encode_into\<close>, some of them with the check byte replaced, the
  reader reports one result per frame, the frame itself where the check byte is right and
  \<open>BadChecksum\<close> with both values where it is not.\<close>

theorem ups_stream_roundtrip:
  assumes "\<forall>(f, damage) \<in> set xs. frame_ok f"
  shows "\<exists>r. feed push reader_new
           (concat (map (\<lambda>(f, damage).
              case encode_into f (replicate MAX_FRAME 0) of
                Inl _ \<Rightarrow> []
              | Inr (n, out) \<Rightarrow> (case damage of None \<Rightarrow> take n out
                                 | Some b \<Rightarrow> take (n - 1) out @ [b])) xs)) =
         Some (r, map (\<lambda>(f, damage).
           case damage of None \<Rightarrow> Inr f
           | Some b \<Rightarrow> if b = last (wire f) then Inr f
                       else Inl (BadChecksum b (last (wire f)))) xs)"
proof -
  have w: "length (wire f) \<le> 259 \<and> wire f \<noteq> []" if "frame_ok f" for f
    using that by (rule frame_ok_cases) (auto simp: frame_bytes_header header_def)
  have "concat (map (\<lambda>(f, damage).
          case encode_into f (replicate MAX_FRAME 0) of
            Inl _ \<Rightarrow> []
          | Inr (n, out) \<Rightarrow> (case damage of None \<Rightarrow> take n out
                             | Some b \<Rightarrow> take (n - 1) out @ [b])) xs) =
        concat (map ups_frames.sent xs)"
    using assms w
    by (intro arg_cong[where f = concat] map_cong)
      (auto simp: encode_into_eq butlast_conv_take split: option.splits)
  moreover have "map (\<lambda>(f, damage).
           case damage of None \<Rightarrow> Inr f
           | Some b \<Rightarrow> if b = last (wire f) then Inr f
                       else Inl (BadChecksum b (last (wire f)))) xs = map ups_frames.received xs"
    by (auto simp: bad_check_def split: option.splits)
  ultimately show ?thesis
    using ups_frames.stream_received[of reader_new xs] assms w by fastforce
qed

theorem ups_stream_roundtrip_witness:
  "\<exists>r. feed push reader_new
        (concat (map (\<lambda>(f, damage).
           case encode_into f (replicate MAX_FRAME 0) of
             Inl _ \<Rightarrow> []
           | Inr (n, out) \<Rightarrow> (case damage of None \<Rightarrow> take n out
                              | Some b \<Rightarrow> take (n - 1) out @ [b]))
          [(frame_of 0 [42], None), (frame_of 5 [], Some 9)])) =
      Some (r, map (\<lambda>(f, damage).
           case damage of None \<Rightarrow> Inr f
           | Some b \<Rightarrow> if b = last (wire f) then Inr f
                       else Inl (BadChecksum b (last (wire f))))
          [(frame_of 0 [42], None), (frame_of 5 [], Some 9)])"
  by (rule ups_stream_roundtrip) simp

lemma encode_read_is_empty_frame:
  "encode_into (frame_of c []) (replicate 4 0) = Inr (4, encode_read c)"
  using encode_into_eq[of "frame_of c []" "replicate 4 0"]
  by (simp add: frame_bytes_header header_def encode_read_def checksum_def add.commute)

end
