(* ===== verification/UpsTime.thy ===== *)
theory UpsTime
  imports Bcd Calendar
begin

text \<open>
  The UPS's response payloads (\<open>crates/argon-proto/src/ups/status.rs\<close>): battery status, clock
  times and wake schedules in BCD, and the conversion between clock times and unix seconds. The
  conversion is compared with a day count from the calendar rules alone.
\<close>

section \<open>Battery status\<close>

datatype power_source = Mains | Battery

record battery_status =
  bs_percent :: u8
  bs_source :: power_source

datatype decode_error =
  LengthError nat nat
| BcdError invalid_bcd
| RangeError out_of_range
| YearOutOfRange u16

definition battery_status_decode :: "u8 list \<Rightarrow> decode_error + battery_status" where
  "battery_status_decode payload =
     (case payload of
        [raw_percent, charging] \<Rightarrow>
          Inr \<lparr>bs_percent = min raw_percent 100,
               bs_source = if charging = 0 then Mains else Battery\<rparr>
      | _ \<Rightarrow> Inl (LengthError 2 (length payload)))"

definition battery_status_text :: "battery_status \<Rightarrow> string" where
  "battery_status_text b =
     show_nat (unat (bs_percent b)) @ ''%, '' @
     (case bs_source b of Mains \<Rightarrow> ''on mains'' | Battery \<Rightarrow> ''on battery'')"

section \<open>Clock times\<close>

record ups_time =
  ut_year :: u16
  ut_month :: u8
  ut_day :: u8
  ut_hour :: u8
  ut_minute :: u8
  ut_second :: "u8 option"

definition bcd_field :: "u8 \<Rightarrow> decode_error + u8" where
  \<comment> \<open>\<open>bcd::decode(b)?\<close> with the error converted\<close>
  "bcd_field b = map_err BcdError (bcd_decode b)"

definition bcd_byte :: "u8 \<Rightarrow> decode_error + u8" where
  \<comment> \<open>\<open>bcd::encode(v)?\<close> with the error converted\<close>
  "bcd_byte v = map_err RangeError (bcd_encode v)"

definition decode_clock :: "u8 list \<Rightarrow> decode_error + ups_time" where
  "decode_clock payload =
     (case payload of
        [y, mo, d, h, mi, s] \<Rightarrow>
          rbind (bcd_field y) (\<lambda>y. rbind (bcd_field mo) (\<lambda>mo. rbind (bcd_field d) (\<lambda>d.
          rbind (bcd_field h) (\<lambda>h. rbind (bcd_field mi) (\<lambda>mi. rbind (bcd_field s) (\<lambda>s.
            Inr \<lparr>ut_year = 2000 + ucast y, ut_month = mo, ut_day = d, ut_hour = h,
                 ut_minute = mi, ut_second = Some s\<rparr>))))))
      | _ \<Rightarrow> Inl (LengthError 6 (length payload)))"

definition decode_schedule :: "u8 list \<Rightarrow> decode_error + ups_time" where
  "decode_schedule payload =
     (case payload of
        [y, mo, d, h, mi] \<Rightarrow>
          rbind (bcd_field y) (\<lambda>y. rbind (bcd_field mo) (\<lambda>mo. rbind (bcd_field d) (\<lambda>d.
          rbind (bcd_field h) (\<lambda>h. rbind (bcd_field mi) (\<lambda>mi.
            Inr \<lparr>ut_year = 2000 + ucast y, ut_month = mo, ut_day = d, ut_hour = h,
                 ut_minute = mi, ut_second = None\<rparr>)))))
      | _ \<Rightarrow> Inl (LengthError 5 (length payload)))"

definition decode_optional_schedule :: "u8 list \<Rightarrow> decode_error + ups_time option" where
  "decode_optional_schedule payload =
     (if payload = [] then Inr None else map_ok Some (decode_schedule payload))"

definition year_byte :: "ups_time \<Rightarrow> decode_error + u8" where
  "year_byte t =
     (if ut_year t < 2000 \<or> 2099 < ut_year t then Inl (YearOutOfRange (ut_year t))
      else if unat (ut_year t - 2000) \<le> U8_MAX then Inr (ucast (ut_year t - 2000))
      else Inl (YearOutOfRange (ut_year t)))"

definition encode_clock :: "ups_time \<Rightarrow> decode_error + u8 list" where
  "encode_clock t =
     rbind (rbind (year_byte t) bcd_byte) (\<lambda>y. rbind (bcd_byte (ut_month t)) (\<lambda>mo.
     rbind (bcd_byte (ut_day t)) (\<lambda>d. rbind (bcd_byte (ut_hour t)) (\<lambda>h.
     rbind (bcd_byte (ut_minute t)) (\<lambda>mi.
     rbind (bcd_byte (case ut_second t of Some s \<Rightarrow> s | None \<Rightarrow> 0)) (\<lambda>s.
       Inr [y, mo, d, h, mi, s]))))))"

definition encode_schedule :: "ups_time \<Rightarrow> decode_error + u8 list" where
  "encode_schedule t =
     rbind (rbind (year_byte t) bcd_byte) (\<lambda>y. rbind (bcd_byte (ut_month t)) (\<lambda>mo.
     rbind (bcd_byte (ut_day t)) (\<lambda>d. rbind (bcd_byte (ut_hour t)) (\<lambda>h.
     rbind (bcd_byte (ut_minute t)) (\<lambda>mi. Inr [y, mo, d, h, mi])))))"

definition is_plausible :: "ups_time \<Rightarrow> bool" where
  "is_plausible t \<longleftrightarrow>
     2000 \<le> ut_year t \<and> ut_year t \<le> 2099 \<and> 1 \<le> ut_month t \<and> ut_month t \<le> 12 \<and>
     1 \<le> ut_day t \<and> ut_day t \<le> 31 \<and> ut_hour t \<le> 23 \<and> ut_minute t \<le> 59 \<and>
     (case ut_second t of Some s \<Rightarrow> s \<le> 59 | None \<Rightarrow> True)"

definition from_unix_seconds :: "nat \<Rightarrow> ups_time option" where
  "from_unix_seconds secs =
     (let days = secs div 86400;
          rem = secs mod 86400;
          z = days + 719468;
          era = z div 146097;
          doe = z - era * 146097;
          yoe = (doe - doe div 1460 + doe div 36524 - doe div 146096) div 365;
          doy = doe - (365 * yoe + yoe div 4 - yoe div 100);
          mp = (5 * doy + 2) div 153;
          day = doy - (153 * mp + 2) div 5 + 1;
          month = (if mp < 10 then mp + 3 else mp - 9);
          year = yoe + era * 400 + (if month \<le> 2 then 1 else 0)
      in if year < 2000 \<or> 2099 < year then None
         else Some \<lparr>ut_year = of_nat year, ut_month = of_nat month, ut_day = of_nat day,
                    ut_hour = of_nat (rem div 3600), ut_minute = of_nat (rem mod 3600 div 60),
                    ut_second = Some (of_nat (rem mod 60))\<rparr>)"

definition to_unix_seconds :: "ups_time \<Rightarrow> nat option" where
  "to_unix_seconds t =
     (if \<not> is_plausible t then None
      else let y = unat (ut_year t) - (if ut_month t \<le> 2 then 1 else 0);
               era = y div 400;
               yoe = y - era * 400;
               m = unat (ut_month t);
               mp = (if 2 < m then m - 3 else m + 9);
               doy = (153 * mp + 2) div 5 + unat (ut_day t) - 1;
               doe = yoe * 365 + yoe div 4 - yoe div 100 + doy;
               days = era * 146097 + doe - 719468;
               second = (case ut_second t of Some s \<Rightarrow> unat s | None \<Rightarrow> 0)
           in Some (days * 86400 + unat (ut_hour t) * 3600 + unat (ut_minute t) * 60 + second))"

definition show2 :: "u8 \<Rightarrow> string" where
  "show2 b = zero_pad 2 (show_nat (unat b))"

definition ups_time_text :: "ups_time \<Rightarrow> string" where
  "ups_time_text t =
     zero_pad 4 (show_nat (unat (ut_year t))) @ ''-'' @ show2 (ut_month t) @ ''-'' @ show2 (ut_day t) @
     '' '' @ show2 (ut_hour t) @ '':'' @ show2 (ut_minute t) @
     (case ut_second t of Some s \<Rightarrow> '':'' @ show2 s | None \<Rightarrow> []) @ '' UTC''"

section \<open>BCD round trip\<close>

text \<open>The times the wire can carry: a year of the century and two digits for everything else.\<close>

definition expressible :: "ups_time \<Rightarrow> bool" where
  "expressible t \<longleftrightarrow> 2000 \<le> unat (ut_year t) \<and> unat (ut_year t) \<le> 2099 \<and> unat (ut_month t) \<le> 99 \<and>
     unat (ut_day t) \<le> 99 \<and> unat (ut_hour t) \<le> 99 \<and> unat (ut_minute t) \<le> 99 \<and>
     (\<forall>s. ut_second t = Some s \<longrightarrow> unat s \<le> 99)"

lemma bcd_field_byte: "bcd_field b = Inr v \<longleftrightarrow> bcd_byte v = Inr b"
  unfolding bcd_field_def bcd_byte_def
  by (cases "bcd_decode b"; cases "bcd_encode v")
    (auto dest: bcd_decode_encode bcd_encode_decode)

lemma bcd_byte_ok: "bcd_byte v = Inr b \<Longrightarrow> unat v \<le> 99"
  by (auto simp: bcd_byte_def bcd_encode_nat split: if_splits)

lemma bcd_byte_total: "unat v \<le> 99 \<Longrightarrow> \<exists>b. bcd_byte v = Inr b"
  by (simp add: bcd_byte_def bcd_encode_nat)

lemma year_ucast: "unat y \<le> 99 \<Longrightarrow> unat (2000 + ucast (y :: u8) :: u16) = 2000 + unat y"
  by (simp add: unat_word_ariths)

lemma year_byte_iff:
  "year_byte t = Inr y \<longleftrightarrow> unat y \<le> 99 \<and> ut_year t = 2000 + ucast y"
proof
  assume y: "year_byte t = Inr y"
  then have b: "2000 \<le> unat (ut_year t)" "unat (ut_year t) \<le> 2099" and
    e: "y = ucast (ut_year t - 2000)"
    by (auto simp: year_byte_def word_less_nat_alt not_less split: if_splits)
  have s: "unat (ut_year t - 2000) = unat (ut_year t) - 2000"
    using b by (subst unat_sub) (simp_all add: word_le_nat_alt)
  have u: "unat y = unat (ut_year t) - 2000"
    using b s by (simp add: e unsigned_ucast_eq take_bit_nat_eq_self)
  then show "unat y \<le> 99 \<and> ut_year t = 2000 + ucast y"
    using b year_ucast[of y] by (auto intro: u16_eqI)
next
  assume a: "unat y \<le> 99 \<and> ut_year t = 2000 + ucast y"
  then have u: "unat (ut_year t) = 2000 + unat y" using year_ucast by simp
  have d: "ut_year t - 2000 = ucast y" using a by simp
  have "(ucast (ucast y :: u16) :: u8) = y" by (simp add: ucast_up_ucast_id is_up)
  moreover have "unat (ucast y :: u16) \<le> U8_MAX"
    using unat_u8_le[of y] by (simp add: U8_MAX_def)
  ultimately show "year_byte t = Inr y"
    using u a unfolding year_byte_def d by (simp add: word_less_nat_alt)
qed

lemma expressible_encodes: "expressible t \<Longrightarrow> \<exists>p. encode_clock t = Inr p"
proof -
  assume e: "expressible t"
  have "\<exists>y. year_byte t = Inr y \<and> unat y \<le> 99"
  proof -
    have r: "2000 \<le> unat (ut_year t)" "unat (ut_year t) - 2000 \<le> 99"
      using e unfolding expressible_def by linarith+
    have "unat (of_nat (unat (ut_year t) - 2000) :: u8) = unat (ut_year t) - 2000"
      by (rule unat_of_nat_u8) (use r in linarith)
    then obtain y :: u8 where u: "unat y = unat (ut_year t) - 2000" by blast
    have "ut_year t = 2000 + ucast y"
      by (rule u16_eqI) (use u r year_ucast[of y] in simp)
    then show ?thesis using u r year_byte_iff[of t y] by auto
  qed
  then obtain y where y: "year_byte t = Inr y" "unat y \<le> 99" by blast
  have s: "unat (case ut_second t of Some s \<Rightarrow> s | None \<Rightarrow> 0) \<le> 99"
    using e by (auto simp: expressible_def split: option.splits)
  have "\<exists>b. bcd_byte (ut_month t) = Inr b" "\<exists>b. bcd_byte (ut_day t) = Inr b"
    "\<exists>b. bcd_byte (ut_hour t) = Inr b" "\<exists>b. bcd_byte (ut_minute t) = Inr b"
    using e by (simp_all add: expressible_def bcd_byte_total)
  with bcd_byte_total[OF y(2)] bcd_byte_total[OF s] show ?thesis
    by (auto simp: encode_clock_def y(1))
qed

section \<open>Clock times and the calendar\<close>

definition real_date :: "ups_time \<Rightarrow> bool" where
  "real_date t \<longleftrightarrow> real_day (unat (ut_year t)) (unat (ut_month t)) (unat (ut_day t))"

lemma is_plausible_nat:
  "is_plausible t \<longleftrightarrow>
     2000 \<le> unat (ut_year t) \<and> unat (ut_year t) \<le> 2099 \<and> 1 \<le> unat (ut_month t) \<and> unat (ut_month t) \<le> 12 \<and>
     1 \<le> unat (ut_day t) \<and> unat (ut_day t) \<le> 31 \<and> unat (ut_hour t) \<le> 23 \<and> unat (ut_minute t) \<le> 59 \<and>
     (\<forall>s. ut_second t = Some s \<longrightarrow> unat s \<le> 59)"
  by (auto simp: is_plausible_def word_le_nat_alt split: option.splits)

definition seconds_of :: "ups_time \<Rightarrow> nat" where
  "seconds_of t = unat (ut_hour t) * 3600 + unat (ut_minute t) * 60 +
     (case ut_second t of Some s \<Rightarrow> unat s | None \<Rightarrow> 0)"

lemma seconds_of_less: "is_plausible t \<Longrightarrow> seconds_of t < 86400"
  by (auto simp: is_plausible_nat seconds_of_def split: option.splits)

lemma to_unix_count:
  "to_unix_seconds t =
     (if is_plausible t
      then Some (day_count (unat (ut_year t)) (unat (ut_month t)) (unat (ut_day t)) * 86400 + seconds_of t)
      else None)"
proof (cases "is_plausible t")
  case True
  then have p: "2000 \<le> unat (ut_year t)" "unat (ut_year t) \<le> 2099" "1 \<le> unat (ut_month t)"
    "unat (ut_month t) \<le> 12" "1 \<le> unat (ut_day t)" by (auto simp: is_plausible_nat)
  have "to_unix_seconds t = Some ((era_day (unat (ut_year t)) (unat (ut_month t)) (unat (ut_day t)) - 719468) * 86400
      + seconds_of t)"
    using True unfolding to_unix_seconds_def era_day_def Let_def seconds_of_def
    by (simp add: word_le_nat_alt)
  then show ?thesis using True era_day_count[OF p] by simp
qed (simp add: to_unix_seconds_def)

lemma from_unix_civil:
  "from_unix_seconds s =
     (case civil (s div 86400 + 719468) of (y, m, d) \<Rightarrow>
        if y < 2000 \<or> 2099 < y then None
        else Some \<lparr>ut_year = of_nat y, ut_month = of_nat m, ut_day = of_nat d,
                   ut_hour = of_nat (s mod 86400 div 3600), ut_minute = of_nat (s mod 86400 mod 3600 div 60),
                   ut_second = Some (of_nat (s mod 86400 mod 60))\<rparr>)"
  unfolding from_unix_seconds_def civil_def year_of_era_def day_base_def Let_def prod.case
  by (rule refl)

lemma civil_small: "civil z = (y, m, d) \<Longrightarrow> 2000 \<le> y \<Longrightarrow> y \<le> 2099 \<Longrightarrow> m \<le> 12 \<and> d \<le> 31"
  using civil_era_day[of z y m d] by (auto simp: real_day_def month_days_def split: if_splits)

lemma from_unix_to_unix:
  assumes "from_unix_seconds s = Some t"
  shows "to_unix_seconds t = Some s \<and> real_date t \<and> ut_second t \<noteq> None"
proof -
  obtain y m d where c: "civil (s div 86400 + 719468) = (y, m, d)" by (cases "civil (s div 86400 + 719468)")
  with assms have y: "2000 \<le> y" "y \<le> 2099"
    and t: "t = \<lparr>ut_year = of_nat y, ut_month = of_nat m, ut_day = of_nat d,
      ut_hour = of_nat (s mod 86400 div 3600), ut_minute = of_nat (s mod 86400 mod 3600 div 60),
      ut_second = Some (of_nat (s mod 86400 mod 60))\<rparr>"
    by (auto simp: from_unix_civil split: if_splits)
  have r: "real_day y m d" and e: "era_day y m d = s div 86400 + 719468"
    using civil_era_day[OF c y] by auto
  have md: "m \<le> 12" "d \<le> 31" "1 \<le> m" "1 \<le> d" using civil_small[OF c y] r by (auto simp: real_day_def)
  have hms: "s mod 86400 div 3600 \<le> 23" "s mod 86400 mod 3600 div 60 \<le> 59" "s mod 86400 mod 60 \<le> 59"
  proof -
    have "s mod 86400 < 24 * 3600" "s mod 86400 mod 3600 < 60 * 60" by simp_all
    then have "s mod 86400 div 3600 < 24" "s mod 86400 mod 3600 div 60 < 60"
      by (blast intro: less_mult_imp_div_less)+
    moreover have "s mod 86400 mod 60 < 60" by (rule mod_less_divisor) simp
    ultimately show "s mod 86400 div 3600 \<le> 23" "s mod 86400 mod 3600 div 60 \<le> 59" "s mod 86400 mod 60 \<le> 59"
      by simp_all
  qed
  have u: "unat (ut_year t) = y" "unat (ut_month t) = m" "unat (ut_day t) = d"
    "unat (ut_hour t) = s mod 86400 div 3600" "unat (ut_minute t) = s mod 86400 mod 3600 div 60"
    using y md hms by (simp_all add: t)
  have us: "ut_second t = Some (of_nat (s mod 86400 mod 60))"
    "unat (of_nat (s mod 86400 mod 60) :: u8) = s mod 86400 mod 60"
    using hms by (simp_all add: t)
  have sec: "seconds_of t = s mod 86400"
  proof -
    have "seconds_of t = s mod 86400 div 3600 * 3600 + s mod 86400 mod 3600 div 60 * 60 + s mod 86400 mod 60"
      by (simp only: seconds_of_def u us option.case)
    also have "s mod 86400 mod 60 = s mod 86400 mod 3600 mod 60" by (simp add: mod_mod_cancel)
    finally show ?thesis by simp
  qed
  have "is_plausible t" unfolding is_plausible_nat u us using y md hms us(2) by auto
  moreover have "day_count y m d = s div 86400"
    using era_day_count[OF y] md e by simp
  moreover have "s div 86400 * 86400 + s mod 86400 = s" by (rule div_mult_mod_eq)
  ultimately show ?thesis using r unfolding to_unix_count real_date_def u sec us by simp
qed

lemma to_unix_from_unix:
  assumes "to_unix_seconds t = Some s" "real_date t" "ut_second t \<noteq> None"
  shows "from_unix_seconds s = Some t"
proof -
  let ?y = "unat (ut_year t)" and ?m = "unat (ut_month t)" and ?d = "unat (ut_day t)"
  from assms(1) have pl: "is_plausible t" and s: "s = day_count ?y ?m ?d * 86400 + seconds_of t"
    by (auto simp: to_unix_count split: if_splits)
  have y: "2000 \<le> ?y" "?y \<le> 2099" "1 \<le> ?m" "?m \<le> 12" "1 \<le> ?d" using pl by (auto simp: is_plausible_nat)
  obtain sec where sec: "ut_second t = Some sec" "unat sec \<le> 59" using assms(3) pl by (auto simp: is_plausible_nat)
  have dm: "s div 86400 = day_count ?y ?m ?d" "s mod 86400 = seconds_of t"
    using seconds_of_less[OF pl] by (simp_all add: s)
  have "era_day ?y ?m ?d = s div 86400 + 719468" using era_day_count[OF y] dm(1) by simp
  then have c: "civil (s div 86400 + 719468) = (?y, ?m, ?d)"
    using era_day_civil[OF y(1,2) assms(2)[unfolded real_date_def]] by (simp only:)
  have mi: "unat (ut_minute t) \<le> 59" using pl by (simp add: is_plausible_nat)
  have so: "seconds_of t = unat (ut_hour t) * 3600 + (unat (ut_minute t) * 60 + unat sec)"
    by (simp add: seconds_of_def sec)
  have lo: "unat (ut_minute t) * 60 + unat sec < 3600" using mi sec by simp
  have "seconds_of t div 3600 = unat (ut_hour t)" "seconds_of t mod 3600 = unat (ut_minute t) * 60 + unat sec"
    using lo by (simp_all add: so)
  moreover have "(unat (ut_minute t) * 60 + unat sec) div 60 = unat (ut_minute t)" using sec by simp
  moreover have "seconds_of t mod 60 = unat sec"
  proof -
    have "seconds_of t = unat sec + (unat (ut_hour t) * 60 + unat (ut_minute t)) * 60" by (simp add: so)
    then show ?thesis using sec(2) by (simp only: mod_mult_self1) simp
  qed
  ultimately show ?thesis
    using y sec(1) unfolding from_unix_civil c dm(2) by simp
qed

lemma clock_length: "decode_clock p = Inr t \<Longrightarrow> \<exists>y mo d h mi s. p = [y, mo, d, h, mi, s]"
  by (auto simp: decode_clock_def split: list.splits)

lemma encode_clock_length: "encode_clock t = Inr p \<Longrightarrow> \<exists>y mo d h mi s. p = [y, mo, d, h, mi, s]"
  by (auto simp: encode_clock_def rbind_Inr_iff)

lemma bcd_field_le: "bcd_field b = Inr v \<Longrightarrow> unat v \<le> 99"
  by (auto simp: bcd_field_byte dest: bcd_byte_ok)

lemma clock_fields:
  "decode_clock [y, mo, d, h, mi, s] = Inr t \<longleftrightarrow>
     encode_clock t = Inr [y, mo, d, h, mi, s] \<and> ut_second t \<noteq> None"
  unfolding decode_clock_def encode_clock_def
  by (cases "ut_second t")
    (auto simp: rbind_Inr_iff year_byte_iff bcd_field_byte[symmetric] dest: bcd_field_le
      intro!: ups_time.equality)

lemma schedule_fields:
  "decode_schedule [y, mo, d, h, mi] = Inr t \<longleftrightarrow>
     encode_schedule t = Inr [y, mo, d, h, mi] \<and> ut_second t = None"
  unfolding decode_schedule_def encode_schedule_def
  by (auto simp: rbind_Inr_iff year_byte_iff bcd_field_byte[symmetric] dest: bcd_field_le
      intro!: ups_time.equality)

text \<open>The time at a given second, found by counting back from the time.\<close>

lemmas count_back = to_unix_seconds_def is_plausible_def Let_def real_date_def real_day_def month_days_def

abbreviation stamp :: "u16 \<Rightarrow> u8 \<Rightarrow> u8 \<Rightarrow> u8 \<Rightarrow> u8 \<Rightarrow> u8 option \<Rightarrow> ups_time" where
  "stamp y mo d h mi s \<equiv>
     \<lparr>ut_year = y, ut_month = mo, ut_day = d, ut_hour = h, ut_minute = mi, ut_second = s\<rparr>"

lemma sample_second: "from_unix_seconds 1789482600 = Some (stamp 2026 9 15 14 30 (Some 0))"
  by (rule to_unix_from_unix; simp add: count_back)

lemma clock_codec_iff: "decode_clock p = Inr t \<longleftrightarrow> encode_clock t = Inr p \<and> ut_second t \<noteq> None"
proof (cases "\<exists>y mo d h mi s. p = [y, mo, d, h, mi, s]")
  case True
  then show ?thesis using clock_fields by blast
next
  case False
  then show ?thesis using clock_length encode_clock_length by blast
qed

text \<open>The clock codec is exact: a payload decodes to a time with a seconds field exactly when that
  time encodes to the payload, and in particular nothing of another length, and nothing with a
  field that is not BCD, decodes.\<close>

theorem clock_codec: "decode_clock p = Inr t \<longleftrightarrow> encode_clock t = Inr p \<and> ut_second t \<noteq> None"
  by (rule clock_codec_iff)

lemma schedule_codec: "decode_schedule p = Inr t \<longleftrightarrow> encode_schedule t = Inr p \<and> ut_second t = None"
proof (cases "\<exists>y mo d h mi. p = [y, mo, d, h, mi]")
  case True
  then show ?thesis using schedule_fields by blast
next
  case False
  then show ?thesis
    by (auto simp: decode_schedule_def encode_schedule_def rbind_Inr_iff split: list.splits)
qed

text \<open>The two conversions between unix seconds and clock times are inverse to each other on real
  dates: \<open>from_unix_seconds s\<close> is \<open>t\<close> exactly when \<open>t\<close> is a plausible time with a seconds field,
  its day exists in its month, and \<open>to_unix_seconds t\<close> is \<open>s\<close>. Every second of 2000 to 2099
  therefore has one clock time.\<close>

theorem unix_seconds_roundtrip:
  "from_unix_seconds s = Some t \<longleftrightarrow> to_unix_seconds t = Some s \<and> real_date t \<and> ut_second t \<noteq> None"
  using from_unix_to_unix to_unix_from_unix by blast

text \<open>\<open>to_unix_seconds\<close> agrees with counting days by the calendar's own rules: for a plausible
  time it is the number of days in the years since 1970 and the months since January, plus the
  seconds of the day, and for any other time it is nothing.\<close>

theorem to_unix_counts_days:
  "to_unix_seconds t =
     (if is_plausible t
      then Some (day_count (unat (ut_year t)) (unat (ut_month t)) (unat (ut_day t)) * 86400 + seconds_of t)
      else None)"
  by (rule to_unix_count)

end
