(* ===== verification/Policy.thy ===== *)
theory Policy
  imports UpsTime
begin

text \<open>
  What a battery reading means (\<open>crates/argon-proto/src/ups/policy.rs\<close>): the thresholds and
  their check, the state machine that classifies readings with hysteresis and confirmation, and
  the shutdown advice. The theorems speak of whole histories of poll results.
\<close>

section \<open>Data\<close>

record observation =
  ob_percent :: u8
  ob_source :: power_source

datatype level = OnMains | OnBattery | Low | Critical | Unknown

fun level_text :: "level \<Rightarrow> string" where
  "level_text OnMains = ''on mains''"
| "level_text OnBattery = ''on battery''"
| "level_text Low = ''battery low''"
| "level_text Critical = ''battery critical''"
| "level_text Unknown = ''unknown''"

datatype advice = NoAdvice | Shutdown | HeldForUptime duration

record decision =
  dc_level :: level
  dc_changed_from :: "level option"
  dc_advice :: advice
  dc_confirmed_recovery :: bool

record policy_config =
  low_percent :: u8
  critical_percent :: u8
  recover_margin :: u8
  confirmations :: u8
  min_uptime :: duration

definition policy_config_default :: policy_config where
  "policy_config_default = \<lparr>low_percent = 20, critical_percent = 10, recover_margin = 5,
     confirmations = 2, min_uptime = from_secs 120\<rparr>"

datatype policy_error = CriticalNotBelowLow | PolicyOutOfRange | NoConfirmations | NoMargin

fun policy_error_text :: "policy_error \<Rightarrow> string" where
  "policy_error_text CriticalNotBelowLow = ''critical_percent must be below low_percent''"
| "policy_error_text PolicyOutOfRange = ''thresholds must be within 0..=100''"
| "policy_error_text NoConfirmations =
     ''confirmations must be at least 1; 0 would act on a single reading''"
| "policy_error_text NoMargin = ''recover_margin must be at least 1; 0 lets a reading flap''"

definition policy_validate :: "policy_config \<Rightarrow> policy_error + unit" where
  "policy_validate c =
     (if 100 < low_percent c \<or> 100 < critical_percent c then Inl PolicyOutOfRange
      else if low_percent c \<le> critical_percent c then Inl CriticalNotBelowLow
      else if confirmations c = 0 then Inl NoConfirmations
      else if recover_margin c = 0 then Inl NoMargin
      else Inr ())"

record battery_policy =
  bp_config :: policy_config
  bp_known :: level
  bp_critical_streak :: u8
  bp_mains_streak :: u8
  bp_reported :: level

definition policy_new :: "policy_config \<Rightarrow> policy_error + battery_policy" where
  "policy_new c =
     (case policy_validate c of
        Inr _ \<Rightarrow> Inr \<lparr>bp_config = c, bp_known = Unknown, bp_critical_streak = 0,
                        bp_mains_streak = 0, bp_reported = Unknown\<rparr>
      | Inl e \<Rightarrow> Inl e)"

section \<open>Classifying and advising\<close>

definition classify :: "battery_policy \<Rightarrow> observation \<Rightarrow> battery_policy \<times> level" where
  "classify p ob =
     (let c = bp_config p; percent = min (ob_percent ob) 100
      in if ob_source ob = Mains then
           let p1 = p\<lparr>bp_mains_streak := sat_inc_u8 (bp_mains_streak p)\<rparr>;
               p2 = (if confirmations c \<le> bp_mains_streak p1 then p1\<lparr>bp_critical_streak := 0\<rparr> else p1)
           in (p2, OnMains)
         else
           let p1 = p\<lparr>bp_mains_streak := 0\<rparr>;
               p2 = (if percent \<le> critical_percent c
                     then p1\<lparr>bp_critical_streak := sat_inc_u8 (bp_critical_streak p1)\<rparr>
                     else p1\<lparr>bp_critical_streak := 0\<rparr>);
               clears = (\<lambda>threshold. unat threshold + unat (recover_margin c) \<le> unat percent);
               confirmed = (confirmations c \<le> bp_critical_streak p2)
           in (p2,
               if bp_known p2 = Critical \<and> \<not> clears (critical_percent c) then Critical
               else if (bp_known p2 = Critical \<or> bp_known p2 = Low) \<and> \<not> clears (low_percent c)
                 then if confirmed then Critical else Low
               else if percent \<le> critical_percent c then if confirmed then Critical else Low
               else if percent \<le> low_percent c then Low
               else OnBattery))"

definition observe :: "battery_policy \<Rightarrow> observation option \<Rightarrow> duration \<Rightarrow> battery_policy \<times> decision" where
  "observe p obs uptime =
     (let previous = bp_reported p;
          (p1, lvl) =
            (case obs of
               None \<Rightarrow>
                 let p0 = p\<lparr>bp_critical_streak := 0, bp_mains_streak := 0\<rparr>
                 in (if bp_known p0 = Critical then p0\<lparr>bp_known := Low\<rparr> else p0, Unknown)
             | Some ob \<Rightarrow> let (p0, l) = classify p ob in (p0\<lparr>bp_known := l\<rparr>, l));
          p2 = p1\<lparr>bp_reported := lvl\<rparr>;
          adv = (if lvl = Critical
                 then if uptime < min_uptime (bp_config p2)
                      then HeldForUptime (min_uptime (bp_config p2) - uptime) else Shutdown
                 else NoAdvice)
      in (p2, \<lparr>dc_level = lvl,
               dc_changed_from = (if lvl \<noteq> previous then Some previous else None),
               dc_advice = adv,
               dc_confirmed_recovery =
                 (lvl = OnMains \<and> confirmations (bp_config p2) \<le> bp_mains_streak p2)\<rparr>))"

section \<open>Histories\<close>

text \<open>A poll result and the uptime it was taken at; the newest is last.\<close>

type_synonym polled = "observation option \<times> duration"

fun observe_all :: "battery_policy \<Rightarrow> polled list \<Rightarrow> battery_policy" where
  "observe_all p [] = p"
| "observe_all p ((obs, up) # polls) = observe_all (fst (observe p obs up)) polls"

lemma observe_all_append [simp]: "observe_all p (xs @ ys) = observe_all (observe_all p xs) ys"
  by (induction p xs rule: observe_all.induct) auto

definition critical_reading :: "policy_config \<Rightarrow> polled \<Rightarrow> bool" where
  "critical_reading c x \<longleftrightarrow>
     (\<exists>ob. fst x = Some ob \<and> ob_source ob = Battery \<and> min (ob_percent ob) 100 \<le> critical_percent c)"

definition mains_reading :: "polled \<Rightarrow> bool" where
  "mains_reading x \<longleftrightarrow> (\<exists>ob. fst x = Some ob \<and> ob_source ob = Mains)"

definition failed_reading :: "polled \<Rightarrow> bool" where
  "failed_reading x \<longleftrightarrow> fst x = None"

text \<open>Critical readings since the last failed one, and the run of mains readings at the end.\<close>

definition fresh_criticals :: "policy_config \<Rightarrow> polled list \<Rightarrow> nat" where
  "fresh_criticals c xs = length (filter (critical_reading c) (takeWhile (\<lambda>x. \<not> failed_reading x) (rev xs)))"

definition mains_run :: "polled list \<Rightarrow> nat" where
  "mains_run xs = length (takeWhile mains_reading (rev xs))"

lemma fresh_criticals_snoc:
  "fresh_criticals c (xs @ [x]) =
     (if failed_reading x then 0 else fresh_criticals c xs + (if critical_reading c x then 1 else 0))"
  unfolding fresh_criticals_def by (cases "failed_reading x"; cases "critical_reading c x") simp_all

lemma mains_run_snoc: "mains_run (xs @ [x]) = (if mains_reading x then Suc (mains_run xs) else 0)"
  by (simp add: mains_run_def)

lemma not_mains [simp]: "s \<noteq> Mains \<longleftrightarrow> s = Battery"
  by (cases s) simp_all

text \<open>One observation, seen through what the theorems need of it.\<close>

lemma observe_config [simp]: "bp_config (fst (observe p obs up)) = bp_config p"
  by (auto simp: observe_def classify_def Let_def split: option.splits prod.splits if_splits)

lemma observe_all_config [simp]: "bp_config (observe_all p xs) = bp_config p"
  by (induction p xs rule: observe_all.induct) auto

lemma observe_mains_streak:
  "bp_mains_streak (fst (observe p obs up)) =
     (if mains_reading (obs, up) then sat_inc_u8 (bp_mains_streak p) else 0)"
  by (auto simp: observe_def classify_def Let_def mains_reading_def split: option.splits)

lemma observe_level:
  "dc_level (snd (observe p obs up)) =
     (case obs of None \<Rightarrow> Unknown | Some ob \<Rightarrow> snd (classify p ob))"
  by (auto simp: observe_def Let_def split: option.splits prod.splits)

lemma observe_advice:
  "dc_advice (snd (observe p obs up)) =
     (if dc_level (snd (observe p obs up)) = Critical
      then if up < min_uptime (bp_config p) then HeldForUptime (min_uptime (bp_config p) - up) else Shutdown
      else NoAdvice)"
  by (auto simp: observe_def classify_def Let_def split: option.splits prod.splits)

lemma observe_recovery:
  "dc_confirmed_recovery (snd (observe p obs up)) \<longleftrightarrow>
     dc_level (snd (observe p obs up)) = OnMains \<and>
     confirmations (bp_config p) \<le> bp_mains_streak (fst (observe p obs up))"
  by (auto simp: observe_def classify_def Let_def split: option.splits prod.splits)

lemma classify_simps:
  "snd (classify p ob) =
     (let c = bp_config p; percent = min (ob_percent ob) 100;
          streak = (if percent \<le> critical_percent c then sat_inc_u8 (bp_critical_streak p) else 0);
          clears = (\<lambda>threshold. unat threshold + unat (recover_margin c) \<le> unat percent)
      in if ob_source ob = Mains then OnMains
         else if bp_known p = Critical \<and> \<not> clears (critical_percent c) then Critical
         else if (bp_known p = Critical \<or> bp_known p = Low) \<and> \<not> clears (low_percent c)
           then if confirmations c \<le> streak then Critical else Low
         else if percent \<le> critical_percent c then if confirmations c \<le> streak then Critical else Low
         else if percent \<le> low_percent c then Low
         else OnBattery)"
  by (simp add: classify_def Let_def)

lemma observe_known:
  "bp_known (fst (observe p obs up)) =
     (case obs of None \<Rightarrow> if bp_known p = Critical then Low else bp_known p | Some ob \<Rightarrow> snd (classify p ob))"
  by (auto simp: observe_def Let_def split: option.splits prod.splits)

lemma observe_streak:
  "bp_critical_streak (fst (observe p obs up)) =
     (case obs of
        None \<Rightarrow> 0
      | Some ob \<Rightarrow>
          if ob_source ob = Mains
          then if confirmations (bp_config p) \<le> sat_inc_u8 (bp_mains_streak p) then 0 else bp_critical_streak p
          else if min (ob_percent ob) 100 \<le> critical_percent (bp_config p)
            then sat_inc_u8 (bp_critical_streak p) else 0)"
  by (auto simp: observe_def classify_def Let_def split: option.splits)

lemma observe_on_mains: "dc_level (snd (observe p obs up)) = OnMains \<longleftrightarrow> mains_reading (obs, up)"
  by (cases obs) (simp_all add: observe_level classify_simps Let_def mains_reading_def)

lemma critical_is_battery: "critical_reading c x \<Longrightarrow> \<not> mains_reading x \<and> \<not> failed_reading x"
  by (auto simp: critical_reading_def mains_reading_def failed_reading_def)

section \<open>Safety: what a shutdown needs\<close>

definition policy_inv :: "battery_policy \<Rightarrow> polled list \<Rightarrow> bool" where
  "policy_inv p xs \<longleftrightarrow>
     unat (bp_mains_streak p) = min 255 (mains_run xs) \<and>
     unat (bp_critical_streak p) \<le> fresh_criticals (bp_config p) xs \<and>
     (bp_known p = Critical \<longrightarrow> unat (confirmations (bp_config p)) \<le> fresh_criticals (bp_config p) xs)"

lemma policy_inv_new: "policy_new c = Inr p \<Longrightarrow> policy_inv p [] \<and> bp_config p = c"
  by (auto simp: policy_new_def policy_inv_def mains_run_def split: sum.splits)

lemma critical_level_streak:
  "snd (classify p ob) = Critical \<Longrightarrow> bp_known p \<noteq> Critical \<Longrightarrow>
     ob_source ob = Battery \<and>
     confirmations (bp_config p) \<le>
       (if min (ob_percent ob) 100 \<le> critical_percent (bp_config p)
        then sat_inc_u8 (bp_critical_streak p) else 0)"
  by (auto simp: classify_simps Let_def split: if_splits)

lemma policy_inv_observe:
  assumes "policy_inv p xs"
  shows "policy_inv (fst (observe p obs up)) (xs @ [(obs, up)])"
proof -
  let ?c = "bp_config p" and ?p = "fst (observe p obs up)"
  have fc: "unat (bp_critical_streak ?p) \<le> fresh_criticals ?c (xs @ [(obs, up)])"
    using assms sat_inc_upto[of 255 "unat (bp_critical_streak p)"]
    by (auto simp: policy_inv_def observe_streak fresh_criticals_snoc failed_reading_def
        critical_reading_def split: option.splits)
  have ms: "unat (bp_mains_streak ?p) = min 255 (mains_run (xs @ [(obs, up)]))"
    using assms by (auto simp: policy_inv_def observe_mains_streak mains_run_snoc sat_inc_def min_def)
  have "unat (confirmations ?c) \<le> fresh_criticals ?c (xs @ [(obs, up)])" if k: "bp_known ?p = Critical"
  proof -
    obtain ob where ob: "obs = Some ob" "snd (classify p ob) = Critical"
      using k by (auto simp: observe_known split: option.splits if_splits)
    show ?thesis
    proof (cases "bp_known p = Critical")
      case True
      then show ?thesis using assms ob
        by (auto simp: policy_inv_def fresh_criticals_snoc failed_reading_def)
    next
      case False
      then have "unat (confirmations ?c) \<le> unat (bp_critical_streak ?p)"
        using critical_level_streak[OF ob(2)] ob(1)
        by (auto simp: observe_streak word_le_nat_alt split: if_splits)
      then show ?thesis using fc by simp
    qed
  qed
  with fc ms show ?thesis by (simp add: policy_inv_def)
qed

lemma policy_inv_all: "policy_inv p ys \<Longrightarrow> policy_inv (observe_all p xs) (ys @ xs)"
proof (induction p xs arbitrary: ys rule: observe_all.induct)
  case (2 p obs up polls)
  from "2.IH"[OF policy_inv_observe[OF "2.prems", of obs up]] show ?case by simp
qed simp

lemma policy_inv_reached: "policy_new c = Inr p \<Longrightarrow> policy_inv (observe_all p xs) xs"
  using policy_inv_all[of p "[]" xs] policy_inv_new by auto

lemma policy_new_config: "policy_new c = Inr p \<Longrightarrow> bp_config p = c"
  using policy_inv_new by blast

lemma policy_new_valid: "policy_new c = Inr p \<Longrightarrow> policy_validate c = Inr ()"
  by (auto simp: policy_new_def split: sum.splits)

lemma policy_valid_iff:
  "policy_validate c = Inr () \<longleftrightarrow>
     unat (low_percent c) \<le> 100 \<and> unat (critical_percent c) < unat (low_percent c) \<and>
     0 < unat (confirmations c) \<and> 0 < unat (recover_margin c)"
proof -
  have z: "(w = 0) = (unat w = 0)" for w :: u8 by (simp add: unat_eq_0)
  show ?thesis by (auto simp: policy_validate_def word_less_nat_alt word_le_nat_alt z)
qed

lemma shutdown_cause:
  assumes "policy_new c = Inr p"
    and "dc_advice (snd (observe (observe_all p polls) obs uptime)) = Shutdown"
  shows "(\<exists>ob. obs = Some ob \<and> ob_source ob = Battery) \<and> min_uptime c \<le> uptime \<and>
         unat (confirmations c) \<le> fresh_criticals c (polls @ [(obs, uptime)])"
proof -
  let ?p = "observe_all p polls"
  have c: "bp_config ?p = c" using policy_new_config[OF assms(1)] by simp
  have crit: "dc_level (snd (observe ?p obs uptime)) = Critical" and up: "min_uptime c \<le> uptime"
    using assms(2) c by (auto simp: observe_advice split: if_splits)
  then obtain ob where ob: "obs = Some ob" "snd (classify ?p ob) = Critical"
    by (auto simp: observe_level split: option.splits)
  have "ob_source ob = Battery" using ob(2) by (auto simp: classify_simps Let_def split: if_splits)
  moreover have "bp_known (fst (observe ?p obs uptime)) = Critical" using ob by (simp add: observe_known)
  moreover have "policy_inv (fst (observe ?p obs uptime)) (polls @ [(obs, uptime)])"
    using policy_inv_observe[OF policy_inv_reached[OF assms(1)]] .
  ultimately show ?thesis using ob(1) up c by (simp add: policy_inv_def)
qed

text \<open>C3: The policy advises a shutdown only for a confirmed, fresh cause: after any history of polls, if
  the next observation is answered with \<open>Shutdown\<close>, then it is a reading on battery, the machine
  has been up for the hold time, and since the last failed read at least \<open>confirmations\<close> readings
  were on battery at or below the critical threshold. In particular a failed read is never
  answered with a shutdown and it discards the confirmations before it.\<close>

theorem policy_shutdown_confirmed:
  assumes "policy_new c = Inr p"
    and "dc_advice (snd (observe (observe_all p polls) obs uptime)) = Shutdown"
  shows "(\<exists>ob. obs = Some ob \<and> ob_source ob = Battery) \<and> min_uptime c \<le> uptime \<and>
         unat (confirmations c) \<le> fresh_criticals c (polls @ [(obs, uptime)])"
  by (rule shutdown_cause[OF assms])

lemma recovery_cause:
  assumes "policy_new c = Inr p"
  shows "dc_confirmed_recovery (snd (observe (observe_all p polls) obs uptime)) \<longleftrightarrow>
         unat (confirmations c) \<le> mains_run (polls @ [(obs, uptime)])"
proof -
  let ?p = "observe_all p polls"
  have c: "bp_config ?p = c" using policy_new_config[OF assms(1)] by simp
  have inv: "policy_inv (fst (observe ?p obs uptime)) (polls @ [(obs, uptime)])"
    using policy_inv_observe[OF policy_inv_reached[OF assms(1)]] .
  have pos: "0 < unat (confirmations c)" using policy_new_valid[OF assms(1)] policy_valid_iff by blast
  have "dc_confirmed_recovery (snd (observe ?p obs uptime)) \<longleftrightarrow>
      mains_reading (obs, uptime) \<and> confirmations c \<le> bp_mains_streak (fst (observe ?p obs uptime))"
    by (simp add: observe_recovery observe_on_mains policy_new_config[OF assms(1)])
  also have "\<dots> \<longleftrightarrow> unat (confirmations c) \<le> mains_run (polls @ [(obs, uptime)])"
    using inv pos unat_u8_le[of "confirmations c"]
    by (auto simp: policy_inv_def word_le_nat_alt mains_run_snoc)
  finally show ?thesis .
qed

text \<open>A recovery is confirmed exactly when it is real: after any history, an observation reports
  \<open>confirmed_recovery\<close> if and only if it and the polls just before it make a run of at least
  \<open>confirmations\<close> consecutive readings on mains.\<close>

theorem policy_recovery_iff:
  assumes "policy_new c = Inr p"
  shows "dc_confirmed_recovery (snd (observe (observe_all p polls) obs uptime)) \<longleftrightarrow>
         unat (confirmations c) \<le> mains_run (polls @ [(obs, uptime)])"
  by (rule recovery_cause[OF assms])

section \<open>Liveness: a flapping supply does not hide an empty battery\<close>

lemma streak_counts:
  assumes "policy_inv p pre"
    and "\<forall>x \<in> set xs. critical_reading (bp_config p) x \<or> mains_reading x"
    and "\<forall>n \<le> length xs. mains_run (pre @ take n xs) < unat (confirmations (bp_config p))"
  shows "min 255 (length (filter (critical_reading (bp_config p)) xs)) \<le>
           unat (bp_critical_streak (observe_all p xs))"
  using assms(2,3)
proof (induction xs rule: rev_induct)
  case (snoc x xs)
  let ?c = "bp_config p" and ?q = "observe_all p xs"
  obtain obs up where x: "x = (obs, up)" by (cases x)
  have "mains_run (pre @ take n xs) < unat (confirmations ?c)" if "n \<le> length xs" for n
    using snoc.prems(2)[rule_format, of n] that by simp
  then have IH: "min 255 (length (filter (critical_reading ?c) xs)) \<le> unat (bp_critical_streak ?q)"
    using snoc.IH snoc.prems(1) by simp
  have inv: "policy_inv (fst (observe ?q obs up)) (pre @ xs @ [x])"
    using policy_inv_observe[OF policy_inv_all[OF assms(1), of xs], of obs up] by (simp add: x)
  show ?case
  proof (cases "mains_reading x")
    case True
    have "mains_run (pre @ xs @ [x]) < unat (confirmations ?c)"
      using snoc.prems(2)[rule_format, of "Suc (length xs)"] by simp
    then have "\<not> confirmations ?c \<le> sat_inc_u8 (bp_mains_streak ?q)"
      using inv True unfolding policy_inv_def observe_mains_streak
      by (auto simp: x word_le_nat_alt observe_mains_streak)
    moreover have "\<not> critical_reading ?c x" using True critical_is_battery by blast
    ultimately show ?thesis using IH True
      by (auto simp: x observe_streak mains_reading_def)
  next
    case False
    then have cr: "critical_reading ?c x" using snoc.prems(1) by auto
    then have "unat (bp_critical_streak (observe_all p (xs @ [x]))) = sat_inc 255 (unat (bp_critical_streak ?q))"
      by (auto simp: x observe_streak critical_reading_def)
    with IH cr show ?thesis by (auto simp: sat_inc_def)
  qed
qed simp

lemma critical_level:
  assumes "critical_reading (bp_config p) (obs, up)" "0 < unat (recover_margin (bp_config p))"
    and "confirmations (bp_config p) \<le> sat_inc_u8 (bp_critical_streak p)"
  shows "dc_level (snd (observe p obs up)) = Critical"
  using assms by (auto simp: observe_level classify_simps critical_reading_def Let_def word_le_nat_alt)

text \<open>A supply that flaps does not hide an empty battery: after any history, take polls that are each
  critical on battery or a mains reading, with every run of mains readings shorter than
  \<open>confirmations\<close>. Once at least \<open>confirmations\<close> of them were critical, every further critical
  reading is answered with \<open>Shutdown\<close>, or with the exact time left of the uptime hold.\<close>

theorem policy_flapping_shutdown:
  assumes "policy_new c = Inr p"
    and "\<forall>x \<in> set xs. critical_reading c x \<or> mains_reading x"
    and "\<forall>n \<le> length xs. mains_run (before @ take n xs) < unat (confirmations c)"
    and "critical_reading c (obs, uptime)"
    and "unat (confirmations c) \<le> length (filter (critical_reading c) (xs @ [(obs, uptime)]))"
  shows "dc_advice (snd (observe (observe_all p (before @ xs)) obs uptime)) =
         (if uptime < min_uptime c then HeldForUptime (min_uptime c - uptime) else Shutdown)"
proof -
  let ?q = "observe_all p before"
  have c: "bp_config p = c" using policy_new_config[OF assms(1)] .
  have "min 255 (length (filter (critical_reading c) xs)) \<le> unat (bp_critical_streak (observe_all ?q xs))"
    using streak_counts[of ?q before xs] policy_inv_reached[OF assms(1)] assms(2,3) c by simp
  then have "unat (confirmations c) \<le> sat_inc 255 (unat (bp_critical_streak (observe_all ?q xs)))"
    using assms(4,5) unat_u8_le[of "confirmations c"] by (auto simp: sat_inc_def)
  moreover have "0 < unat (recover_margin c)"
    using policy_new_valid[OF assms(1)] policy_valid_iff by blast
  ultimately have "dc_level (snd (observe (observe_all ?q xs) obs uptime)) = Critical"
    using assms(4) c by (intro critical_level) (simp_all add: word_le_nat_alt)
  then show ?thesis using c by (simp add: observe_advice)
qed

lemma policy_new_default:
  "policy_new policy_config_default =
     Inr \<lparr>bp_config = policy_config_default, bp_known = Unknown, bp_critical_streak = 0,
          bp_mains_streak = 0, bp_reported = Unknown\<rparr>"
  by (simp add: policy_new_def policy_validate_def policy_config_default_def)

definition fresh_policy :: battery_policy where
  "fresh_policy = \<lparr>bp_config = policy_config_default, bp_known = Unknown, bp_critical_streak = 0,
          bp_mains_streak = 0, bp_reported = Unknown\<rparr>"

abbreviation sample_reading :: "u8 \<Rightarrow> power_source \<Rightarrow> observation option" where
  "sample_reading pct src \<equiv> Some \<lparr>ob_percent = pct, ob_source = src\<rparr>"

theorem policy_shutdown_confirmed_witness:
  "(\<exists>ob. sample_reading 7 Battery = Some ob \<and> ob_source ob = Battery) \<and>
   min_uptime policy_config_default \<le> from_secs 500 \<and>
   unat (confirmations policy_config_default) \<le>
     fresh_criticals policy_config_default ([(sample_reading 8 Battery, from_secs 400)] @ [(sample_reading 7 Battery, from_secs 500)])"
proof (rule policy_shutdown_confirmed[OF policy_new_default])
  show "dc_advice (snd (observe (observe_all \<lparr>bp_config = policy_config_default, bp_known = Unknown,
      bp_critical_streak = 0, bp_mains_streak = 0, bp_reported = Unknown\<rparr>
      [(sample_reading 8 Battery, from_secs 400)]) (sample_reading 7 Battery) (from_secs 500))) = Shutdown"
    by (simp add: observe_def classify_def policy_config_default_def sat_inc_u8_def Let_def)
qed

theorem policy_recovery_iff_witness:
  "dc_confirmed_recovery (snd (observe (observe_all fresh_policy [(sample_reading 50 Mains, 0)]) (sample_reading 50 Mains) 1)) \<longleftrightarrow>
   unat (confirmations policy_config_default) \<le> mains_run ([(sample_reading 50 Mains, 0)] @ [(sample_reading 50 Mains, 1)])"
  unfolding fresh_policy_def by (rule policy_recovery_iff[OF policy_new_default])

theorem policy_flapping_shutdown_witness:
  "dc_advice (snd (observe (observe_all fresh_policy
      ([] @ [(sample_reading 8 Battery, 0), (sample_reading 60 Mains, 1)])) (sample_reading 7 Battery) (from_secs 300))) =
   (if from_secs 300 < min_uptime policy_config_default
    then HeldForUptime (min_uptime policy_config_default - from_secs 300) else Shutdown)"
  unfolding fresh_policy_def
proof (rule policy_flapping_shutdown[OF policy_new_default])
  show "\<forall>n \<le> length [(sample_reading 8 Battery, 0), (sample_reading 60 Mains, 1)].
      mains_run ([] @ take n [(sample_reading 8 Battery, 0), (sample_reading 60 Mains, 1)])
        < unat (confirmations policy_config_default)"
    by (auto simp: mains_run_def mains_reading_def policy_config_default_def take_Cons split: nat.splits)
qed (auto simp: critical_reading_def mains_reading_def policy_config_default_def)

end
