(* ===== verification/Hal.thy ===== *)
theory Hal
  imports Prelude
begin

text \<open>
  The transport layer (\<open>crates/argon-hal\<close>): its error type (\<open>lib.rs\<close>), the operating modes
  (\<open>mode.rs\<close>) and the I2C bus with its decorators (\<open>i2c.rs\<close>). The trait \<open>I2cBus\<close> is a record of
  operations over a bus state; a decorator takes such a record to another. The Linux bus itself
  is a parameter.
\<close>

section \<open>Errors\<close>

datatype hal_error =
  Io string
| Timeout
| WriteBlocked string string
| RateLimited duration
| ParseError string string

text \<open>\<open>{:?}\<close> on a string: quoted, with the characters that do not print escaped.\<close>

fun show_hex :: "nat \<Rightarrow> string" where
  "show_hex n = (if n < 16 then [hex_char n] else show_hex (n div 16) @ [hex_char (n mod 16)])"

declare show_hex.simps [simp del]

definition debug_char :: "char \<Rightarrow> string" where
  "debug_char c =
     (let n = (of_char c :: nat)
      in if n = 0 then [CHR 0x5C, CHR ''0'']
         else if n = 9 then [CHR 0x5C, CHR ''t'']
         else if n = 10 then [CHR 0x5C, CHR ''n'']
         else if n = 13 then [CHR 0x5C, CHR ''r'']
         else if n = 34 then [CHR 0x5C, CHR 0x22]
         else if n = 92 then [CHR 0x5C, CHR 0x5C]
         else if n < 32 \<or> (127 \<le> n \<and> n \<le> 160) \<or> n = 173
           then [CHR 0x5C, CHR ''u'', CHR 0x7B] @ show_hex n @ [CHR 0x7D]
         else [c])"

definition debug_str :: "string \<Rightarrow> string" where
  "debug_str s = [CHR 0x22] @ concat (map debug_char s) @ [CHR 0x22]"

fun hal_error_text :: "hal_error \<Rightarrow> string" where
  "hal_error_text (Io e) = e"
| "hal_error_text Timeout = ''timed out''"
| "hal_error_text (WriteBlocked what reason) = ''refused '' @ what @ '': '' @ reason"
| "hal_error_text (RateLimited retry_after) =
     ''not written: another write is allowed in '' @ show_nat (retry_after div 1000000) @ '' ms''"
| "hal_error_text (ParseError what got) = ''could not parse '' @ what @ '' from '' @ debug_str got"

text \<open>\<open>{:02x?}\<close> on a slice, and the log format of \<open>i2c.rs\<close>.\<close>

fun join :: "string \<Rightarrow> string list \<Rightarrow> string" where
  "join sep [] = []"
| "join sep [x] = x"
| "join sep (x # y # xs) = x @ sep @ join sep (y # xs)"

definition debug_hex :: "u8 list \<Rightarrow> string" where
  "debug_hex bs = ''['' @ join '', '' (map show_hex2 bs) @ '']''"

definition hex_text :: "u8 list \<Rightarrow> string" where
  "hex_text bs = join '' '' (map show_hex2 bs)"

section \<open>Modes\<close>

datatype mode = ReadOnly | Managed | Full

fun allows_writes :: "mode \<Rightarrow> bool" where
  "allows_writes Managed = True"
| "allows_writes Full = True"
| "allows_writes ReadOnly = False"

fun allows_destructive :: "mode \<Rightarrow> bool" where
  "allows_destructive Full = True"
| "allows_destructive _ = False"

fun mode_text :: "mode \<Rightarrow> string" where
  "mode_text ReadOnly = ''read-only''"
| "mode_text Managed = ''managed''"
| "mode_text Full = ''full''"

definition ascii_lower :: "char \<Rightarrow> char" where
  "ascii_lower c = (let n = (of_char c :: nat) in if 65 \<le> n \<and> n \<le> 90 then char_of (n + 32) else c)"

definition mode_parse :: "string \<Rightarrow> mode option" where
  "mode_parse s =
     (let t = map ascii_lower (trim s)
      in if t = ''read-only'' \<or> t = ''readonly'' then Some ReadOnly
         else if t = ''managed'' then Some Managed
         else if t = ''full'' then Some Full
         else None)"

lemma mode_parse_text: "mode_parse (mode_text m) = Some m"
  by (cases m) (simp_all add: mode_parse_def trim_def trim_start_def trim_end_def is_ws_def
      ascii_lower_def Let_def)

section \<open>The I2C bus\<close>

record 'b i2c_ops =
  i2c_write :: "'b \<Rightarrow> u8 \<Rightarrow> u8 list \<Rightarrow> (hal_error + unit) \<times> 'b"
  i2c_probe :: "'b \<Rightarrow> u8 \<Rightarrow> (hal_error + bool) \<times> 'b"
  i2c_describe :: "'b \<Rightarrow> string"

text \<open>\<open>LinuxI2c\<close>: bound to one address, refusing the others. The device calls are parameters:
  the kernel's write and its quick-write, each with the error text of a failure.\<close>

record 'd linux_i2c =
  li_dev :: 'd
  li_path :: string
  li_addr :: u16

definition linux_i2c_ops ::
  "('d \<Rightarrow> u8 list \<Rightarrow> (string + unit) \<times> 'd) \<Rightarrow> ('d \<Rightarrow> (string + unit) \<times> 'd) \<Rightarrow> 'd linux_i2c i2c_ops"
where
  "linux_i2c_ops dev_write dev_quick = \<lparr>
     i2c_write = (\<lambda>b addr data.
       if ucast addr \<noteq> li_addr b
       then (Inl (Io (''bus is bound to 0x'' @ zero_pad 2 (show_hex (unat (li_addr b))) @
                      '', refusing a write to 0x'' @ show_hex2 addr)), b)
       else let (r, d) = dev_write (li_dev b) data in (map_err Io r, b\<lparr>li_dev := d\<rparr>)),
     i2c_probe = (\<lambda>b addr.
       if ucast addr \<noteq> li_addr b then (Inr False, b)
       else let (r, d) = dev_quick (li_dev b) in (Inr (is_ok r), b\<lparr>li_dev := d\<rparr>)),
     i2c_describe = (\<lambda>b. li_path b @ '' @ 0x'' @ zero_pad 2 (show_hex (unat (li_addr b)))) \<rparr>"

definition read_only_ops :: "'b i2c_ops \<Rightarrow> 'b i2c_ops" where
  "read_only_ops bus = \<lparr>
     i2c_write = (\<lambda>b addr data.
       (Inl (WriteBlocked (''i2c 0x'' @ show_hex2 addr @ '' <- '' @ hex_text data)
               ''transport is read-only''), b)),
     i2c_probe = i2c_probe bus,
     i2c_describe = (\<lambda>b. i2c_describe bus b @ '' (read-only)'') \<rparr>"

record 'b dry_run =
  dr_inner :: 'b
  dr_writes :: "(u8 \<times> u8 list) list"

definition dry_run_new :: "'b \<Rightarrow> 'b dry_run" where
  "dry_run_new inner = \<lparr>dr_inner = inner, dr_writes = []\<rparr>"

definition dry_run_ops :: "'b i2c_ops \<Rightarrow> 'b dry_run i2c_ops" where
  "dry_run_ops bus = \<lparr>
     i2c_write = (\<lambda>b addr data. (Inr (), b\<lparr>dr_writes := dr_writes b @ [(addr, data)]\<rparr>)),
     i2c_probe = (\<lambda>b addr. let (r, inner) = i2c_probe bus (dr_inner b) addr in (r, b\<lparr>dr_inner := inner\<rparr>)),
     i2c_describe = (\<lambda>b. i2c_describe bus (dr_inner b) @ '' (dry run)'') \<rparr>"

record 'b rate_limited =
  rl_inner :: 'b
  rl_min_interval :: duration
  rl_last_write :: "instant option"
  rl_suppressed :: nat

definition rate_limited_new :: "'b \<Rightarrow> duration \<Rightarrow> 'b rate_limited" where
  "rate_limited_new inner min_interval =
     \<lparr>rl_inner = inner, rl_min_interval = min_interval, rl_last_write = None, rl_suppressed = 0\<rparr>"

text \<open>The clock is read when the interval is checked (\<open>t0\<close>) and again after the write (\<open>t1\<close>).\<close>

definition rate_limited_ops :: "instant \<Rightarrow> instant \<Rightarrow> 'b i2c_ops \<Rightarrow> 'b rate_limited i2c_ops" where
  "rate_limited_ops t0 t1 bus = \<lparr>
     i2c_write = (\<lambda>b addr data.
       let forward =
             (let (r, inner) = i2c_write bus (rl_inner b) addr data; b1 = b\<lparr>rl_inner := inner\<rparr>
              in case r of
                   Inl e \<Rightarrow> (Inl e, b1)
                 | Inr _ \<Rightarrow> (Inr (), b1\<lparr>rl_last_write := Some t1\<rparr>))
       in case rl_last_write b of
            None \<Rightarrow> forward
          | Some before \<Rightarrow>
              (let elapsed = t0 - before
               in if elapsed < rl_min_interval b
                  then (Inl (RateLimited (rl_min_interval b - elapsed)),
                        b\<lparr>rl_suppressed := rl_suppressed b + 1\<rparr>)
                  else forward)),
     i2c_probe = (\<lambda>b addr. let (r, inner) = i2c_probe bus (rl_inner b) addr in (r, b\<lparr>rl_inner := inner\<rparr>)),
     i2c_describe = (\<lambda>b. i2c_describe bus (rl_inner b)) \<rparr>"

section \<open>What reaches the wire\<close>

text \<open>
  The contract a driver relies on: a write that succeeds puts exactly its bytes on the wire, and
  a write that fails, or a probe, puts none. \<open>wire\<close> is the transactions so far.
\<close>

locale wire_bus =
  fixes bus :: "'b i2c_ops"
    and wire :: "'b \<Rightarrow> (u8 \<times> u8 list) list"
  assumes write_ok: "i2c_write bus b addr data = (Inr u, b') \<Longrightarrow> wire b' = wire b @ [(addr, data)]"
    and write_err: "i2c_write bus b addr data = (Inl e, b') \<Longrightarrow> wire b' = wire b"
    and probe_quiet: "i2c_probe bus b addr = (r, b') \<Longrightarrow> wire b' = wire b"
begin

lemma write_wire:
  "wire (snd (i2c_write bus b addr data)) =
     wire b @ (if is_ok (fst (i2c_write bus b addr data)) then [(addr, data)] else [])"
  by (cases "i2c_write bus b addr data"; cases "fst (i2c_write bus b addr data)")
    (auto simp: write_ok write_err)

text \<open>A limiter over a bus with the contract has it too: what it declines never reaches the wire.\<close>

lemma limited_wire_bus: "wire_bus (rate_limited_ops t0 t1 bus) (\<lambda>b. wire (rl_inner b))"
  by unfold_locales
    (auto simp: rate_limited_ops_def Let_def write_ok write_err probe_quiet
      split: option.splits if_splits sum.splits prod.splits)

end

text \<open>A dry run records instead of writing, so its record is what would have been on the wire.\<close>

interpretation dry: wire_bus "dry_run_ops bus" dr_writes for bus :: "'b i2c_ops"
  by unfold_locales (auto simp: dry_run_ops_def split: prod.splits)

interpretation limited_dry: wire_bus "rate_limited_ops t0 t1 (dry_run_ops bus)" "\<lambda>b. dr_writes (rl_inner b)"
  for t0 t1 and bus :: "'b i2c_ops"
  by (rule dry.limited_wire_bus)

section \<open>The read-only bus\<close>

text \<open>A bus is blocked when a write is always refused and changes nothing.\<close>

locale blocked_bus =
  fixes bus :: "'b i2c_ops"
  assumes refused: "\<exists>what reason. i2c_write bus b addr data = (Inl (WriteBlocked what reason), b)"
begin

lemma blocked_state [simp]: "snd (i2c_write bus b addr data) = b"
  using refused[of b addr data] by auto

lemma blocked_result [simp]: "\<not> is_ok (fst (i2c_write bus b addr data))"
  using refused[of b addr data] by auto

end

interpretation read_only: blocked_bus "read_only_ops bus" for bus :: "'b i2c_ops"
  by unfold_locales (simp add: read_only_ops_def)

section \<open>Rate limiting\<close>

text \<open>A write attempt: the two clock readings around it, the address and the bytes.\<close>

type_synonym attempt = "instant \<times> instant \<times> u8 \<times> u8 list"

fun limited_writes ::
  "'b i2c_ops \<Rightarrow> 'b rate_limited \<Rightarrow> attempt list \<Rightarrow> (attempt \<times> (hal_error + unit)) list \<times> 'b rate_limited"
where
  "limited_writes bus b [] = ([], b)"
| "limited_writes bus b ((t0, t1, addr, data) # xs) =
     (let (r, b1) = i2c_write (rate_limited_ops t0 t1 bus) b addr data;
          (rs, b2) = limited_writes bus b1 xs
      in (((t0, t1, addr, data), r) # rs, b2))"

fun clock_from :: "instant \<Rightarrow> attempt list \<Rightarrow> bool" where
  "clock_from t [] = True"
| "clock_from t ((t0, t1, _, _) # xs) = (t \<le> t0 \<and> t0 \<le> t1 \<and> clock_from t1 xs)"

definition succeeded :: "(attempt \<times> (hal_error + unit)) list \<Rightarrow> attempt list" where
  "succeeded rs = map fst (filter (\<lambda>(_, r). is_ok r) rs)"

text \<open>Each successful attempt's check comes at least the interval after the write before it.\<close>

fun spaced :: "duration \<Rightarrow> instant option \<Rightarrow> attempt list \<Rightarrow> bool" where
  "spaced d before [] = True"
| "spaced d before ((t0, t1, _, _) # xs) =
     ((case before of None \<Rightarrow> True | Some t \<Rightarrow> t + d \<le> t0) \<and> spaced d (Some t1) xs)"

lemma limited_interval [simp]:
  "rl_min_interval (snd (i2c_write (rate_limited_ops t0 t1 bus) b addr data)) = rl_min_interval b"
  by (auto simp: rate_limited_ops_def Let_def split: option.splits sum.splits prod.splits)

lemma limited_last:
  "rl_last_write (snd (i2c_write (rate_limited_ops t0 t1 bus) b addr data)) =
     (if is_ok (fst (i2c_write (rate_limited_ops t0 t1 bus) b addr data)) then Some t1 else rl_last_write b)"
  by (auto simp: rate_limited_ops_def Let_def split: option.splits sum.splits prod.splits)

lemma limited_ok_spaced:
  "is_ok (fst (i2c_write (rate_limited_ops t0 t1 bus) b addr data)) \<Longrightarrow> rl_last_write b = Some t \<Longrightarrow> t \<le> t0 \<Longrightarrow>
     t + rl_min_interval b \<le> t0"
  by (auto simp: rate_limited_ops_def Let_def split: if_splits)

lemma limited_spaced:
  assumes "limited_writes bus b xs = (rs, b')" "clock_from now xs" "\<forall>t. rl_last_write b = Some t \<longrightarrow> t \<le> now"
  shows "spaced (rl_min_interval b) (rl_last_write b) (succeeded rs)"
  using assms
proof (induction xs arbitrary: b now rs)
  case (Cons x xs)
  obtain t0 t1 addr data where x: "x = (t0, t1, addr, data)" by (cases x)
  define r b1 where "r = fst (i2c_write (rate_limited_ops t0 t1 bus) b addr data)"
    and "b1 = snd (i2c_write (rate_limited_ops t0 t1 bus) b addr data)"
  then have w: "i2c_write (rate_limited_ops t0 t1 bus) b addr data = (r, b1)" by simp
  obtain rs' where rs': "limited_writes bus b1 xs = (rs', b')" "rs = (x, r) # rs'"
    using Cons.prems(1) by (auto simp: x w split: prod.splits)
  have last: "rl_last_write b1 = (if is_ok r then Some t1 else rl_last_write b)"
    and int: "rl_min_interval b1 = rl_min_interval b"
    using limited_last[of t0 t1 bus b addr data] limited_interval[of t0 t1 bus b addr data] by (simp_all add: w)
  have clk: "now \<le> t0" "t0 \<le> t1" "clock_from t1 xs" using Cons.prems(2) by (simp_all add: x)
  have "\<forall>t. rl_last_write b1 = Some t \<longrightarrow> t \<le> t1" using last clk(1,2) Cons.prems(3)
    by (cases "is_ok r") (auto intro: order_trans)
  from Cons.IH[OF rs'(1) clk(3) this] have IH: "spaced (rl_min_interval b) (rl_last_write b1) (succeeded rs')"
    by (simp add: int)
  show ?case
  proof (cases "is_ok r")
    case False
    with IH last show ?thesis by (simp add: rs'(2) succeeded_def)
  next
    case True
    have "t + rl_min_interval b \<le> t0" if "rl_last_write b = Some t" for t
      using limited_ok_spaced[of t0 t1 bus b addr data t] True that Cons.prems(3) clk(1) by (simp add: w)
    with IH last True show ?thesis by (auto simp: rs'(2) succeeded_def x split: option.splits)
  qed
qed (simp add: succeeded_def)


definition quiet_bus :: "unit i2c_ops" where
  \<comment> \<open>a bus for examples: every device answers, every write is taken\<close>
  "quiet_bus = \<lparr>i2c_write = (\<lambda>b _ _. (Inr (), b)), i2c_probe = (\<lambda>b _. (Inr True, b)),
                i2c_describe = (\<lambda>_. [])\<rparr>"


end
