(* ===== verification/Fan.thy ===== *)
theory Fan
  imports Prelude
begin

text \<open>
  Fan duty, fan curve and the controller with hysteresis
  (\<open>crates/argon-proto/src/fan/mod.rs\<close> and \<open>fan/curve.rs\<close>). Temperatures are tenths of a
  degree in an \<open>i32\<close>; the products and the sum the code computes wrap, as in a release build.
\<close>

section \<open>Duty\<close>

datatype fan_duty = Off | Percent u8

datatype invalid_duty = InvalidDuty u8

definition MIN_SPINNING_DUTY :: u8 where "MIN_SPINNING_DUTY = 10"

definition duty_new :: "u8 \<Rightarrow> invalid_duty + fan_duty" where
  "duty_new p = (if p = 0 then Inr Off else if p \<le> 100 then Inr (Percent p) else Inl (InvalidDuty p))"

definition duty_clamped :: "u8 \<Rightarrow> fan_duty" where
  "duty_clamped p =
     (if p = 0 then Off
      else if p < MIN_SPINNING_DUTY then Percent MIN_SPINNING_DUTY
      else if p \<le> 100 then Percent p
      else Percent 100)"

fun as_mcu_byte :: "fan_duty \<Rightarrow> u8" where
  "as_mcu_byte Off = 0x00"
| "as_mcu_byte (Percent p) = p"

fun duty_percent :: "fan_duty \<Rightarrow> u8" where
  "duty_percent Off = 0"
| "duty_percent (Percent p) = p"

fun is_spinning :: "fan_duty \<Rightarrow> bool" where
  "is_spinning Off = False"
| "is_spinning (Percent p) = (MIN_SPINNING_DUTY \<le> p)"

fun duty_text :: "fan_duty \<Rightarrow> string" where
  "duty_text Off = ''off''"
| "duty_text (Percent p) = show_nat (unat p) @ ''%''"

text \<open>The values the constructors produce; the variant itself could hold others.\<close>

fun duty_ok :: "fan_duty \<Rightarrow> bool" where
  "duty_ok Off = True"
| "duty_ok (Percent p) = (0 < p \<and> p \<le> 100)"

lemma duty_new_ok: "duty_new p = Inr d \<Longrightarrow> duty_ok d \<and> duty_percent d = p"
  by (auto simp: duty_new_def word_gt_0 split: if_splits)

lemma duty_clamped_ok [simp]: "duty_ok (duty_clamped p)"
  by (auto simp: duty_clamped_def MIN_SPINNING_DUTY_def word_gt_0)

lemma duty_ok_le: "duty_ok d \<Longrightarrow> duty_percent d \<le> 100"
  by (cases d) auto

text \<open>The derived order of the type: off below everything, percentages by their value. Over the values the
  constructors produce it is the order of the speeds.\<close>

instantiation fan_duty :: linorder
begin

definition less_eq_fan_duty :: "fan_duty \<Rightarrow> fan_duty \<Rightarrow> bool" where
  "less_eq_fan_duty d e =
     (case d of Off \<Rightarrow> True | Percent p \<Rightarrow> (case e of Off \<Rightarrow> False | Percent q \<Rightarrow> p \<le> q))"

definition less_fan_duty :: "fan_duty \<Rightarrow> fan_duty \<Rightarrow> bool" where
  "less_fan_duty d e = (d \<le> e \<and> d \<noteq> e)"

instance
  by standard (auto simp: less_eq_fan_duty_def less_fan_duty_def split: fan_duty.splits)

end

lemma duty_order: "duty_ok d \<Longrightarrow> duty_ok e \<Longrightarrow> d \<le> e \<longleftrightarrow> duty_percent d \<le> duty_percent e"
  by (cases d; cases e) (auto simp: less_eq_fan_duty_def not_le)

section \<open>Curves\<close>

record curve_point =
  cp_decicelsius :: i32
  cp_duty :: fan_duty

definition from_celsius :: "i32 \<Rightarrow> fan_duty \<Rightarrow> curve_point" where
  "from_celsius temp_c duty = \<lparr>cp_decicelsius = wrap_i32 (temp_c * 10), cp_duty = duty\<rparr>"

definition cp_celsius :: "curve_point \<Rightarrow> i32" where
  "cp_celsius p = trunc_div (cp_decicelsius p) 10"

datatype curve_error =
  Empty
| DuplicateThreshold i32
| NotMonotonic i32 u8 i32 u8

fun curve_error_text :: "curve_error \<Rightarrow> string" where
  "curve_error_text Empty = ''a fan curve needs at least one point''"
| "curve_error_text (DuplicateThreshold t) = ''two curve points both set at '' @ show_int t @ ''C''"
| "curve_error_text (NotMonotonic lt ld ht d) =
     ''curve goes down as it heats up: '' @ show_int lt @ ''C='' @ show_nat (unat ld) @ ''% but '' @
     show_int ht @ ''C='' @ show_nat (unat d) @ ''%''"

type_synonym fan_curve = "curve_point list"

text \<open>The loop over \<open>points.windows(2)\<close>, returning the first problem.\<close>

fun check_windows :: "curve_point list \<Rightarrow> curve_error + unit" where
  "check_windows (a # b # rest) =
     (if cp_decicelsius a = cp_decicelsius b then Inl (DuplicateThreshold (cp_celsius a))
      else if duty_percent (cp_duty b) < duty_percent (cp_duty a)
        then Inl (NotMonotonic (cp_celsius a) (duty_percent (cp_duty a))
                    (cp_celsius b) (duty_percent (cp_duty b)))
      else check_windows (b # rest))"
| "check_windows _ = Inr ()"

definition curve_new :: "curve_point list \<Rightarrow> curve_error + fan_curve" where
  "curve_new points =
     (if points = [] then Inl Empty
      else let sorted = sort_key cp_decicelsius points
           in rbind (check_windows sorted) (\<lambda>_. Inr sorted))"

fun duty_from :: "fan_duty \<Rightarrow> curve_point list \<Rightarrow> i32 \<Rightarrow> fan_duty" where
  "duty_from duty [] t = duty"
| "duty_from duty (p # ps) t = (if cp_decicelsius p \<le> t then duty_from (cp_duty p) ps t else duty)"

definition duty_for :: "fan_curve \<Rightarrow> i32 \<Rightarrow> fan_duty" where
  "duty_for curve t = duty_from Off curve t"

definition lowest_threshold :: "fan_curve \<Rightarrow> i32 option" where
  "lowest_threshold curve = (case curve of [] \<Rightarrow> None | p # _ \<Rightarrow> Some (cp_decicelsius p))"

section \<open>The controller\<close>

record fan_controller =
  fc_curve :: fan_curve
  fc_hysteresis_dc :: i32
  fc_min_duty :: u8
  fc_allow_stop :: bool
  fc_current :: "fan_duty option"

definition controller_new :: "fan_curve \<Rightarrow> i32 \<Rightarrow> u8 \<Rightarrow> bool \<Rightarrow> fan_controller" where
  "controller_new curve hysteresis_c min_duty allow_stop =
     \<lparr>fc_curve = curve, fc_hysteresis_dc = wrap_i32 (hysteresis_c * 10), fc_min_duty = min_duty,
      fc_allow_stop = allow_stop, fc_current = None\<rparr>"

definition apply_floor :: "fan_controller \<Rightarrow> fan_duty \<Rightarrow> fan_duty" where
  "apply_floor c duty =
     (case duty of
        Off \<Rightarrow> if fc_allow_stop c then Off
               else Percent (min (max (fc_min_duty c) MIN_SPINNING_DUTY) 100)
      | Percent p \<Rightarrow> Percent (min (max p (fc_min_duty c)) 100))"

definition controller_update :: "fan_controller \<Rightarrow> i32 \<Rightarrow> fan_controller \<times> fan_duty" where
  "controller_update c t =
     (let target = duty_for (fc_curve c) t;
          chosen =
            (case fc_current c of
               None \<Rightarrow> target
             | Some current \<Rightarrow>
                 if duty_percent current \<le> duty_percent target then target
                 else let cooled = duty_for (fc_curve c) (wrap_i32 (t + fc_hysteresis_dc c))
                      in if duty_percent cooled < duty_percent current then target else current);
          applied = apply_floor c chosen
      in (c\<lparr>fc_current := Some applied\<rparr>, applied))"

definition controller_reset :: "fan_controller \<Rightarrow> fan_controller" where
  "controller_reset c = c\<lparr>fc_current := None\<rparr>"

section \<open>What a valid curve is\<close>

definition rises :: "curve_point \<Rightarrow> curve_point \<Rightarrow> bool" where
  "rises a b \<longleftrightarrow> cp_decicelsius a < cp_decicelsius b \<and> duty_percent (cp_duty a) \<le> duty_percent (cp_duty b)"

definition curve_ok :: "fan_curve \<Rightarrow> bool" where
  "curve_ok ps \<longleftrightarrow> ps \<noteq> [] \<and> sorted_wrt rises ps"

lemma check_windows_ok:
  assumes "sorted (map cp_decicelsius ps)"
  shows "check_windows ps = Inr () \<longleftrightarrow> sorted_wrt rises ps"
  using assms
proof (induction ps)
  case (Cons a ps)
  show ?case
  proof (cases ps)
    case (Cons b rest)
    have IH: "check_windows (b # rest) = Inr () \<longleftrightarrow> sorted_wrt rises (b # rest)"
      using Cons.IH Cons.prems Cons by simp
    have "check_windows (a # b # rest) = Inr () \<longleftrightarrow> rises a b \<and> check_windows (b # rest) = Inr ()"
      using Cons.prems Cons by (auto simp: rises_def)
    also have "\<dots> \<longleftrightarrow> sorted_wrt rises (a # b # rest)"
      unfolding IH by (auto simp: rises_def intro: less_trans order_trans)
    finally show ?thesis using Cons by simp
  qed simp
qed simp

lemma curve_new_ok: "curve_new ps = Inr c \<Longrightarrow> curve_ok c \<and> set c = set ps"
  by (auto simp: curve_new_def Let_def rbind_Inr_iff curve_ok_def check_windows_ok split: if_splits
      dest: arg_cong[where f = set])

lemma duty_from_cases: "duty_from d ps t = d \<or> (\<exists>p \<in> set ps. cp_decicelsius p \<le> t \<and> duty_from d ps t = cp_duty p)"
  by (induction d ps t rule: duty_from.induct) auto

lemma duty_from_mono:
  assumes "sorted_wrt rises ps"
    and "\<forall>p \<in> set ps. duty_percent d \<le> duty_percent (cp_duty p)" "t \<le> t'"
  shows "duty_percent (duty_from d ps t) \<le> duty_percent (duty_from d ps t')"
  using assms
proof (induction ps arbitrary: d)
  case (Cons p ps)
  show ?case
  proof (cases "cp_decicelsius p \<le> t")
    case True
    with Cons show ?thesis by (simp add: rises_def)
  next
    case False
    then show ?thesis
      using Cons.prems duty_from_cases[of d "p # ps" t'] by auto
  qed
qed simp

lemma duty_for_mono: "curve_ok c \<Longrightarrow> t \<le> t' \<Longrightarrow> duty_percent (duty_for c t) \<le> duty_percent (duty_for c t')"
  unfolding duty_for_def by (rule duty_from_mono) (auto simp: curve_ok_def)

lemma duty_for_cases: "duty_for c t = Off \<or> (\<exists>p \<in> set c. duty_for c t = cp_duty p)"
  using duty_from_cases[of Off c t] by (auto simp: duty_for_def)

text \<open>A curve of duties the constructors produce is monotone in the derived order.\<close>

lemma duty_for_rises:
  assumes "curve_ok c" and "\<forall>p \<in> set c. duty_ok (cp_duty p)"
  shows "mono (duty_for c)"
proof (rule monoI)
  fix s t :: i32
  assume "s \<le> t"
  have "duty_ok (duty_for c u)" for u
    using duty_for_cases[of c u] assms(2) by (metis duty_ok.simps(1))
  then show "duty_for c s \<le> duty_for c t"
    using duty_for_mono[OF assms(1) \<open>s \<le> t\<close>] by (simp add: duty_order)
qed

lemma duty_from_last:
  assumes "sorted_wrt rises ps"
    and "p \<in> set ps" "cp_decicelsius p \<le> t"
    and "\<forall>q \<in> set ps. cp_decicelsius q \<le> t \<longrightarrow> cp_decicelsius q \<le> cp_decicelsius p"
  shows "duty_from d ps t = cp_duty p"
  using assms
proof (induction ps arbitrary: d)
  case (Cons a ps)
  have a: "cp_decicelsius a \<le> t" using Cons.prems by (auto simp: rises_def)
  show ?case
  proof (cases "p = a")
    case True
    then have "\<forall>q \<in> set ps. \<not> cp_decicelsius q \<le> t"
      using Cons.prems by (force simp: rises_def)
    then have "duty_from (cp_duty a) ps t = cp_duty a" using duty_from_cases by blast
    with a True show ?thesis by simp
  next
    case False
    with Cons a show ?thesis by simp
  qed
qed simp

lemma duty_for_below: "\<forall>q \<in> set c. t < cp_decicelsius q \<Longrightarrow> duty_for c t = Off"
  using duty_from_cases[of Off c t] by (auto simp: duty_for_def)

text \<open>The reference: the points as the file gives them, in any order.\<close>

definition points_ok :: "curve_point list \<Rightarrow> bool" where
  "points_ok ps \<longleftrightarrow> ps \<noteq> [] \<and> distinct (map cp_decicelsius ps) \<and>
     (\<forall>a \<in> set ps. \<forall>b \<in> set ps. cp_decicelsius a < cp_decicelsius b \<longrightarrow>
        duty_percent (cp_duty a) \<le> duty_percent (cp_duty b))"

definition hottest :: "curve_point \<Rightarrow> curve_point list \<Rightarrow> curve_point" where
  "hottest p ps = foldl (\<lambda>a b. if cp_decicelsius a < cp_decicelsius b then b else a) p ps"

definition spec_duty :: "curve_point list \<Rightarrow> i32 \<Rightarrow> fan_duty" where
  "spec_duty ps t =
     (case filter (\<lambda>p. cp_decicelsius p \<le> t) ps of [] \<Rightarrow> Off | p # rest \<Rightarrow> cp_duty (hottest p rest))"

lemma hottest_max:
  "hottest p ps \<in> set (p # ps) \<and> (\<forall>q \<in> set (p # ps). cp_decicelsius q \<le> cp_decicelsius (hottest p ps))"
proof (induction ps arbitrary: p)
  case (Cons a ps)
  have "hottest p (a # ps) = hottest (if cp_decicelsius p < cp_decicelsius a then a else p) ps"
    by (simp add: hottest_def)
  then show ?case using Cons[of a] Cons[of p] by (cases "cp_decicelsius p < cp_decicelsius a") force+
qed (simp add: hottest_def)

lemma duty_for_spec:
  assumes "curve_new ps = Inr c"
  shows "duty_for c t = spec_duty ps t"
proof -
  have c: "sorted_wrt rises c" "set c = set ps" using curve_new_ok[OF assms] by (auto simp: curve_ok_def)
  show ?thesis
  proof (cases "filter (\<lambda>p. cp_decicelsius p \<le> t) ps")
    case Nil
    then have "\<forall>q \<in> set c. t < cp_decicelsius q" using c by (auto simp: filter_empty_conv)
    with Nil show ?thesis by (simp add: duty_for_below spec_duty_def)
  next
    case (Cons p rest)
    have "set (p # rest) = {q \<in> set ps. cp_decicelsius q \<le> t}"
      unfolding Cons[symmetric] by auto
    with hottest_max[of p rest] c have "hottest p rest \<in> set c" "cp_decicelsius (hottest p rest) \<le> t"
      "\<forall>q \<in> set c. cp_decicelsius q \<le> t \<longrightarrow> cp_decicelsius q \<le> cp_decicelsius (hottest p rest)"
      by blast+
    from duty_from_last[OF c(1) this, of Off] Cons show ?thesis
      by (simp add: duty_for_def spec_duty_def)
  qed
qed

lemma sorted_rises:
  assumes "points_ok ps"
  shows "sorted_wrt rises (sort_key cp_decicelsius ps)"
proof -
  let ?s = "sort_key cp_decicelsius ps"
  have "distinct (map cp_decicelsius ?s)"
    using assms by (simp add: points_ok_def distinct_map)
  then have strict: "sorted_wrt (<) (map cp_decicelsius ?s)"
    by (simp add: strict_sorted_iff)
  have "sorted_wrt (\<lambda>a b. cp_decicelsius a < cp_decicelsius b) ?s"
    using strict by (simp add: sorted_wrt_map)
  moreover have "\<forall>a \<in> set ?s. \<forall>b \<in> set ?s. cp_decicelsius a < cp_decicelsius b \<longrightarrow> rises a b"
    using assms by (auto simp: points_ok_def rises_def)
  ultimately show ?thesis
    by (rule_tac sorted_wrt_mono_rel[of _ "\<lambda>a b. cp_decicelsius a < cp_decicelsius b"]) auto
qed

lemma rises_points:
  "sorted_wrt rises ps \<Longrightarrow> distinct (map cp_decicelsius ps) \<and>
     (\<forall>a \<in> set ps. \<forall>b \<in> set ps. cp_decicelsius a < cp_decicelsius b \<longrightarrow>
        duty_percent (cp_duty a) \<le> duty_percent (cp_duty b))"
  by (induction ps) (fastforce simp: rises_def)+

lemma curve_new_iff: "(\<exists>c. curve_new ps = Inr c) \<longleftrightarrow> points_ok ps"
proof
  assume "\<exists>c. curve_new ps = Inr c"
  then obtain c where c: "curve_new ps = Inr c" by blast
  then have s: "c = sort_key cp_decicelsius ps" and ne: "ps \<noteq> []"
    by (auto simp: curve_new_def Let_def rbind_Inr_iff split: if_splits)
  have "sorted_wrt rises c" using curve_new_ok[OF c] by (simp add: curve_ok_def)
  from rises_points[OF this] ne show "points_ok ps"
    by (simp add: points_ok_def s distinct_map)
next
  assume ok: "points_ok ps"
  then have "check_windows (sort_key cp_decicelsius ps) = Inr ()"
    using sorted_rises by (simp add: check_windows_ok)
  with ok show "\<exists>c. curve_new ps = Inr c" by (simp add: curve_new_def points_ok_def Let_def)
qed

text \<open>C22: A curve is what its points say, however the file orders them: \<open>curve_new\<close> accepts exactly the
  non-empty lists whose thresholds are distinct and whose duty does not fall as temperature
  rises, and the duty of an accepted curve at a temperature is that of the highest threshold not
  above it, and off below all of them.\<close>

theorem curve_semantics:
  "case curve_new ps of
     Inl e \<Rightarrow> \<not> points_ok ps
   | Inr c \<Rightarrow> points_ok ps \<and> duty_for c = spec_duty ps"
  using curve_new_iff[of ps] duty_for_spec[of ps] by (auto split: sum.split)

section \<open>What the controller guarantees\<close>

lemma apply_floor_ge: "duty_percent d \<le> 100 \<Longrightarrow> duty_percent d \<le> duty_percent (apply_floor c d)"
  by (auto simp: apply_floor_def split: fan_duty.splits)

lemma apply_floor_off: "apply_floor c d = Off \<Longrightarrow> fc_allow_stop c \<and> d = Off"
  by (auto simp: apply_floor_def split: fan_duty.splits if_splits)

lemma update_current: "fc_current (fst (controller_update c t)) = Some (snd (controller_update c t))"
  by (simp add: controller_update_def Let_def)

lemma update_keeps:
  "fc_curve (fst (controller_update c t)) = fc_curve c"
  "fc_hysteresis_dc (fst (controller_update c t)) = fc_hysteresis_dc c"
  "fc_min_duty (fst (controller_update c t)) = fc_min_duty c"
  "fc_allow_stop (fst (controller_update c t)) = fc_allow_stop c"
  by (simp_all add: controller_update_def Let_def)

fun update_all :: "fan_controller \<Rightarrow> i32 list \<Rightarrow> fan_duty list" where
  "update_all c [] = []"
| "update_all c (t # ts) = (let (c', d) = controller_update c t in d # update_all c' ts)"

text \<open>The floor lies below every duty of the curve.\<close>

definition floor_below :: "fan_controller \<Rightarrow> bool" where
  "floor_below c \<longleftrightarrow> (\<forall>p \<in> set (fc_curve c).
     max (fc_min_duty c) MIN_SPINNING_DUTY \<le> duty_percent (cp_duty p) \<and> duty_percent (cp_duty p) \<le> 100)"

lemma floor_below_duty:
  assumes "floor_below c"
  shows "duty_for (fc_curve c) t = Off \<or>
    (\<exists>p. duty_for (fc_curve c) t = Percent p \<and> max (fc_min_duty c) MIN_SPINNING_DUTY \<le> p \<and> p \<le> 100)"
proof -
  have "\<exists>p. cp_duty x = Percent p" if "x \<in> set (fc_curve c)" for x
    using assms that by (cases "cp_duty x") (auto simp: floor_below_def MIN_SPINNING_DUTY_def)
  then show ?thesis
    using assms duty_for_cases[of "fc_curve c" t] by (fastforce simp: floor_below_def)
qed

definition floored :: "fan_controller \<Rightarrow> i32 \<Rightarrow> fan_duty" where
  "floored c s = apply_floor c (duty_for (fc_curve c) s)"

lemma hysteresis_step:
  assumes ok: "curve_ok (fc_curve c)" and fb: "floor_below c"
    and cur: "fc_current c = Some (floored c s)" "s \<le> t + fc_hysteresis_dc c" "is_i32 (t + fc_hysteresis_dc c)"
  shows "duty_percent (floored c s) \<le> duty_percent (snd (controller_update c t)) \<and>
    (snd (controller_update c t) = floored c t \<or> snd (controller_update c t) = floored c s)"
proof -
  let ?F = "max (fc_min_duty c) MIN_SPINNING_DUTY" and ?d = "\<lambda>x. duty_for (fc_curve c) x"
  let ?h = "t + fc_hysteresis_dc c"
  have idem: "apply_floor c (floored c x) = floored c x" for x
    by (auto simp: floored_def apply_floor_def min_def max_def split: fan_duty.splits)
  have le100: "duty_percent (?d x) \<le> 100" for x using floor_below_duty[OF fb, of x] by auto
  have upd: "snd (controller_update c t) = apply_floor c
      (if duty_percent (floored c s) \<le> duty_percent (?d t) then ?d t
       else if duty_percent (?d ?h) < duty_percent (floored c s) then ?d t else floored c s)"
    using cur by (simp add: controller_update_def Let_def)
  show ?thesis
  proof (cases "duty_percent (floored c s) \<le> duty_percent (?d t)")
    case True
    then show ?thesis using apply_floor_ge[OF le100[of t], of c] by (auto simp: upd floored_def)
  next
    case notup: False
    show ?thesis
    proof (cases "duty_percent (?d ?h) < duty_percent (floored c s)")
      case False
      then show ?thesis using notup by (simp add: upd idem)
    next
      case True
      have "duty_percent (?d s) \<le> duty_percent (?d ?h)" by (rule duty_for_mono[OF ok cur(2)])
      then have lt: "duty_percent (?d s) < duty_percent (floored c s)" using True by simp
      then have off: "?d s = Off" "\<not> fc_allow_stop c"
        using floor_below_duty[OF fb, of s]
        by (auto simp: floored_def apply_floor_def min_def max_def split: if_splits)
      then have fl: "floored c s = Percent (min ?F 100)" by (simp add: floored_def apply_floor_def)
      have "?d t = Off"
      proof (rule ccontr)
        assume "?d t \<noteq> Off"
        then have "?F \<le> duty_percent (?d t)" using floor_below_duty[OF fb, of t] by auto
        then have "duty_percent (floored c s) \<le> duty_percent (?d t)" by (simp add: fl min.coboundedI1)
        then show False using notup by simp
      qed
      then show ?thesis using off True notup by (simp add: upd floored_def)
    qed
  qed
qed

lemma hysteresis_run:
  assumes "curve_ok (fc_curve c)" "floor_below c" "0 \<le> fc_hysteresis_dc c"
    and "\<forall>t \<in> set ts. lo \<le> t \<and> t \<le> lo + fc_hysteresis_dc c" "is_i32 lo" "is_i32 (lo + 2 * fc_hysteresis_dc c)"
    and "fc_current c = Some (floored c s)" "s \<le> lo + fc_hysteresis_dc c"
  shows "sorted (map duty_percent (floored c s # update_all c ts))"
  using assms
proof (induction ts arbitrary: c s)
  case (Cons t ts)
  let ?c = "fst (controller_update c t)" and ?d = "snd (controller_update c t)"
  have fl: "floored ?c x = floored c x" for x
    by (simp add: floored_def apply_floor_def update_keeps split: fan_duty.split)
  have "is_i32 (t + fc_hysteresis_dc c)" "s \<le> t + fc_hysteresis_dc c"
    using Cons.prems by (auto simp: is_i32_def)
  from hysteresis_step[OF Cons.prems(1,2,7) this(2,1)] obtain x
    where x: "x \<le> lo + fc_hysteresis_dc c" "?d = floored c x" and le: "duty_percent (floored c s) \<le> duty_percent ?d"
    using Cons.prems(4,8) by auto
  have "sorted (map duty_percent (floored ?c x # update_all ?c ts))"
    by (rule Cons.IH)
      (use Cons.prems x in \<open>auto simp: update_keeps floor_below_def update_current fl\<close>)
  then show ?case using le x by (auto simp: fl split: prod.splits intro: order_trans)
qed simp

lemma update_cools:
  assumes "\<forall>p \<in> set (fc_curve c). duty_ok (cp_duty p)"
  shows "duty_percent (duty_for (fc_curve c) t) \<le> duty_percent (snd (controller_update c t)) \<and>
    (snd (controller_update c t) = Off \<longrightarrow> fc_allow_stop c \<and> duty_for (fc_curve c) t = Off)"
proof -
  let ?d = "duty_for (fc_curve c) t"
  have le: "duty_percent ?d \<le> 100"
    using duty_for_cases[of "fc_curve c" t] assms duty_ok_le by auto
  have chosen: "\<exists>x. snd (controller_update c t) = apply_floor c x \<and>
      (x = ?d \<or> duty_percent ?d < duty_percent x)"
    by (auto simp: controller_update_def Let_def not_le split: option.split)
  then obtain x where x: "snd (controller_update c t) = apply_floor c x"
    "x = ?d \<or> duty_percent ?d < duty_percent x" by blast
  have "duty_percent ?d \<le> duty_percent (apply_floor c x)"
  proof (cases "duty_percent x \<le> 100")
    case True
    then show ?thesis using x(2) apply_floor_ge[of x c] by auto
  next
    case False
    then have "duty_percent (apply_floor c x) = 100"
      by (cases x) (auto simp: apply_floor_def min_def max_def)
    then show ?thesis using le by simp
  qed
  moreover have "fc_allow_stop c \<and> ?d = Off" if "apply_floor c x = Off"
  proof -
    have "x = Off" "fc_allow_stop c" using apply_floor_off[OF that] by auto
    with x(2) show ?thesis by auto
  qed
  ultimately show ?thesis by (simp add: x(1))
qed

text \<open>C10: The controller never cools less than the curve asks, and never stops the fan unless stopping
  is allowed: whatever was applied before, an update answers with at least the curve's duty for
  the temperature (duties above 100 cannot be built), and \<open>Off\<close> only with \<open>allow_stop\<close> and a
  curve that says off.\<close>

theorem fan_never_undercools:
  assumes "\<forall>p \<in> set (fc_curve c). duty_ok (cp_duty p)"
  shows "duty_percent (duty_for (fc_curve c) t) \<le> duty_percent (snd (controller_update c t)) \<and>
    (snd (controller_update c t) = Off \<longrightarrow> fc_allow_stop c \<and> duty_for (fc_curve c) t = Off)"
  using assms by (rule update_cools)

text \<open>Hysteresis removes oscillation: with a valid curve whose duties all lie at or above the floor,
  while the temperature stays within a band no wider than the hysteresis, the applied duty never
  steps down, so it settles after at most one rise per curve point.\<close>

theorem fan_no_oscillation:
  assumes "curve_ok curve" "floor_below (controller_new curve hysteresis_c min_duty allow_stop)"
    and "0 \<le> hysteresis_c" "is_i32 (hysteresis_c * 10)" "is_i32 lo" "is_i32 (lo + 20 * hysteresis_c)"
    and "\<forall>t \<in> set ts. lo \<le> t \<and> t \<le> lo + 10 * hysteresis_c"
  shows "sorted (map duty_percent (update_all (controller_new curve hysteresis_c min_duty allow_stop) ts))"
proof (cases ts)
  case (Cons t rest)
  let ?c = "controller_new curve hysteresis_c min_duty allow_stop"
  have h: "fc_hysteresis_dc ?c = 10 * hysteresis_c" "fc_curve ?c = curve" "fc_current ?c = None"
    using assms(4) by (simp_all add: controller_new_def mult.commute)
  let ?c1 = "fst (controller_update ?c t)"
  have d: "snd (controller_update ?c t) = floored ?c1 t"
    by (simp add: controller_update_def h floored_def apply_floor_def Let_def split: fan_duty.split)
  have "sorted (map duty_percent (floored ?c1 t # update_all ?c1 rest))"
    by (rule hysteresis_run[where lo = lo])
      (use assms Cons in \<open>auto simp: update_keeps h floor_below_def update_current d\<close>)
  then show ?thesis by (simp add: Cons d split_beta)
qed simp

definition sample_curve :: fan_curve where
  "sample_curve = [\<lparr>cp_decicelsius = 550, cp_duty = Percent 30\<rparr>, \<lparr>cp_decicelsius = 600, cp_duty = Percent 55\<rparr>,
                   \<lparr>cp_decicelsius = 650, cp_duty = Percent 100\<rparr>]"

theorem fan_never_undercools_witness:
  "duty_percent (duty_for sample_curve 620) \<le>
     duty_percent (snd (controller_update (controller_new sample_curve 3 10 False) 620)) \<and>
   snd (controller_update (controller_new sample_curve 3 10 False) 620) \<noteq> Off"
  using fan_never_undercools[of "controller_new sample_curve 3 10 False" 620]
  by (simp add: controller_new_def sample_curve_def)

theorem fan_no_oscillation_witness:
  "sorted (map duty_percent (update_all (controller_new sample_curve 3 10 False) [590, 601, 599, 580, 610]))"
  by (rule fan_no_oscillation[where lo = 580])
    (auto simp: curve_ok_def rises_def sample_curve_def floor_below_def controller_new_def
      MIN_SPINNING_DUTY_def is_i32_def)

text \<open>The floor condition of the previous property is needed: with a minimum duty above the curve's
  lowest duty and stopping allowed, a temperature moving by two tenths of a degree across the
  lowest threshold switches the fan between off and the floor at every reading, though the
  hysteresis is three degrees. The comparison that holds a duty uses the raised duty, which the
  curve never reaches again.\<close>

theorem fan_floor_defeats_hysteresis:
  "update_all (controller_new sample_curve 3 40 True) (concat (replicate n [551, 549])) =
     concat (replicate n [Percent 40, Off])"
proof -
  let ?c = "\<lambda>cur. controller_new sample_curve 3 40 True\<lparr>fc_current := cur\<rparr>"
  have h: "wrap_i32 30 = 30" "wrap_i32 579 = 579" "wrap_i32 581 = 581" by (simp_all add: is_i32_def)
  have up: "controller_update (?c cur) 551 = (?c (Some (Percent 40)), Percent 40)"
    if "cur = None \<or> cur = Some Off" for cur
    using that by (auto simp: controller_update_def controller_new_def sample_curve_def duty_for_def
        apply_floor_def h Let_def)
  have down: "controller_update (?c (Some (Percent 40))) 549 = (?c (Some Off), Off)"
    by (simp add: controller_update_def controller_new_def sample_curve_def duty_for_def apply_floor_def h)
  have "update_all (?c cur) (concat (replicate n [551, 549])) = concat (replicate n [Percent 40, Off])"
    if "cur = None \<or> cur = Some Off" for cur
    using that by (induction n arbitrary: cur) (simp_all add: up down)
  from this[of None] show ?thesis by (simp add: controller_new_def)
qed

end
