(* ===== verification/Mcu.thy ===== *)
theory Mcu
  imports Hal Fan
begin

text \<open>
  The ONE-family MCU: the driver (\<open>crates/argon-device/src/mcu.rs\<close>), the repository's simulator
  of both firmware dialects (\<open>crates/argon-sim/src/mcu.rs\<close>), the guard that restores a safe duty
  (\<open>argon-device/src/safety.rs\<close>) and the fan back ends (\<open>fan_control.rs\<close>). The driver is
  generic in its bus; its theorems hold over any bus with the contract \<open>wire_bus\<close>.
\<close>

section \<open>The driver\<close>

definition ADDR :: u8 where "ADDR = 0x1a"

datatype dialect = Legacy | Register

definition dialect_from_config :: "string \<Rightarrow> dialect option" where
  "dialect_from_config v =
     (if v = ''legacy'' then Some Legacy else if v = ''register'' then Some Register else None)"

datatype power_mode = RequiresButton | AlwaysOn

record 'b mcu =
  mc_bus :: 'b
  mc_dialect :: dialect
  mc_shadow_duty :: "fan_duty option"

definition mcu_new :: "'b \<Rightarrow> dialect \<Rightarrow> 'b mcu" where
  "mcu_new bus dialect = \<lparr>mc_bus = bus, mc_dialect = dialect, mc_shadow_duty = None\<rparr>"

definition mcu_write :: "'b i2c_ops \<Rightarrow> 'b mcu \<Rightarrow> u8 list \<Rightarrow> (hal_error + unit) \<times> 'b mcu" where
  \<comment> \<open>\<open>self.bus.write(ADDR, ..)\<close>\<close>
  "mcu_write bus m data = (let (r, b) = i2c_write bus (mc_bus m) ADDR data in (r, m\<lparr>mc_bus := b\<rparr>))"

definition is_present :: "'b i2c_ops \<Rightarrow> 'b mcu \<Rightarrow> (hal_error + bool) \<times> 'b mcu" where
  "is_present bus m = (let (r, b) = i2c_probe bus (mc_bus m) ADDR in (r, m\<lparr>mc_bus := b\<rparr>))"

definition set_fan :: "'b i2c_ops \<Rightarrow> 'b mcu \<Rightarrow> fan_duty \<Rightarrow> (hal_error + unit) \<times> 'b mcu" where
  "set_fan bus m duty =
     (let (r, m1) = (case mc_dialect m of
                       Legacy \<Rightarrow> mcu_write bus m [as_mcu_byte duty]
                     | Register \<Rightarrow> mcu_write bus m [0x80, as_mcu_byte duty])
      in case r of
           Inl e \<Rightarrow> (Inl e, m1)
         | Inr _ \<Rightarrow> (Inr (), m1\<lparr>mc_shadow_duty := Some duty\<rparr>))"

definition set_power_mode :: "'b i2c_ops \<Rightarrow> 'b mcu \<Rightarrow> power_mode \<Rightarrow> (hal_error + unit) \<times> 'b mcu" where
  "set_power_mode bus m md =
     mcu_write bus m [case md of RequiresButton \<Rightarrow> 0xFD | AlwaysOn \<Rightarrow> 0xFE]"

definition arm_power_cut :: "'b i2c_ops \<Rightarrow> 'b mcu \<Rightarrow> (hal_error + unit) \<times> 'b mcu" where
  "arm_power_cut bus m = mcu_write bus m [0xFF]"

definition enter_bootloader :: "'b mcu \<Rightarrow> (hal_error + unit) \<times> 'b mcu" where
  "enter_bootloader m =
     (Inl (WriteBlocked (''i2c 0x'' @ show_hex2 ADDR @ '' <- bb'')
        ''argon-utils never enters the MCU bootloader: the exit sequence is unknown and a failed flash can be unrecoverable''), m)"

section \<open>The simulated firmware\<close>

definition FAN_OFF :: u8 where "FAN_OFF = 0x00"
definition FAN_MAX :: u8 where "FAN_MAX = 0x64"
definition MODE_DEFAULT :: u8 where "MODE_DEFAULT = 0xFD"
definition MODE_ALWAYS_ON :: u8 where "MODE_ALWAYS_ON = 0xFE"
definition ARM_POWER_CUT :: u8 where "ARM_POWER_CUT = 0xFF"
definition IR_WRITE :: u8 where "IR_WRITE = 0xAA"
definition BOOTLOADER :: u8 where "BOOTLOADER = 0xBB"

lemmas opcodes = FAN_OFF_def FAN_MAX_def MODE_DEFAULT_def MODE_ALWAYS_ON_def ARM_POWER_CUT_def
  IR_WRITE_def BOOTLOADER_def

record mcu_state =
  ms_fan_percent :: u8
  ms_power_mode :: power_mode
  ms_power_cut_armed :: bool
  ms_in_bootloader :: bool
  ms_transactions :: "u8 list list"

definition mcu_state_default :: mcu_state where
  "mcu_state_default = \<lparr>ms_fan_percent = 0, ms_power_mode = RequiresButton, ms_power_cut_armed = False,
     ms_in_bootloader = False, ms_transactions = []\<rparr>"

definition legacy_receive :: "u8 list \<Rightarrow> mcu_state \<Rightarrow> mcu_state" where
  "legacy_receive data s0 =
     (let s = s0\<lparr>ms_transactions := ms_transactions s0 @ [data]\<rparr>
      in case data of
           [] \<Rightarrow> s
         | first # _ \<Rightarrow>
             if first = FAN_OFF then s\<lparr>ms_fan_percent := 0\<rparr>
             else if 1 \<le> first \<and> first \<le> FAN_MAX then s\<lparr>ms_fan_percent := first\<rparr>
             else if first = MODE_DEFAULT then s\<lparr>ms_power_mode := RequiresButton\<rparr>
             else if first = MODE_ALWAYS_ON then s\<lparr>ms_power_mode := AlwaysOn\<rparr>
             else if first = ARM_POWER_CUT then s\<lparr>ms_power_cut_armed := True\<rparr>
             else if first = BOOTLOADER then s\<lparr>ms_in_bootloader := True\<rparr>
             else if first = IR_WRITE then s
             else s\<lparr>ms_fan_percent := min first 100\<rparr>)"

definition register_receive :: "u8 list \<Rightarrow> mcu_state \<Rightarrow> mcu_state" where
  "register_receive data s0 =
     (let s = s0\<lparr>ms_transactions := ms_transactions s0 @ [data]\<rparr>
      in if 2 \<le> length data \<and> data ! 0 = 0x80 then s\<lparr>ms_fan_percent := min (data ! 1) 100\<rparr>
         else if 2 \<le> length data \<and> data ! 0 = 0x86 \<and> data ! 1 = 1 then s\<lparr>ms_power_cut_armed := True\<rparr>
         else if length data = 1 then
           (let single = data ! 0
            in if single = FAN_OFF then s\<lparr>ms_fan_percent := 0\<rparr>
               else if 1 \<le> single \<and> single \<le> FAN_MAX then s\<lparr>ms_fan_percent := single\<rparr>
               else if single = ARM_POWER_CUT then s\<lparr>ms_power_cut_armed := True\<rparr>
               else if single = BOOTLOADER then s\<lparr>ms_in_bootloader := True\<rparr>
               else s)
         else s)"

section \<open>Restoring a safe duty\<close>

definition DEFAULT_SAFE_DUTY :: u8 where "DEFAULT_SAFE_DUTY = 55"
definition HOT_SAFE_DUTY :: u8 where "HOT_SAFE_DUTY = 100"

text \<open>The guard shares the MCU with the control loop; the MCU is an argument here.\<close>

record fan_safe_guard =
  fg_safe_duty :: fan_duty
  fg_disarmed :: bool

definition guard_new :: "fan_duty \<Rightarrow> fan_safe_guard" where
  "guard_new d = \<lparr>fg_safe_duty = d, fg_disarmed = False\<rparr>"

definition guard_for_temperature :: "i32 option \<Rightarrow> i32 \<Rightarrow> fan_safe_guard" where
  "guard_for_temperature last_temp_c hot_threshold_c =
     guard_new (if (case last_temp_c of None \<Rightarrow> False | Some t \<Rightarrow> hot_threshold_c \<le> t)
                then duty_clamped HOT_SAFE_DUTY else duty_clamped DEFAULT_SAFE_DUTY)"

definition guard_disarm :: "fan_safe_guard \<Rightarrow> fan_safe_guard" where
  "guard_disarm g = g\<lparr>fg_disarmed := True\<rparr>"

definition restore_now :: "'b i2c_ops \<Rightarrow> fan_safe_guard \<Rightarrow> 'b mcu \<Rightarrow> bool \<times> 'b mcu" where
  "restore_now bus g m = (let (r, m1) = set_fan bus m (fg_safe_duty g) in (is_ok r, m1))"

definition guard_drop :: "'b i2c_ops \<Rightarrow> fan_safe_guard \<Rightarrow> 'b mcu \<Rightarrow> 'b mcu" where
  "guard_drop bus g m = (if fg_disarmed g then m else snd (set_fan bus m (fg_safe_duty g)))"

section \<open>The kernel's fan\<close>

definition duty_from_pwm :: "u8 \<Rightarrow> fan_duty" where
  "duty_from_pwm pwm =
     (let percent = (unat pwm * 100 + 127) div 255
      in duty_clamped (if percent \<le> U8_MAX then of_nat percent else 100))"

section \<open>Calls on the driver\<close>

datatype mcu_request = IsPresent | SetFan fan_duty | SetPowerMode power_mode | ArmPowerCut | EnterBootloader

fun mcu_call :: "'b i2c_ops \<Rightarrow> mcu_request \<Rightarrow> 'b mcu \<Rightarrow> 'b mcu" where
  "mcu_call bus IsPresent m = snd (is_present bus m)"
| "mcu_call bus (SetFan d) m = snd (set_fan bus m d)"
| "mcu_call bus (SetPowerMode p) m = snd (set_power_mode bus m p)"
| "mcu_call bus ArmPowerCut m = snd (arm_power_cut bus m)"
| "mcu_call bus EnterBootloader m = snd (enter_bootloader m)"

fun call_ok :: "mcu_request \<Rightarrow> bool" where
  "call_ok (SetFan d) = duty_ok d"
| "call_ok _ = True"

text \<open>Calls, each over the bus as its clock is at that moment.\<close>

fun mcu_run :: "('b i2c_ops \<times> mcu_request) list \<Rightarrow> 'b mcu \<Rightarrow> 'b mcu" where
  "mcu_run [] m = m"
| "mcu_run ((bus, call) # calls) m = mcu_run calls (mcu_call bus call m)"

text \<open>The transactions the documented protocol has, for each dialect.\<close>

definition permitted :: "dialect \<Rightarrow> u8 \<times> u8 list \<Rightarrow> bool" where
  "permitted d x \<longleftrightarrow> fst x = ADDR \<and>
     (snd x \<in> {[0xFD], [0xFE], [0xFF]} \<or>
      (\<exists>b. b \<le> 100 \<and> snd x = (case d of Legacy \<Rightarrow> [b] | Register \<Rightarrow> [0x80, b])))"

lemma as_mcu_byte_le: "duty_ok d \<Longrightarrow> as_mcu_byte d \<le> 100"
  by (cases d) auto

context wire_bus begin

lemma mcu_write_wire:
  assumes "mcu_write bus m data = (r, m')"
  shows "wire (mc_bus m') = wire (mc_bus m) @ (if is_ok r then [(ADDR, data)] else [])"
    and "mc_dialect m' = mc_dialect m" "mc_shadow_duty m' = mc_shadow_duty m"
  using assms write_wire[of "mc_bus m" ADDR data] by (auto simp: mcu_write_def split: prod.splits)

lemma set_fan_wire:
  assumes "set_fan bus m d = (r, m')"
  shows "wire (mc_bus m') = wire (mc_bus m) @
      (if is_ok r then [(ADDR, case mc_dialect m of Legacy \<Rightarrow> [as_mcu_byte d] | Register \<Rightarrow> [0x80, as_mcu_byte d])] else [])"
    and "mc_dialect m' = mc_dialect m"
    and "mc_shadow_duty m' = (if is_ok r then Some d else mc_shadow_duty m)"
  using assms mcu_write_wire[of m "[as_mcu_byte d]"] mcu_write_wire[of m "[0x80, as_mcu_byte d]"]
  by (auto simp: set_fan_def split: prod.splits dialect.splits sum.splits)

lemma call_wire:
  assumes "call_ok call"
  shows "\<exists>new. wire (mc_bus (mcu_call bus call m)) = wire (mc_bus m) @ new \<and>
           list_all (permitted (mc_dialect m)) new \<and> mc_dialect (mcu_call bus call m) = mc_dialect m"
proof (cases call)
  case IsPresent
  then show ?thesis using probe_quiet[of "mc_bus m" ADDR] by (auto simp: is_present_def split: prod.splits)
next
  case (SetFan d)
  obtain r m' where s: "set_fan bus m d = (r, m')" by (cases "set_fan bus m d")
  show ?thesis using set_fan_wire[OF s] as_mcu_byte_le[of d] assms SetFan s
    by (auto simp: permitted_def split: dialect.splits)
next
  case (SetPowerMode p)
  then show ?thesis
    using mcu_write_wire[of m "[case p of RequiresButton \<Rightarrow> 0xFD | AlwaysOn \<Rightarrow> 0xFE]"]
    by (cases "set_power_mode bus m p") (auto simp: set_power_mode_def permitted_def split: power_mode.splits)
next
  case ArmPowerCut
  then show ?thesis using mcu_write_wire[of m "[0xFF]"]
    by (cases "arm_power_cut bus m") (auto simp: arm_power_cut_def permitted_def)
next
  case EnterBootloader
  then show ?thesis by (simp add: enter_bootloader_def)
qed

end

section \<open>What the firmware makes of it\<close>

fun firmware :: "dialect \<Rightarrow> u8 list \<Rightarrow> mcu_state \<Rightarrow> mcu_state" where
  "firmware Legacy = legacy_receive"
| "firmware Register = register_receive"

definition deliver :: "dialect \<Rightarrow> (u8 \<times> u8 list) list \<Rightarrow> mcu_state \<Rightarrow> mcu_state" where
  "deliver d xs s = fold (firmware d) (map snd xs) s"

lemma deliver_simps [simp]:
  "deliver d [] s = s"
  "deliver d (xs @ ys) s = deliver d ys (deliver d xs s)"
  "deliver d [x] s = firmware d (snd x) s"
  by (simp_all add: deliver_def)

lemma byte_cases: "b \<le> (100::u8) \<Longrightarrow> b \<noteq> 0 \<Longrightarrow> 1 \<le> b"
  by (simp add: word_le_nat_alt unat_gt_0 Suc_le_eq)

lemma firmware_duty:
  assumes "b \<le> 100"
  shows "ms_fan_percent (firmware d (case d of Legacy \<Rightarrow> [b] | Register \<Rightarrow> [0x80, b]) s) = b"
    and "ms_in_bootloader (firmware d (case d of Legacy \<Rightarrow> [b] | Register \<Rightarrow> [0x80, b]) s) = ms_in_bootloader s"
    and "ms_power_cut_armed (firmware d (case d of Legacy \<Rightarrow> [b] | Register \<Rightarrow> [0x80, b]) s) = ms_power_cut_armed s"
  using byte_cases[OF assms] assms
  by (cases d; cases "b = 0"; simp add: legacy_receive_def register_receive_def opcodes min_def)+

lemma register_byte: "b \<le> 100 \<Longrightarrow> ms_fan_percent (register_receive [b] s) = b"
  using byte_cases[of b] by (cases "b = 0"; simp add: register_receive_def opcodes)

lemma firmware_opcode:
  assumes "c \<in> {0xFD, 0xFE, 0xFF}"
  shows "ms_fan_percent (firmware d [c] s) = ms_fan_percent s"
    and "ms_in_bootloader (firmware d [c] s) = ms_in_bootloader s"
    and "ms_power_cut_armed (firmware d [c] s) = (ms_power_cut_armed s \<or> c = 0xFF)"
  using assms by (cases d; auto simp: legacy_receive_def register_receive_def opcodes)+

lemma deliver_permitted:
  "list_all (permitted d) xs \<Longrightarrow> ms_in_bootloader (deliver d xs s) = ms_in_bootloader s"
proof (induction xs arbitrary: s)
  case (Cons x xs)
  have "ms_in_bootloader (firmware d (snd x) s) = ms_in_bootloader s"
    using Cons.prems firmware_duty(2) firmware_opcode(2) by (auto simp: permitted_def)
  with Cons show ?case by (simp add: deliver_def)
qed (simp add: deliver_def)

context wire_bus begin

lemma call_fan:
  assumes "call_ok call" "wire (mc_bus (mcu_call bus call m)) = wire (mc_bus m) @ new"
    and "mc_shadow_duty m = None \<or> ms_fan_percent s = duty_percent (the (mc_shadow_duty m))"
  shows "mc_shadow_duty (mcu_call bus call m) = None \<or>
         ms_fan_percent (deliver (mc_dialect m) new s) = duty_percent (the (mc_shadow_duty (mcu_call bus call m)))"
proof (cases call)
  case IsPresent
  then show ?thesis using assms probe_quiet[of "mc_bus m" ADDR] by (auto simp: is_present_def split: prod.splits)
next
  case (SetFan d)
  obtain r m' where s: "set_fan bus m d = (r, m')" by (cases "set_fan bus m d")
  have b: "as_mcu_byte d \<le> 100" "as_mcu_byte d = duty_percent d"
    using assms(1) SetFan as_mcu_byte_le by (cases d; simp)+
  show ?thesis
  proof (cases "is_ok r")
    case True
    then have "new = [(ADDR, case mc_dialect m of Legacy \<Rightarrow> [as_mcu_byte d] | Register \<Rightarrow> [0x80, as_mcu_byte d])]"
      using assms(2) set_fan_wire(1)[OF s] s SetFan by simp
    then show ?thesis using True set_fan_wire(3)[OF s] s SetFan b firmware_duty(1)[OF b(1)] by simp
  next
    case False
    then show ?thesis using assms set_fan_wire[OF s] s SetFan by simp
  qed
next
  case (SetPowerMode p)
  then show ?thesis
    using assms firmware_opcode(1)
      mcu_write_wire[of m "[case p of RequiresButton \<Rightarrow> 0xFD | AlwaysOn \<Rightarrow> 0xFE]"]
    by (cases "set_power_mode bus m p") (auto simp: set_power_mode_def split: power_mode.splits if_splits)
next
  case ArmPowerCut
  then show ?thesis using assms firmware_opcode(1) mcu_write_wire[of m "[0xFF]"]
    by (cases "arm_power_cut bus m") (auto simp: arm_power_cut_def split: if_splits)
next
  case EnterBootloader
  then show ?thesis using assms by (simp add: enter_bootloader_def)
qed

end

lemma run_wire:
  assumes "\<forall>(bus, call) \<in> set calls. wire_bus bus wire \<and> call_ok call"
    and "mc_shadow_duty m = None \<or> ms_fan_percent s = duty_percent (the (mc_shadow_duty m))"
  shows "\<exists>new. wire (mc_bus (mcu_run calls m)) = wire (mc_bus m) @ new \<and> list_all (permitted (mc_dialect m)) new \<and>
    (mc_shadow_duty (mcu_run calls m) = None \<or>
     ms_fan_percent (deliver (mc_dialect m) new s) = duty_percent (the (mc_shadow_duty (mcu_run calls m))))"
  using assms
proof (induction calls arbitrary: m s)
  case (Cons x calls)
  obtain bus call where x: "x = (bus, call)" by (cases x)
  have wb: "wire_bus bus wire" and ok: "call_ok call" using Cons.prems(1) by (auto simp: x)
  let ?m = "mcu_call bus call m"
  obtain new where new: "wire (mc_bus ?m) = wire (mc_bus m) @ new" "list_all (permitted (mc_dialect m)) new"
    "mc_dialect ?m = mc_dialect m"
    using wire_bus.call_wire[OF wb ok, of m] by blast
  note fan = wire_bus.call_fan[OF wb ok new(1) Cons.prems(2)]
  from Cons.IH[of ?m "deliver (mc_dialect m) new s"] Cons.prems(1) fan new(3) obtain new' where
    n': "wire (mc_bus (mcu_run calls ?m)) = wire (mc_bus ?m) @ new'" "list_all (permitted (mc_dialect m)) new'"
      "mc_shadow_duty (mcu_run calls ?m) = None \<or>
       ms_fan_percent (deliver (mc_dialect m) new' (deliver (mc_dialect m) new s)) =
         duty_percent (the (mc_shadow_duty (mcu_run calls ?m)))"
    by auto
  show ?case
    using new n' by (intro exI[of _ "new @ new'"]) (simp add: x)
qed (auto intro: exI[of _ "[]"])



text \<open>Why the dialect is configuration: the register protocol's way to set any duty runs the fan of
  a legacy firmware at full, while the legacy protocol's way sets the right duty on both.\<close>

theorem dialect_hazard:
  "ms_fan_percent (legacy_receive [0x80, as_mcu_byte duty] s) = 100 \<and>
   (duty_ok duty \<longrightarrow>
      ms_fan_percent (legacy_receive [as_mcu_byte duty] s) = duty_percent duty \<and>
      ms_fan_percent (register_receive [as_mcu_byte duty] s) = duty_percent duty)"
proof -
  have "ms_fan_percent (legacy_receive [0x80, as_mcu_byte duty] s) = 100"
    by (simp add: legacy_receive_def opcodes min_def)
  moreover have "ms_fan_percent (legacy_receive [as_mcu_byte duty] s) = duty_percent duty"
    "ms_fan_percent (register_receive [as_mcu_byte duty] s) = duty_percent duty" if "duty_ok duty"
    using firmware_duty(1)[OF as_mcu_byte_le[OF that], of Legacy s]
      register_byte[OF as_mcu_byte_le[OF that], of s] by (cases duty; simp)+
  ultimately show ?thesis by simp
qed

theorem dialect_hazard_witness:
  "ms_fan_percent (legacy_receive [0x80, as_mcu_byte (Percent 25)] mcu_state_default) = 100 \<and>
   duty_ok (Percent 25) \<and>
   ms_fan_percent (legacy_receive [as_mcu_byte (Percent 25)] mcu_state_default) = 25 \<and>
   ms_fan_percent (register_receive [as_mcu_byte (Percent 25)] mcu_state_default) = 25"
  using dialect_hazard[of "Percent 25" mcu_state_default] by simp

text \<open>What the kernel fan reports: a PWM of 0 or 1 reads as off, and any other as the rounded percentage
  raised to the spinning minimum of 10, so a driven fan is never reported as stopped, and no
  report exceeds 100. A PWM of 2 therefore reads as 10 percent, not 1.\<close>

theorem duty_from_pwm_value:
  "(duty_from_pwm p = Off \<longleftrightarrow> unat p \<le> 1) \<and>
   unat (duty_percent (duty_from_pwm p)) =
     (if unat p \<le> 1 then 0 else max 10 ((unat p * 100 + 127) div 255)) \<and>
   unat (duty_percent (duty_from_pwm p)) \<le> 100"
proof -
  define n where "n = (unat p * 100 + 127) div 255"
  have n: "n \<le> 100" using unat_u8_le[of p] unfolding n_def by linarith
  have u: "unat (of_nat n :: u8) = n" using n by simp
  have eq: "duty_from_pwm p = duty_clamped (of_nat n)"
    using n by (simp add: duty_from_pwm_def n_def[symmetric] U8_MAX_def)
  have z: "(of_nat n = (0::u8)) \<longleftrightarrow> n = 0" by (simp add: word_unat_eq_iff u)
  have lt: "(of_nat n :: u8) < 10 \<longleftrightarrow> n < 10" "(of_nat n :: u8) \<le> 100"
    using n u by (simp_all add: word_less_nat_alt word_le_nat_alt)
  have n0: "n = 0 \<longleftrightarrow> unat p \<le> 1" unfolding n_def by linarith
  have "duty_from_pwm p = (if n = 0 then Off else if n < 10 then Percent 10 else Percent (of_nat n))"
    using lt by (simp add: eq duty_clamped_def MIN_SPINNING_DUTY_def z)
  then show ?thesis using n0 n u unfolding n_def[symmetric] by auto
qed

end
