(* ===== verification/FanTask.thy ===== *)
theory FanTask
  imports Mcu
begin

text \<open>
  The fan control task (\<open>crates/argon-device/src/fan.rs\<close>): one iteration reads the temperature,
  asks the controller and writes on change. The temperature source is a parameter, and so is the
  bus, which a rate limiter makes different at every step.
\<close>

datatype fan_step_result =
  Applied i32 fan_duty bool
| SensorFailed fan_duty nat

record ('b, 't) fan_task =
  ft_mcu :: "'b mcu"
  ft_source :: 't
  ft_controller :: fan_controller
  ft_sensor_fail_duty :: fan_duty
  ft_failures :: nat
  ft_last_written :: "fan_duty option"
  ft_last_temp :: "i32 option"

definition fan_task_new :: "'b mcu \<Rightarrow> 't \<Rightarrow> fan_controller \<Rightarrow> fan_duty \<Rightarrow> ('b, 't) fan_task" where
  "fan_task_new m source controller sensor_fail_duty =
     \<lparr>ft_mcu = m, ft_source = source, ft_controller = controller,
      ft_sensor_fail_duty = sensor_fail_duty, ft_failures = 0, ft_last_written = None,
      ft_last_temp = None\<rparr>"

definition write_if_changed ::
  "'b i2c_ops \<Rightarrow> fan_duty \<Rightarrow> ('b, 't) fan_task \<Rightarrow> (hal_error + bool) \<times> ('b, 't) fan_task"
where
  "write_if_changed bus duty t =
     (if ft_last_written t = Some duty then (Inr False, t)
      else let (r, m) = set_fan bus (ft_mcu t) duty; t1 = t\<lparr>ft_mcu := m\<rparr>
           in case r of
                Inr _ \<Rightarrow> (Inr True, t1\<lparr>ft_last_written := Some duty\<rparr>)
              | Inl (RateLimited _) \<Rightarrow> (Inr False, t1)
              | Inl e \<Rightarrow> (Inl e, t1))"

definition fan_step ::
  "('t \<Rightarrow> (hal_error + i32) \<times> 't) \<Rightarrow> 'b i2c_ops \<Rightarrow> ('b, 't) fan_task \<Rightarrow>
   (hal_error + fan_step_result) \<times> ('b, 't) fan_task"
where
  "fan_step read_decicelsius bus t0 =
     (let (reading, source) = read_decicelsius (ft_source t0); t = t0\<lparr>ft_source := source\<rparr>
      in case reading of
           Inl _ \<Rightarrow>
             (let t1 = t\<lparr>ft_failures := sat_inc U32_MAX (ft_failures t),
                         ft_controller := controller_reset (ft_controller t)\<rparr>;
                  fallback = ft_sensor_fail_duty t1;
                  (w, t2) = write_if_changed bus fallback t1
              in (map_ok (\<lambda>_. SensorFailed fallback (ft_failures t2)) w, t2))
         | Inr decicelsius \<Rightarrow>
             (let (controller, duty) = controller_update (ft_controller t) decicelsius;
                  t1 = t\<lparr>ft_failures := 0, ft_last_temp := Some decicelsius, ft_controller := controller\<rparr>;
                  (w, t2) = write_if_changed bus duty t1
              in (map_ok (\<lambda>wrote. Applied decicelsius duty wrote) w, t2)))"

fun fan_steps ::
  "('t \<Rightarrow> (hal_error + i32) \<times> 't) \<Rightarrow> 'b i2c_ops list \<Rightarrow> ('b, 't) fan_task \<Rightarrow> ('b, 't) fan_task"
where
  "fan_steps read_decicelsius [] t = t"
| "fan_steps read_decicelsius (bus # buses) t =
     fan_steps read_decicelsius buses (snd (fan_step read_decicelsius bus t))"

fun step_duty :: "fan_step_result \<Rightarrow> fan_duty" where
  "step_duty (Applied _ d _) = d"
| "step_duty (SensorFailed d _) = d"

section \<open>What is recorded is what was written\<close>

definition task_ok :: "('b, 't) fan_task \<Rightarrow> bool" where
  "task_ok t \<longleftrightarrow> ft_last_written t = mc_shadow_duty (ft_mcu t) \<and> duty_ok (ft_sensor_fail_duty t) \<and>
     (\<forall>p \<in> set (fc_curve (ft_controller t)). duty_ok (cp_duty p)) \<and>
     (\<forall>d. fc_current (ft_controller t) = Some d \<longrightarrow> duty_ok d)"

lemma apply_floor_duty_ok: "duty_ok d \<Longrightarrow> duty_ok (apply_floor c d)"
  by (cases d) (auto simp: apply_floor_def MIN_SPINNING_DUTY_def word_less_nat_alt word_le_nat_alt
      min_def max_def)

lemma update_duty_ok:
  assumes "\<forall>p \<in> set (fc_curve c). duty_ok (cp_duty p)" "\<forall>d. fc_current c = Some d \<longrightarrow> duty_ok d"
  shows "duty_ok (snd (controller_update c t))"
proof -
  have "duty_ok (duty_for (fc_curve c) t)" using duty_for_cases[of "fc_curve c" t] assms(1) by auto
  then show ?thesis
    using assms(2) by (auto simp: controller_update_def Let_def intro!: apply_floor_duty_ok split: option.splits)
qed

text \<open>A step is at most one fan request, for the duty it decided on, on the driver.\<close>

lemma write_if_changed_request:
  assumes "write_if_changed bus duty t = (w, t')"
  shows "ft_mcu t' = (if ft_last_written t = Some duty then ft_mcu t else mcu_call bus (SetFan duty) (ft_mcu t))"
    and "ft_controller t' = ft_controller t" "ft_source t' = ft_source t" "ft_failures t' = ft_failures t"
    and "ft_sensor_fail_duty t' = ft_sensor_fail_duty t" "ft_last_temp t' = ft_last_temp t"
    and "ft_last_written t = mc_shadow_duty (ft_mcu t) \<Longrightarrow> ft_last_written t' = mc_shadow_duty (ft_mcu t')"
    and "w = Inr True \<Longrightarrow> ft_last_written t' = Some duty"
    and "w = Inr False \<Longrightarrow> ft_last_written t' = Some duty \<or>
           (\<exists>wait. fst (set_fan bus (ft_mcu t) duty) = Inl (RateLimited wait)) \<and> ft_last_written t' = ft_last_written t"
    and "w = Inl e \<Longrightarrow> ft_last_written t' = ft_last_written t"
  using assms
  by (auto simp: write_if_changed_def set_fan_def mcu_write_def Let_def
      split: if_splits prod.splits sum.splits hal_error.splits dialect.splits)

definition decided :: "('t \<Rightarrow> (hal_error + i32) \<times> 't) \<Rightarrow> ('b, 't) fan_task \<Rightarrow> fan_duty" where
  \<comment> \<open>the duty a step works towards\<close>
  "decided read_decicelsius t =
     (case fst (read_decicelsius (ft_source t)) of
        Inl _ \<Rightarrow> ft_sensor_fail_duty t
      | Inr temp \<Rightarrow> snd (controller_update (ft_controller t) temp))"

lemma fan_step_parts:
  assumes "fan_step rd bus t = (r, t')"
  obtains w t1 where "write_if_changed bus (decided rd t) t1 = (w, t')"
    and "ft_mcu t1 = ft_mcu t" "ft_last_written t1 = ft_last_written t"
    and "ft_sensor_fail_duty t1 = ft_sensor_fail_duty t"
    and "fc_curve (ft_controller t1) = fc_curve (ft_controller t)"
    and "fc_current (ft_controller t1) = None \<or> fc_current (ft_controller t1) = Some (decided rd t)"
    and "(\<exists>e. w = Inl e \<and> r = Inl e) \<or> (\<exists>b res. w = Inr b \<and> r = Inr res \<and> step_duty res = decided rd t)"
proof -
  obtain reading source where rd: "rd (ft_source t) = (reading, source)" by (cases "rd (ft_source t)")
  show thesis
  proof (cases reading)
    case (Inl e)
    let ?t1 = "t\<lparr>ft_source := source, ft_failures := sat_inc U32_MAX (ft_failures t),
        ft_controller := controller_reset (ft_controller t)\<rparr>"
    obtain w t2 where w: "write_if_changed bus (ft_sensor_fail_duty t) ?t1 = (w, t2)"
      by (cases "write_if_changed bus (ft_sensor_fail_duty t) ?t1")
    with assms rd Inl that[of ?t1 w] show thesis
      by (cases w) (auto simp: fan_step_def decided_def controller_reset_def Let_def)
  next
    case (Inr temp)
    obtain c d where c: "controller_update (ft_controller t) temp = (c, d)"
      by (cases "controller_update (ft_controller t) temp")
    let ?t1 = "t\<lparr>ft_source := source, ft_failures := 0, ft_last_temp := Some temp, ft_controller := c\<rparr>"
    obtain w t2 where w: "write_if_changed bus d ?t1 = (w, t2)" by (cases "write_if_changed bus d ?t1")
    have "fc_current c = Some d" "fc_curve c = fc_curve (ft_controller t)"
      using update_current[of "ft_controller t" temp] update_keeps(1)[of "ft_controller t" temp] by (simp_all add: c)
    with w assms rd Inr c that[of ?t1 w] show thesis
      by (cases w) (auto simp: fan_step_def decided_def Let_def)
  qed
qed

lemma decided_ok: "task_ok t \<Longrightarrow> duty_ok (decided rd t)"
  by (auto simp: decided_def task_ok_def intro!: update_duty_ok split: sum.split)

lemma fan_step_ok:
  assumes "task_ok t" "fan_step rd bus t = (r, t')"
  shows "task_ok t' \<and> (\<exists>calls. calls \<in> {[], [(bus, SetFan (decided rd t))]} \<and> ft_mcu t' = mcu_run calls (ft_mcu t))"
proof -
  from assms(2) obtain w t1 where w: "write_if_changed bus (decided rd t) t1 = (w, t')"
    and t1: "ft_mcu t1 = ft_mcu t" "ft_last_written t1 = ft_last_written t"
      "ft_sensor_fail_duty t1 = ft_sensor_fail_duty t"
      "fc_curve (ft_controller t1) = fc_curve (ft_controller t)"
      "fc_current (ft_controller t1) = None \<or> fc_current (ft_controller t1) = Some (decided rd t)"
    by (rule fan_step_parts)
  note wr = write_if_changed_request[OF w]
  have "task_ok t'"
    using assms(1) t1 wr(2,5) wr(7) decided_ok[OF assms(1), of rd] by (auto simp: task_ok_def)
  moreover have "ft_mcu t' = mcu_run [] (ft_mcu t) \<or> ft_mcu t' = mcu_run [(bus, SetFan (decided rd t))] (ft_mcu t)"
    using wr(1) t1(1) by simp
  ultimately show ?thesis by blast
qed

lemma mcu_run_append [simp]: "mcu_run (xs @ ys) m = mcu_run ys (mcu_run xs m)"
  by (induction xs m rule: mcu_run.induct) auto

lemma fan_steps_ok:
  assumes "task_ok t"
  shows "task_ok (fan_steps rd buses t) \<and>
    (\<exists>calls. (\<forall>(bus, call) \<in> set calls. bus \<in> set buses \<and> call_ok call) \<and>
             ft_mcu (fan_steps rd buses t) = mcu_run calls (ft_mcu t))"
  using assms
proof (induction buses arbitrary: t)
  case Nil
  then show ?case by (auto intro: exI[of _ "[]"])
next
  case (Cons bus buses)
  obtain r t' where s: "fan_step rd bus t = (r, t')" by (cases "fan_step rd bus t")
  from fan_step_ok[OF Cons.prems s] obtain calls where c: "task_ok t'"
    "calls \<in> {[], [(bus, SetFan (decided rd t))]}" "ft_mcu t' = mcu_run calls (ft_mcu t)" by blast
  from Cons.IH[OF c(1)] obtain calls' where c': "task_ok (fan_steps rd buses t')"
    "\<forall>(b, call) \<in> set calls'. b \<in> set buses \<and> call_ok call"
    "ft_mcu (fan_steps rd buses t') = mcu_run calls' (ft_mcu t')" by blast
  have "\<forall>(b, call) \<in> set (calls @ calls'). b \<in> set (bus # buses) \<and> call_ok call"
    using c(2) c'(2) decided_ok[OF Cons.prems, of rd] by auto
  moreover have "ft_mcu (fan_steps rd (bus # buses) t) = mcu_run (calls @ calls') (ft_mcu t)"
    using c(3) c'(3) s by simp
  moreover have "task_ok (fan_steps rd (bus # buses) t)" using c'(1) s by simp
  ultimately show ?case by blast
qed

text \<open>C18: What the fan task records as written is what the fan is doing: after any number of steps,
  with any sensor readings and failures, over buses that may fail or decline writes (the rate
  limiter included), the firmware fed what reached the wire runs the fan at the recorded duty.\<close>

theorem fan_task_record_in_force:
  assumes "\<forall>bus \<in> set buses. wire_bus bus wire" "duty_ok fail_duty"
    and "\<forall>p \<in> set (fc_curve controller). duty_ok (cp_duty p)" "fc_current controller = None"
  shows "\<exists>new. wire (mc_bus (ft_mcu (fan_steps rd buses (fan_task_new (mcu_new b d) src controller fail_duty)))) =
           wire b @ new \<and>
    (\<forall>duty. ft_last_written (fan_steps rd buses (fan_task_new (mcu_new b d) src controller fail_duty)) = Some duty \<longrightarrow>
       ms_fan_percent (deliver d new s) = duty_percent duty)"
proof -
  let ?t = "fan_task_new (mcu_new b d) src controller fail_duty"
  have "task_ok ?t" using assms by (auto simp: task_ok_def fan_task_new_def mcu_new_def)
  from fan_steps_ok[OF this, of rd buses] obtain calls where c: "task_ok (fan_steps rd buses ?t)"
    "\<forall>(bus, call) \<in> set calls. bus \<in> set buses \<and> call_ok call"
    "ft_mcu (fan_steps rd buses ?t) = mcu_run calls (mcu_new b d)"
    by (auto simp: fan_task_new_def)
  have "\<forall>(bus, call) \<in> set calls. wire_bus bus wire \<and> call_ok call" using c(2) assms(1) by auto
  from run_wire[OF this, of "mcu_new b d" s] obtain new where
    "wire (mc_bus (mcu_run calls (mcu_new b d))) = wire b @ new"
    "mc_shadow_duty (mcu_run calls (mcu_new b d)) = None \<or>
     ms_fan_percent (deliver d new s) = duty_percent (the (mc_shadow_duty (mcu_run calls (mcu_new b d))))"
    by (auto simp: mcu_new_def)
  then show ?thesis using c(1,3) by (auto simp: task_ok_def)
qed

theorem fan_task_record_in_force_witness:
  "\<exists>new. dr_writes (mc_bus (ft_mcu (fan_steps (\<lambda>t. (Inr t, t + 10)) [dry_run_ops quiet_bus, dry_run_ops quiet_bus]
      (fan_task_new (mcu_new (dry_run_new ()) Legacy) 600 (controller_new sample_curve 3 10 False) (Percent 100))))) =
        dr_writes (dry_run_new ()) @ new \<and>
    (\<forall>duty. ft_last_written (fan_steps (\<lambda>t. (Inr t, t + 10)) [dry_run_ops quiet_bus, dry_run_ops quiet_bus]
      (fan_task_new (mcu_new (dry_run_new ()) Legacy) 600 (controller_new sample_curve 3 10 False) (Percent 100))) = Some duty \<longrightarrow>
       ms_fan_percent (deliver Legacy new mcu_state_default) = duty_percent duty)"
  by (rule fan_task_record_in_force)
    (auto simp: dry.wire_bus_axioms controller_new_def sample_curve_def)

text \<open>A step is honest and safe: if it succeeds, the duty it reports is recorded as written, or the
  bus declined the write for now and nothing was recorded, so the next step tries again; if it
  fails, nothing was recorded. With the sensor failed the duty is the configured fallback;
  otherwise it is at least what the curve asks for the temperature read.\<close>

theorem fan_step_sound:
  assumes "task_ok t" "fan_step rd bus t = (r, t')"
  shows "case r of
      Inl e \<Rightarrow> ft_last_written t' = ft_last_written t
    | Inr res \<Rightarrow>
        (ft_last_written t' = Some (step_duty res) \<or>
         (\<exists>wait. fst (set_fan bus (ft_mcu t) (step_duty res)) = Inl (RateLimited wait)) \<and>
         ft_last_written t' = ft_last_written t) \<and>
        (case fst (rd (ft_source t)) of
           Inl _ \<Rightarrow> step_duty res = ft_sensor_fail_duty t
         | Inr temp \<Rightarrow> duty_percent (duty_for (fc_curve (ft_controller t)) temp) \<le> duty_percent (step_duty res))"
proof -
  from assms(2) obtain w t1 where w: "write_if_changed bus (decided rd t) t1 = (w, t')"
    and t1: "ft_mcu t1 = ft_mcu t" "ft_last_written t1 = ft_last_written t"
    and r: "(\<exists>e. w = Inl e \<and> r = Inl e) \<or> (\<exists>b res. w = Inr b \<and> r = Inr res \<and> step_duty res = decided rd t)"
    by (rule fan_step_parts)
  note wr = write_if_changed_request[OF w]
  have cool: "case fst (rd (ft_source t)) of
           Inl _ \<Rightarrow> decided rd t = ft_sensor_fail_duty t
         | Inr temp \<Rightarrow> duty_percent (duty_for (fc_curve (ft_controller t)) temp) \<le> duty_percent (decided rd t)"
    using assms(1) update_cools by (auto simp: decided_def task_ok_def split: sum.split)
  from r show ?thesis
  proof
    assume "\<exists>e. w = Inl e \<and> r = Inl e"
    then show ?thesis using wr(10) t1 by auto
  next
    assume "\<exists>b res. w = Inr b \<and> r = Inr res \<and> step_duty res = decided rd t"
    then obtain b res where res: "w = Inr b" "r = Inr res" "step_duty res = decided rd t" by blast
    then show ?thesis using wr(8,9) t1 cool by (cases b) (auto split: sum.splits)
  qed
qed

definition sample_task :: "(unit dry_run, i32) fan_task" where
  "sample_task = fan_task_new (mcu_new (dry_run_new ()) Legacy) 600 (controller_new sample_curve 3 10 False) (Percent 100)"

definition sample_source :: "i32 \<Rightarrow> (hal_error + i32) \<times> i32" where
  "sample_source t = (Inr t, t + 10)"

theorem fan_step_sound_witness:
  "case fst (fan_step sample_source (dry_run_ops quiet_bus) sample_task) of
      Inl e \<Rightarrow> ft_last_written (snd (fan_step sample_source (dry_run_ops quiet_bus) sample_task)) =
                ft_last_written sample_task
    | Inr res \<Rightarrow>
        (ft_last_written (snd (fan_step sample_source (dry_run_ops quiet_bus) sample_task)) = Some (step_duty res) \<or>
         (\<exists>wait. fst (set_fan (dry_run_ops quiet_bus) (ft_mcu sample_task) (step_duty res)) = Inl (RateLimited wait)) \<and>
         ft_last_written (snd (fan_step sample_source (dry_run_ops quiet_bus) sample_task)) =
           ft_last_written sample_task) \<and>
        (case fst (sample_source (ft_source sample_task)) of
           Inl _ \<Rightarrow> step_duty res = ft_sensor_fail_duty sample_task
         | Inr temp \<Rightarrow>
             duty_percent (duty_for (fc_curve (ft_controller sample_task)) temp) \<le> duty_percent (step_duty res))"
  by (rule fan_step_sound)
    (simp_all add: task_ok_def sample_task_def fan_task_new_def mcu_new_def controller_new_def sample_curve_def)

end
