(* ===== verification/Serial.thy ===== *)
theory Serial
  imports UpsFrame Hal
begin

text \<open>
  The UPS serial link (\<open>crates/argon-hal/src/serial.rs\<close>): one request is a frame written and the
  port read until a frame for the same command arrives or a deadline passes. The port and the
  clock are the environment: a script of what each turn of the loop sees, the time at its check
  of the deadline and the result of its read. A script that ends before the loop does leaves the
  request waiting.
\<close>

datatype port_read = Data "u8 list" | TimedOut | Interrupted | PortError string

type_synonym script = "(instant \<times> port_read) list"

record serial_link =
  sl_reader :: frame_reader
  sl_discarded :: nat

definition serial_from_port :: serial_link where
  "serial_from_port = \<lparr>sl_reader = reader_new, sl_discarded = 0\<rparr>"

text \<open>What a call of the loop came to; \<open>Panicked\<close> is proved impossible.\<close>

datatype 'a outcome = Panicked | Waiting | Returned 'a

text \<open>The inner loop over the bytes of one read: it stops at the first frame for the command.\<close>

fun push_bytes :: "u8 \<Rightarrow> serial_link \<Rightarrow> u8 list \<Rightarrow> (serial_link \<times> frame option) option" where
  "push_bytes cmd l [] = Some (l, None)"
| "push_bytes cmd l (b # bs) =
     (case push (sl_reader l) b of
        None \<Rightarrow> None
      | Some (r, out) \<Rightarrow>
          (let l1 = l\<lparr>sl_reader := r\<rparr>
           in case out of
                Some (Inr f) \<Rightarrow>
                  if f_cmd f = cmd then Some (l1, Some f)
                  else push_bytes cmd (l1\<lparr>sl_discarded := sat_inc U64_MAX (sl_discarded l1)\<rparr>) bs
              | Some (Inl _) \<Rightarrow>
                  push_bytes cmd (l1\<lparr>sl_discarded := sat_inc U64_MAX (sl_discarded l1)\<rparr>) bs
              | None \<Rightarrow> push_bytes cmd l1 bs))"

fun read_matching :: "u8 \<Rightarrow> instant \<Rightarrow> script \<Rightarrow> serial_link \<Rightarrow> ((hal_error + frame) \<times> serial_link) outcome" where
  "read_matching cmd deadline [] l = Waiting"
| "read_matching cmd deadline ((now, event) # rest) l =
     (if deadline \<le> now then Returned (Inl Timeout, l)
      else case event of
             TimedOut \<Rightarrow> read_matching cmd deadline rest l
           | Interrupted \<Rightarrow> read_matching cmd deadline rest l
           | PortError e \<Rightarrow> Returned (Inl (Io e), l)
           | Data bytes \<Rightarrow>
               (case push_bytes cmd l bytes of
                  None \<Rightarrow> Panicked
                | Some (l1, Some f) \<Rightarrow> Returned (Inr f, l1)
                | Some (l1, None) \<Rightarrow> read_matching cmd deadline rest l1))"

text \<open>\<open>request\<close>: the bytes it writes, and its result; the write itself may fail with \<open>werr\<close>.\<close>

definition serial_request ::
  "u8 \<Rightarrow> u8 list \<Rightarrow> instant \<Rightarrow> string option \<Rightarrow> script \<Rightarrow> serial_link \<Rightarrow>
   u8 list \<times> ((hal_error + frame) \<times> serial_link) outcome"
where
  "serial_request cmd payload deadline werr script l =
     (case frame_new cmd payload of
        Inl (PayloadTooLong n) \<Rightarrow>
          ([], Returned (Inl (Io (''payload of '' @ show_nat n @ '' bytes exceeds 255'')), l))
      | Inl _ \<Rightarrow> ([], Panicked)
      | Inr f \<Rightarrow>
          (case encode_into f (replicate 260 0) of
             Inl (BufferTooSmall need got) \<Rightarrow>
               ([], Returned (Inl (Io (''output buffer holds '' @ show_nat got @ '' bytes, need '' @ show_nat need)), l))
           | Inl _ \<Rightarrow> ([], Panicked)
           | Inr (n, out) \<Rightarrow>
               (let l1 = l\<lparr>sl_reader := reader_reset (sl_reader l)\<rparr>
                in (take n out,
                    case werr of
                      Some e \<Rightarrow> Returned (Inl (Io e), l1)
                    | None \<Rightarrow> read_matching cmd deadline script l1))))"

section \<open>What a request returns\<close>

text \<open>The reports of the reader up to and including the first frame for the command.\<close>

fun is_reply :: "u8 \<Rightarrow> frame_error + frame \<Rightarrow> bool" where
  "is_reply cmd (Inr f) = (f_cmd f = cmd)"
| "is_reply cmd (Inl _) = False"

fun read_bytes :: "instant \<Rightarrow> script \<Rightarrow> u8 list" where
  \<comment> \<open>everything read before the deadline or an error stops the loop\<close>
  "read_bytes deadline [] = []"
| "read_bytes deadline ((now, event) # rest) =
     (if deadline \<le> now then []
      else case event of
             Data bytes \<Rightarrow> bytes @ read_bytes deadline rest
           | PortError _ \<Rightarrow> []
           | _ \<Rightarrow> read_bytes deadline rest)"

definition bytes_meaning :: "u8 \<Rightarrow> (frame_error + frame) list \<Rightarrow> frame_reader \<Rightarrow> (serial_link \<times> frame option) option \<Rightarrow> bool" where
  "bytes_meaning cmd outs r x =
     (case x of
        None \<Rightarrow> False
      | Some (l', None) \<Rightarrow> sl_reader l' = r \<and> (\<forall>x \<in> set outs. \<not> is_reply cmd x)
      | Some (l', Some f) \<Rightarrow> find (is_reply cmd) outs = Some (Inr f))"

lemma push_bytes_feed:
  assumes "reader_ok (sl_reader l)"
  shows "\<exists>r outs. feed push (sl_reader l) bs = Some (r, outs) \<and> reader_ok r \<and>
    bytes_meaning cmd outs r (push_bytes cmd l bs)"
  using assms
proof (induction bs arbitrary: l)
  case (Cons b bs)
  obtain r out where p: "push (sl_reader l) b = Some (r, out)" "reader_ok r"
    using push_total[OF Cons.prems] by blast
  let ?l1 = "l\<lparr>sl_reader := r\<rparr>"
  let ?l2 = "?l1\<lparr>sl_discarded := sat_inc U64_MAX (sl_discarded ?l1)\<rparr>"
  have ok: "reader_ok (sl_reader ?l1)" "reader_ok (sl_reader ?l2)" using p by simp_all
  obtain r' outs where f: "feed push r bs = Some (r', outs)" "reader_ok r'"
    and m: "bytes_meaning cmd outs r' (push_bytes cmd ?l1 bs)" "bytes_meaning cmd outs r' (push_bytes cmd ?l2 bs)"
    using Cons.IH[OF ok(1)] Cons.IH[OF ok(2)] by auto
  show ?case
  proof (cases out)
    case None
    then show ?thesis using p f m(1) by simp
  next
    case (Some x)
    have fd: "feed push (sl_reader l) (b # bs) = Some (r', x # outs)" using p Some f by simp
    show ?thesis
    proof (cases "is_reply cmd x")
      case True
      then obtain g where "x = Inr g" "f_cmd g = cmd" by (cases x) auto
      then show ?thesis using p Some fd f(2) by (simp add: bytes_meaning_def)
    next
      case False
      have "push_bytes cmd l (b # bs) = push_bytes cmd ?l2 bs"
        using p Some False by (cases x) auto
      moreover have "bytes_meaning cmd (x # outs) r' (push_bytes cmd ?l2 bs)"
        using m(2) False unfolding bytes_meaning_def by (auto split: option.splits)
      ultimately show ?thesis using fd f(2) by auto
    qed
  qed
qed (simp add: bytes_meaning_def)

text \<open>What the result of the loop says of the reports \<open>outs\<close> of the bytes it read.\<close>

fun request_meaning ::
  "u8 \<Rightarrow> instant \<Rightarrow> script \<Rightarrow> (frame_error + frame) list \<Rightarrow> ((hal_error + frame) \<times> serial_link) outcome \<Rightarrow> bool"
where
  "request_meaning cmd deadline script outs Panicked = False"
| "request_meaning cmd deadline script outs Waiting =
     ((\<forall>x \<in> set script. fst x < deadline) \<and> (\<forall>x \<in> set outs. \<not> is_reply cmd x))"
| "request_meaning cmd deadline script outs (Returned (Inr f, _)) = (find (is_reply cmd) outs = Some (Inr f))"
| "request_meaning cmd deadline script outs (Returned (Inl e, _)) =
     ((\<forall>x \<in> set outs. \<not> is_reply cmd x) \<and>
      (e = Timeout \<and> (\<exists>x \<in> set script. deadline \<le> fst x) \<or> (\<exists>m. e = Io m \<and> PortError m \<in> snd ` set script)))"

lemma request_meaning_later:
  assumes "request_meaning cmd deadline script outs x" "now < deadline" "\<forall>x \<in> set before. \<not> is_reply cmd x"
  shows "request_meaning cmd deadline ((now, event) # script) (before @ outs) x"
proof -
  have "find (is_reply cmd) (before @ outs) = find (is_reply cmd) outs"
    using assms(3) by (induction before) auto
  with assms show ?thesis
    by (cases "(cmd, deadline, script, outs, x)" rule: request_meaning.cases) auto
qed

lemma find_append_Some: "find P xs = Some x \<Longrightarrow> find P (xs @ ys) = Some x"
  by (induction xs) auto

lemma read_matching_feed:
  assumes "reader_ok (sl_reader l)"
  shows "\<exists>r outs. feed push (sl_reader l) (read_bytes deadline script) = Some (r, outs) \<and>
    request_meaning cmd deadline script outs (read_matching cmd deadline script l)"
  using assms
proof (induction script arbitrary: l)
  case (Cons x script)
  obtain now event where x: "x = (now, event)" by (cases x)
  show ?case
  proof (cases "deadline \<le> now")
    case before: False
    have skip: ?thesis if "read_matching cmd deadline (x # script) l = read_matching cmd deadline script l"
      "read_bytes deadline (x # script) = read_bytes deadline script"
      using Cons.IH[OF Cons.prems] request_meaning_later[where before = "[]"] before that x by fastforce
    show ?thesis
    proof (cases event)
      case (Data bytes)
      obtain r1 outs1 where 1: "feed push (sl_reader l) bytes = Some (r1, outs1)" "reader_ok r1"
        "bytes_meaning cmd outs1 r1 (push_bytes cmd l bytes)"
        using push_bytes_feed[OF Cons.prems, of bytes cmd] by blast
      obtain l1 found where pb: "push_bytes cmd l bytes = Some (l1, found)"
        using 1(3) by (cases "push_bytes cmd l bytes") (auto simp: bytes_meaning_def)
      show ?thesis
      proof (cases found)
        case None
        then have l1: "sl_reader l1 = r1" "\<forall>x \<in> set outs1. \<not> is_reply cmd x"
          using 1(3) pb by (auto simp: bytes_meaning_def)
        then have "reader_ok (sl_reader l1)" using 1(2) by simp
        from Cons.IH[OF this] obtain r outs where
          2: "feed push (sl_reader l1) (read_bytes deadline script) = Some (r, outs)"
          and 3: "request_meaning cmd deadline script outs (read_matching cmd deadline script l1)"
          by blast
        have "feed push (sl_reader l) (bytes @ read_bytes deadline script) = Some (r, outs1 @ outs)"
          using feed_append_Some[OF 1(1)] 2 l1(1) by simp
        then show ?thesis
          using request_meaning_later[OF 3 _ l1(2), of now event] before Data pb None by (auto simp: x)
      next
        case (Some f)
        then have ff: "find (is_reply cmd) outs1 = Some (Inr f)" using 1(3) pb by (simp add: bytes_meaning_def)
        obtain r outs where "feed push r1 (read_bytes deadline script) = Some (r, outs)"
          using feed_push_total[OF 1(2)] by blast
        from feed_append_Some[OF 1(1) this] find_append_Some[OF ff] show ?thesis
          using before Data pb Some by (simp add: x)
      qed
    qed (use skip before x in \<open>auto\<close>)
  qed (auto simp: x)
qed simp

text \<open>A request returns the right thing in bounded time. Whatever the port delivers, the request never
  panics. If it returns a frame, that is the first intact frame for the command among the bytes
  read after the request was written. If it returns an error, no such frame was read, and either
  the deadline had passed or the port failed. It is left waiting only by an environment whose
  clock never reaches the deadline: a device that dribbles bytes cannot hold it longer.\<close>

theorem serial_request_reply:
  assumes "length payload \<le> 255"
  shows "\<exists>r outs. fst (serial_request cmd payload deadline None script serial_from_port) =
      wire (frame_of cmd payload) \<and>
    feed push reader_new (read_bytes deadline script) = Some (r, outs) \<and>
    request_meaning cmd deadline script outs
      (snd (serial_request cmd payload deadline None script serial_from_port))"
proof -
  have reset: "reader_reset reader_new = reader_new" by (simp add: reader_reset_def reader_new_def)
  have w: "length (wire (frame_of cmd payload)) \<le> length (replicate 260 (0::u8))" using assms by simp
  have req: "serial_request cmd payload deadline None script serial_from_port =
      (wire (frame_of cmd payload), read_matching cmd deadline script serial_from_port)"
    using assms encode_into_eq[OF frame_ok_of[OF assms] w]
    by (simp add: serial_request_def serial_from_port_def reset)
  have "reader_ok (sl_reader serial_from_port)" by (simp add: serial_from_port_def)
  from read_matching_feed[OF this, of deadline script cmd] show ?thesis
    by (simp add: req) (simp add: serial_from_port_def)
qed

theorem serial_request_reply_witness:
  "\<exists>r outs. fst (serial_request 0 [] 100 None [(1, Data [0xFE, 2]), (2, TimedOut), (3, Data [0, 80, 0, 0x50])] serial_from_port) =
      wire (frame_of 0 []) \<and>
    feed push reader_new (read_bytes 100 [(1, Data [0xFE, 2]), (2, TimedOut), (3, Data [0, 80, 0, 0x50])]) = Some (r, outs) \<and>
    request_meaning 0 100 [(1, Data [0xFE, 2]), (2, TimedOut), (3, Data [0, 80, 0, 0x50])] outs
      (snd (serial_request 0 [] 100 None [(1, Data [0xFE, 2]), (2, TimedOut), (3, Data [0, 80, 0, 0x50])] serial_from_port))"
  by (rule serial_request_reply) simp

end
