(* ===== verification/Ups.thy ===== *)
theory Ups
  imports UpsFrame Policy Hal
begin

text \<open>
  The UPS over some link (\<open>crates/argon-device/src/ups.rs\<close>): the link decorators that pass only
  queries and permitted writes, the operations with their decoding, and the watch that feeds
  readings and failures to the policy. The trait \<open>UpsLink\<close> is a function of the link's state;
  the time each request starts at is an argument.
\<close>

section \<open>Links and their gates\<close>

type_synonym 'l ups_link = "'l \<Rightarrow> command \<Rightarrow> u8 list \<Rightarrow> instant \<Rightarrow> (hal_error + frame) \<times> 'l"

definition REQUEST_DEADLINE :: duration where "REQUEST_DEADLINE = from_secs 2"

fun is_query :: "command \<Rightarrow> bool" where
  "is_query BatteryStatus = True"
| "is_query ChargeCurrent = True"
| "is_query FirmwareVersion = True"
| "is_query GetRtc = True"
| "is_query GetWake = True"
| "is_query _ = False"

fun command_debug :: "command \<Rightarrow> string" where
  "command_debug BatteryStatus = ''BatteryStatus''"
| "command_debug ChargeCurrent = ''ChargeCurrent''"
| "command_debug SetRtc = ''SetRtc''"
| "command_debug FirmwareVersion = ''FirmwareVersion''"
| "command_debug GetRtc = ''GetRtc''"
| "command_debug SetWake = ''SetWake''"
| "command_debug GetWake = ''GetWake''"
| "command_debug Acknowledge = ''Acknowledge''"
| "command_debug ResetMeter = ''ResetMeter''"

definition query_only_request :: "'l ups_link \<Rightarrow> 'l ups_link" where
  "query_only_request link l cmd payload deadline =
     (if \<not> is_query cmd
      then (Inl (WriteBlocked (''ups command '' @ command_debug cmd)
              ''only side-effect-free queries are allowed on this link''), l)
      else link l cmd payload deadline)"

record writes =
  wr_clock :: bool
  wr_wake :: bool

record 'l gate =
  gt_inner :: 'l
  gt_writes :: writes

definition gate_with_writes :: "'l \<Rightarrow> writes \<Rightarrow> 'l gate" where
  "gate_with_writes inner w = \<lparr>gt_inner = inner, gt_writes = w\<rparr>"

definition gate_queries_only :: "'l \<Rightarrow> 'l gate" where
  "gate_queries_only inner = gate_with_writes inner \<lparr>wr_clock = False, wr_wake = False\<rparr>"

definition gate_with_clock_writes :: "'l \<Rightarrow> 'l gate" where
  "gate_with_clock_writes inner = gate_with_writes inner \<lparr>wr_clock = True, wr_wake = False\<rparr>"

definition gate_allows :: "writes \<Rightarrow> command \<Rightarrow> bool" where
  "gate_allows w cmd \<longleftrightarrow> is_query cmd \<or> (wr_clock w \<and> cmd = SetRtc) \<or> (wr_wake w \<and> cmd = SetWake)"

definition gate_request :: "'l ups_link \<Rightarrow> 'l gate ups_link" where
  "gate_request link g cmd payload deadline =
     (if \<not> gate_allows (gt_writes g) cmd
      then (Inl (WriteBlocked (''ups command '' @ command_debug cmd) ''not permitted by this link's gate''), g)
      else let (r, inner) = link (gt_inner g) cmd payload deadline in (r, g\<lparr>gt_inner := inner\<rparr>))"

section \<open>The contract of a gate\<close>

text \<open>
  A guarded link passes the commands it allows to the inner link and refuses the others without
  touching it. \<open>inner\<close> is the inner link's state within the guarded one.
\<close>

type_synonym request = "command \<times> u8 list \<times> instant"

fun run_requests :: "'l ups_link \<Rightarrow> 'l \<Rightarrow> request list \<Rightarrow> 'l" where
  "run_requests link l [] = l"
| "run_requests link l ((cmd, payload, deadline) # rs) =
     run_requests link (snd (link l cmd payload deadline)) rs"

locale guarded_link =
  fixes link :: "'l ups_link"
    and guarded :: "'g ups_link"
    and inner :: "'g \<Rightarrow> 'l"
    and permits :: "'g \<Rightarrow> command \<Rightarrow> bool"
  assumes passes: "permits g cmd \<Longrightarrow> inner (snd (guarded g cmd p d)) = snd (link (inner g) cmd p d)"
    and result: "permits g cmd \<Longrightarrow> fst (guarded g cmd p d) = fst (link (inner g) cmd p d)"
    and refuses: "\<not> permits g cmd \<Longrightarrow> \<exists>what why. guarded g cmd p d = (Inl (WriteBlocked what why), g)"
    and fixed: "permits (snd (guarded g cmd p d)) = permits g"
begin

lemma only_permitted:
  "inner (run_requests guarded g rs) = run_requests link (inner g) (filter (\<lambda>(cmd, _). permits g cmd) rs)"
proof (induction rs arbitrary: g)
  case (Cons r rs)
  obtain cmd p d where r: "r = (cmd, p, d)" by (cases r)
  show ?case
  proof (cases "permits g cmd")
    case True
    with Cons[of "snd (guarded g cmd p d)"] show ?thesis by (simp add: r passes fixed)
  next
    case False
    then obtain what why where "guarded g cmd p d = (Inl (WriteBlocked what why), g)" using refuses by blast
    with Cons[of g] False show ?thesis by (simp add: r)
  qed
qed simp

end

interpretation query_only: guarded_link link "query_only_request link" "\<lambda>l. l" "\<lambda>_. is_query"
  for link :: "'l ups_link"
  by unfold_locales (simp_all add: query_only_request_def)

interpretation gated: guarded_link link "gate_request link" gt_inner "\<lambda>g. gate_allows (gt_writes g)"
  for link :: "'l ups_link"
  by unfold_locales (auto simp: gate_request_def split_beta)

text \<open>C20: What reaches the device behind a gate: however a gated link is used, the inner link ends up as if
  only the permitted requests had been made, and those are the five queries, the clock set if it
  was allowed and the wake set if it was allowed. Resetting the battery meter and acknowledging
  are never permitted, whatever the gate.\<close>

theorem gate_passes_only_permitted:
  "gt_inner (run_requests (gate_request link) (gate_with_writes l w) rs) =
     run_requests link l (filter (\<lambda>(cmd, _). gate_allows w cmd) rs) \<and>
   (gate_allows w cmd \<longleftrightarrow>
      cmd \<in> {BatteryStatus, ChargeCurrent, FirmwareVersion, GetRtc, GetWake} \<or>
      cmd = SetRtc \<and> wr_clock w \<or> cmd = SetWake \<and> wr_wake w) \<and>
   \<not> gate_allows w ResetMeter \<and> \<not> gate_allows w Acknowledge"
  using gated.only_permitted[of link "gate_with_writes l w" rs]
  by (cases cmd) (simp_all add: gate_with_writes_def gate_allows_def)

section \<open>The UPS\<close>

definition decode_error_text :: "decode_error \<Rightarrow> string" where
  "decode_error_text e =
     (case e of
        LengthError want got \<Rightarrow> ''expected a '' @ show_nat want @ ''-byte payload, got '' @ show_nat got
      | BcdError (InvalidBcd b) \<Rightarrow> ''0x'' @ show_hex2 b @ '' is not valid BCD''
      | RangeError (OutOfRange v) \<Rightarrow>
          show_nat (unat v) @ '' cannot be encoded as two BCD digits (expected 0..=99)''
      | YearOutOfRange y \<Rightarrow> ''year '' @ show_nat (unat y) @ '' is outside 2000..=2099'')"

definition decode_err :: "decode_error \<Rightarrow> hal_error" where
  "decode_err e = ParseError ''a UPS reply'' (decode_error_text e)"

definition ups_query :: "'l ups_link \<Rightarrow> instant \<Rightarrow> 'l \<Rightarrow> command \<Rightarrow> (hal_error + frame) \<times> 'l" where
  "ups_query link now l cmd = link l cmd [] (now + REQUEST_DEADLINE)"

definition ups_battery :: "'l ups_link \<Rightarrow> instant \<Rightarrow> 'l \<Rightarrow> (hal_error + battery_status) \<times> 'l" where
  "ups_battery link now l =
     (let (r, l1) = ups_query link now l BatteryStatus
      in (rbind r (\<lambda>f. map_err decode_err (battery_status_decode (frame_payload f))), l1))"

definition ups_firmware :: "'l ups_link \<Rightarrow> instant \<Rightarrow> 'l \<Rightarrow> (hal_error + u8) \<times> 'l" where
  "ups_firmware link now l =
     (let (r, l1) = ups_query link now l FirmwareVersion
      in (rbind r (\<lambda>f. case frame_payload f of
                         [v] \<Rightarrow> Inr v
                       | other \<Rightarrow> Inl (ParseError ''a firmware version'' (debug_hex other))), l1))"

definition ups_clock :: "'l ups_link \<Rightarrow> instant \<Rightarrow> 'l \<Rightarrow> (hal_error + ups_time) \<times> 'l" where
  "ups_clock link now l =
     (let (r, l1) = ups_query link now l GetRtc
      in (rbind r (\<lambda>f. map_err decode_err (decode_clock (frame_payload f))), l1))"

definition ups_set_clock :: "'l ups_link \<Rightarrow> instant \<Rightarrow> 'l \<Rightarrow> ups_time \<Rightarrow> (hal_error + unit) \<times> 'l" where
  "ups_set_clock link now l t =
     (case map_err decode_err (encode_clock t) of
        Inl e \<Rightarrow> (Inl e, l)
      | Inr payload \<Rightarrow>
          (let (r, l1) = link l SetRtc payload (now + REQUEST_DEADLINE)
           in (rbind r (\<lambda>f. if frame_payload f = [] then Inr ()
                            else Inl (ParseError ''the reply to a clock set (expected an empty payload)''
                                        (debug_hex (frame_payload f)))), l1)))"

definition ups_set_wake :: "'l ups_link \<Rightarrow> instant \<Rightarrow> 'l \<Rightarrow> ups_time \<Rightarrow> (hal_error + unit) \<times> 'l" where
  "ups_set_wake link now l t =
     (case map_err decode_err (encode_schedule t) of
        Inl e \<Rightarrow> (Inl e, l)
      | Inr payload \<Rightarrow>
          (let (r, l1) = link l SetWake payload (now + REQUEST_DEADLINE)
           in (rbind r (\<lambda>f. if frame_payload f = [] then Inr ()
                            else Inl (ParseError ''the reply to a wake set (expected an empty payload)''
                                        (debug_hex (frame_payload f)))), l1)))"

definition ups_wake :: "'l ups_link \<Rightarrow> instant \<Rightarrow> 'l \<Rightarrow> (hal_error + ups_time option) \<times> 'l" where
  "ups_wake link now l =
     (let (r, l1) = ups_query link now l GetWake
      in (rbind r (\<lambda>f. map_err decode_err (decode_optional_schedule (frame_payload f))), l1))"

definition ups_charge_current_raw :: "'l ups_link \<Rightarrow> instant \<Rightarrow> 'l \<Rightarrow> (hal_error + u16) \<times> 'l" where
  "ups_charge_current_raw link now l =
     (let (r, l1) = ups_query link now l ChargeCurrent
      in (rbind r (\<lambda>f. case frame_payload f of
                         [hi, lo] \<Rightarrow> Inr (push_bit 8 (ucast hi) OR ucast lo)
                       | other \<Rightarrow> Inl (ParseError ''a charge current'' (debug_hex other))), l1))"

section \<open>Watching\<close>

record poll =
  po_battery :: "battery_status option"
  po_error :: "hal_error option"
  po_decision :: decision
  po_consecutive_failures :: nat

record watch =
  wt_policy :: battery_policy
  wt_failures :: nat

definition watch_new :: "battery_policy \<Rightarrow> watch" where
  "watch_new p = \<lparr>wt_policy = p, wt_failures = 0\<rparr>"

definition watch_observe :: "watch \<Rightarrow> hal_error + battery_status \<Rightarrow> duration \<Rightarrow> watch \<times> poll" where
  "watch_observe w reading uptime =
     (case reading of
        Inr b \<Rightarrow>
          (let (p, d) = observe (wt_policy w) (Some \<lparr>ob_percent = bs_percent b, ob_source = bs_source b\<rparr>) uptime
           in (\<lparr>wt_policy = p, wt_failures = 0\<rparr>,
               \<lparr>po_battery = Some b, po_error = None, po_decision = d, po_consecutive_failures = 0\<rparr>))
      | Inl e \<Rightarrow>
          (let n = sat_inc U32_MAX (wt_failures w); (p, d) = observe (wt_policy w) None uptime
           in (\<lparr>wt_policy = p, wt_failures = n\<rparr>,
               \<lparr>po_battery = None, po_error = Some e, po_decision = d, po_consecutive_failures = n\<rparr>)))"

record 'l ups_monitor =
  um_ups :: 'l
  um_watch :: watch

definition ups_monitor_new :: "'l \<Rightarrow> battery_policy \<Rightarrow> 'l ups_monitor" where
  "ups_monitor_new l p = \<lparr>um_ups = l, um_watch = watch_new p\<rparr>"

definition ups_poll :: "'l ups_link \<Rightarrow> instant \<Rightarrow> 'l ups_monitor \<Rightarrow> duration \<Rightarrow> 'l ups_monitor \<times> poll" where
  "ups_poll link now m uptime =
     (let (reading, l) = ups_battery link now (um_ups m); (w, p) = watch_observe (um_watch m) reading uptime
      in (\<lparr>um_ups = l, um_watch = w\<rparr>, p))"

text \<open>The observation behind a reading, as the policy's histories record it.\<close>

definition observation_of :: "battery_status option \<Rightarrow> observation option" where
  "observation_of b = map_option (\<lambda>b. \<lparr>ob_percent = bs_percent b, ob_source = bs_source b\<rparr>) b"

lemma watch_observe_policy:
  assumes "watch_observe w reading uptime = (w', p)"
  shows "wt_policy w' = fst (observe (wt_policy w) (observation_of (po_battery p)) uptime)"
    and "po_decision p = snd (observe (wt_policy w) (observation_of (po_battery p)) uptime)"
    and "po_battery p = None \<longleftrightarrow> po_error p \<noteq> None"
    and "po_consecutive_failures p = wt_failures w'"
    and "po_battery p = ok reading"
  using assms by (auto simp: watch_observe_def observation_of_def Let_def split: sum.splits prod.splits)

section \<open>A link to a device that keeps a wake schedule\<close>

text \<open>
  What the daemon's wake handling relies on: a query of the schedule leaves it and answers with
  it; setting a schedule that encodes either leaves the old one or stores the new one, to the
  minute, and when it is acknowledged the new one is stored. A request that is not answered
  promises nothing.
\<close>

lemma gate_request_cases:
  assumes "gate_request link g cmd p dl = (r, g')"
  obtains "link (gt_inner g) cmd p dl = (r, gt_inner g')" | "gt_inner g' = gt_inner g" "\<not> is_ok r"
  using assms by (auto simp: gate_request_def split: if_splits prod.splits)

locale wake_store =
  fixes link :: "'l ups_link"
    and sched :: "'l \<Rightarrow> ups_time option"
    and ready :: "'l \<Rightarrow> bool"
  assumes get_wake: "ready l \<Longrightarrow> link l GetWake [] dl = (r, l') \<Longrightarrow>
      ready l' \<and> sched l' = sched l \<and>
      (\<forall>f. r = Inr f \<longrightarrow> decode_optional_schedule (frame_payload f) = Inr (sched l))"
    and set_wake: "ready l \<Longrightarrow> encode_schedule t = Inr p \<Longrightarrow> link l SetWake p dl = (r, l') \<Longrightarrow>
      ready l' \<and> (sched l' = sched l \<or> sched l' = Some (t\<lparr>ut_second := None\<rparr>)) \<and>
      (\<forall>f. r = Inr f \<longrightarrow> sched l' = Some (t\<lparr>ut_second := None\<rparr>))"
begin

lemma wake_reads:
  assumes "ready l" "ups_wake link now l = (r, l')"
  shows "ready l' \<and> sched l' = sched l \<and> (\<forall>x. r = Inr x \<longrightarrow> x = sched l)"
proof -
  obtain r1 where q: "link l GetWake [] (now + REQUEST_DEADLINE) = (r1, l')"
    and r: "r = rbind r1 (\<lambda>f. map_err decode_err (decode_optional_schedule (frame_payload f)))"
    using assms(2) by (auto simp: ups_wake_def ups_query_def split: prod.splits)
  show ?thesis using get_wake[OF assms(1) q] r by (cases r1) auto
qed

lemma set_wake_stores:
  assumes "ready l" "ups_set_wake link now l t = (r, l')"
  shows "ready l' \<and> (sched l' = sched l \<or> sched l' = Some (t\<lparr>ut_second := None\<rparr>)) \<and>
    (r = Inr () \<longrightarrow> sched l' = Some (t\<lparr>ut_second := None\<rparr>))"
proof (cases "encode_schedule t")
  case (Inl e)
  then show ?thesis using assms by (auto simp: ups_set_wake_def)
next
  case (Inr p)
  obtain r1 where q: "link l SetWake p (now + REQUEST_DEADLINE) = (r1, l')" and r: "is_ok r \<Longrightarrow> is_ok r1"
    using assms(2) Inr by (cases "link l SetWake p (now + REQUEST_DEADLINE)"; cases "fst (link l SetWake p (now + REQUEST_DEADLINE))")
      (auto simp: ups_set_wake_def)
  show ?thesis using set_wake[OF assms(1) Inr q] r by (cases r1) auto
qed

lemma gated_get:
  assumes "ready (gt_inner g)" "gate_request link g GetWake [] dl = (r, g')"
  shows "ready (gt_inner g') \<and> sched (gt_inner g') = sched (gt_inner g) \<and>
    (\<forall>f. r = Inr f \<longrightarrow> decode_optional_schedule (frame_payload f) = Inr (sched (gt_inner g)))"
  using assms(2)
proof (cases rule: gate_request_cases)
  case 1
  then show ?thesis by (rule get_wake[OF assms(1)])
next
  case 2
  then show ?thesis using assms(1) by auto
qed

lemma gated_set:
  assumes "ready (gt_inner g)" "encode_schedule t = Inr p" "gate_request link g SetWake p dl = (r, g')"
  shows "ready (gt_inner g') \<and>
    (sched (gt_inner g') = sched (gt_inner g) \<or> sched (gt_inner g') = Some (t\<lparr>ut_second := None\<rparr>)) \<and>
    (\<forall>f. r = Inr f \<longrightarrow> sched (gt_inner g') = Some (t\<lparr>ut_second := None\<rparr>))"
  using assms(3)
proof (cases rule: gate_request_cases)
  case 1
  then show ?thesis by (rule set_wake[OF assms(1,2)])
next
  case 2
  then show ?thesis using assms(1) by auto
qed

text \<open>The gate in front of such a link is such a link.\<close>

lemma gated_store: "wake_store (gate_request link) (\<lambda>g. sched (gt_inner g)) (\<lambda>g. ready (gt_inner g))"
  by (rule wake_store.intro) (rule gated_get gated_set; assumption)+

end

end
