(* ===== verification/Poweroff.thy ===== *)
theory Poweroff
  imports Policy Hal
begin

text \<open>
  Acting on shutdown advice (\<open>crates/argon-device/src/power.rs\<close>): the coordinator, over any
  \<open>PowerControl\<close>, and the logind back end over the external programs \<open>shutdown\<close> and \<open>busctl\<close>,
  which are parameters. A point in system time is nanoseconds since the unix epoch.
\<close>


text \<open>The trait as a record of operations over the state of whatever provides them.\<close>

record 'p power_ops =
  pw_schedule :: "'p \<Rightarrow> duration \<Rightarrow> string \<Rightarrow> (hal_error + systime) \<times> 'p"
  pw_cancel :: "'p \<Rightarrow> (hal_error + unit) \<times> 'p"
  pw_pending :: "'p \<Rightarrow> (hal_error + systime option) \<times> 'p"
  pw_wall_message :: "'p \<Rightarrow> (hal_error + string option) \<times> 'p"

section \<open>Logind\<close>

text \<open>A finished external program: whether it succeeded, its output and its error output.\<close>

record command_output =
  co_success :: bool
  co_stdout :: string
  co_stderr :: string

text \<open>Running a program with its arguments, in the state of the machine: an error if it cannot be run.\<close>

type_synonym 'x exec = "'x \<Rightarrow> string \<Rightarrow> string list \<Rightarrow> (string + command_output) \<times> 'x"

definition parse_scheduled_shutdown :: "string \<Rightarrow> (string \<times> systime) option" where
  "parse_scheduled_shutdown output =
     (case strip_prefix ''(st)'' (trim output) of
        None \<Rightarrow> None
      | Some r \<Rightarrow>
          (case rsplit_once CHR '' '' (trim r) of
             None \<Rightarrow> None
           | Some (k, u) \<Rightarrow>
               (let kind = trim_matches CHR 0x22 (trim k)
                in case parse_uint U64_MAX (trim u) of
                     None \<Rightarrow> None
                   | Some usec \<Rightarrow>
                       if kind = [] \<or> usec = 0 \<or> usec = U64_MAX then None
                       else Some (kind, usec * 1000))))"

definition scheduled_time :: "hal_error + systime option \<Rightarrow> systime \<Rightarrow> systime" where
  "scheduled_time readback intended =
     (case readback of Inr (Some at) \<Rightarrow> at | _ \<Rightarrow> intended)"

definition get_property ::
  "'x exec \<Rightarrow> 'x \<Rightarrow> string \<Rightarrow> (hal_error + string) \<times> 'x"
where
  "get_property exec x name =
     (let (r, x1) = exec x ''busctl'' [''get-property'', ''org.freedesktop.login1'',
            ''/org/freedesktop/login1'', ''org.freedesktop.login1.Manager'', name]
      in (case r of
            Inl e \<Rightarrow> Inl (Io e)
          | Inr out \<Rightarrow> if co_success out then Inr (co_stdout out) else Inl (Io (trim (co_stderr out))), x1))"

definition run_program ::
  "'x exec \<Rightarrow> 'x \<Rightarrow> string \<Rightarrow> string list \<Rightarrow>
   (hal_error + unit) \<times> 'x"
where
  "run_program exec x program args =
     (let (r, x1) = exec x program args
      in (case r of
            Inl e \<Rightarrow> Inl (Io e)
          | Inr out \<Rightarrow> if co_success out then Inr ()
                      else Inl (Io (program @ '' '' @ join '' '' args @ '': '' @ trim (co_stderr out))), x1))"

definition logind_minutes :: "duration \<Rightarrow> nat" where
  \<comment> \<open>\<open>delay.as_secs().div_ceil(60).max(1)\<close>\<close>
  "logind_minutes delay = max ((delay div 1000000000 + 59) div 60) 1"

definition logind_pending ::
  "'x exec \<Rightarrow> 'x \<Rightarrow> (hal_error + systime option) \<times> 'x"
where
  "logind_pending exec x =
     (let (r, x1) = get_property exec x ''ScheduledShutdown''
      in (map_ok (\<lambda>out. map_option snd (parse_scheduled_shutdown out)) r, x1))"

definition logind_ops ::
  "'x exec \<Rightarrow> systime \<Rightarrow> 'x power_ops"
where
  "logind_ops exec now = \<lparr>
     pw_schedule = (\<lambda>x delay message.
       let minutes = logind_minutes delay;
           intended = now + from_secs (minutes * 60);
           (r, x1) = run_program exec x ''shutdown'' [''--poweroff'', ''+'' @ show_nat minutes, message]
       in case r of
            Inl e \<Rightarrow> (Inl e, x1)
          | Inr _ \<Rightarrow> (let (p, x2) = logind_pending exec x1 in (Inr (scheduled_time p intended), x2))),
     pw_cancel = (\<lambda>x. run_program exec x ''shutdown'' [''-c'']),
     pw_pending = logind_pending exec,
     pw_wall_message = (\<lambda>x.
       let (r, x1) = get_property exec x ''WallMessage''
       in (map_ok (\<lambda>text.
             let trimmed = (case strip_prefix ''s'' (trim text) of None \<Rightarrow> [] | Some t \<Rightarrow> trim t);
                 message = trim_matches CHR 0x22 trimmed
             in if message = [] then None else Some message) r, x1)) \<rparr>"

section \<open>The coordinator\<close>

datatype action =
  NoAction
| Scheduled systime
| Adopted systime
| AlreadyPending systime
| Cancelled
| OverriddenByOperator
| WouldSchedule
| WouldCancel
| Failed string

datatype pending = PendingNothing | PendingAt systime | PendingUnknown

definition SAME_SHUTDOWN_TOLERANCE :: duration where "SAME_SHUTDOWN_TOLERANCE = from_secs 90"

definition same_shutdown :: "systime \<Rightarrow> systime \<Rightarrow> bool" where
  "same_shutdown a b \<longleftrightarrow> (if b \<le> a then a - b else b - a) \<le> SAME_SHUTDOWN_TOLERANCE"

definition SHUTDOWN_MESSAGE :: string where
  "SHUTDOWN_MESSAGE =
     ''UPS battery critical: powering off to protect the filesystem. Restore mains power to cancel.''"

record 'p coordinator =
  sc_power :: 'p
  sc_delay :: duration
  sc_dry_run :: bool
  sc_ours :: "systime option"
  sc_dry_pending :: "systime option"
  sc_stood_down :: bool

definition coordinator_new :: "'p \<Rightarrow> duration \<Rightarrow> bool \<Rightarrow> 'p coordinator" where
  "coordinator_new pw delay dry_run =
     \<lparr>sc_power = pw, sc_delay = delay, sc_dry_run = dry_run, sc_ours = None,
      sc_dry_pending = None, sc_stood_down = False\<rparr>"

definition scheduled_at :: "'p coordinator \<Rightarrow> systime option" where
  "scheduled_at c = sc_ours c"

definition pending_state :: "'p power_ops \<Rightarrow> 'p coordinator \<Rightarrow> pending \<times> 'p coordinator" where
  "pending_state ops c =
     (let (r, p) = pw_pending ops (sc_power c)
      in (case r of Inr (Some at) \<Rightarrow> PendingAt at | Inr None \<Rightarrow> PendingNothing | Inl _ \<Rightarrow> PendingUnknown,
          c\<lparr>sc_power := p\<rparr>))"

definition wall_message_is_ours :: "'p power_ops \<Rightarrow> 'p coordinator \<Rightarrow> bool \<times> 'p coordinator" where
  "wall_message_is_ours ops c =
     (let (r, p) = pw_wall_message ops (sc_power c)
      in (case r of Inr (Some m) \<Rightarrow> str_contains SHUTDOWN_MESSAGE m | _ \<Rightarrow> False, c\<lparr>sc_power := p\<rparr>))"

definition advised :: "'p power_ops \<Rightarrow> systime \<Rightarrow> 'p coordinator \<Rightarrow> action \<times> 'p coordinator" where
  "advised ops now c =
     (if sc_stood_down c then (NoAction, c)
      else if sc_dry_run c then
        (if sc_dry_pending c \<noteq> None then (NoAction, c)
         else (WouldSchedule, c\<lparr>sc_dry_pending := Some (now + sc_delay c)\<rparr>))
      else case sc_ours c of
        Some mine \<Rightarrow>
          (let (st, c1) = pending_state ops c
           in case st of
                PendingAt at \<Rightarrow>
                  if same_shutdown mine at then (NoAction, c1)
                  else (AlreadyPending at, c1\<lparr>sc_ours := None, sc_stood_down := True\<rparr>)
              | PendingNothing \<Rightarrow> (OverriddenByOperator, c1\<lparr>sc_ours := None, sc_stood_down := True\<rparr>)
              | PendingUnknown \<Rightarrow> (NoAction, c1))
      | None \<Rightarrow>
          (let (st, c1) = pending_state ops c;
               place = (let (r, p) = pw_schedule ops (sc_power c1) (sc_delay c1) SHUTDOWN_MESSAGE;
                            c2 = c1\<lparr>sc_power := p\<rparr>
                        in case r of
                             Inr at \<Rightarrow> (Scheduled at, c2\<lparr>sc_ours := Some at\<rparr>)
                           | Inl e \<Rightarrow> (Failed (hal_error_text e), c2))
           in case st of
                PendingAt at \<Rightarrow>
                  (let (mine, c2) = wall_message_is_ours ops c1
                   in if mine then (Adopted at, c2\<lparr>sc_ours := Some at\<rparr>) else (AlreadyPending at, c2))
              | PendingNothing \<Rightarrow> place
              | PendingUnknown \<Rightarrow> place))"

definition recovered :: "'p power_ops \<Rightarrow> 'p coordinator \<Rightarrow> action \<times> 'p coordinator" where
  "recovered ops c0 =
     (let c = c0\<lparr>sc_stood_down := False\<rparr>
      in if sc_dry_run c then
           (if sc_dry_pending c \<noteq> None then (WouldCancel, c\<lparr>sc_dry_pending := None\<rparr>) else (NoAction, c))
         else case sc_ours c of
           None \<Rightarrow> (NoAction, c)
         | Some mine \<Rightarrow>
             (let (st, c1) = pending_state ops c;
                  cancel = (let (r, p) = pw_cancel ops (sc_power c1); c2 = c1\<lparr>sc_power := p\<rparr>
                            in case r of
                                 Inr _ \<Rightarrow> (Cancelled, c2\<lparr>sc_ours := None\<rparr>)
                               | Inl e \<Rightarrow> (Failed (hal_error_text e), c2))
              in case st of
                   PendingAt at \<Rightarrow>
                     if \<not> same_shutdown mine at then (NoAction, c1\<lparr>sc_ours := None\<rparr>) else cancel
                 | _ \<Rightarrow> cancel))"

definition holding :: "'p coordinator \<Rightarrow> action \<times> 'p coordinator" where
  "holding c = (NoAction, c)"

definition on_decision :: "'p power_ops \<Rightarrow> systime \<Rightarrow> decision \<Rightarrow> 'p coordinator \<Rightarrow> action \<times> 'p coordinator" where
  "on_decision ops now d c =
     (if dc_advice d = Shutdown then advised ops now c
      else if dc_level d = OnMains \<and> dc_confirmed_recovery d then recovered ops c
      else holding c)"

section \<open>Histories of calls\<close>

text \<open>The same operations with a record of the calls made on them.\<close>

datatype power_call = CallSchedule duration string | CallCancel | CallPending | CallWallMessage

definition logged :: "'p power_ops \<Rightarrow> ('p \<times> power_call list) power_ops" where
  "logged ops = \<lparr>
     pw_schedule = (\<lambda>(p, log) d m. let (r, p1) = pw_schedule ops p d m in (r, (p1, log @ [CallSchedule d m]))),
     pw_cancel = (\<lambda>(p, log). let (r, p1) = pw_cancel ops p in (r, (p1, log @ [CallCancel]))),
     pw_pending = (\<lambda>(p, log). let (r, p1) = pw_pending ops p in (r, (p1, log @ [CallPending]))),
     pw_wall_message = (\<lambda>(p, log). let (r, p1) = pw_wall_message ops p in (r, (p1, log @ [CallWallMessage])))\<rparr>"

fun on_decisions ::
  "'p power_ops \<Rightarrow> (systime \<times> decision) list \<Rightarrow> 'p coordinator \<Rightarrow> action list \<times> 'p coordinator"
where
  "on_decisions ops [] c = ([], c)"
| "on_decisions ops ((now, d) # ds) c =
     (let (a, c1) = on_decision ops now d c; (as, c2) = on_decisions ops ds c1 in (a # as, c2))"

definition is_recovery :: "decision \<Rightarrow> bool" where
  "is_recovery d \<longleftrightarrow> dc_advice d \<noteq> Shutdown \<and> dc_level d = OnMains \<and> dc_confirmed_recovery d"

fun is_scheduled :: "action \<Rightarrow> bool" where
  "is_scheduled (Scheduled _) = True"
| "is_scheduled _ = False"

definition calls :: "('p \<times> power_call list) coordinator \<Rightarrow> power_call list" where
  "calls c = snd (sc_power c)"

named_theorems coordinator_defs \<open>the coordinator's operations, unfolded\<close>

declare advised_def [coordinator_defs] recovered_def [coordinator_defs] holding_def [coordinator_defs]
  on_decision_def [coordinator_defs] pending_state_def [coordinator_defs]
  wall_message_is_ours_def [coordinator_defs]

lemma on_decision_cases:
  obtains (advised) "dc_advice d = Shutdown" "on_decision ops now d c = advised ops now c"
  | (recovered) "is_recovery d" "on_decision ops now d c = recovered ops c"
  | (holding) "dc_advice d \<noteq> Shutdown" "\<not> is_recovery d" "on_decision ops now d c = (NoAction, c)"
  using that
  by (cases "dc_advice d = Shutdown"; cases "dc_level d = OnMains \<and> dc_confirmed_recovery d")
    (auto simp: on_decision_def is_recovery_def holding_def)

text \<open>What each operation does with the three fields the theorems follow, whatever the provider.\<close>

lemma advised_fields:
  assumes "advised ops now c = (a, c')"
  shows "sc_dry_run c' = sc_dry_run c" "sc_delay c' = sc_delay c"
    and "is_scheduled a \<Longrightarrow> sc_ours c = None \<and> \<not> sc_stood_down c \<and> sc_ours c' \<noteq> None"
    and "sc_stood_down c \<Longrightarrow> c' = c \<and> a = NoAction"
    and "sc_ours c \<noteq> None \<Longrightarrow> sc_ours c' \<noteq> None \<or> sc_stood_down c'"
    and "sc_dry_run c \<Longrightarrow> sc_ours c' = sc_ours c \<and> sc_power c' = sc_power c"
  using assms
  by (auto simp: coordinator_defs Let_def split: if_splits option.splits prod.splits sum.splits pending.splits)

lemma recovered_fields:
  assumes "recovered ops c = (a, c')"
  shows "sc_dry_run c' = sc_dry_run c" "sc_delay c' = sc_delay c" "\<not> sc_stood_down c'" "\<not> is_scheduled a"
    and "sc_dry_run c \<Longrightarrow> sc_ours c' = sc_ours c \<and> sc_power c' = sc_power c"
  using assms
  by (auto simp: coordinator_defs Let_def split: if_splits option.splits prod.splits sum.splits pending.splits)

section \<open>What the coordinator guarantees\<close>

definition placed :: "'p coordinator \<Rightarrow> nat" where
  "placed c = (if sc_ours c \<noteq> None \<or> sc_stood_down c then 1 else 0)"

lemma schedule_count:
  assumes "on_decisions ops ds c = (as, c')"
  shows "length (filter is_scheduled as) + placed c \<le> length (filter (is_recovery \<circ> snd) ds) + 1"
  using assms
proof (induction ds arbitrary: c as)
  case Nil
  then show ?case by (auto simp: placed_def)
next
  case (Cons x ds)
  obtain now d where x: "x = (now, d)" by (cases x)
  obtain a c1 where step: "on_decision ops now d c = (a, c1)" by (cases "on_decision ops now d c")
  obtain as' where rest: "on_decisions ops ds c1 = (as', c')" "as = a # as'"
    using Cons.prems by (auto simp: x step split: prod.splits)
  note IH = Cons.IH[OF rest(1)]
  show ?case
  proof (cases rule: on_decision_cases[of d ops now c])
    case advised
    then have a: "advised ops now c = (a, c1)" using step by simp
    have "(if is_scheduled a then 1 else 0) + placed c \<le> placed c1"
      using advised_fields(3,4,5)[OF a] by (auto simp: placed_def)
    moreover have "\<not> is_recovery d" using advised by (simp add: is_recovery_def)
    ultimately show ?thesis using IH by (cases "is_scheduled a") (simp_all add: rest x)
  next
    case recovered
    then have "\<not> is_scheduled a" using step recovered_fields(4)[of ops c a c1] by simp
    then show ?thesis using IH recovered by (simp add: rest x placed_def)
  next
    case holding
    then show ?thesis using IH step by (simp add: rest x)
  qed
qed

lemma dry_run_fields:
  assumes "on_decisions ops ds c = (as, c')" "sc_dry_run c"
  shows "sc_power c' = sc_power c \<and> sc_ours c' = sc_ours c"
  using assms
proof (induction ds arbitrary: c as)
  case (Cons x ds)
  obtain now d where x: "x = (now, d)" by (cases x)
  obtain a c1 where step: "on_decision ops now d c = (a, c1)" by (cases "on_decision ops now d c")
  obtain as' where rest: "on_decisions ops ds c1 = (as', c')"
    using Cons.prems by (auto simp: x step split: prod.splits)
  have "sc_dry_run c1 \<and> sc_power c1 = sc_power c \<and> sc_ours c1 = sc_ours c"
    using step Cons.prems(2) advised_fields(1,6)[of ops now c a c1] recovered_fields(1,5)[of ops c a c1]
    by (cases rule: on_decision_cases[of d ops now c]) auto
  with Cons.IH[OF rest] show ?case by simp
qed simp

lemma stood_down_fields:
  assumes "on_decisions ops ds c = (as, c')" "sc_stood_down c" "\<forall>x \<in> set ds. \<not> is_recovery (snd x)"
  shows "c' = c \<and> set as \<subseteq> {NoAction}"
  using assms
proof (induction ds arbitrary: c as)
  case (Cons x ds)
  obtain now d where x: "x = (now, d)" by (cases x)
  have "on_decision ops now d c = (NoAction, c)"
    using Cons.prems(2,3) advised_fields(4)[of ops now c]
    by (cases rule: on_decision_cases[of d ops now c]) (auto simp: x advised_def)
  moreover obtain as' c'' where rest: "on_decisions ops ds c = (as', c'')"
    by (cases "on_decisions ops ds c")
  ultimately have "as = NoAction # as'" "c'' = c'" using Cons.prems(1) by (simp_all add: x)
  then show ?case using Cons.IH[OF _ Cons.prems(2)] Cons.prems(3) rest by simp
qed simp

text \<open>C4: At most one poweroff is placed per episode: over any history of decisions, whatever logind answers
  and however it fails, the number of poweroffs scheduled exceeds the number of confirmed
  recoveries by at most one. Repeated advice does not push a placed poweroff back.\<close>

theorem coordinator_schedules_once:
  "length (filter is_scheduled (fst (on_decisions ops ds (coordinator_new p delay dry_run))))
     \<le> length (filter (is_recovery \<circ> snd) ds) + 1"
  using schedule_count[of ops ds "coordinator_new p delay dry_run"]
  by (cases "on_decisions ops ds (coordinator_new p delay dry_run)") (simp add: coordinator_new_def placed_def)

text \<open>A dry run touches nothing: over any history of decisions it makes no call on logind at all and
  never reports a poweroff as scheduled.\<close>

theorem coordinator_dry_run_quiet:
  "calls (snd (on_decisions (logged ops) ds (coordinator_new (p, []) delay True))) = [] \<and>
   scheduled_at (snd (on_decisions (logged ops) ds (coordinator_new (p, []) delay True))) = None"
  using dry_run_fields[of "logged ops" ds "coordinator_new (p, []) delay True"]
  by (cases "on_decisions (logged ops) ds (coordinator_new (p, []) delay True)")
    (simp add: coordinator_new_def calls_def scheduled_at_def)

text \<open>C5: An operator's cancellation is respected: when the poweroff the coordinator placed has disappeared,
  or another stands in its place, while shutdown is still advised, the coordinator lets go and,
  until a confirmed recovery, makes no call on logind and takes no action, whatever it is told.\<close>

theorem coordinator_stands_down:
  assumes "\<not> sc_dry_run c" "\<not> sc_stood_down c" "sc_ours c = Some mine" "dc_advice d = Shutdown"
    and "fst (pw_pending ops (sc_power c)) = Inr now_pending"
    and "\<forall>at. now_pending = Some at \<longrightarrow> \<not> same_shutdown mine at"
    and "on_decision ops now d c = (a, c1)" "on_decisions ops ds c1 = (as, c2)"
    and "\<forall>x \<in> set ds. \<not> is_recovery (snd x)"
  shows "a = (case now_pending of None \<Rightarrow> OverriddenByOperator | Some at \<Rightarrow> AlreadyPending at) \<and>
    scheduled_at c1 = None \<and> c2 = c1 \<and> set as \<subseteq> {NoAction}"
proof -
  have "on_decision ops now d c = advised ops now c" using assms(4) by (simp add: on_decision_def)
  then have adv: "advised ops now c = (a, c1)" using assms(7) by simp
  have "a = (case now_pending of None \<Rightarrow> OverriddenByOperator | Some at \<Rightarrow> AlreadyPending at) \<and>
      sc_ours c1 = None \<and> sc_stood_down c1"
    using adv assms(1,2,3,5,6)
    by (auto simp: advised_def pending_state_def split: prod.splits option.splits)
  then show ?thesis using stood_down_fields[OF assms(8) _ assms(9)] by (simp add: scheduled_at_def)
qed


text \<open>Advice is acted on: a coordinator that is not in dry run, has nothing placed and has not stood
  down answers shutdown advice by asking logind to schedule the poweroff, with its delay and its
  message, unless logind reports one pending already; an unreadable state does not stop it. If
  logind accepts, the time is on record, and if it fails the next advice tries again.\<close>

theorem coordinator_acts_on_advice:
  assumes "dc_advice d = Shutdown" "\<not> sc_dry_run c" "\<not> sc_stood_down c" "sc_ours c = None"
    and "\<forall>at. fst (pw_pending ops (fst (sc_power c))) \<noteq> Inr (Some at)"
    and "on_decision (logged ops) now d c = (a, c')"
  shows "calls c' = calls c @ [CallPending, CallSchedule (sc_delay c) SHUTDOWN_MESSAGE] \<and>
    (case fst (pw_schedule ops (snd (pw_pending ops (fst (sc_power c)))) (sc_delay c) SHUTDOWN_MESSAGE) of
       Inr at \<Rightarrow> a = Scheduled at \<and> scheduled_at c' = Some at
     | Inl e \<Rightarrow> a = Failed (hal_error_text e) \<and> scheduled_at c' = None \<and> \<not> sc_stood_down c')"
proof -
  have "on_decision (logged ops) now d c = advised (logged ops) now c" using assms(1) by (simp add: on_decision_def)
  then have "advised (logged ops) now c = (a, c')" using assms(6) by simp
  then show ?thesis using assms(2-5)
    by (cases "sc_power c")
      (auto simp: coordinator_defs logged_def calls_def scheduled_at_def Let_def
        split: if_splits option.splits prod.splits sum.splits pending.splits)
qed

section \<open>Examples\<close>

text \<open>A provider that holds one schedule, for the witnesses: it answers every request.\<close>

definition sample_power :: "(systime \<times> string) option power_ops" where
  "sample_power = \<lparr>
     pw_schedule = (\<lambda>s d m. (Inr (1000 + d), Some (1000 + d, m))),
     pw_cancel = (\<lambda>s. (Inr (), None)),
     pw_pending = (\<lambda>s. (Inr (map_option fst s), s)),
     pw_wall_message = (\<lambda>s. (Inr (map_option snd s), s))\<rparr>"

definition sample_decision :: "level \<Rightarrow> advice \<Rightarrow> bool \<Rightarrow> decision" where
  "sample_decision l a r = \<lparr>dc_level = l, dc_changed_from = None, dc_advice = a, dc_confirmed_recovery = r\<rparr>"

definition sample_coordinator :: "(systime \<times> string) option \<Rightarrow> systime option \<Rightarrow> bool \<Rightarrow> (systime \<times> string) option coordinator" where
  "sample_coordinator s ours stood = coordinator_new s 60 False\<lparr>sc_ours := ours, sc_stood_down := stood\<rparr>"

definition sample_logged ::
  "(systime \<times> string) option \<Rightarrow> power_call list \<Rightarrow> systime option \<Rightarrow> ((systime \<times> string) option \<times> power_call list) coordinator"
where
  "sample_logged s log ours = coordinator_new (s, log) 60 False\<lparr>sc_ours := ours\<rparr>"

lemmas sample_defs = sample_coordinator_def sample_logged_def sample_decision_def sample_power_def
  coordinator_new_def

theorem coordinator_stands_down_witness:
  "OverriddenByOperator = (case (None :: systime option) of None \<Rightarrow> OverriddenByOperator | Some at \<Rightarrow> AlreadyPending at) \<and>
   scheduled_at (sample_coordinator None None True) = None \<and>
   sample_coordinator None None True = sample_coordinator None None True \<and>
   set [NoAction] \<subseteq> {NoAction}"
proof (rule coordinator_stands_down[where mine = 5])
  let ?d = "sample_decision Critical Shutdown False"
  show "on_decision sample_power 9 ?d (sample_coordinator None (Some 5) False) =
      (OverriddenByOperator, sample_coordinator None None True)"
    by (simp add: coordinator_defs sample_defs)
  show "on_decisions sample_power [(10, ?d)] (sample_coordinator None None True) =
      ([NoAction], sample_coordinator None None True)"
    by (simp add: coordinator_defs sample_defs)
qed (simp_all add: sample_defs is_recovery_def)


theorem coordinator_acts_on_advice_witness:
  "calls (sample_logged (Some (1060, SHUTDOWN_MESSAGE)) [CallPending, CallSchedule 60 SHUTDOWN_MESSAGE] (Some 1060)) =
     calls (sample_logged None [] None) @ [CallPending, CallSchedule 60 SHUTDOWN_MESSAGE]"
proof -
  let ?c = "sample_logged None [] None"
  let ?c' = "sample_logged (Some (1060, SHUTDOWN_MESSAGE)) [CallPending, CallSchedule 60 SHUTDOWN_MESSAGE] (Some 1060)"
  have run: "on_decision (logged sample_power) 9 (sample_decision Critical Shutdown False) ?c = (Scheduled 1060, ?c')"
    by (simp add: coordinator_defs sample_defs logged_def Let_def)
  have "\<forall>at. fst (pw_pending sample_power (fst (sc_power ?c))) \<noteq> Inr (Some at)"
    by (simp add: sample_defs)
  from conjunct1[OF coordinator_acts_on_advice[OF _ _ _ _ this run]] show ?thesis
    by (simp add: sample_defs)
qed

section \<open>Logind's answers\<close>

lemma div_ceil_60: "n \<le> (n + 59) div 60 * 60" for n :: nat
  by presburger

lemma logind_never_immediate: "1 \<le> logind_minutes delay \<and> delay div 1000000000 \<le> logind_minutes delay * 60"
proof -
  have "delay div 1000000000 \<le> max ((delay div 1000000000 + 59) div 60) 1 * 60"
    by (rule order_trans[OF div_ceil_60]) (simp only: mult_le_mono1 max.cobounded1)
  then show ?thesis by (simp only: logind_minutes_def max.cobounded2 simp_thms)
qed

lemma same_shutdown_sym: "same_shutdown a b = same_shutdown b a"
  by (auto simp: same_shutdown_def)

end
