(* ===== verification/Gauge.thy ===== *)
theory Gauge
  imports Ups
begin

text \<open>
  The Argon ONE UP's fuel gauge: the CW2217's registers and their decoding
  (\<open>crates/argon-proto/src/cw2217.rs\<close>), and the driver and monitor over a bus that can only read
  (\<open>crates/argon-device/src/gauge.rs\<close>, the trait \<open>RegisterRead\<close> of \<open>argon-hal/src/i2c.rs\<close>).
  A Rust array of two bytes is a pair; a 16-bit signed count is an int.
\<close>

section \<open>Registers and decoding\<close>

definition GAUGE_ADDR :: u8 where "GAUGE_ADDR = 0x64"
definition VERSION_VALUE :: u8 where "VERSION_VALUE = 0xA0"

definition REG_VERSION :: u8 where "REG_VERSION = 0x00"
definition REG_VCELL :: u8 where "REG_VCELL = 0x02"
definition REG_SOC :: u8 where "REG_SOC = 0x04"
definition REG_CURRENT :: u8 where "REG_CURRENT = 0x0E"
definition REG_CYCLES :: u8 where "REG_CYCLES = 0xA4"
definition REG_SOH :: u8 where "REG_SOH = 0xA6"

lemmas regs = REG_VERSION_def REG_VCELL_def REG_SOC_def REG_CURRENT_def REG_CYCLES_def REG_SOH_def

definition READS :: "(u8 \<times> nat) list" where
  "READS = [(REG_VERSION, 1), (REG_VCELL, 2), (REG_SOC, 2), (REG_CURRENT, 2), (REG_CYCLES, 2), (REG_SOH, 1)]"

definition is_permitted_read :: "u8 \<Rightarrow> nat \<Rightarrow> bool" where
  "is_permitted_read register len \<longleftrightarrow> list_ex (\<lambda>(r, n). r = register \<and> n = len) READS"

definition vcell_microvolts :: "u8 \<times> u8 \<Rightarrow> u32" where
  "vcell_microvolts raw =
     (let counts = push_bit 8 (ucast (fst raw AND 0x3F) :: u32) OR ucast (snd raw)
      in counts * 3125 div 10)"

definition soc :: "u8 \<times> u8 \<Rightarrow> u8 \<times> u8" where
  "soc raw = (if fst raw > 100 then 100 else fst raw, snd raw)"

definition be_u16 :: "u8 \<times> u8 \<Rightarrow> u16" where
  "be_u16 raw = push_bit 8 (ucast (fst raw)) OR ucast (snd raw)"

definition current_raw :: "u8 \<times> u8 \<Rightarrow> int" where
  "current_raw raw = sint (be_u16 raw)"

datatype flow = Charging | Discharging | Idle

definition FLOW_THRESHOLD :: int where "FLOW_THRESHOLD = 200"

definition flow_of :: "int \<Rightarrow> flow" where
  "flow_of current =
     (if current \<le> - FLOW_THRESHOLD then Discharging
      else if current \<ge> FLOW_THRESHOLD then Charging
      else Idle)"

fun flow_source :: "flow \<Rightarrow> power_source" where
  "flow_source Discharging = Battery"
| "flow_source Charging = Mains"
| "flow_source Idle = Mains"

section \<open>The driver\<close>

text \<open>A bus that reads registers: it is given the register and the buffer, and returns a result and the
  buffer filled.\<close>

type_synonym 'b register_read = "'b \<Rightarrow> u8 \<Rightarrow> u8 list \<Rightarrow> (hal_error + unit) \<times> u8 list \<times> 'b"

record gauge_reading =
  gr_percent :: u8
  gr_vcell_uv :: u32
  gr_current :: int
  gr_flow :: flow

definition reading_battery :: "gauge_reading \<Rightarrow> battery_status" where
  "reading_battery r = \<lparr>bs_percent = gr_percent r, bs_source = flow_source (gr_flow r)\<rparr>"

record health =
  he_cycles :: u16
  he_soh :: u8

record 'b cw2217 =
  cw_bus :: 'b

definition gauge_read :: "'b register_read \<Rightarrow> 'b cw2217 \<Rightarrow> u8 \<Rightarrow> nat \<Rightarrow> (hal_error + u8 list) \<times> 'b cw2217" where
  "gauge_read bus g register n =
     (if \<not> is_permitted_read register n then
        (Inl (WriteBlocked (''cw2217 read of '' @ show_nat n @ '' byte(s) at 0x'' @ show_hex2 register)
           ''not one of the documented read-only registers this driver may read''), g)
      else
        (let (r, buf, b) = bus (cw_bus g) register (replicate n 0)
         in (map_ok (\<lambda>_. buf) r, g\<lparr>cw_bus := b\<rparr>)))"

definition byte_of :: "u8 list \<Rightarrow> u8" where "byte_of buf = buf ! 0"
definition pair_of :: "u8 list \<Rightarrow> u8 \<times> u8" where "pair_of buf = (buf ! 0, buf ! 1)"

definition identify :: "'b register_read \<Rightarrow> 'b \<Rightarrow> hal_error + 'b cw2217" where
  "identify bus b =
     (let (r, g) = gauge_read bus \<lparr>cw_bus = b\<rparr> REG_VERSION 1
      in rbind r (\<lambda>buf.
           if byte_of buf \<noteq> VERSION_VALUE then
             Inl (ParseError ''a CW2217 VERSION register (expected 0xa0)'' (''0x'' @ show_hex2 (byte_of buf)))
           else Inr g))"

definition read_now :: "'b register_read \<Rightarrow> 'b cw2217 \<Rightarrow> (hal_error + gauge_reading) \<times> 'b cw2217" where
  "read_now bus g =
     (case gauge_read bus g REG_SOC 2 of
        (Inl e, g1) \<Rightarrow> (Inl e, g1)
      | (Inr buf, g1) \<Rightarrow>
          (let percent = fst (soc (pair_of buf))
           in case gauge_read bus g1 REG_VCELL 2 of
                (Inl e, g2) \<Rightarrow> (Inl e, g2)
              | (Inr buf, g2) \<Rightarrow>
                  (let vcell_uv = vcell_microvolts (pair_of buf)
                   in case gauge_read bus g2 REG_CURRENT 2 of
                        (Inl e, g3) \<Rightarrow> (Inl e, g3)
                      | (Inr buf, g3) \<Rightarrow>
                          (let current = current_raw (pair_of buf)
                           in (Inr \<lparr>gr_percent = percent, gr_vcell_uv = vcell_uv, gr_current = current,
                                    gr_flow = flow_of current\<rparr>, g3)))))"

definition gauge_health :: "'b register_read \<Rightarrow> 'b cw2217 \<Rightarrow> (hal_error + health) \<times> 'b cw2217" where
  "gauge_health bus g =
     (case gauge_read bus g REG_CYCLES 2 of
        (Inl e, g1) \<Rightarrow> (Inl e, g1)
      | (Inr buf, g1) \<Rightarrow>
          (let cycles = be_u16 (pair_of buf)
           in case gauge_read bus g1 REG_SOH 1 of
                (Inl e, g2) \<Rightarrow> (Inl e, g2)
              | (Inr buf, g2) \<Rightarrow> (Inr \<lparr>he_cycles = cycles, he_soh = byte_of buf\<rparr>, g2)))"

record 'b gauge_monitor =
  gm_gauge :: "'b cw2217"
  gm_watch :: watch
  gm_last :: "gauge_reading option"

definition gauge_monitor_new :: "'b cw2217 \<Rightarrow> battery_policy \<Rightarrow> 'b gauge_monitor" where
  "gauge_monitor_new g p = \<lparr>gm_gauge = g, gm_watch = watch_new p, gm_last = None\<rparr>"

definition gauge_poll :: "'b register_read \<Rightarrow> 'b gauge_monitor \<Rightarrow> duration \<Rightarrow> 'b gauge_monitor \<times> poll" where
  "gauge_poll bus m uptime =
     (let (reading, g) = read_now bus (gm_gauge m);
          (w, p) = watch_observe (gm_watch m) (map_ok reading_battery reading) uptime
      in (\<lparr>gm_gauge = g, gm_watch = w, gm_last = ok reading\<rparr>, p))"

section \<open>What the bytes mean\<close>

lemma unat_mask6: "unat (b AND (0x3F :: u8)) = unat b mod 64"
proof -
  have "b AND 0x3F = take_bit 6 b" by (simp add: take_bit_eq_mask mask_eq_exp_minus_1)
  then show ?thesis by (simp add: take_bit_eq_mod unat_mod)
qed

lemma unat_be_u16: "unat (be_u16 (hi, lo)) = unat hi * 256 + unat lo"
  by (simp add: be_u16_def unat_join_u16)

lemma unat_vcell: "unat (vcell_microvolts (hi, lo)) = (unat hi mod 64 * 256 + unat lo) * 3125 div 10"
proof -
  let ?h = "unat hi mod 64"
  have h: "unat (ucast (hi AND 0x3F) :: u32) = ?h"
    by (simp add: unsigned_ucast_eq unat_mask6 take_bit_eq_mod)
  have l: "unat (ucast lo :: u32) = unat lo"
    using unat_u8[of lo] by (simp add: unsigned_ucast_eq take_bit_eq_mod)
  have p: "unat (push_bit 8 (ucast (hi AND 0x3F) :: u32)) = ?h * 256"
    by (simp add: push_bit_eq_mult unat_word_ariths h)
  define c where "c = push_bit 8 (ucast (hi AND 0x3F) :: u32) OR ucast lo"
  have c: "unat c = ?h * 256 + unat lo"
    by (simp add: c_def unsigned_or_eq p l or_nat_bytes unat_u8)
  have "?h < 64" by simp
  then have "unat c < 16384" using c unat_u8[of lo] by linarith
  then have "unat (c * 3125) = unat c * 3125" by (simp add: unat_word_ariths)
  then show ?thesis
    by (simp add: vcell_microvolts_def Let_def c_def[symmetric] unat_div c)
qed

lemma current_value:
  "current_raw (hi, lo) =
     (if unat hi < 128 then int (unat hi * 256 + unat lo) else int (unat hi * 256 + unat lo) - 65536)"
proof -
  have wrap: "0 \<le> u \<Longrightarrow> u < 65536 \<Longrightarrow> (u + 32768) mod 65536 - 32768 = (if u < 32768 then u else u - 65536)"
    for u :: int
  proof -
    assume u: "0 \<le> u" "u < 65536"
    have sub: "u - 32768 + 65536 = u + 32768" by simp
    have "(u + 32768) mod 65536 = (u - 32768) mod 65536" 
      using mod_add_self2[of "u - 32768" 65536] by (simp only: sub)
    then show ?thesis using u by (cases "u < 32768") (simp_all add: mod_pos_pos_trivial)
  qed
  have s: "sint w = (if unat w < 32768 then int (unat w) else int (unat w) - 65536)" for w :: u16
  proof -
    have u: "uint w < 65536" using uint_bounded[of w] by simp
    have "sint w = (uint w + 32768) mod 65536 - 32768"
      by (simp add: sint_uint signed_take_bit_eq_take_bit_shift take_bit_eq_mod)
    also have "\<dots> = (if uint w < 32768 then uint w else uint w - 65536)"
      by (rule wrap[OF uint_ge_0 u])
    finally show ?thesis unfolding uint_nat by (simp only: of_nat_less_numeral_iff)
  qed
  show ?thesis using unat_u8[of lo] by (auto simp: current_raw_def s unat_be_u16)
qed

text \<open>The gauge's registers are decoded as documented: for any two bytes, the cell voltage is the 14-bit
  count at 312.5 microvolts each, with no overflow and at most 5.12 volts; the charge is the first
  byte clamped to 100; the current is the two's complement value; and the machine is on battery
  exactly when the current is at most minus the flow threshold.\<close>

theorem gauge_decoding:
  "unat (vcell_microvolts (hi, lo)) = (unat hi mod 64 * 256 + unat lo) * 3125 div 10 \<and>
   unat (vcell_microvolts (hi, lo)) \<le> 5119687 \<and>
   unat (fst (soc (hi, lo))) = min 100 (unat hi) \<and>
   current_raw (hi, lo) =
     (if unat hi < 128 then int (unat hi * 256 + unat lo) else int (unat hi * 256 + unat lo) - 65536) \<and>
   (flow_source (flow_of (current_raw (hi, lo))) = Battery \<longleftrightarrow> current_raw (hi, lo) \<le> - 200)"
proof -
  have "(h * 256 + l) * 3125 \<le> 51196875" if "h < 64" "l < 256" for h l :: nat using that by simp
  then have "(unat hi mod 64 * 256 + unat lo) * 3125 \<le> 51196875" using unat_u8[of lo] by (simp only: mod_less_divisor zero_less_numeral)
  then have "(unat hi mod 64 * 256 + unat lo) * 3125 div 10 \<le> 51196875 div 10" by (rule div_le_mono)
  moreover have "unat (fst (soc (hi, lo))) = min 100 (unat hi)"
    by (auto simp: soc_def word_less_nat_alt)
  ultimately show ?thesis
    by (simp add: unat_vcell current_value flow_of_def FLOW_THRESHOLD_def)
qed

section \<open>What the driver asks of the chip\<close>

text \<open>The bus with a record of the reads made on it.\<close>

definition reads_logged :: "'b register_read \<Rightarrow> ('b \<times> (u8 \<times> nat) list) register_read" where
  "reads_logged bus = (\<lambda>(b, log) register buf.
     let (r, buf', b') = bus b register buf in (r, buf', (b', log @ [(register, length buf)])))"

definition gauge_log :: "('b \<times> (u8 \<times> nat) list) cw2217 \<Rightarrow> (u8 \<times> nat) list" where
  "gauge_log g = snd (cw_bus g)"

lemma gauge_read_logged:
  assumes "gauge_read (reads_logged bus) g register n = (r, g')"
  shows "gauge_log g' = gauge_log g @ (if is_permitted_read register n then [(register, n)] else [])"
    and "\<not> is_permitted_read register n \<Longrightarrow> \<not> is_ok r"
  using assms
  by (cases "cw_bus g"; auto simp: gauge_read_def reads_logged_def gauge_log_def Let_def split: prod.splits if_splits)+

lemma permitted [simp]:
  "is_permitted_read REG_SOC 2" "is_permitted_read REG_VCELL 2" "is_permitted_read REG_CURRENT 2"
  "is_permitted_read REG_CYCLES 2" "is_permitted_read REG_SOH 1" "is_permitted_read REG_VERSION 1"
  by (simp_all add: is_permitted_read_def READS_def)

lemma read_now_logged:
  assumes "read_now (reads_logged bus) g = (r, g')"
  shows "\<exists>k \<le> 3. gauge_log g' = gauge_log g @ take k [(REG_SOC, 2), (REG_VCELL, 2), (REG_CURRENT, 2)] \<and>
    (is_ok r \<longrightarrow> k = 3)"
proof -
  obtain r1 g1 where s1: "gauge_read (reads_logged bus) g REG_SOC 2 = (r1, g1)" by fastforce
  obtain r2 g2 where s2: "gauge_read (reads_logged bus) g1 REG_VCELL 2 = (r2, g2)" by fastforce
  obtain r3 g3 where s3: "gauge_read (reads_logged bus) g2 REG_CURRENT 2 = (r3, g3)" by fastforce
  note l = gauge_read_logged(1)[OF s1] gauge_read_logged(1)[OF s2] gauge_read_logged(1)[OF s3]
  show ?thesis
  proof (cases r1)
    case (Inl e)
    then show ?thesis using assms l s1 by (intro exI[of _ 1]) (auto simp: read_now_def)
  next
    case r1: (Inr b1)
    show ?thesis
    proof (cases r2)
      case (Inl e)
      then show ?thesis using assms l s1 s2 r1 by (intro exI[of _ 2]) (auto simp: read_now_def)
    next
      case (Inr b2)
      then show ?thesis using assms l s1 s2 s3 r1
        by (intro exI[of _ 3]) (cases r3; auto simp: read_now_def Let_def)
    qed
  qed
qed

lemma soc_le [simp]: "unat (fst (soc x)) \<le> 100"
  by (auto simp: soc_def word_less_nat_alt)

lemma read_now_reading:
  assumes "read_now bus g = (Inr r, g')"
  shows "unat (gr_percent r) \<le> 100" "gr_flow r = flow_of (gr_current r)"
  using assms by (auto simp: read_now_def Let_def split: prod.splits sum.splits)

text \<open>A poll of the gauge reads only documented registers and reports only what it read: whatever the
  bus answers, a poll asks for charge, voltage and current, in this order, and stops at the first
  that fails. If all three were read, the policy is given the charge, at most 100, and the power
  source the current says; otherwise the policy is told the read failed, and no reading is kept
  from before.\<close>

theorem gauge_poll_sound:
  assumes "gauge_poll (reads_logged bus) m uptime = (m', p)"
  shows "(\<exists>k \<le> 3. gauge_log (gm_gauge m') =
            gauge_log (gm_gauge m) @ take k [(REG_SOC, 2), (REG_VCELL, 2), (REG_CURRENT, 2)] \<and>
            (po_error p = None \<longrightarrow> k = 3)) \<and>
    (case gm_last m' of
       None \<Rightarrow> po_battery p = None \<and> po_error p \<noteq> None
     | Some r \<Rightarrow> po_error p = None \<and> unat (gr_percent r) \<le> 100 \<and>
         po_battery p = Some \<lparr>bs_percent = gr_percent r,
           bs_source = (if gr_current r \<le> - 200 then Battery else Mains)\<rparr>)"
proof -
  obtain reading g where rd: "read_now (reads_logged bus) (gm_gauge m) = (reading, g)" by fastforce
  from read_now_logged[OF rd] obtain k where k: "k \<le> 3"
    "gauge_log g = gauge_log (gm_gauge m) @ take k [(REG_SOC, 2), (REG_VCELL, 2), (REG_CURRENT, 2)]"
    "is_ok reading \<longrightarrow> k = 3" by blast
  have m': "gm_gauge m' = g" "gm_last m' = ok reading"
    and p: "snd (watch_observe (gm_watch m) (map_ok reading_battery reading) uptime) = p"
    using assms rd by (auto simp: gauge_poll_def split: prod.splits)
  show ?thesis
  proof (cases reading)
    case (Inl e)
    then show ?thesis using k m' p by (auto simp: watch_observe_def Let_def split: prod.splits)
  next
    case (Inr r)
    note r = read_now_reading[OF rd[unfolded Inr]]
    have "po_battery p = Some (reading_battery r)" "po_error p = None"
      using p by (auto simp: Inr watch_observe_def Let_def split: prod.splits)
    moreover have "reading_battery r =
        \<lparr>bs_percent = gr_percent r, bs_source = (if gr_current r \<le> - 200 then Battery else Mains)\<rparr>"
      using r(2) by (auto simp: reading_battery_def flow_of_def FLOW_THRESHOLD_def)
    ultimately show ?thesis using k m' r(1) by (auto simp: Inr)
  qed
qed

text \<open>A chip whose registers hold a memory's bytes, for the witness.\<close>

definition sample_chip :: "(u8 \<Rightarrow> u8) register_read" where
  "sample_chip mem register buf =
     (Inr (), map (\<lambda>i. mem (register + of_nat i)) [0..<length buf], mem)"

definition sample_memory :: "u8 \<Rightarrow> u8" where
  "sample_memory a = (if a = 4 then 120 else if a = 2 then 0x30 else if a = 0x0E then 0xF0 else 0)"

definition sample_gauge :: "((u8 \<Rightarrow> u8) \<times> (u8 \<times> nat) list) gauge_monitor" where
  "sample_gauge = gauge_monitor_new \<lparr>cw_bus = (sample_memory, [])\<rparr> fresh_policy"

theorem gauge_poll_sound_witness:
  "po_battery (snd (gauge_poll (reads_logged sample_chip) sample_gauge 0)) =
     Some \<lparr>bs_percent = 100, bs_source = Battery\<rparr> \<and>
   gauge_log (gm_gauge (fst (gauge_poll (reads_logged sample_chip) sample_gauge 0))) =
     [(REG_SOC, 2), (REG_VCELL, 2), (REG_CURRENT, 2)]"
proof -
  let ?m = "fst (gauge_poll (reads_logged sample_chip) sample_gauge 0)"
  let ?p = "snd (gauge_poll (reads_logged sample_chip) sample_gauge 0)"
  have rd: "fst (read_now (reads_logged sample_chip) \<lparr>cw_bus = (sample_memory, [])\<rparr>) =
      Inr \<lparr>gr_percent = 100, gr_vcell_uv = vcell_microvolts (0x30, 0),
        gr_current = current_raw (0xF0, 0), gr_flow = flow_of (current_raw (0xF0, 0))\<rparr>"
    by (simp add: read_now_def gauge_read_def reads_logged_def sample_chip_def sample_memory_def
        pair_of_def soc_def regs is_permitted_read_def READS_def upt_rec Let_def)
  have last: "gm_last ?m = Some \<lparr>gr_percent = 100, gr_vcell_uv = vcell_microvolts (0x30, 0),
      gr_current = current_raw (0xF0, 0), gr_flow = flow_of (current_raw (0xF0, 0))\<rparr>"
    using rd by (simp add: gauge_poll_def sample_gauge_def gauge_monitor_new_def split_beta)
  have c: "current_raw (0xF0, 0) \<le> - 200" by (simp add: current_value)
  have "gauge_log (gm_gauge sample_gauge) = []"
    by (simp add: gauge_log_def sample_gauge_def gauge_monitor_new_def)
  with gauge_poll_sound[of sample_chip sample_gauge 0 ?m ?p] last c show ?thesis by auto
qed

end
