(* ===== verification/Status.thy ===== *)
theory Status
  imports Policy Hal
begin

text \<open>
  The status file the daemon publishes and what a display may say from it
  (\<open>crates/argon-device/src/status.rs\<close>): its text, its parser, the interpretation at a moment,
  and the watcher that turns successive reads into notices. A time is the nanoseconds since the
  epoch; Linux keeps its seconds in 64 signed bits, and adding past that panics (\<open>None\<close>).
\<close>

section \<open>The file\<close>

definition I64_MAX :: nat where "I64_MAX = 2 ^ 63 - 1"

definition STATUS_VERSION :: nat where "STATUS_VERSION = 1"

definition source_of :: "string \<Rightarrow> string" where
  "source_of l =
     (if l = ''on-mains'' then ''mains''
      else if l \<in> {''on-battery'', ''low'', ''critical''} then ''battery''
      else ''unknown'')"

definition ABSENT :: string where "ABSENT = ''absent''"
definition MISSING :: string where "MISSING = ''missing''"

record missing_ups =
  mu_name :: string
  mu_last_seen :: "systime option"

record ups_status =
  us_updated :: systime
  us_level :: string
  us_percent :: "u8 option"
  us_shutdown_at :: "systime option"
  us_missing :: "missing_ups option"

definition secs :: "systime \<Rightarrow> nat" where
  "secs t = t div 1000000000"

definition time_from_secs :: "nat \<Rightarrow> systime option" where
  "time_from_secs s = (if s \<le> I64_MAX then Some (s * 1000000000) else None)"

definition one_line :: "string \<Rightarrow> string" where
  "one_line s = map (\<lambda>c. if is_control c then CHR '' '' else c) s"

definition key_line :: "string \<Rightarrow> string \<Rightarrow> string" where
  "key_line k v = k @ [CHR ''=''] @ v"

definition optional_secs :: "systime option \<Rightarrow> string" where
  "optional_secs t = (case t of None \<Rightarrow> [] | Some t \<Rightarrow> show_nat (secs t))"

definition status_lines :: "ups_status \<Rightarrow> string list" where
  "status_lines s =
     [key_line ''version'' (show_nat STATUS_VERSION),
      key_line ''updated'' (show_nat (secs (us_updated s))),
      key_line ''level'' (us_level s),
      key_line ''percent'' (case us_percent s of None \<Rightarrow> [] | Some p \<Rightarrow> show_nat (unat p)),
      key_line ''shutdown_at'' (optional_secs (us_shutdown_at s))] @
     (case us_missing s of
        None \<Rightarrow> []
      | Some m \<Rightarrow> [key_line ''missing'' (one_line (mu_name m)),
                   key_line ''last_seen'' (optional_secs (mu_last_seen m))])"

definition to_text :: "ups_status \<Rightarrow> string" where
  "to_text s = concat (map (\<lambda>l. l @ [newline]) (status_lines s))"

record status_fields =
  sf_version :: "nat option"
  sf_updated :: "systime option"
  sf_level :: "string option"
  sf_percent :: "u8 option"
  sf_shutdown_at :: "systime option"
  sf_missing :: "string option"
  sf_last_seen :: "systime option"

definition no_fields :: status_fields where
  "no_fields = \<lparr>sf_version = None, sf_updated = None, sf_level = None, sf_percent = None,
                sf_shutdown_at = None, sf_missing = None, sf_last_seen = None\<rparr>"

definition lenient_time :: "string \<Rightarrow> systime option option" where
  \<comment> \<open>\<open>v.parse::<u64>().ok().map(from_secs)\<close>\<close>
  "lenient_time v =
     (case parse_uint U64_MAX v of
        None \<Rightarrow> Some None
      | Some n \<Rightarrow> map_option Some (time_from_secs n))"

definition parse_field :: "status_fields \<Rightarrow> string \<Rightarrow> string \<Rightarrow> (string + status_fields) option" where
  "parse_field f k v =
     (if k = ''version'' then Some (Inr (f\<lparr>sf_version := parse_uint U32_MAX v\<rparr>))
      else if k = ''updated'' then map_option (\<lambda>t. Inr (f\<lparr>sf_updated := t\<rparr>)) (lenient_time v)
      else if k = ''level'' then Some (Inr (f\<lparr>sf_level := Some v\<rparr>))
      else if k = ''percent'' \<and> v \<noteq> [] then
        Some (case parse_uint U8_MAX v of
                None \<Rightarrow> Inl (''bad percent '' @ debug_str v)
              | Some p \<Rightarrow> Inr (f\<lparr>sf_percent := Some (of_nat p)\<rparr>))
      else if k = ''shutdown_at'' \<and> v \<noteq> [] then
        (case parse_uint U64_MAX v of
           None \<Rightarrow> Some (Inl (''bad shutdown_at '' @ debug_str v))
         | Some n \<Rightarrow> map_option (\<lambda>t. Inr (f\<lparr>sf_shutdown_at := Some t\<rparr>)) (time_from_secs n))
      else if k = ''missing'' then Some (Inr (f\<lparr>sf_missing := Some v\<rparr>))
      else if k = ''last_seen'' then map_option (\<lambda>t. Inr (f\<lparr>sf_last_seen := t\<rparr>)) (lenient_time v)
      else Some (Inr f))"

definition parse_line :: "status_fields \<Rightarrow> string \<Rightarrow> (string + status_fields) option" where
  "parse_line f line =
     (case split_once CHR ''='' line of
        None \<Rightarrow> Some (Inr f)
      | Some (k, v) \<Rightarrow> parse_field f (trim k) (trim v))"

fun parse_lines :: "status_fields \<Rightarrow> string list \<Rightarrow> (string + status_fields) option" where
  "parse_lines f [] = Some (Inr f)"
| "parse_lines f (l # ls) =
     (case parse_line f l of
        None \<Rightarrow> None
      | Some (Inl e) \<Rightarrow> Some (Inl e)
      | Some (Inr f') \<Rightarrow> parse_lines f' ls)"

definition status_of_fields :: "status_fields \<Rightarrow> string + ups_status" where
  "status_of_fields f =
     (case sf_version f of
        None \<Rightarrow> Inl ''missing version''
      | Some v \<Rightarrow>
          if v \<noteq> STATUS_VERSION then Inl (''unsupported status version '' @ show_nat v)
          else (case sf_updated f of
                  None \<Rightarrow> Inl ''missing updated''
                | Some updated \<Rightarrow>
                    (case sf_level f of
                       None \<Rightarrow> Inl ''missing level''
                     | Some l \<Rightarrow>
                         Inr \<lparr>us_updated = updated, us_level = l, us_percent = sf_percent f,
                              us_shutdown_at = sf_shutdown_at f,
                              us_missing = map_option (\<lambda>n. \<lparr>mu_name = n, mu_last_seen = sf_last_seen f\<rparr>)
                                (sf_missing f)\<rparr>)))"

definition ups_status_parse :: "string \<Rightarrow> (string + ups_status) option" where
  "ups_status_parse text = map_option (\<lambda>r. rbind r status_of_fields) (parse_lines no_fields (text_lines text))"

fun level_name :: "level \<Rightarrow> string" where
  "level_name OnMains = ''on-mains''"
| "level_name OnBattery = ''on-battery''"
| "level_name Low = ''low''"
| "level_name Critical = ''critical''"
| "level_name Unknown = ''unknown''"

section \<open>What a file means at a moment\<close>

datatype urgency = NormalUrgency | CriticalUrgency

record notice =
  nt_urgency :: urgency
  nt_text :: string

definition STALE_AFTER :: duration where "STALE_AFTER = from_secs 60"

datatype level_shown = ShownOnMains | ShownOnBattery | ShownLow | ShownCritical | Unrecognised string

datatype status_reading =
  NoData
| Stale duration
| ReadFailed
| PowerOffPending u8 systime
| NoUps
| UpsMissing string "systime option"
| CurrentReading u8 level_shown

definition level_shown_of :: "string \<Rightarrow> level_shown" where
  "level_shown_of l =
     (if l = ''on-mains'' then ShownOnMains
      else if l = ''on-battery'' then ShownOnBattery
      else if l = ''low'' then ShownLow
      else if l = ''critical'' then ShownCritical
      else Unrecognised l)"

definition missing_name :: "ups_status \<Rightarrow> string" where
  "missing_name s = (case us_missing s of None \<Rightarrow> ''the UPS'' | Some m \<Rightarrow> mu_name m)"

definition interpret_status :: "ups_status option \<Rightarrow> systime \<Rightarrow> status_reading" where
  "interpret_status status now =
     (case status of
        None \<Rightarrow> NoData
      | Some s \<Rightarrow>
          (let age = now - us_updated s
           in if age > STALE_AFTER then Stale age
              else if us_level s = ABSENT then NoUps
              else if us_level s = MISSING
                then UpsMissing (missing_name s) (Option.bind (us_missing s) mu_last_seen)
              else case (if us_level s \<noteq> ''unknown'' then us_percent s else None) of
                     None \<Rightarrow> ReadFailed
                   | Some percent \<Rightarrow>
                       (case us_shutdown_at s of
                          Some at \<Rightarrow> PowerOffPending percent at
                        | None \<Rightarrow> CurrentReading percent (level_shown_of (us_level s)))))"

section \<open>Notices\<close>

definition percent_text :: "ups_status \<Rightarrow> string" where
  "percent_text s = (case us_percent s of None \<Rightarrow> [] | Some p \<Rightarrow> '' ('' @ show_nat (unat p) @ ''%)'')"

definition missing_notice :: "ups_status \<Rightarrow> notice" where
  "missing_notice s =
     \<lparr>nt_urgency = NormalUrgency,
      nt_text = ''The UPS connected before ('' @ missing_name s @
        '') cannot be found: no battery is being watched.''\<rparr>"

definition shutdown_text :: "string \<Rightarrow> string \<Rightarrow> string" where
  "shutdown_text pct when =
     ''Battery critical'' @ pct @ '': powering off at '' @ when @ ''. Restore mains power to cancel.''"

definition notice_for :: "ups_status option \<Rightarrow> ups_status \<Rightarrow> (systime \<Rightarrow> string) \<Rightarrow> notice option" where
  "notice_for previous current format_time =
     (let pct = percent_text current;
          was = Option.bind previous us_shutdown_at;
          say = (\<lambda>u t. Some \<lparr>nt_urgency = u, nt_text = t\<rparr>);
          lvl = us_level current
      in case (us_shutdown_at current, was) of
           (Some at, None) \<Rightarrow> say CriticalUrgency (shutdown_text pct (format_time at))
         | (None, Some _) \<Rightarrow>
             say NormalUrgency (if lvl = ''on-mains'' then ''Mains power restored'' @ pct @ '': shutdown cancelled.''
                                else ''Scheduled shutdown cancelled.'')
         | _ \<Rightarrow>
             (case previous of
                None \<Rightarrow>
                  if lvl = MISSING then Some (missing_notice current)
                  else if lvl = ''low'' then say NormalUrgency (''Battery low'' @ pct @ ''.'')
                  else if lvl = ''critical'' then say CriticalUrgency (''Battery critical'' @ pct @ ''.'')
                  else None
              | Some prev \<Rightarrow>
                  if us_level prev = lvl then None
                  else if lvl = MISSING then Some (missing_notice current)
                  else if lvl = ABSENT then None
                  else
                    (let urgency = (if lvl = ''critical'' then CriticalUrgency else NormalUrgency)
                     in if us_level prev = MISSING then say urgency (''The UPS is connected again'' @ pct @ ''.'')
                        else if us_level prev = ABSENT then say urgency (''UPS connected'' @ pct @ ''.'')
                        else if lvl = ''on-battery'' \<and> us_level prev = ''on-mains''
                          then say urgency (''Running on battery'' @ pct @ ''.'')
                        else if lvl = ''low'' then say urgency (''Battery low'' @ pct @ ''.'')
                        else if lvl = ''critical'' then say urgency (''Battery critical'' @ pct @ ''.'')
                        else if lvl = ''on-mains'' then say urgency (''Mains power restored'' @ pct @ ''.'')
                        else if lvl = ''unknown'' then say urgency ''Lost contact with the battery.''
                        else None)))"

record watcher =
  wa_last :: "ups_status option"
  wa_stale_reported :: bool

definition watcher_new :: watcher where
  "watcher_new = \<lparr>wa_last = None, wa_stale_reported = False\<rparr>"

definition watcher_observe ::
  "watcher \<Rightarrow> ups_status option \<Rightarrow> systime \<Rightarrow> (systime \<Rightarrow> string) \<Rightarrow> notice option \<times> watcher"
where
  "watcher_observe w current now format_time =
     (case current of
        None \<Rightarrow> (None, w)
      | Some s \<Rightarrow>
          if us_updated s \<le> now \<and> now - us_updated s > STALE_AFTER then
            (if wa_last w \<noteq> None \<and> \<not> wa_stale_reported w
             then Some \<lparr>nt_urgency = NormalUrgency, nt_text = ''Battery monitoring has stopped updating.''\<rparr>
             else None, w\<lparr>wa_stale_reported := True\<rparr>)
          else (notice_for (wa_last w) s format_time, w\<lparr>wa_stale_reported := False, wa_last := Some s\<rparr>))"

section \<open>What is published is what is read\<close>

definition plain :: "string \<Rightarrow> bool" where
  \<comment> \<open>a value that is one line and keeps its ends when trimmed\<close>
  "plain v \<longleftrightarrow> newline \<notin> set v \<and> carriage \<notin> set v \<and> trim v = v"

definition whole_seconds :: "systime \<Rightarrow> systime" where
  "whole_seconds t = secs t * 1000000000"

definition as_read :: "ups_status \<Rightarrow> ups_status" where
  \<comment> \<open>what a reader sees of a published status: whole seconds, and the name on one line\<close>
  "as_read s =
     \<lparr>us_updated = whole_seconds (us_updated s), us_level = us_level s, us_percent = us_percent s,
      us_shutdown_at = map_option whole_seconds (us_shutdown_at s),
      us_missing = map_option (\<lambda>m. \<lparr>mu_name = trim (one_line (mu_name m)),
        mu_last_seen = map_option whole_seconds (mu_last_seen m)\<rparr>) (us_missing s)\<rparr>"

definition linux_time :: "systime \<Rightarrow> bool" where
  "linux_time t \<longleftrightarrow> secs t \<le> I64_MAX"

lemma digits_plain: "list_all is_digit s \<Longrightarrow> plain s"
  using digit_not_ws by (auto simp: plain_def list_all_iff)

lemma plain_show_nat [simp]: "plain (show_nat n)"
  by (simp add: digits_plain show_nat_digits)

lemma one_line_clean [simp]: "newline \<notin> set (one_line s)" "carriage \<notin> set (one_line s)"
  by (auto simp: one_line_def is_control_def Let_def split: if_splits)

lemma parse_line_key:
  "CHR ''='' \<notin> set k \<Longrightarrow> parse_line f (key_line k v) = parse_field f (trim k) (trim v)"
  by (simp add: parse_line_def key_line_def split_once_mid)

lemma trim_plain: "plain v \<Longrightarrow> trim v = v"
  by (simp add: plain_def)

lemma trim_optional [simp]: "trim (optional_secs t) = optional_secs t"
  by (simp add: optional_secs_def split: option.splits)

lemma i64_u64: "n \<le> I64_MAX \<Longrightarrow> n \<le> U64_MAX"
  by (simp add: I64_MAX_def U64_MAX_def)

lemma lenient_show [simp]: "linux_time t \<Longrightarrow> lenient_time (show_nat (secs t)) = Some (Some (whole_seconds t))"
  by (simp add: lenient_time_def linux_time_def time_from_secs_def whole_seconds_def i64_u64)

lemma lenient_optional [simp]:
  "(\<forall>x. t = Some x \<longrightarrow> linux_time x) \<Longrightarrow>
     lenient_time (optional_secs t) = Some (map_option whole_seconds t)"
  by (cases t) (simp_all add: optional_secs_def, simp add: lenient_time_def)

lemma trim_keys [simp]:
  "trim ''version'' = ''version''" "trim ''updated'' = ''updated''" "trim ''level'' = ''level''"
  "trim ''percent'' = ''percent''" "trim ''shutdown_at'' = ''shutdown_at''"
  "trim ''missing'' = ''missing''" "trim ''last_seen'' = ''last_seen''"
  by (rule trim_ends; simp add: is_ws_def)+

lemma parse_shutdown [simp]:
  "(\<forall>x. t = Some x \<longrightarrow> linux_time x) \<Longrightarrow> sf_shutdown_at f = None \<Longrightarrow>
     parse_field f ''shutdown_at'' (optional_secs t) =
       Some (Inr (f\<lparr>sf_shutdown_at := map_option whole_seconds t\<rparr>))"
  by (cases t)
    (auto simp: parse_field_def optional_secs_def i64_u64 linux_time_def time_from_secs_def whole_seconds_def)

lemma parse_percent [simp]:
  "sf_percent f = None \<Longrightarrow>
     parse_field f ''percent'' (case p of None \<Rightarrow> [] | Some p \<Rightarrow> show_nat (unat p)) = Some (Inr (f\<lparr>sf_percent := p\<rparr>))"
  using unat_u8_le by (cases p) (auto simp: parse_field_def U8_MAX_def)

definition publishable :: "ups_status \<Rightarrow> bool" where
  "publishable s \<longleftrightarrow> plain (us_level s) \<and> linux_time (us_updated s) \<and>
     (\<forall>t. us_shutdown_at s = Some t \<longrightarrow> linux_time t) \<and>
     (\<forall>m t. us_missing s = Some m \<longrightarrow> mu_last_seen m = Some t \<longrightarrow> linux_time t)"

lemma status_lines_clean:
  assumes "publishable s" "l \<in> set (status_lines s)"
  shows "newline \<notin> set l \<and> carriage \<notin> set l"
  using assms plain_show_nat unfolding publishable_def plain_def
  by (auto simp: status_lines_def key_line_def optional_secs_def split: option.splits)

lemma no_fields_simps [simp]:
  "sf_percent (no_fields\<lparr>sf_version := a, sf_updated := b, sf_level := c\<rparr>) = None"
  "sf_shutdown_at (no_fields\<lparr>sf_version := a, sf_updated := b, sf_level := c, sf_percent := d\<rparr>) = None"
  by (simp_all add: no_fields_def)

lemma parse_rest [simp]:
  "parse_field f ''version'' v = Some (Inr (f\<lparr>sf_version := parse_uint U32_MAX v\<rparr>))"
  "parse_field f ''updated'' v = map_option (\<lambda>t. Inr (f\<lparr>sf_updated := t\<rparr>)) (lenient_time v)"
  "parse_field f ''level'' v = Some (Inr (f\<lparr>sf_level := Some v\<rparr>))"
  "parse_field f ''missing'' v = Some (Inr (f\<lparr>sf_missing := Some v\<rparr>))"
  "parse_field f ''last_seen'' v = map_option (\<lambda>t. Inr (f\<lparr>sf_last_seen := t\<rparr>)) (lenient_time v)"
  by (simp_all add: parse_field_def)

lemma trim_percent [simp]:
  "trim (case p of None \<Rightarrow> [] | Some p \<Rightarrow> show_nat (unat p)) = (case p of None \<Rightarrow> [] | Some p \<Rightarrow> show_nat (unat p))"
  by (cases p) simp_all

lemma status_file:
  assumes "publishable s"
  shows "ups_status_parse (to_text s) = Some (Inr (as_read s))"
proof -
  have "text_lines (to_text s) = status_lines s"
    unfolding to_text_def by (rule text_lines_unlines) (use status_lines_clean[OF assms] in blast)
  moreover have "parse_uint U32_MAX (show_nat STATUS_VERSION) = Some STATUS_VERSION"
    by (simp add: STATUS_VERSION_def U32_MAX_def)
  moreover have "trim (us_level s) = us_level s" "linux_time (us_updated s)"
    "\<forall>t. us_shutdown_at s = Some t \<longrightarrow> linux_time t"
    "\<And>m. us_missing s = Some m \<Longrightarrow> \<forall>t. mu_last_seen m = Some t \<longrightarrow> linux_time t"
    using assms by (auto simp: publishable_def plain_def)
  ultimately show ?thesis
    by (cases "us_missing s")
      (simp_all add: ups_status_parse_def status_lines_def parse_line_key status_of_fields_def as_read_def
        no_fields_def)
qed

text \<open>A published status is read back as published: for any status with a one-line level and times
  Linux can hold, parsing its text neither panics nor fails, and gives the same status with its
  times cut to whole seconds and the name of a missing UPS on one line. A name with line breaks,
  equals signs or any other character cannot forge another field.\<close>

theorem status_roundtrip:
  assumes "publishable s"
  shows "ups_status_parse (to_text s) = Some (Inr (as_read s))"
  by (rule status_file[OF assms])

definition sample_status :: ups_status where
  "sample_status = \<lparr>us_updated = 7000000123, us_level = MISSING, us_percent = Some 42, us_shutdown_at = None,
     us_missing = Some \<lparr>mu_name = ''UPS'' @ [newline] @ ''level=on-mains'', mu_last_seen = Some 5999999999\<rparr>\<rparr>"

theorem status_roundtrip_witness:
  "ups_status_parse (to_text sample_status) =
     Some (Inr \<lparr>us_updated = 7000000000, us_level = ''missing'', us_percent = Some 42, us_shutdown_at = None,
       us_missing = Some \<lparr>mu_name = ''UPS level=on-mains'', mu_last_seen = Some 5000000000\<rparr>\<rparr>)"
proof -
  have "plain ''missing''"
    unfolding plain_def by (intro conjI) (simp_all add: trim_keys)
  then have "publishable sample_status"
    by (simp add: publishable_def sample_status_def MISSING_def linux_time_def secs_def I64_MAX_def)
  moreover have "trim ''UPS level=on-mains'' = ''UPS level=on-mains''"
    by (rule trim_ends; simp add: is_ws_def)
  moreover have "one_line (''UPS'' @ [newline] @ ''level=on-mains'') = ''UPS level=on-mains''"
    by (simp add: one_line_def is_control_def)
  ultimately show ?thesis
    using status_roundtrip[of sample_status]
    by (simp add: as_read_def sample_status_def whole_seconds_def secs_def MISSING_def)
qed

text \<open>The parser is not total on text: a status file whose \<open>updated\<close> is a number above the largest
  second Linux can hold makes it panic instead of failing, though the number fits the 64 bits it
  is read into; a number that does not fit, or no number at all, is an ordinary error.\<close>

theorem status_parse_panics:
  "ups_status_parse (''version=1'' @ [newline] @ ''updated='' @ show_nat n @ [newline]) =
     (if n \<le> I64_MAX then Some (Inl ''missing level'')
      else if n \<le> U64_MAX then None
      else Some (Inl ''missing updated''))"
proof -
  have "concat (map (\<lambda>l. l @ [newline]) [key_line ''version'' ''1'', key_line ''updated'' (show_nat n)]) =
      ''version=1'' @ [newline] @ ''updated='' @ show_nat n @ [newline]"
    by (simp add: key_line_def)
  moreover have "\<forall>l \<in> set [key_line ''version'' ''1'', key_line ''updated'' (show_nat n)]. newline \<notin> set l \<and> carriage \<notin> set l"
    using plain_show_nat[of n] by (simp add: key_line_def plain_def)
  ultimately have "text_lines (''version=1'' @ [newline] @ ''updated='' @ show_nat n @ [newline]) =
      [key_line ''version'' ''1'', key_line ''updated'' (show_nat n)]"
    using text_lines_unlines by metis
  moreover have "trim ''1'' = ''1''" by (rule trim_ends; simp add: is_ws_def)
  moreover have "parse_uint U32_MAX ''1'' = Some 1"
    by (simp add: parse_uint_def parse_digits_def is_digit_def dec_value_def digit_val_def U32_MAX_def)
  ultimately show ?thesis
    by (simp add: ups_status_parse_def parse_line_key lenient_time_def time_from_secs_def i64_u64
        status_of_fields_def no_fields_def STATUS_VERSION_def)
qed

section \<open>What is shown is what was published\<close>

lemma level_names [simp]:
  "level_name l \<noteq> ABSENT" "level_name l \<noteq> MISSING" "level_name l = ''unknown'' \<longleftrightarrow> l = Unknown"
  by (cases l; simp add: ABSENT_def MISSING_def)+

lemma plain_level [simp]: "plain (level_name l)"
  by (cases l) (simp_all add: plain_def trim_ends is_ws_def)



section \<open>What the watcher says\<close>

fun watch_all :: "watcher \<Rightarrow> (ups_status option \<times> systime) list \<Rightarrow> (systime \<Rightarrow> string) \<Rightarrow> notice option list \<times> watcher" where
  "watch_all w [] fmt = ([], w)"
| "watch_all w ((s, now) # xs) fmt =
     (let (n, w1) = watcher_observe w s now fmt; (ns, w2) = watch_all w1 xs fmt in (n # ns, w2))"

fun stale_read :: "ups_status option \<times> systime \<Rightarrow> bool" where
  "stale_read (None, now) = False"
| "stale_read (Some s, now) \<longleftrightarrow> us_updated s \<le> now \<and> now - us_updated s > STALE_AFTER"

definition fresh_read :: "ups_status option \<times> systime \<Rightarrow> bool" where
  "fresh_read x \<longleftrightarrow> fst x \<noteq> None \<and> \<not> stale_read x"

definition last_fresh :: "(ups_status option \<times> systime) list \<Rightarrow> ups_status option" where
  "last_fresh xs = (case rev (filter fresh_read xs) of [] \<Rightarrow> None | x # _ \<Rightarrow> fst x)"

lemma last_fresh_Cons:
  "last_fresh (x # xs) = (case last_fresh xs of None \<Rightarrow> if fresh_read x then fst x else None | Some s \<Rightarrow> Some s)"
proof (cases "rev (filter fresh_read xs)")
  case (Cons y ys)
  then have "y \<in> set (filter fresh_read xs)" by (metis list.set_intros(1) set_rev)
  then have "fst y \<noteq> None" by (simp add: fresh_read_def)
  then show ?thesis using Cons by (auto simp: last_fresh_def)
qed (simp add: last_fresh_def)

lemma watcher_last:
  "wa_last (snd (watch_all w xs fmt)) = (case last_fresh xs of None \<Rightarrow> wa_last w | Some s \<Rightarrow> Some s)"
proof (induction w xs fmt rule: watch_all.induct)
  case (2 w s now xs fmt)
  obtain n w1 where w1: "watcher_observe w s now fmt = (n, w1)" by fastforce
  have "wa_last w1 = (if fresh_read (s, now) then s else wa_last w)"
    using w1 by (cases s) (auto simp: watcher_observe_def fresh_read_def split: if_splits)
  moreover have "wa_last (snd (watch_all w1 xs fmt)) = (case last_fresh xs of None \<Rightarrow> wa_last w1 | Some s \<Rightarrow> Some s)"
    using 2 w1 by simp
  moreover have "fresh_read (s, now) \<Longrightarrow> \<exists>x. s = Some x" by (simp add: fresh_read_def)
  ultimately show ?case by (auto simp: w1 last_fresh_Cons split_beta split: option.splits)
qed (simp add: last_fresh_def)

lemma stale_silent:
  assumes "\<forall>x \<in> set xs. stale_read x" "wa_stale_reported w \<or> wa_last w = None"
  shows "filter (\<lambda>n. n \<noteq> None) (fst (watch_all w xs fmt)) = []"
  using assms
proof (induction w xs fmt rule: watch_all.induct)
  case (2 w s now xs fmt)
  obtain st where s: "s = Some st" using "2.prems"(1) by (cases s) auto
  have o: "watcher_observe w s now fmt = (None, w\<lparr>wa_stale_reported := True\<rparr>)"
    using "2.prems" by (auto simp: s watcher_observe_def)
  with "2.IH"[OF o[symmetric] refl] "2.prems" show ?case by (simp add: split_beta)
qed simp

text \<open>A scheduled poweroff is announced once, and a silent daemon is reported once: after any reads of
  the file, a fresh status with a poweroff on it brings the critical notice with its time if and
  only if the last fresh status before it, however many stale or missing reads ago, had none; and
  however long the file stays stale, the watcher says so at most once, and not at all if it never
  saw a fresh one.\<close>

theorem watcher_announces_once:
  assumes "fresh_read (Some s, now)" "us_shutdown_at s = Some at"
    and "\<forall>x \<in> set stale. stale_read x"
  shows "(fst (watcher_observe (snd (watch_all watcher_new xs fmt)) (Some s) now fmt) =
            Some \<lparr>nt_urgency = CriticalUrgency, nt_text = shutdown_text (percent_text s) (fmt at)\<rparr> \<longleftrightarrow>
          Option.bind (last_fresh xs) us_shutdown_at = None) \<and>
    length (filter (\<lambda>n. n \<noteq> None) (fst (watch_all (snd (watch_all watcher_new xs fmt)) stale fmt))) \<le>
      (if last_fresh xs = None then 0 else 1)"
proof
  let ?w = "snd (watch_all watcher_new xs fmt)"
  have last: "wa_last ?w = last_fresh xs"
    using watcher_last[of watcher_new xs fmt] by (simp add: watcher_new_def split: option.splits)
  have "fst (watcher_observe ?w (Some s) now fmt) = notice_for (last_fresh xs) s fmt"
    using assms(1) by (auto simp: watcher_observe_def fresh_read_def last)
  then show "fst (watcher_observe ?w (Some s) now fmt) =
      Some \<lparr>nt_urgency = CriticalUrgency, nt_text = shutdown_text (percent_text s) (fmt at)\<rparr> \<longleftrightarrow>
    Option.bind (last_fresh xs) us_shutdown_at = None"
    using assms(2) by (cases "last_fresh xs")
      (auto simp: notice_for_def shutdown_text_def missing_notice_def Let_def split: option.splits)
  show "length (filter (\<lambda>n. n \<noteq> None) (fst (watch_all ?w stale fmt))) \<le> (if last_fresh xs = None then 0 else 1)"
  proof (cases "last_fresh xs = None \<or> stale = []")
    case True
    then show ?thesis using stale_silent[OF assms(3), of ?w fmt] last by auto
  next
    case False
    then obtain st t rest where st: "stale = (Some st, t) # rest" using assms(3)
      by (cases stale) (auto elim: stale_read.elims)
    have o: "watcher_observe ?w (Some st) t fmt = (fst (watcher_observe ?w (Some st) t fmt), ?w\<lparr>wa_stale_reported := True\<rparr>)"
      using assms(3) by (auto simp: st watcher_observe_def)
    have "filter (\<lambda>n. n \<noteq> None) (fst (watch_all (?w\<lparr>wa_stale_reported := True\<rparr>) rest fmt)) = []"
      using assms(3) by (intro stale_silent) (auto simp: st)
    then show ?thesis using False unfolding st by (subst watch_all.simps, subst o) (simp add: split_beta)
  qed
qed

definition sample_critical :: ups_status where
  "sample_critical = \<lparr>us_updated = 0, us_level = ''critical'', us_percent = Some 5, us_shutdown_at = Some 9, us_missing = None\<rparr>"

theorem watcher_announces_once_witness:
  "Option.bind (last_fresh [(None, 0), (Some (sample_critical\<lparr>us_shutdown_at := None\<rparr>), 1)]) us_shutdown_at = None \<and>
   fst (watcher_observe (snd (watch_all watcher_new
      [(None, 0), (Some (sample_critical\<lparr>us_shutdown_at := None\<rparr>), 1)] (\<lambda>_. ''12:00''))) (Some sample_critical) 2 (\<lambda>_. ''12:00'')) =
    Some \<lparr>nt_urgency = CriticalUrgency, nt_text = shutdown_text (percent_text sample_critical) ''12:00''\<rparr>"
proof -
  have "fresh_read (Some sample_critical, 2)" "us_shutdown_at sample_critical = Some 9"
    "\<forall>x \<in> set [(Some sample_critical, 70000000000)]. stale_read x"
    by (simp_all add: fresh_read_def sample_critical_def STALE_AFTER_def)
  from watcher_announces_once[OF this, of
      "[(None, 0), (Some (sample_critical\<lparr>us_shutdown_at := None\<rparr>), 1)]" "\<lambda>_. ''12:00''"]
  show ?thesis by (simp add: last_fresh_def fresh_read_def sample_critical_def STALE_AFTER_def)
qed

end
