(* ===== verification/ShutdownNotice.thy ===== *)
theory ShutdownNotice
  imports Status
begin

text \<open>
  Telling the desktop about logind's scheduled poweroff
  (\<open>crates/argon-device/src/shutdown_notice.rs\<close>): one look at logind, and the watcher that
  announces a poweroff, leaves the low-battery one to the status file's notices, and says when a
  poweroff goes.
\<close>

definition SAME :: duration where "SAME = from_secs 90"

datatype seen =
  SeenNothing
| SeenPoweroff systime "string option"
| CannotTell

record shutdown_watcher =
  sw_known :: "systime option"

definition shutdown_watcher_new :: shutdown_watcher where
  "shutdown_watcher_new = \<lparr>sw_known = None\<rparr>"

definition close_times :: "systime \<Rightarrow> systime \<Rightarrow> bool" where
  "close_times a b \<longleftrightarrow> (if b \<le> a then a - b else b - a) \<le> SAME"

definition close_to :: "systime option \<Rightarrow> systime \<Rightarrow> bool" where
  "close_to t at = (case t of None \<Rightarrow> False | Some k \<Rightarrow> close_times k at)"

definition poweroff_text :: "string option \<Rightarrow> string \<Rightarrow> string \<Rightarrow> string" where
  "poweroff_text message button_message when =
     (if message = Some button_message
      then ''Powering off at '' @ when @ '': the case button was pressed. Press it again to cancel.''
      else ''A poweroff is scheduled for '' @ when @ ''. Cancel it with `shutdown -c`.'')"

definition cancelled_notice :: notice where
  "cancelled_notice = \<lparr>nt_urgency = NormalUrgency, nt_text = ''The scheduled poweroff was cancelled.''\<rparr>"

definition shutdown_observe ::
  "shutdown_watcher \<Rightarrow> seen \<Rightarrow> systime option \<Rightarrow> (systime \<Rightarrow> string) \<Rightarrow> string \<Rightarrow> notice option \<times> shutdown_watcher"
where
  "shutdown_observe w seen ups_shutdown_at hhmm button_message =
     (case seen of
        CannotTell \<Rightarrow> (None, w)
      | SeenNothing \<Rightarrow> (map_option (\<lambda>_. cancelled_notice) (sw_known w), w\<lparr>sw_known := None\<rparr>)
      | SeenPoweroff at message \<Rightarrow>
          if close_to (sw_known w) at then (None, w)
          else if close_to ups_shutdown_at at then (None, w\<lparr>sw_known := Some at\<rparr>)
          else (Some \<lparr>nt_urgency = CriticalUrgency, nt_text = poweroff_text message button_message (hhmm at)\<rparr>,
                w\<lparr>sw_known := Some at\<rparr>))"

section \<open>Runs of looks\<close>

type_synonym look = "seen \<times> systime option"

fun shutdown_looks ::
  "(systime \<Rightarrow> string) \<Rightarrow> string \<Rightarrow> shutdown_watcher \<Rightarrow> look list \<Rightarrow> notice list \<times> shutdown_watcher"
where
  "shutdown_looks hhmm button w [] = ([], w)"
| "shutdown_looks hhmm button w ((seen, ups) # xs) =
     (let (n, w1) = shutdown_observe w seen ups hhmm button;
          (ns, w2) = shutdown_looks hhmm button w1 xs
      in ((case n of None \<Rightarrow> ns | Some n \<Rightarrow> n # ns), w2))"

lemma looks_append:
  "shutdown_looks hhmm button w (xs @ ys) =
     (let (ns, w1) = shutdown_looks hhmm button w xs; (ms, w2) = shutdown_looks hhmm button w1 ys
      in (ns @ ms, w2))"
  by (induction xs arbitrary: w) (auto simp: split_beta split: option.splits)

fun same_poweroff :: "systime \<Rightarrow> look \<Rightarrow> bool" where
  "same_poweroff at (SeenNothing, ups) = False"
| "same_poweroff at (SeenPoweroff t m, ups) = close_times at t"
| "same_poweroff at (CannotTell, ups) = True"

lemma same_poweroff_silent:
  assumes "sw_known w = Some at" "\<forall>x \<in> set xs. same_poweroff at x"
  shows "shutdown_looks hhmm button w xs = ([], w)"
  using assms(2)
proof (induction xs)
  case (Cons x xs)
  obtain seen ups where x: "x = (seen, ups)" by (cases x)
  have "shutdown_observe w seen ups hhmm button = (None, w)"
    using Cons.prems assms(1) by (cases seen) (auto simp: x shutdown_observe_def close_to_def)
  with Cons show ?case by (simp add: x)
qed simp

text \<open>One poweroff, one announcement: from a watcher that knows of none, a poweroff seen at a time,
  then any looks that either cannot tell or see it within 90 seconds of that time, then nothing
  scheduled, gives exactly one announcement, which names the button if its message is the
  button's, and one cancellation, and leaves the watcher as it began. The announcement is
  withheld when the status file carries the same poweroff; its cancellation is not, so that one
  is told twice, by this watcher and by the status file's.\<close>

theorem shutdown_notice_once:
  assumes "\<forall>x \<in> set looks. same_poweroff at x"
  shows "shutdown_looks hhmm button shutdown_watcher_new
      ([(SeenPoweroff at message, ups)] @ looks @ [(SeenNothing, ups')]) =
    ((if close_to ups at then []
      else [\<lparr>nt_urgency = CriticalUrgency, nt_text = poweroff_text message button (hhmm at)\<rparr>]) @
       [cancelled_notice], shutdown_watcher_new)"
proof -
  have first: "shutdown_observe shutdown_watcher_new (SeenPoweroff at message) ups hhmm button =
      (if close_to ups at then None
       else Some \<lparr>nt_urgency = CriticalUrgency, nt_text = poweroff_text message button (hhmm at)\<rparr>,
       \<lparr>sw_known = Some at\<rparr>)"
    by (simp add: shutdown_observe_def shutdown_watcher_new_def close_to_def)
  have mid: "shutdown_looks hhmm button \<lparr>sw_known = Some at\<rparr> looks = ([], \<lparr>sw_known = Some at\<rparr>)"
    by (rule same_poweroff_silent) (use assms in simp_all)
  have gone: "shutdown_observe \<lparr>sw_known = Some at\<rparr> SeenNothing ups' hhmm button =
      (Some cancelled_notice, shutdown_watcher_new)"
    by (simp add: shutdown_observe_def shutdown_watcher_new_def)
  show ?thesis by (simp only: looks_append) (simp add: first mid gone)
qed

theorem shutdown_notice_once_witness:
  "shutdown_looks (\<lambda>_. ''12:00'') ''button'' shutdown_watcher_new
      ([(SeenPoweroff 5000 (Some ''button''), None)] @ [(CannotTell, None), (SeenPoweroff 6000 None, None)] @
       [(SeenNothing, None)]) =
    ([\<lparr>nt_urgency = CriticalUrgency, nt_text = poweroff_text (Some ''button'') ''button'' ''12:00''\<rparr>, cancelled_notice],
     shutdown_watcher_new)"
  using shutdown_notice_once[of "[(CannotTell, None), (SeenPoweroff 6000 None, None)]" 5000
      "\<lambda>_. ''12:00''" "''button''" "Some ''button''" None None]
  by (simp add: close_times_def SAME_def close_to_def)

end
