(* ===== verification/Button.thy ===== *)
theory Button
  imports Poweroff
begin

text \<open>
  The case button: what a press means (\<open>crates/argon-device/src/button.rs\<close>), and the daemon's
  thread that turns edges of the GPIO line into presses and presses into logind calls
  (\<open>crates/argon-daemon/src/button.rs\<close>). Waiting for an edge is an argument: the thread is run
  over the list of what it waited for, each with logind's operations at that time.
\<close>

section \<open>The policy\<close>

definition PULSE_MIN :: duration where "PULSE_MIN = from_millis 10"
definition PULSE_MAX :: duration where "PULSE_MAX = from_millis 40"
definition MIN_GAP :: duration where "MIN_GAP = from_secs 1"
definition BUTTON_DELAY :: duration where "BUTTON_DELAY = from_secs 60"

definition BUTTON_MESSAGE :: string where
  "BUTTON_MESSAGE =
     ''The Argon case button was pressed: powering off in one minute. Press it again to cancel.''"

definition is_press :: "duration \<Rightarrow> bool" where
  "is_press width \<longleftrightarrow> PULSE_MIN \<le> width \<and> width \<le> PULSE_MAX"

datatype button_pending = ButtonNothing | ButtonAt systime | ButtonCannotTell

datatype why = NotConfigured | Bounce | SomeoneElses | WhyCannotTell

datatype button_action = ButtonSchedule | ButtonCancel | Ignore why

record button =
  bu_armed :: bool
  bu_ours :: "systime option"
  bu_last :: "duration option"

definition button_new :: "bool \<Rightarrow> button" where
  "button_new armed = \<lparr>bu_armed = armed, bu_ours = None, bu_last = None\<rparr>"

definition press :: "button \<Rightarrow> duration \<Rightarrow> button_pending \<Rightarrow> button_action \<times> button" where
  "press b now pending =
     (if \<not> bu_armed b then (Ignore NotConfigured, b)
      else if (case bu_last b of None \<Rightarrow> False | Some l \<Rightarrow> now - l < MIN_GAP) then (Ignore Bounce, b)
      else
        (let b = b\<lparr>bu_last := Some now\<rparr>
         in case pending of
              ButtonCannotTell \<Rightarrow> (Ignore WhyCannotTell, b)
            | ButtonAt at \<Rightarrow>
                if bu_ours b = Some at then (ButtonCancel, b)
                else (Ignore SomeoneElses, b\<lparr>bu_ours := None\<rparr>)
            | ButtonNothing \<Rightarrow> (ButtonSchedule, b\<lparr>bu_ours := None\<rparr>)))"

definition button_placed :: "button \<Rightarrow> systime \<Rightarrow> button" where
  "button_placed b at = b\<lparr>bu_ours := Some at\<rparr>"

definition button_cancelled :: "button \<Rightarrow> button" where
  "button_cancelled b = b\<lparr>bu_ours := None\<rparr>"

section \<open>The daemon's thread\<close>

datatype edge = Rising | Falling

record edge_event =
  ee_edge :: edge
  ee_timestamp_ns :: nat

datatype wait = GotEdge edge_event | NoEdge | WaitFailed string

record 'p button_thread =
  bt_button :: button
  bt_power :: 'p
  bt_rising :: "nat option"

definition button_thread_new :: "'p \<Rightarrow> 'p button_thread" where
  "button_thread_new p = \<lparr>bt_button = button_new True, bt_power = p, bt_rising = None\<rparr>"

definition recognise :: "'p power_ops \<Rightarrow> button_pending \<Rightarrow> button \<times> 'p \<Rightarrow> button \<times> 'p" where
  "recognise ops pending bp =
     (case pending of
        ButtonAt at \<Rightarrow>
          (let (r, p) = pw_wall_message ops (snd bp)
           in (if ok r = Some (Some BUTTON_MESSAGE) then button_placed (fst bp) at else fst bp, p))
      | _ \<Rightarrow> bp)"

definition button_act :: "'p power_ops \<Rightarrow> duration \<Rightarrow> button_pending \<Rightarrow> bool \<Rightarrow> button \<times> 'p \<Rightarrow> button \<times> 'p" where
  "button_act ops now pending full bp =
     (let (a, b) = press (fst bp) now pending
      in case a of
           ButtonSchedule \<Rightarrow>
             if \<not> full then (b, snd bp)
             else (let (r, p) = pw_schedule ops (snd bp) BUTTON_DELAY BUTTON_MESSAGE
                   in (case r of Inr at \<Rightarrow> button_placed b at | Inl _ \<Rightarrow> b, p))
         | ButtonCancel \<Rightarrow>
             (let (r, p) = pw_cancel ops (snd bp)
              in (case r of Inr _ \<Rightarrow> button_cancelled b | Inl _ \<Rightarrow> b, p))
         | Ignore _ \<Rightarrow> (b, snd bp))"

definition read_pending :: "'p power_ops \<Rightarrow> 'p \<Rightarrow> button_pending \<times> 'p" where
  "read_pending ops p =
     (let (r, p1) = pw_pending ops p
      in (case r of Inr None \<Rightarrow> ButtonNothing | Inr (Some at) \<Rightarrow> ButtonAt at | Inl _ \<Rightarrow> ButtonCannotTell, p1))"

definition on_edge :: "'p power_ops \<Rightarrow> bool \<Rightarrow> 'p button_thread \<Rightarrow> edge_event \<Rightarrow> 'p button_thread" where
  "on_edge ops full t ev =
     (case ee_edge ev of
        Rising \<Rightarrow> t\<lparr>bt_rising := Some (ee_timestamp_ns ev)\<rparr>
      | Falling \<Rightarrow>
          (case bt_rising t of
             None \<Rightarrow> t
           | Some start \<Rightarrow>
               (let t1 = t\<lparr>bt_rising := None\<rparr>
                in if \<not> is_press (ee_timestamp_ns ev - start) then t1
                   else
                     (let now = ee_timestamp_ns ev;
                          (pending, p) = read_pending ops (bt_power t1);
                          (b, p) = button_act ops now pending full
                            (recognise ops pending (bt_button t1, p))
                      in t1\<lparr>bt_button := b, bt_power := p\<rparr>))))"

fun button_run :: "bool \<Rightarrow> 'p button_thread \<Rightarrow> ('p power_ops \<times> wait) list \<Rightarrow> 'p button_thread" where
  "button_run full t [] = t"
| "button_run full t ((ops, GotEdge ev) # ws) = button_run full (on_edge ops full t ev) ws"
| "button_run full t ((ops, NoEdge) # ws) = button_run full t ws"
| "button_run full t ((ops, WaitFailed e) # ws) = t"

section \<open>What the thread may ask of logind\<close>

text \<open>The exchange with logind: each call with its answer.\<close>

datatype exchange =
  ScheduleAsked duration string "hal_error + systime"
| CancelAsked "hal_error + unit"
| PendingAsked "hal_error + systime option"
| WallAsked "hal_error + string option"

definition answered :: "'p power_ops \<Rightarrow> ('p \<times> exchange list) power_ops" where
  "answered ops = \<lparr>
     pw_schedule = (\<lambda>(p, l) d m. let (r, p1) = pw_schedule ops p d m in (r, (p1, l @ [ScheduleAsked d m r]))),
     pw_cancel = (\<lambda>(p, l). let (r, p1) = pw_cancel ops p in (r, (p1, l @ [CancelAsked r]))),
     pw_pending = (\<lambda>(p, l). let (r, p1) = pw_pending ops p in (r, (p1, l @ [PendingAsked r]))),
     pw_wall_message = (\<lambda>(p, l). let (r, p1) = pw_wall_message ops p in (r, (p1, l @ [WallAsked r])))\<rparr>"

lemma answered_simps [simp]:
  "pw_schedule (answered ops) (p, l) d m =
     (fst (pw_schedule ops p d m), snd (pw_schedule ops p d m), l @ [ScheduleAsked d m (fst (pw_schedule ops p d m))])"
  "pw_cancel (answered ops) (p, l) = (fst (pw_cancel ops p), snd (pw_cancel ops p), l @ [CancelAsked (fst (pw_cancel ops p))])"
  "pw_pending (answered ops) (p, l) =
     (fst (pw_pending ops p), snd (pw_pending ops p), l @ [PendingAsked (fst (pw_pending ops p))])"
  "pw_wall_message (answered ops) (p, l) =
     (fst (pw_wall_message ops p), snd (pw_wall_message ops p), l @ [WallAsked (fst (pw_wall_message ops p))])"
  by (simp_all add: answered_def split_beta)

text \<open>A time is the button's if logind answered a schedule of the button's with it, or once reported it
  pending with the button's own message.\<close>

definition owned :: "exchange list \<Rightarrow> systime \<Rightarrow> bool" where
  "owned l at \<longleftrightarrow>
     ScheduleAsked BUTTON_DELAY BUTTON_MESSAGE (Inr at) \<in> set l \<or>
     (\<exists>pre post. l = pre @ [PendingAsked (Inr (Some at)), WallAsked (Inr (Some BUTTON_MESSAGE))] @ post)"

text \<open>The exchanges the button's rules allow.\<close>

inductive allowed :: "bool \<Rightarrow> exchange list \<Rightarrow> bool" for full where
  start: "allowed full []"
| unreadable: "allowed full l \<Longrightarrow> allowed full (l @ [PendingAsked (Inl e)])"
| bounced: "allowed full l \<Longrightarrow> allowed full (l @ [PendingAsked (Inr None)])"
| scheduled: "allowed full l \<Longrightarrow> full \<Longrightarrow>
    allowed full (l @ [PendingAsked (Inr None), ScheduleAsked BUTTON_DELAY BUTTON_MESSAGE r])"
| left: "allowed full l \<Longrightarrow> allowed full (l @ [PendingAsked (Inr (Some at)), WallAsked w])"
| cancelled: "allowed full l \<Longrightarrow> owned (l @ [PendingAsked (Inr (Some at)), WallAsked w]) at \<Longrightarrow>
    allowed full (l @ [PendingAsked (Inr (Some at)), WallAsked w, CancelAsked r])"

lemma owned_append: "owned l at \<Longrightarrow> owned (l @ l') at"
  unfolding owned_def by (metis append.assoc Un_iff set_append)

lemma owned_now: "owned (l @ [PendingAsked (Inr (Some at)), WallAsked (Inr (Some BUTTON_MESSAGE))]) at"
  unfolding owned_def by auto

definition thread_ok :: "bool \<Rightarrow> ('p \<times> exchange list) button_thread \<Rightarrow> bool" where
  "thread_ok full t \<longleftrightarrow> allowed full (snd (bt_power t)) \<and>
     (\<forall>at. bu_ours (bt_button t) = Some at \<longrightarrow> owned (snd (bt_power t)) at)"

lemma press_cases:
  assumes "press b now pending = (a, b')"
  shows "bu_ours b' = bu_ours b \<or> bu_ours b' = None"
    and "a = ButtonSchedule \<Longrightarrow> pending = ButtonNothing"
    and "a = ButtonCancel \<Longrightarrow> \<exists>at. pending = ButtonAt at \<and> bu_ours b = Some at"
  using assms by (auto simp: press_def Let_def split: if_splits button_pending.splits)

lemma recognise_simps [simp]:
  "recognise ops ButtonNothing bp = bp" "recognise ops ButtonCannotTell bp = bp"
  "recognise (answered ops) (ButtonAt at) (b, (p, l)) =
     (if ok (fst (pw_wall_message ops p)) = Some (Some BUTTON_MESSAGE) then button_placed b at else b,
      (snd (pw_wall_message ops p), l @ [WallAsked (fst (pw_wall_message ops p))]))"
  by (simp_all add: recognise_def Let_def)

lemma button_act_simps:
  "press b now pending = (Ignore y, b') \<Longrightarrow> button_act ops now pending full (b, p) = (b', p)"
  "press b now pending = (ButtonSchedule, b') \<Longrightarrow> button_act ops now pending full (b, p) =
     (if full then (case fst (pw_schedule ops p BUTTON_DELAY BUTTON_MESSAGE) of Inr at \<Rightarrow> button_placed b' at | Inl _ \<Rightarrow> b',
        snd (pw_schedule ops p BUTTON_DELAY BUTTON_MESSAGE)) else (b', p))"
  "press b now pending = (ButtonCancel, b') \<Longrightarrow> button_act ops now pending full (b, p) =
     (if is_ok (fst (pw_cancel ops p)) then button_cancelled b' else b', snd (pw_cancel ops p))"
  by (auto simp: button_act_def split_beta split: sum.splits)

lemma on_edge_press:
  assumes "ee_edge ev = Falling" "bt_rising t = Some start" "is_press (ee_timestamp_ns ev - start)"
    and "read_pending ops (bt_power t) = (pending, p)"
    and "button_act ops (ee_timestamp_ns ev) pending full (recognise ops pending (bt_button t, p)) = (b, p')"
  shows "on_edge ops full t ev = t\<lparr>bt_rising := None, bt_button := b, bt_power := p'\<rparr>"
  using assms by (simp add: on_edge_def Let_def)

lemma on_edge_ok:
  assumes "thread_ok full t"
  shows "thread_ok full (on_edge (answered ops) full t ev)"
proof -
  obtain p l where p: "bt_power t = (p, l)" by fastforce
  have l: "allowed full l" and own: "\<And>at. bu_ours (bt_button t) = Some at \<Longrightarrow> owned l at"
    using assms by (auto simp: thread_ok_def p)
  obtain r p1 where pend: "pw_pending ops p = (r, p1)" by fastforce
  show ?thesis
  proof (cases "ee_edge ev = Falling \<and> (\<exists>start. bt_rising t = Some start \<and> is_press (ee_timestamp_ns ev - start))")
    case False
    then show ?thesis using assms
      by (auto simp: on_edge_def thread_ok_def p split: edge.splits option.splits)
  next
    case True
    then obtain start where ev: "ee_edge ev = Falling" "bt_rising t = Some start" "is_press (ee_timestamp_ns ev - start)"
      by blast
    let ?now = "ee_timestamp_ns ev"
    consider (err) e where "r = Inl e" | (none) "r = Inr None" | (at) at where "r = Inr (Some at)"
      by (cases r) auto
    then show ?thesis
    proof cases
      case err
      obtain a b where pr: "press (bt_button t) ?now ButtonCannotTell = (a, b)" by fastforce
      obtain y where a: "a = Ignore y" using press_cases(2,3)[OF pr] by (cases a) auto
      have rd: "read_pending (answered ops) (bt_power t) = (ButtonCannotTell, (p1, l @ [PendingAsked r]))"
        by (simp add: read_pending_def p pend err)
      have "on_edge (answered ops) full t ev =
          t\<lparr>bt_rising := None, bt_button := b, bt_power := (p1, l @ [PendingAsked r])\<rparr>"
        by (rule on_edge_press[OF ev rd]) (simp add: button_act_simps(1)[OF pr[unfolded a]])
      moreover have "allowed full (l @ [PendingAsked r])" using l by (simp add: err allowed.unreadable)
      ultimately show ?thesis using press_cases(1)[OF pr] own owned_append by (auto simp: thread_ok_def)
    next
      case none
      obtain a b where pr: "press (bt_button t) ?now ButtonNothing = (a, b)" by fastforce
      obtain s p2 where sch: "pw_schedule ops p1 BUTTON_DELAY BUTTON_MESSAGE = (s, p2)" by fastforce
      have rd: "read_pending (answered ops) (bt_power t) = (ButtonNothing, (p1, l @ [PendingAsked r]))"
        by (simp add: read_pending_def p pend none)
      have l1: "allowed full (l @ [PendingAsked r])" using l by (simp add: none allowed.bounced)
      show ?thesis
      proof (cases "a = ButtonSchedule \<and> full")
        case True
        let ?b = "case s of Inr at \<Rightarrow> button_placed b at | Inl _ \<Rightarrow> b"
        let ?l = "l @ [PendingAsked r, ScheduleAsked BUTTON_DELAY BUTTON_MESSAGE s]"
        have "on_edge (answered ops) full t ev = t\<lparr>bt_rising := None, bt_button := ?b, bt_power := (p2, ?l)\<rparr>"
          by (rule on_edge_press[OF ev rd]) (use True pr in \<open>simp add: button_act_simps(2) sch\<close>)
        moreover have "allowed full ?l" using l True by (simp add: none allowed.scheduled)
        moreover have "owned (l @ [PendingAsked r, ScheduleAsked BUTTON_DELAY BUTTON_MESSAGE (Inr at)]) at" for at
          by (simp add: owned_def)
        ultimately show ?thesis using press_cases(1)[OF pr] own owned_append
          by (auto simp: thread_ok_def button_placed_def split: sum.splits)
      next
        case False
        have "button_act (answered ops) ?now ButtonNothing full (bt_button t, (p1, l @ [PendingAsked r])) =
            (b, (p1, l @ [PendingAsked r]))"
          using False pr press_cases(3)[OF pr] by (cases a) (auto simp: button_act_simps)
        then have "on_edge (answered ops) full t ev =
            t\<lparr>bt_rising := None, bt_button := b, bt_power := (p1, l @ [PendingAsked r])\<rparr>"
          by (intro on_edge_press[OF ev rd]) simp
        then show ?thesis using l1 press_cases(1)[OF pr] own owned_append by (auto simp: thread_ok_def)
      qed
    next
      case (at at)
      obtain w p2 where wall: "pw_wall_message ops p1 = (w, p2)" by fastforce
      define b0 where "b0 = (if ok w = Some (Some BUTTON_MESSAGE) then button_placed (bt_button t) at else bt_button t)"
      obtain a b where pr: "press b0 ?now (ButtonAt at) = (a, b)" by fastforce
      obtain c p3 where can: "pw_cancel ops p2 = (c, p3)" by fastforce
      let ?l = "l @ [PendingAsked r, WallAsked w]" and ?lc = "l @ [PendingAsked r, WallAsked w, CancelAsked c]"
      have "ok w = Some (Some BUTTON_MESSAGE) \<Longrightarrow> w = Inr (Some BUTTON_MESSAGE)" by (cases w) auto
      then have own0: "bu_ours b0 = Some at' \<Longrightarrow> owned ?l at'" for at'
        using own owned_append owned_now by (auto simp: b0_def button_placed_def at split: if_splits)
      have own1: "bu_ours b = Some at' \<Longrightarrow> owned ?l at'" for at'
        using press_cases(1)[OF pr] own0 by auto
      have rd: "read_pending (answered ops) (bt_power t) = (ButtonAt at, (p1, l @ [PendingAsked r]))"
        by (simp add: read_pending_def p pend at)
      have rc: "recognise (answered ops) (ButtonAt at) (bt_button t, (p1, l @ [PendingAsked r])) = (b0, (p2, ?l))"
        by (simp add: wall b0_def)
      show ?thesis
      proof (cases "a = ButtonCancel")
        case True
        have "on_edge (answered ops) full t ev =
            t\<lparr>bt_rising := None, bt_button := (if is_ok c then button_cancelled b else b), bt_power := (p3, ?lc)\<rparr>"
          by (rule on_edge_press[OF ev rd], simp only: rc, simp add: button_act_simps(3)[OF pr[unfolded True]] can)
        moreover have "allowed full ?lc"
          using press_cases(3)[OF pr True] own0 l by (auto simp: at intro!: allowed.cancelled)
        moreover have "bu_ours b = Some at' \<Longrightarrow> owned ?lc at'" for at'
          using owned_append[of ?l at' "[CancelAsked c]"] own1 by simp
        ultimately show ?thesis by (auto simp: thread_ok_def button_cancelled_def)
      next
        case False
        have "button_act (answered ops) ?now (ButtonAt at) full (b0, (p2, ?l)) = (b, (p2, ?l))"
          using False pr press_cases(2)[OF pr] by (cases a) (auto simp: button_act_simps)
        then have "on_edge (answered ops) full t ev = t\<lparr>bt_rising := None, bt_button := b, bt_power := (p2, ?l)\<rparr>"
          by (intro on_edge_press[OF ev rd], simp only: rc)
        moreover have "allowed full ?l" using l by (simp add: at allowed.left)
        ultimately show ?thesis using own1 by (auto simp: thread_ok_def)
      qed
    qed
  qed
qed

lemma button_run_ok: "thread_ok full t \<Longrightarrow> thread_ok full (button_run full t (map (\<lambda>(ops, w). (answered ops, w)) ws))"
proof (induction ws arbitrary: t)
  case (Cons x ws)
  obtain ops w where x: "x = (ops, w)" by (cases x)
  show ?case using Cons on_edge_ok[OF Cons.prems, of ops] by (cases w) (simp_all add: x)
qed simp

text \<open>C36: The button touches only its own poweroff: run the thread over any edges, with any logind
  behind it. Its whole exchange with logind is one the rules allow: it schedules only its own
  announced poweroff, only in full mode and only right after logind reported nothing pending; it
  cancels only right after logind reported a pending time that is the button's, because logind
  gave that time to a schedule of the button's or reported it with the button's message; and
  when logind cannot be read, it does neither.\<close>

theorem button_exchange_allowed:
  "allowed full (snd (bt_power (button_run full (button_thread_new (p, [])) (map (\<lambda>(ops, w). (answered ops, w)) ws))))"
proof -
  have "thread_ok full (button_thread_new (p, []))"
    by (simp add: thread_ok_def button_thread_new_def button_new_def allowed.start)
  from button_run_ok[OF this, of ws] show ?thesis by (simp add: thread_ok_def)
qed

section \<open>Presses\<close>

text \<open>The two edges of a pulse, and what a thread does over them.\<close>

definition pulse :: "'p power_ops \<Rightarrow> nat \<Rightarrow> nat \<Rightarrow> ('p power_ops \<times> wait) list" where
  "pulse ops start end =
     [(ops, GotEdge \<lparr>ee_edge = Rising, ee_timestamp_ns = start\<rparr>),
      (ops, GotEdge \<lparr>ee_edge = Falling, ee_timestamp_ns = end\<rparr>)]"

lemma button_run_append:
  "\<forall>(ops, w) \<in> set ws. \<forall>e. w \<noteq> WaitFailed e \<Longrightarrow> button_run full t (ws @ vs) = button_run full (button_run full t ws) vs"
proof (induction ws arbitrary: t)
  case (Cons x ws)
  obtain ops w where "x = (ops, w)" by (cases x)
  with Cons show ?case by (cases w) auto
qed simp

lemma run_pulse:
  assumes "is_press (e - s)" "read_pending ops (bt_power t) = (pending, p)"
    and "button_act ops e pending full (recognise ops pending (bt_button t, p)) = (b, p')"
  shows "button_run full t (pulse ops s e) = t\<lparr>bt_rising := None, bt_button := b, bt_power := p'\<rparr>"
proof -
  let ?t = "t\<lparr>bt_rising := Some s\<rparr>"
  have "on_edge ops full ?t \<lparr>ee_edge = Falling, ee_timestamp_ns = e\<rparr> =
      ?t\<lparr>bt_rising := None, bt_button := b, bt_power := p'\<rparr>"
    by (rule on_edge_press[where start = s and pending = pending and p = p]) (use assms in simp_all)
  then show ?thesis by (simp add: pulse_def on_edge_def)
qed

text \<open>Press and press again: on a full-mode thread with no pulse in progress and the last press at
  least a second ago, a press while nothing is pending places the announced poweroff, and a
  second press at least a second later, with logind reporting the time it gave, cancels it. What
  the thread then owns is what it owned at first: nothing.\<close>

theorem button_press_toggles:
  assumes "is_press (e1 - s1)" "is_press (e2 - s2)" "e1 + MIN_GAP \<le> e2"
    and "bu_armed (bt_button t)" "\<forall>l. bu_last (bt_button t) = Some l \<longrightarrow> l + MIN_GAP \<le> e1"
    and "pw_pending ops1 (bt_power t) = (Inr None, p1)"
    and "pw_schedule ops1 p1 BUTTON_DELAY BUTTON_MESSAGE = (Inr at, p2)"
    and "pw_pending ops2 p2 = (Inr (Some at), p3)" "pw_wall_message ops2 p3 = (w, p4)"
    and "pw_cancel ops2 p4 = (Inr u, p5)"
  shows "button_run True t (pulse ops1 s1 e1) =
      t\<lparr>bt_rising := None, bt_power := p2, bt_button := \<lparr>bu_armed = True, bu_ours = Some at, bu_last = Some e1\<rparr>\<rparr> \<and>
    button_run True t (pulse ops1 s1 e1 @ pulse ops2 s2 e2) =
      t\<lparr>bt_rising := None, bt_power := p5, bt_button := \<lparr>bu_armed = True, bu_ours = None, bu_last = Some e2\<rparr>\<rparr>"
proof -
  let ?b1 = "\<lparr>bu_armed = True, bu_ours = Some at, bu_last = Some e1\<rparr>"
  have gap: "0 < MIN_GAP" by (simp add: MIN_GAP_def)
  have pr1: "press (bt_button t) e1 ButtonNothing = (ButtonSchedule, \<lparr>bu_armed = True, bu_ours = None, bu_last = Some e1\<rparr>)"
    using assms(4,5) by (cases "bt_button t") (auto simp: press_def split: option.splits)
  have one: "button_run True t (pulse ops1 s1 e1) = t\<lparr>bt_rising := None, bt_button := ?b1, bt_power := p2\<rparr>"
    by (rule run_pulse[where pending = ButtonNothing and p = p1])
      (use assms pr1 in \<open>simp_all add: read_pending_def button_act_simps(2) button_placed_def\<close>)
  let ?t1 = "t\<lparr>bt_rising := None, bt_button := ?b1, bt_power := p2\<rparr>"
  have rc: "recognise ops2 (ButtonAt at) (?b1, p3) = (?b1, p4)"
    using assms(9) by (simp add: recognise_def button_placed_def)
  have pr2: "press ?b1 e2 (ButtonAt at) = (ButtonCancel, ?b1\<lparr>bu_last := Some e2\<rparr>)"
    using assms(3) gap by (auto simp: press_def)
  have two: "button_run True ?t1 (pulse ops2 s2 e2) =
      ?t1\<lparr>bt_rising := None, bt_button := \<lparr>bu_armed = True, bu_ours = None, bu_last = Some e2\<rparr>, bt_power := p5\<rparr>"
    by (rule run_pulse[where pending = "ButtonAt at" and p = p3])
      (use assms rc pr2 in \<open>simp_all add: read_pending_def button_act_simps(3) button_cancelled_def\<close>)
  have "button_run True t (pulse ops1 s1 e1 @ pulse ops2 s2 e2) = button_run True (button_run True t (pulse ops1 s1 e1)) (pulse ops2 s2 e2)"
    by (rule button_run_append) (simp add: pulse_def)
  then show ?thesis using one two by simp
qed

theorem button_press_toggles_witness:
  "button_run True (button_thread_new None) (pulse sample_power 0 20000000 @ pulse sample_power 3000000000 3020000000) =
     button_thread_new None\<lparr>bt_button := \<lparr>bu_armed = True, bu_ours = None, bu_last = Some 3020000000\<rparr>\<rparr>"
proof -
  have m: "is_press (20000000 - 0)" "is_press (3020000000 - 3000000000)" "20000000 + MIN_GAP \<le> 3020000000"
    by (simp_all add: is_press_def PULSE_MIN_def PULSE_MAX_def MIN_GAP_def)
  have t: "bu_armed (bt_button (button_thread_new None))"
    "\<forall>l. bu_last (bt_button (button_thread_new None)) = Some l \<longrightarrow> l + MIN_GAP \<le> 20000000"
    by (simp_all add: button_thread_new_def button_new_def)
  let ?at = "1000 + BUTTON_DELAY" and ?s = "Some (1000 + BUTTON_DELAY, BUTTON_MESSAGE)"
  have l: "pw_pending sample_power (bt_power (button_thread_new None)) = (Inr None, None)"
    "pw_schedule sample_power None BUTTON_DELAY BUTTON_MESSAGE = (Inr ?at, ?s)"
    "pw_pending sample_power ?s = (Inr (Some ?at), ?s)"
    "pw_wall_message sample_power ?s = (Inr (Some BUTTON_MESSAGE), ?s)"
    "pw_cancel sample_power ?s = (Inr (), None)"
    by (simp_all add: sample_power_def button_thread_new_def)
  from conjunct2[OF button_press_toggles[OF m t l]] show ?thesis by (simp add: button_thread_new_def)
qed

text \<open>Cancelling does not ask for full mode: when logind reports a poweroff pending, a pulse has the
  same effect in every mode, so outside full mode, where a press is documented to only log what
  it would do, a press still cancels a poweroff with the button's message.\<close>

theorem button_cancels_in_every_mode:
  assumes "pw_pending ops (bt_power t) = (Inr (Some at), p1)"
  shows "button_run False t (pulse ops s e) = button_run True t (pulse ops s e)"
proof -
  let ?p = "recognise ops (ButtonAt at) (bt_button t, p1)"
  obtain a b where pr: "press (fst ?p) e (ButtonAt at) = (a, b)" by fastforce
  have "a \<noteq> ButtonSchedule" using press_cases(2)[OF pr] by auto
  then have "button_act ops e (ButtonAt at) False ?p = button_act ops e (ButtonAt at) True ?p"
    using pr by (cases ?p; cases a) (simp_all add: button_act_simps)
  then show ?thesis using assms
    by (simp add: pulse_def on_edge_def read_pending_def Let_def)
qed

theorem button_cancels_in_every_mode_witness:
  "button_run False (button_thread_new (Some (1060, BUTTON_MESSAGE))) (pulse sample_power 0 20000000) =
     button_thread_new None\<lparr>bt_button := \<lparr>bu_armed = True, bu_ours = None, bu_last = Some 20000000\<rparr>\<rparr>"
proof -
  let ?t = "button_thread_new (Some (1060, BUTTON_MESSAGE))"
  have pend: "pw_pending sample_power (bt_power ?t) = (Inr (Some 1060), Some (1060, BUTTON_MESSAGE))"
    by (simp add: sample_power_def button_thread_new_def)
  have "button_run True ?t (pulse sample_power 0 20000000) =
      ?t\<lparr>bt_rising := None, bt_button := \<lparr>bu_armed = True, bu_ours = None, bu_last = Some 20000000\<rparr>, bt_power := None\<rparr>"
    by (rule run_pulse[where pending = "ButtonAt 1060" and p = "Some (1060, BUTTON_MESSAGE)"])
      (simp_all add: is_press_def PULSE_MIN_def PULSE_MAX_def read_pending_def pend recognise_def
        sample_power_def button_thread_new_def button_new_def button_placed_def button_act_def press_def
        button_cancelled_def)
  then show ?thesis using button_cancels_in_every_mode[OF pend, of 0 20000000]
    by (simp add: button_thread_new_def)
qed

end
