(* ===== verification/Wake.thy ===== *)
theory Wake
  imports UpsTime Poweroff
begin

text \<open>
  The rules of a scheduled wake (\<open>crates/argon-device/src/wake.rs\<close>): what a request becomes, what
  is done about a schedule found on a running machine, and the message its poweroff carries.
  Times are seconds since the epoch.
\<close>

section \<open>The rules\<close>

definition PARK_AT :: ups_time where
  "PARK_AT = \<lparr>ut_year = 2097, ut_month = 3, ut_day = 21, ut_hour = 17, ut_minute = 42, ut_second = None\<rparr>"

definition PARK_WINDOW :: duration where "PARK_WINDOW = from_secs (10 * 60)"
definition CHECK_EVERY :: duration where "CHECK_EVERY = from_secs (5 * 60)"
definition MIN_LEAD :: duration where "MIN_LEAD = from_secs (15 * 60)"
definition POWEROFF_DELAY :: duration where "POWEROFF_DELAY = from_secs 60"

definition as_secs :: "duration \<Rightarrow> nat" where "as_secs d = d div 1000000000"

definition same_minute :: "ups_time \<Rightarrow> ups_time \<Rightarrow> bool" where
  "same_minute a b \<longleftrightarrow> ut_year a = ut_year b \<and> ut_month a = ut_month b \<and> ut_day a = ut_day b \<and>
     ut_hour a = ut_hour b \<and> ut_minute a = ut_minute b"

definition minute_text :: "ups_time \<Rightarrow> string" where
  \<comment> \<open>\<open>{:04}-{:02}-{:02} {:02}:{:02}\<close> of its fields\<close>
  "minute_text t =
     zero_pad 4 (show_nat (unat (ut_year t))) @ ''-'' @ show2 (ut_month t) @ ''-'' @ show2 (ut_day t) @
     '' '' @ show2 (ut_hour t) @ '':'' @ show2 (ut_minute t)"

definition poweroff_message :: "ups_time \<Rightarrow> string" where
  "poweroff_message wake =
     ''Powering off. The UPS will power this machine on again at '' @ minute_text wake @ '' UTC.''"

datatype park_reason = DueSoon | Past | Unreadable

datatype assessment =
  NoSchedule
| Leave ups_time
| Park ups_time park_reason

definition assess :: "ups_time option \<Rightarrow> nat \<Rightarrow> assessment" where
  "assess schedule now_unix_s =
     (case schedule of
        None \<Rightarrow> NoSchedule
      | Some found \<Rightarrow>
          (case to_unix_seconds found of
             None \<Rightarrow> Park found Unreadable
           | Some at \<Rightarrow>
               if at \<le> now_unix_s then Park found Past
               else if at - now_unix_s \<le> as_secs PARK_WINDOW then Park found DueSoon
               else Leave found))"

datatype request_error = TooSoon nat | OutOfRange

fun request_error_text :: "request_error \<Rightarrow> string" where
  "request_error_text (TooSoon lead_s) =
     ''the wake would be only '' @ show_nat lead_s @ '' s away; it must be at least '' @
     show_nat (as_secs MIN_LEAD div 60) @ '' min out, so the machine is certainly off first''"
| "request_error_text OutOfRange = ''the UPS can only hold years 2000 to 2099''"

definition schedule_for :: "nat \<Rightarrow> nat \<Rightarrow> request_error + ups_time" where
  "schedule_for at_unix_s now_unix_s =
     (let floored = at_unix_s - at_unix_s mod 60;
          lead_s = floored - now_unix_s
      in if floored \<le> now_unix_s \<or> lead_s < as_secs MIN_LEAD then Inl (TooSoon lead_s)
         else (case from_unix_seconds floored of
                 None \<Rightarrow> Inl OutOfRange
               | Some t \<Rightarrow> Inr (t\<lparr>ut_second := None\<rparr>)))"

section \<open>A request is far from the window and what the device can hold\<close>

lemma windows [simp]:
  "as_secs PARK_WINDOW = 600" "as_secs MIN_LEAD = 900" "as_secs POWEROFF_DELAY = 60" "as_secs CHECK_EVERY = 300"
  by (simp_all add: as_secs_def PARK_WINDOW_def MIN_LEAD_def POWEROFF_DELAY_def CHECK_EVERY_def)

lemma floored_parts:
  assumes "from_unix_seconds (60 * k) = Some t"
  shows "to_unix_seconds (t\<lparr>ut_second := None\<rparr>) = Some (60 * k)" "is_plausible (t\<lparr>ut_second := None\<rparr>)"
proof -
  from from_unix_to_unix[OF assms] obtain s where
    u: "to_unix_seconds t = Some (60 * k)" "ut_second t = Some s" by auto
  then have pl: "is_plausible t" by (simp add: to_unix_count split: if_splits)
  define q where "q = day_count (unat (ut_year t)) (unat (ut_month t)) (unat (ut_day t)) * 1440 +
    unat (ut_hour t) * 60 + unat (ut_minute t)"
  have "q * 60 + unat s = 60 * k" using u by (simp add: to_unix_count pl seconds_of_def q_def)
  then have "(q * 60 + unat s) mod 60 = 0" by simp
  moreover have "unat s < 60" using pl u(2) by (auto simp: is_plausible_nat)
  ultimately have "unat s = 0" by simp
  moreover show "is_plausible (t\<lparr>ut_second := None\<rparr>)" using pl by (simp add: is_plausible_def)
  ultimately show "to_unix_seconds (t\<lparr>ut_second := None\<rparr>) = Some (60 * k)"
    using u pl by (simp add: to_unix_count seconds_of_def)
qed

lemma plausible_encodes:
  assumes "is_plausible t" "ut_second t = None"
  shows "\<exists>p. encode_schedule t = Inr p \<and> decode_schedule p = Inr t"
proof -
  have "expressible t" using assms by (auto simp: expressible_def is_plausible_nat)
  then obtain p where "encode_clock t = Inr p" using expressible_encodes by blast
  then have "\<exists>p. encode_schedule t = Inr p" by (auto simp: encode_clock_def encode_schedule_def rbind_Inr_iff)
  then show ?thesis using schedule_codec assms(2) by blast
qed

lemma schedule_for_Inr:
  assumes "schedule_for at now = Inr t"
  shows "to_unix_seconds t = Some (at - at mod 60)" "now + 900 \<le> at - at mod 60" "ut_second t = None" "is_plausible t"
proof -
  have k: "at - at mod 60 = 60 * (at div 60)" by (simp add: minus_mod_eq_mult_div)
  from assms obtain u where u: "from_unix_seconds (60 * (at div 60)) = Some u" "t = u\<lparr>ut_second := None\<rparr>"
    by (auto simp: schedule_for_def Let_def k split: if_splits option.splits)
  show "to_unix_seconds t = Some (at - at mod 60)" "ut_second t = None" "is_plausible t"
    using floored_parts[OF u(1)] u(2) k by simp_all
  show "now + 900 \<le> at - at mod 60"
    using assms by (auto simp: schedule_for_def Let_def split: if_splits)
qed

lemma schedule_for_lead:
  assumes "schedule_for at now = Inr t"
  shows "\<exists>w. to_unix_seconds t = Some w \<and> w \<le> at \<and> at < w + 60 \<and> now + 900 \<le> w \<and>
    (\<exists>p. encode_schedule t = Inr p \<and> decode_schedule p = Inr t) \<and>
    (\<forall>later < now + 300. assess (Some t) later = Leave t)"
proof -
  note f = schedule_for_Inr[OF assms]
  have "assess (Some t) later = Leave t" if "later < now + 300" for later
    using that f(2) by (simp add: assess_def f(1))
  moreover have "at < (at - at mod 60) + 60" by (simp add: less_diff_conv2)
  ultimately show ?thesis using f plausible_encodes[OF f(4,3)] by auto
qed

text \<open>A wake that is accepted is one the machine will be off for: whenever a request is turned into a
  schedule, the schedule stands for the requested instant rounded down to its minute, lies at
  least fifteen minutes ahead, is one the device holds and reads back exactly, and is left alone
  by the safety net at every moment of the next five minutes, so for longer than the poweroff
  that goes with it takes.\<close>

theorem wake_schedule_lead:
  assumes "schedule_for at now = Inr t"
  shows "\<exists>w. to_unix_seconds t = Some w \<and> w \<le> at \<and> at < w + 60 \<and> now + 900 \<le> w \<and>
    (\<exists>p. encode_schedule t = Inr p \<and> decode_schedule p = Inr t) \<and>
    (\<forall>later < now + 300. assess (Some t) later = Leave t)"
  by (rule schedule_for_lead[OF assms])

lemma schedule_for_TooSoon:
  "(\<exists>l. schedule_for at now = Inl (TooSoon l)) \<longleftrightarrow> at - at mod 60 < now + 900"
  by (auto simp: schedule_for_def Let_def split: option.splits)

section \<open>A schedule that is left alone is not due before the next look\<close>

lemma leave_not_due:
  assumes "assess (Some t) n = Leave t'"
  shows "\<exists>w. to_unix_seconds t = Some w \<and> n + 600 < w"
  using assms by (auto simp: assess_def split: option.splits if_splits)

lemma park_at_far: "to_unix_seconds PARK_AT = Some 4014726120"
  by (simp add: to_unix_seconds_def PARK_AT_def is_plausible_def Let_def)

section \<open>The message is not the battery's\<close>

lemma starts_with_length: "starts_with p s \<Longrightarrow> length p \<le> length s"
  by (metis starts_with_def length_take min.absorb_iff2 min.cobounded1)

lemma contains_length: "str_contains needle s \<Longrightarrow> length needle \<le> length s"
proof -
  assume "str_contains needle s"
  then obtain i where "starts_with needle (drop i s)" by (auto simp: str_contains_def list_ex_iff simp del: upt_Suc)
  from starts_with_length[OF this] show ?thesis by simp
qed

lemma length_show_nat: "n < 10 ^ k \<Longrightarrow> 0 < k \<Longrightarrow> length (show_nat n) \<le> k"
proof (induction k arbitrary: n)
  case (Suc k)
  show ?case
  proof (cases "n < 10")
    case True
    then show ?thesis by (subst show_nat.simps) simp
  next
    case False
    then have "0 < k" using Suc.prems by (cases k) auto
    moreover have "n div 10 < 10 ^ k" using Suc.prems(1) by (simp add: less_mult_imp_div_less)
    ultimately show ?thesis using Suc.IH[of "n div 10"] False by (subst show_nat.simps) simp
  qed
qed simp

lemma length_show2: "length (show2 b) \<le> 3"
proof -
  have "unat b < 10 ^ 3" using unat_u8[of b] by simp
  then have "length (show_nat (unat b)) \<le> 3" by (rule length_show_nat) simp
  then show ?thesis by (simp add: show2_def zero_pad_def)
qed

lemma length_minute_text: "length (minute_text t) \<le> 21"
proof -
  have "unat (ut_year t) < 10 ^ 5" using unat_u16[of "ut_year t"] by simp
  then have "length (show_nat (unat (ut_year t))) \<le> 5" by (rule length_show_nat) simp
  then have "length (zero_pad 4 (show_nat (unat (ut_year t)))) \<le> 5" by (simp add: zero_pad_def)
  then show ?thesis
    using length_show2[of "ut_month t"] length_show2[of "ut_day t"] length_show2[of "ut_hour t"]
      length_show2[of "ut_minute t"] by (simp add: minute_text_def)
qed

text \<open>The poweroff that comes with a wake is never taken for the battery's: its message, for any wake
  time, does not contain the text the coordinator looks for, so the coordinator neither adopts
  that poweroff nor, having adopted it, cancels it when mains returns.\<close>

theorem wake_message_not_battery: "\<not> str_contains SHUTDOWN_MESSAGE (poweroff_message t)"
proof
  assume "str_contains SHUTDOWN_MESSAGE (poweroff_message t)"
  from contains_length[OF this] length_minute_text[of t] show False
    by (simp add: SHUTDOWN_MESSAGE_def poweroff_message_def)
qed

theorem wake_schedule_lead_witness:
  "\<exists>w. to_unix_seconds \<lparr>ut_year = 2026, ut_month = 9, ut_day = 15, ut_hour = 14, ut_minute = 30, ut_second = None\<rparr> = Some w \<and>
    w \<le> 1789482641 \<and> 1789482641 < w + 60 \<and> 1789481640 + 900 \<le> w"
proof -
  have "schedule_for 1789482641 1789481640 =
      Inr \<lparr>ut_year = 2026, ut_month = 9, ut_day = 15, ut_hour = 14, ut_minute = 30, ut_second = None\<rparr>"
    by (simp add: schedule_for_def Let_def sample_second)
  from wake_schedule_lead[OF this] show ?thesis by blast
qed

end
