(* ===== verification/UpsSim.thy ===== *)
theory UpsSim
  imports Serial Ups
begin

text \<open>
  The simulated UPS (\<open>crates/argon-sim/src/ups.rs\<close>): its state, its faults, and its answer to each
  frame, as the writes it makes to the stream; and the cable that joins the host's serial link
  to it. The time a byte arrives is an argument.
\<close>

section \<open>The device\<close>

record ups_state =
  uss_percent :: u8
  uss_charging_byte :: u8
  uss_firmware :: u8
  uss_clock :: ups_time
  uss_wake :: "ups_time option"
  uss_charge_current_raw :: u16

definition ups_state_default :: ups_state where
  "ups_state_default =
     \<lparr>uss_percent = 93, uss_charging_byte = 0, uss_firmware = 113,
      uss_clock = \<lparr>ut_year = 2026, ut_month = 9, ut_day = 15, ut_hour = 14, ut_minute = 30, ut_second = Some 0\<rparr>,
      uss_wake = None, uss_charge_current_raw = 0\<rparr>"

record faults =
  fl_junk_prefix :: nat
  fl_corrupt_every :: nat
  fl_silent :: bool
  fl_dribble :: "duration option"
  fl_ignore_clock_set :: bool
  fl_ignore_wake_set :: bool

definition no_faults :: faults where
  "no_faults = \<lparr>fl_junk_prefix = 0, fl_corrupt_every = 0, fl_silent = False, fl_dribble = None,
                fl_ignore_clock_set = False, fl_ignore_wake_set = False\<rparr>"

record ups_sim =
  si_state :: ups_state
  si_faults :: faults
  si_reader :: frame_reader
  si_responses :: nat
  si_clock_set_at :: instant

definition sim_with_faults :: "instant \<Rightarrow> ups_state \<Rightarrow> faults \<Rightarrow> ups_sim" where
  "sim_with_faults now st f =
     \<lparr>si_state = st, si_faults = f, si_reader = reader_new, si_responses = 0, si_clock_set_at = now\<rparr>"

definition sim_new :: "instant \<Rightarrow> ups_state \<Rightarrow> ups_sim" where
  "sim_new now st = sim_with_faults now st no_faults"

definition clock_now :: "ups_sim \<Rightarrow> instant \<Rightarrow> ups_time" where
  "clock_now s now =
     (case Option.bind (map_option (\<lambda>x. x + (now - si_clock_set_at s) div 1000000000)
             (to_unix_seconds (uss_clock (si_state s)))) from_unix_seconds of
        None \<Rightarrow> uss_clock (si_state s)
      | Some t \<Rightarrow> t)"

definition be_bytes :: "u16 \<Rightarrow> u8 list" where
  "be_bytes x = [ucast (drop_bit 8 x), ucast x]"

definition or_zeros :: "nat \<Rightarrow> decode_error + u8 list \<Rightarrow> u8 list" where
  "or_zeros n r = (case r of Inr p \<Rightarrow> p | Inl _ \<Rightarrow> replicate n 0)"

text \<open>The payload of the answer, and the state after it.\<close>

fun sim_answer :: "instant \<Rightarrow> ups_sim \<Rightarrow> u8 list \<Rightarrow> command \<Rightarrow> u8 list \<times> ups_sim" where
  "sim_answer now s payload BatteryStatus = ([uss_percent (si_state s), uss_charging_byte (si_state s)], s)"
| "sim_answer now s payload ChargeCurrent = (be_bytes (uss_charge_current_raw (si_state s)), s)"
| "sim_answer now s payload FirmwareVersion = ([uss_firmware (si_state s)], s)"
| "sim_answer now s payload GetRtc = (or_zeros 6 (encode_clock (clock_now s now)), s)"
| "sim_answer now s payload GetWake =
     (case uss_wake (si_state s) of None \<Rightarrow> [] | Some w \<Rightarrow> or_zeros 5 (encode_schedule w), s)"
| "sim_answer now s payload SetRtc =
     ([], case decode_clock payload of
            Inr t \<Rightarrow> if fl_ignore_clock_set (si_faults s) then s
                     else s\<lparr>si_state := (si_state s)\<lparr>uss_clock := t\<rparr>, si_clock_set_at := now\<rparr>
          | Inl _ \<Rightarrow> s)"
| "sim_answer now s payload SetWake =
     ([], case decode_schedule payload of
            Inr t \<Rightarrow> if fl_ignore_wake_set (si_faults s) then s
                     else s\<lparr>si_state := (si_state s)\<lparr>uss_wake := Some t\<rparr>\<rparr>
          | Inl _ \<Rightarrow> s)"
| "sim_answer now s payload ResetMeter = ([], s)"
| "sim_answer now s payload Acknowledge = ([], s)"

text \<open>\<open>respond\<close>: the writes made to the stream, and the state after.\<close>

definition respond :: "instant \<Rightarrow> ups_sim \<Rightarrow> frame \<Rightarrow> u8 list list \<times> ups_sim" where
  "respond now s request =
     (if fl_silent (si_faults s) then ([], s)
      else case from_byte (f_cmd request) of
        None \<Rightarrow> ([], s)
      | Some cmd \<Rightarrow>
          (let (payload, s1) = sim_answer now s (frame_payload request) cmd
           in case frame_new (f_cmd request) payload of
                Inl _ \<Rightarrow> ([], s1)
              | Inr f \<Rightarrow>
                  (case encode_into f (replicate 260 0) of
                     Inl _ \<Rightarrow> ([], s1)
                   | Inr (n, out) \<Rightarrow>
                       (let bytes = take n out;
                            responses = si_responses s1 + 1;
                            s2 = s1\<lparr>si_responses := responses\<rparr>;
                            every = fl_corrupt_every (si_faults s);
                            bytes = (if 0 < every \<and> responses mod every = 0 \<and> bytes \<noteq> []
                                     then butlast bytes @ [last bytes XOR 0xFF] else bytes);
                            wire = replicate (fl_junk_prefix (si_faults s)) 0xAB @ bytes
                        in (case fl_dribble (si_faults s) of
                              Some gap \<Rightarrow> map (\<lambda>b. [b]) wire
                            | None \<Rightarrow> [wire], s2)))))"

text \<open>The bytes of one read, as \<open>serve_until\<close> takes them.\<close>

fun serve_bytes :: "instant \<Rightarrow> ups_sim \<Rightarrow> u8 list \<Rightarrow> (u8 list list \<times> ups_sim) option" where
  "serve_bytes now s [] = Some ([], s)"
| "serve_bytes now s (b # bs) =
     (case push (si_reader s) b of
        None \<Rightarrow> None
      | Some (r, out) \<Rightarrow>
          (let s1 = s\<lparr>si_reader := r\<rparr>;
               (writes, s2) = (case out of Some (Inr f) \<Rightarrow> respond now s1 f | _ \<Rightarrow> ([], s1))
           in map_option (\<lambda>(ws, s3). (writes @ ws, s3)) (serve_bytes now s2 bs)))"

section \<open>The cable\<close>

text \<open>
  \<open>UpsLink\<close> for the serial link, with the simulator at the other end: the request's bytes reach
  the simulator at a time, what it writes is what the host's port reads from that time on, and
  nothing more arrives before the deadline.
\<close>

definition cable :: "instant \<Rightarrow> (serial_link \<times> ups_sim) ups_link" where
  "cable now ls cmd payload deadline =
     (let sent = fst (serial_request (as_byte cmd) payload deadline None [] (fst ls))
      in case serve_bytes now (snd ls) sent of
           None \<Rightarrow> (Inl Timeout, ls)
         | Some (writes, sim) \<Rightarrow>
             (let script = map (\<lambda>w. (now, Data w)) writes @ [(max now deadline, TimedOut)]
              in case snd (serial_request (as_byte cmd) payload deadline None script (fst ls)) of
                   Returned (r, l) \<Rightarrow> (r, (l, sim))
                 | _ \<Rightarrow> (Inl Timeout, (fst ls, sim))))"

section \<open>A request over the cable\<close>

lemma sim_answer_keeps [simp]:
  "si_reader (snd (sim_answer now s p c)) = si_reader s" "si_faults (snd (sim_answer now s p c)) = si_faults s"
  by (cases c; simp split: sum.splits)+

lemma respond_reader [simp]: "si_reader (snd (respond now s f)) = si_reader s"
  and respond_faults [simp]: "si_faults (snd (respond now s f)) = si_faults s"
  by (auto simp: respond_def Let_def split_beta split: option.splits sum.splits)

lemma serve_quiet:
  "feed push (si_reader s) bs = Some (r, []) \<Longrightarrow> serve_bytes now s bs = Some ([], s\<lparr>si_reader := r\<rparr>)"
proof (induction bs arbitrary: s)
  case (Cons b bs)
  obtain r1 out where p: "push (si_reader s) b = Some (r1, out)" using Cons.prems by (auto split: option.splits)
  then have out: "out = None" "feed push r1 bs = Some (r, [])" using Cons.prems by (auto split: option.splits)
  from Cons.IH[of "s\<lparr>si_reader := r1\<rparr>"] out p show ?case by simp
qed simp

lemma serve_append:
  "serve_bytes now s (xs @ ys) =
     (case serve_bytes now s xs of
        None \<Rightarrow> None
      | Some (ws, s1) \<Rightarrow> map_option (\<lambda>(vs, s2). (ws @ vs, s2)) (serve_bytes now s1 ys))"
proof (induction xs arbitrary: s)
  case Nil
  show ?case by (cases "serve_bytes now s ys") auto
next
  case (Cons b xs)
  show ?case
    by (auto simp: Cons.IH split_beta Let_def option.map_comp comp_def id_def split: option.splits)
qed

text \<open>A whole frame: answered once, when its last byte arrives.\<close>

lemma serve_frame:
  assumes "hunting 0 (si_reader s)" "length p \<le> 255"
  shows "\<exists>r. hunting 0 r \<and>
    serve_bytes now s (wire (frame_of c p)) = Some (respond now (s\<lparr>si_reader := r\<rparr>) (frame_of c p))"
proof -
  let ?h = "header p c"
  have w: "wire (frame_of c p) = ?h @ [checksum ?h]" using assms(2) by (simp add: frame_bytes_header)
  from push_start[OF assms(1)] obtain r1
    where 1: "push (si_reader s) START_BYTE = Some (r1, None)" "holds r1 [START_BYTE]" by auto
  have hd: "[START_BYTE] @ tl ?h = ?h" by (simp add: header_def)
  from feed_hold[OF 1(2), of "tl ?h"] unfinished_header[OF assms(2), of c] obtain r2
    where 2: "feed push r1 (tl ?h) = Some (r2, [])" "holds r2 ?h" unfolding hd by blast
  have "feed push (si_reader s) ([START_BYTE] @ tl ?h) = Some (r2, [])" using 1(1) 2(1) by simp
  then have 3: "serve_bytes now s ?h = Some ([], s\<lparr>si_reader := r2\<rparr>)" unfolding hd by (rule serve_quiet)
  from push_check[OF 2(2) assms(2), of "checksum ?h"] obtain r3
    where 4: "push r2 (checksum ?h) = Some (r3, Some (Inr (frame_of c p)))" "hunting 0 r3" by auto
  have "serve_bytes now s (wire (frame_of c p)) = Some (respond now (s\<lparr>si_reader := r3\<rparr>) (frame_of c p))"
    unfolding w serve_append 3 using 4(1) by (simp add: split_beta)
  with 4(2) show ?thesis by blast
qed

lemma push_bytes_ok:
  "reader_ok (sl_reader l) \<Longrightarrow> push_bytes cmd l bs = Some (l', out) \<Longrightarrow> reader_ok (sl_reader l')"
proof (induction bs arbitrary: l)
  case (Cons b bs)
  obtain r out1 where p: "push (sl_reader l) b = Some (r, out1)" "reader_ok r"
    using push_total[OF Cons.prems(1)] by blast
  note IH = Cons.IH[of "l\<lparr>sl_reader := r\<rparr>"]
    Cons.IH[of "l\<lparr>sl_reader := r, sl_discarded := sat_inc U64_MAX (sl_discarded l)\<rparr>"]
  show ?case
  proof (cases out1)
    case None
    then show ?thesis using Cons.prems(2) p IH(1) by simp
  next
    case (Some x)
    then show ?thesis using Cons.prems(2) p IH by (cases x) (auto simp: Let_def split: if_splits)
  qed
qed auto

lemma push_bytes_finds:
  assumes "hunting 0 (sl_reader l)" "length p \<le> 255"
  shows "\<exists>l'. push_bytes c l (wire (frame_of c p)) = Some (l', Some (frame_of c p)) \<and> reader_ok (sl_reader l')"
proof -
  have ok: "reader_ok (sl_reader l)" using assms(1) by (auto simp: reader_ok_def)
  obtain r outs where f: "feed push (sl_reader l) (wire (frame_of c p)) = Some (r, outs)"
    and m: "bytes_meaning c outs r (push_bytes c l (wire (frame_of c p)))"
    using push_bytes_feed[OF ok] by blast
  from feed_frame[OF assms, of c "checksum (header p c)"] f assms(2) have "outs = [Inr (frame_of c p)]"
    by (auto simp: frame_bytes_header)
  with m obtain l' where "push_bytes c l (wire (frame_of c p)) = Some (l', Some (frame_of c p))"
    by (auto simp: bytes_meaning_def split: option.splits prod.splits)
  with push_bytes_ok[OF ok] show ?thesis by blast
qed

lemma clock_now_reader [simp]: "clock_now (s\<lparr>si_reader := r\<rparr>) now = clock_now s now"
  by (simp add: clock_now_def split: option.split)

definition cable_ready :: "serial_link \<times> ups_sim \<Rightarrow> bool" where
  \<comment> \<open>no frame in transit and a device without faults\<close>
  "cable_ready ls \<longleftrightarrow> reader_ok (sl_reader (fst ls)) \<and> hunting 0 (si_reader (snd ls)) \<and> si_faults (snd ls) = no_faults"

lemma sim_answer_length: "length (fst (sim_answer now s payload cmd)) \<le> 255"
proof -
  have z: "length (or_zeros n r) \<le> 255" if "\<And>p. r = Inr p \<Longrightarrow> length p \<le> 255" "n \<le> 255" for n r
    using that by (cases r) (simp_all add: or_zeros_def)
  have "length (or_zeros 6 (encode_clock t)) \<le> 255" "length (or_zeros 5 (encode_schedule t)) \<le> 255" for t
    by (rule z; auto simp: encode_clock_def encode_schedule_def rbind_Inr_iff)+
  then show ?thesis by (cases cmd) (auto simp: be_bytes_def split: option.splits)
qed

lemma respond_plain:
  assumes "si_faults s = no_faults" "sim_answer now s (frame_payload f) cmd = (p, s1)" "f_cmd f = as_byte cmd"
  shows "respond now s f = ([wire (frame_of (as_byte cmd) p)], s1\<lparr>si_responses := si_responses s1 + 1\<rparr>)"
proof -
  have p: "length p \<le> 255" using sim_answer_length[of now s "frame_payload f" cmd] assms(2) by simp
  then have "length (wire (frame_of (as_byte cmd) p)) \<le> length (replicate 260 (0::u8))" by simp
  then show ?thesis using p encode_into_eq[OF frame_ok_of[OF p, of "as_byte cmd"], of "replicate 260 0"]
    by (simp add: respond_def assms no_faults_def)
qed

lemma sent_bytes:
  assumes "length payload \<le> 255" "reader_ok (sl_reader l)"
  shows "serial_request cmd payload deadline None script l =
    (wire (frame_of cmd payload), read_matching cmd deadline script (l\<lparr>sl_reader := reader_reset (sl_reader l)\<rparr>))"
proof -
  have "length (wire (frame_of cmd payload)) \<le> length (replicate 260 (0::u8))" using assms by simp
  from encode_into_eq[OF frame_ok_of[OF assms(1)] this] assms(1) show ?thesis
    by (simp add: serial_request_def)
qed

text \<open>A request over the cable gives the device's answer, or times out after the device has acted.\<close>

lemma cable_reply:
  assumes "cable_ready ls" "length payload \<le> 255"
    and "cable now ls cmd payload deadline = (r, ls')"
  shows "cable_ready ls'"
    and "si_state (snd ls') = si_state (snd (sim_answer now (snd ls) payload cmd))"
    and "si_clock_set_at (snd ls') = si_clock_set_at (snd (sim_answer now (snd ls) payload cmd))"
    and "r = (if deadline \<le> now then Inl Timeout
              else Inr (frame_of (as_byte cmd) (fst (sim_answer now (snd ls) payload cmd))))"
proof -
  obtain l s where ls: "ls = (l, s)" by (cases ls)
  have ok: "reader_ok (sl_reader l)" "hunting 0 (si_reader s)" "si_faults s = no_faults"
    using assms(1) by (simp_all add: cable_ready_def ls)
  obtain rd where rd: "hunting 0 rd" "serve_bytes now s (wire (frame_of (as_byte cmd) payload)) =
      Some (respond now (s\<lparr>si_reader := rd\<rparr>) (frame_of (as_byte cmd) payload))"
    using serve_frame[OF ok(2) assms(2)] by blast
  obtain p s1 where a: "sim_answer now (s\<lparr>si_reader := rd\<rparr>) payload cmd = (p, s1)" by fastforce
  have same: "fst (sim_answer now (s\<lparr>si_reader := rd\<rparr>) payload cmd) = fst (sim_answer now s payload cmd) \<and>
      si_state (snd (sim_answer now (s\<lparr>si_reader := rd\<rparr>) payload cmd)) = si_state (snd (sim_answer now s payload cmd)) \<and>
      si_clock_set_at (snd (sim_answer now (s\<lparr>si_reader := rd\<rparr>) payload cmd)) =
        si_clock_set_at (snd (sim_answer now s payload cmd))"
    by (cases cmd) (auto split: sum.splits)
  have s1: "si_reader s1 = rd" "si_faults s1 = no_faults"
    using sim_answer_keeps[of now "s\<lparr>si_reader := rd\<rparr>" payload cmd] a ok(3) by simp_all
  have rs: "respond now (s\<lparr>si_reader := rd\<rparr>) (frame_of (as_byte cmd) payload) =
      ([wire (frame_of (as_byte cmd) p)], s1\<lparr>si_responses := si_responses s1 + 1\<rparr>)"
    by (rule respond_plain) (use a ok assms(2) in simp_all)
  have p: "length p \<le> 255" using sim_answer_length[of now "s\<lparr>si_reader := rd\<rparr>" payload cmd] a by simp
  let ?l = "l\<lparr>sl_reader := reader_reset (sl_reader l)\<rparr>"
  have "hunting 0 (sl_reader ?l)" using hunting_reset[OF ok(1)] by simp
  from push_bytes_finds[OF this p, of "as_byte cmd"] obtain l' where
    l': "push_bytes (as_byte cmd) ?l (wire (frame_of (as_byte cmd) p)) = Some (l', Some (frame_of (as_byte cmd) p))"
      "reader_ok (sl_reader l')" by blast
  have ok': "reader_ok (sl_reader ?l)" using hunting_reset[OF ok(1)] by (auto simp: reader_ok_def)
  have "cable now ls cmd payload deadline =
      (if deadline \<le> now then (Inl Timeout, (?l, s1\<lparr>si_responses := si_responses s1 + 1\<rparr>))
       else (Inr (frame_of (as_byte cmd) p), (l', s1\<lparr>si_responses := si_responses s1 + 1\<rparr>)))"
    using l' by (simp add: cable_def ls sent_bytes[OF assms(2) ok(1)] rd(2) rs Let_def)
  with assms(3) have "(r, ls') =
      (if deadline \<le> now then (Inl Timeout, (?l, s1\<lparr>si_responses := si_responses s1 + 1\<rparr>))
       else (Inr (frame_of (as_byte cmd) p), (l', s1\<lparr>si_responses := si_responses s1 + 1\<rparr>)))" by simp
  with same a s1 rd(1) ok' l'(2)
  show "cable_ready ls'" "si_state (snd ls') = si_state (snd (sim_answer now (snd ls) payload cmd))"
    "si_clock_set_at (snd ls') = si_clock_set_at (snd (sim_answer now (snd ls) payload cmd))"
    "r = (if deadline \<le> now then Inl Timeout
          else Inr (frame_of (as_byte cmd) (fst (sim_answer now (snd ls) payload cmd))))"
    by (auto simp: cable_ready_def ls split: if_splits)
qed

section \<open>The driver against the device\<close>

definition sample_sim :: "ups_time option \<Rightarrow> serial_link \<times> ups_sim" where
  "sample_sim w = (serial_from_port, sim_new 0 (ups_state_default\<lparr>uss_wake := w\<rparr>))"

lemma sample_sim_ready [simp]: "cable_ready (sample_sim w)"
  by (simp add: sample_sim_def cable_ready_def serial_from_port_def sim_new_def sim_with_faults_def)

lemma cable_answers:
  assumes "cable_ready ls" "length payload \<le> 255" "now < deadline"
  shows "fst (cable now ls cmd payload deadline) = Inr (frame_of (as_byte cmd) (fst (sim_answer now (snd ls) payload cmd)))"
  using cable_reply(4)[OF assms(1,2), of now cmd deadline] assms(3) by (metis linorder_not_less prod.collapse)

text \<open>The driver reports what the device holds, through every layer: over the cable, with no frame in
  transit and a device without faults, a request that is served within its deadline gives the
  charge clamped to 100 and the power source, the firmware version, and the charge-current word
  of the device's state. Framing, the reader on both sides, the matching of replies and the
  decoding are all between the two.\<close>

theorem driver_reports_device:
  assumes "cable_ready ls" "now < tick + REQUEST_DEADLINE"
  shows "fst (ups_battery (cable now) tick ls) =
      Inr \<lparr>bs_percent = min (uss_percent (si_state (snd ls))) 100,
           bs_source = (if uss_charging_byte (si_state (snd ls)) = 0 then Mains else Battery)\<rparr> \<and>
    fst (ups_firmware (cable now) tick ls) = Inr (uss_firmware (si_state (snd ls))) \<and>
    fst (ups_charge_current_raw (cable now) tick ls) = Inr (uss_charge_current_raw (si_state (snd ls)))"
proof -
  note a = cable_answers[OF assms(1) _ assms(2), of "[]", simplified]
  have "fst (ups_battery (cable now) tick ls) = rbind (fst (cable now ls BatteryStatus [] (tick + REQUEST_DEADLINE)))
      (\<lambda>f. map_err decode_err (battery_status_decode (frame_payload f)))"
    by (simp add: ups_battery_def ups_query_def split_beta)
  moreover have "fst (ups_firmware (cable now) tick ls) = rbind (fst (cable now ls FirmwareVersion [] (tick + REQUEST_DEADLINE)))
      (\<lambda>f. case frame_payload f of [v] \<Rightarrow> Inr v | other \<Rightarrow> Inl (ParseError ''a firmware version'' (debug_hex other)))"
    by (simp add: ups_firmware_def ups_query_def split_beta)
  moreover have "fst (ups_charge_current_raw (cable now) tick ls) =
      rbind (fst (cable now ls ChargeCurrent [] (tick + REQUEST_DEADLINE)))
      (\<lambda>f. case frame_payload f of [hi, lo] \<Rightarrow> Inr (push_bit 8 (ucast hi) OR ucast lo)
         | other \<Rightarrow> Inl (ParseError ''a charge current'' (debug_hex other)))"
    by (simp add: ups_charge_current_raw_def ups_query_def split_beta)
  ultimately show ?thesis
    by (simp add: a battery_status_decode_def be_bytes_def join_split_u16)
qed

theorem driver_reports_device_witness:
  "fst (ups_battery (cable 5) 4 (sample_sim None)) = Inr \<lparr>bs_percent = 93, bs_source = Mains\<rparr> \<and>
   fst (ups_firmware (cable 5) 4 (sample_sim None)) = Inr 113"
  using driver_reports_device[of "sample_sim None" 5 4]
  by (simp add: REQUEST_DEADLINE_def) (simp add: sample_sim_def sim_new_def sim_with_faults_def ups_state_default_def min_def)

section \<open>The device keeps a wake schedule\<close>

definition device_wake :: "serial_link \<times> ups_sim \<Rightarrow> ups_time option" where
  "device_wake ls = uss_wake (si_state (snd ls))"

definition device_ready :: "serial_link \<times> ups_sim \<Rightarrow> bool" where
  "device_ready ls \<longleftrightarrow> cable_ready ls \<and>
     (\<forall>w. device_wake ls = Some w \<longrightarrow> ut_second w = None \<and> (\<exists>p. encode_schedule w = Inr p))"

lemma encode_schedule_minute [simp]: "encode_schedule (t\<lparr>ut_second := x\<rparr>) = encode_schedule t"
  by (simp add: encode_schedule_def year_byte_def)

lemma encoded_length: "encode_schedule t = Inr p \<Longrightarrow> length p = 5"
  by (auto simp: encode_schedule_def rbind_Inr_iff)

interpretation sim_store: wake_store "cable now" device_wake device_ready for now
proof
  fix l dl r l'
  assume l: "device_ready l" and q: "cable now l GetWake [] dl = (r, l')"
  have c: "cable_ready l" using l by (simp add: device_ready_def)
  note rep = cable_reply[OF c _ q, simplified]
  have "decode_optional_schedule (case device_wake l of None \<Rightarrow> [] | Some w \<Rightarrow> or_zeros 5 (encode_schedule w)) =
      Inr (device_wake l)"
  proof (cases "device_wake l")
    case None
    then show ?thesis by (simp add: decode_optional_schedule_def)
  next
    case (Some w)
    then obtain p where p: "encode_schedule w = Inr p" "ut_second w = None"
      using l by (auto simp: device_ready_def)
    moreover have "p \<noteq> []" using encoded_length[OF p(1)] by auto
    ultimately have "decode_schedule p = Inr w" "p \<noteq> []" using schedule_codec by auto
    then show ?thesis by (simp add: Some p(1) or_zeros_def decode_optional_schedule_def)
  qed
  then show "device_ready l' \<and> device_wake l' = device_wake l \<and>
      (\<forall>f. r = Inr f \<longrightarrow> decode_optional_schedule (frame_payload f) = Inr (device_wake l))"
    using rep l sim_answer_length[of now "snd l" "[]" GetWake]
    by (auto simp: device_ready_def device_wake_def split: if_splits)
next
  fix l t p dl r l'
  assume l: "device_ready l" and e: "encode_schedule t = Inr p" and q: "cable now l SetWake p dl = (r, l')"
  have c: "cable_ready l" using l by (simp add: device_ready_def)
  have len: "length p \<le> 255" using encoded_length[OF e] by simp
  note rep = cable_reply[OF c len q]
  have "decode_schedule p = Inr (t\<lparr>ut_second := None\<rparr>)" using e schedule_codec by simp
  moreover have "\<not> fl_ignore_wake_set (si_faults (snd l))" using c by (simp add: cable_ready_def no_faults_def)
  ultimately have "device_wake l' = Some (t\<lparr>ut_second := None\<rparr>)" using rep(2) by (simp add: device_wake_def)
  then show "device_ready l' \<and> (device_wake l' = device_wake l \<or> device_wake l' = Some (t\<lparr>ut_second := None\<rparr>)) \<and>
      (\<forall>f. r = Inr f \<longrightarrow> device_wake l' = Some (t\<lparr>ut_second := None\<rparr>))"
    using rep(1) e by (simp add: device_ready_def)
qed

section \<open>The device keeps time\<close>

lemma from_unix_expressible: "from_unix_seconds s = Some t \<Longrightarrow> expressible t"
proof -
  assume "from_unix_seconds s = Some t"
  then have "is_plausible t" using from_unix_to_unix by (fastforce simp: to_unix_count split: if_splits)
  then show ?thesis by (auto simp: expressible_def is_plausible_nat)
qed

lemma clock_encodes:
  assumes "from_unix_seconds s = Some t"
  shows "\<exists>p. encode_clock t = Inr p \<and> length p = 6 \<and> decode_clock p = Inr t"
proof -
  obtain p where p: "encode_clock t = Inr p" using expressible_encodes from_unix_expressible[OF assms] by blast
  then have "length p = 6" by (auto simp: encode_clock_def rbind_Inr_iff)
  moreover have "ut_second t \<noteq> None" using from_unix_to_unix[OF assms] by blast
  ultimately show ?thesis using p clock_codec_iff by blast
qed

text \<open>A clock that was set is read back, and runs: over the cable, setting the clock to the time of a
  unix second and reading it later gives the time of that second plus the whole seconds between,
  as long as both are in the years the device holds.\<close>

theorem clock_set_reads_back:
  assumes "cable_ready ls" "now < tick + REQUEST_DEADLINE" "now' < tick' + REQUEST_DEADLINE"
    and "from_unix_seconds s = Some t" "from_unix_seconds (s + (now' - now) div 1000000000) = Some t'"
  shows "fst (ups_set_clock (cable now) tick ls t) = Inr () \<and>
    fst (ups_clock (cable now') tick' (snd (ups_set_clock (cable now) tick ls t))) = Inr t'"
proof -
  obtain p where p: "encode_clock t = Inr p" "length p = 6" "decode_clock p = Inr t"
    using clock_encodes[OF assms(4)] by blast
  obtain p' where p': "encode_clock t' = Inr p'" "length p' = 6" "decode_clock p' = Inr t'"
    using clock_encodes[OF assms(5)] by blast
  obtain r1 l1 where c1: "cable now ls SetRtc p (tick + REQUEST_DEADLINE) = (r1, l1)" by (rule prod.exhaust)
  have len: "length p \<le> 255" using p(2) by simp
  note rep = cable_reply[OF assms(1) len c1]
  have nf: "\<not> fl_ignore_clock_set (si_faults (snd ls))" using assms(1) by (simp add: cable_ready_def no_faults_def)
  have r1: "r1 = Inr (frame_of (as_byte SetRtc) [])" using rep(4) assms(2) by simp
  have st: "uss_clock (si_state (snd l1)) = t" "si_clock_set_at (snd l1) = now"
    using rep(2,3) p(3) nf by simp_all
  have set: "ups_set_clock (cable now) tick ls t = (Inr (), l1)"
    by (simp add: ups_set_clock_def p(1) c1 r1)
  have "to_unix_seconds t = Some s" using from_unix_to_unix[OF assms(4)] by blast
  then have cn: "clock_now (snd l1) now' = t'" by (simp add: clock_now_def st assms(5))
  have "fst (cable now' l1 GetRtc [] (tick' + REQUEST_DEADLINE)) = Inr (frame_of (as_byte GetRtc) p')"
    using cable_answers[OF rep(1), of "[]" now' "tick' + REQUEST_DEADLINE" GetRtc] assms(3)
    by (simp add: cn p'(1) or_zeros_def)
  then show ?thesis using p'
    by (simp add: set ups_clock_def ups_query_def split_beta)
qed

theorem clock_set_reads_back_witness:
  "fst (ups_clock (cable 3000000005) 3000000000 (snd (ups_set_clock (cable 5) 4 (sample_sim None)
      \<lparr>ut_year = 2026, ut_month = 9, ut_day = 15, ut_hour = 14, ut_minute = 30, ut_second = Some 0\<rparr>))) =
    Inr \<lparr>ut_year = 2026, ut_month = 9, ut_day = 15, ut_hour = 14, ut_minute = 30, ut_second = Some 3\<rparr>"
proof -
  have f: "from_unix_seconds (1789482600 + (3000000005 - 5) div 1000000000) =
      Some \<lparr>ut_year = 2026, ut_month = 9, ut_day = 15, ut_hour = 14, ut_minute = 30, ut_second = Some 3\<rparr>"
    by (rule to_unix_from_unix; simp add: count_back)
  have d: "(5::nat) < 4 + REQUEST_DEADLINE" "(3000000005::nat) < 3000000000 + REQUEST_DEADLINE"
    by (simp_all add: REQUEST_DEADLINE_def)
  show ?thesis by (rule conjunct2[OF clock_set_reads_back[OF sample_sim_ready d sample_second f]])
qed

end
