(* ===== verification/UpsService.thy ===== *)
theory UpsService
  imports Ups Gauge Poweroff Status
begin

text \<open>
  One monitoring cycle (\<open>crates/argon-device/src/ups_service.rs\<close>): a monitor is polled, the
  coordinator acts on the decision, and a status is made. The trait \<open>Monitor\<close> is a function of
  the monitor's state; what the cycle relies on is the locale \<open>monitor\<close>, met by the serial UPS
  and by the fuel gauge.
\<close>

section \<open>Contention\<close>

definition UPS_VENDOR_UNITS :: "string list" where
  "UPS_VENDOR_UNITS = [''argonupsrtcd.service'', ''argononeupsd.service'']"

definition ONEUP_VENDOR_UNITS :: "string list" where
  "ONEUP_VENDOR_UNITS = [''argononeupd.service'']"

definition contention_among :: "string list \<Rightarrow> string list \<Rightarrow> string list" where
  "contention_among units active_units = filter (\<lambda>u. u \<in> set units) active_units"

definition contention :: "string list \<Rightarrow> string list" where
  "contention active_units = contention_among UPS_VENDOR_UNITS active_units"

definition oneup_contention :: "string list \<Rightarrow> string list" where
  "oneup_contention active_units = contention_among ONEUP_VENDOR_UNITS active_units"

section \<open>The cycle\<close>

record cycle =
  cy_poll :: poll
  cy_action :: action
  cy_status :: ups_status

type_synonym 'm monitor_poll = "'m \<Rightarrow> duration \<Rightarrow> 'm \<times> poll"

text \<open>\<open>step\<close>; the coordinator reads the clock for itself, at \<open>clock\<close>.\<close>

definition service_step ::
  "'m monitor_poll \<Rightarrow> 'p power_ops \<Rightarrow> 'm \<Rightarrow> 'p coordinator \<Rightarrow> duration \<Rightarrow> systime \<Rightarrow> systime \<Rightarrow>
   cycle \<times> 'm \<times> 'p coordinator"
where
  "service_step poll ops m c uptime clock now =
     (let (m1, p) = poll m uptime;
          (a, c1) = on_decision ops clock (po_decision p) c
      in (\<lparr>cy_poll = p, cy_action = a,
           cy_status = \<lparr>us_updated = now, us_level = level_name (dc_level (po_decision p)),
                        us_percent = map_option bs_percent (po_battery p),
                        us_shutdown_at = scheduled_at c1, us_missing = None\<rparr>\<rparr>, m1, c1))"

section \<open>What a monitor promises\<close>

text \<open>Its decision is the policy's, on the reading it reports or on its failure.\<close>

locale monitor =
  fixes poll :: "'m monitor_poll"
    and policy :: "'m \<Rightarrow> battery_policy"
  assumes polls: "poll m uptime = (m', p) \<Longrightarrow>
      policy m' = fst (observe (policy m) (observation_of (po_battery p)) uptime) \<and>
      po_decision p = snd (observe (policy m) (observation_of (po_battery p)) uptime)"
    and failed: "poll m uptime = (m', p) \<Longrightarrow> po_battery p = None \<longleftrightarrow> po_error p \<noteq> None"

interpretation ups_mon: monitor "ups_poll link now" "\<lambda>m. wt_policy (um_watch m)" for link now
proof
  fix m uptime m' p
  assume "ups_poll link now m uptime = (m', p)"
  then obtain r l w where "ups_battery link now (um_ups m) = (r, l)"
    and w: "watch_observe (um_watch m) r uptime = (w, p)" "m' = \<lparr>um_ups = l, um_watch = w\<rparr>"
    by (auto simp: ups_poll_def split: prod.splits)
  from watch_observe_policy[OF w(1)] w(2)
  show "wt_policy (um_watch m') = fst (observe (wt_policy (um_watch m)) (observation_of (po_battery p)) uptime) \<and>
      po_decision p = snd (observe (wt_policy (um_watch m)) (observation_of (po_battery p)) uptime)"
    "po_battery p = None \<longleftrightarrow> po_error p \<noteq> None" by simp_all
qed

interpretation gauge_mon: monitor "gauge_poll bus" "\<lambda>m. wt_policy (gm_watch m)" for bus
proof
  fix m uptime m' p
  assume "gauge_poll bus m uptime = (m', p)"
  then obtain r g w where "read_now bus (gm_gauge m) = (r, g)"
    and w: "watch_observe (gm_watch m) (map_ok reading_battery r) uptime = (w, p)" "gm_watch m' = w"
    by (auto simp: gauge_poll_def split: prod.splits)
  from watch_observe_policy[OF w(1)] w(2)
  show "wt_policy (gm_watch m') = fst (observe (wt_policy (gm_watch m)) (observation_of (po_battery p)) uptime) \<and>
      po_decision p = snd (observe (wt_policy (gm_watch m)) (observation_of (po_battery p)) uptime)"
    "po_battery p = None \<longleftrightarrow> po_error p \<noteq> None" by simp_all
qed

section \<open>Runs of the service\<close>

text \<open>A turn of the service: how the monitor was polled and which logind it found, the uptime, the
  coordinator's clock and the time of the status.\<close>

type_synonym ('m, 'p) turn = "'m monitor_poll \<times> 'p power_ops \<times> duration \<times> systime \<times> systime"

fun service_run :: "'m \<Rightarrow> 'p coordinator \<Rightarrow> ('m, 'p) turn list \<Rightarrow> cycle list \<times> 'm \<times> 'p coordinator" where
  "service_run m c [] = ([], m, c)"
| "service_run m c ((poll, ops, uptime, clock, now) # ts) =
     (let (cy, m1, c1) = service_step poll ops m c uptime clock now;
          (cys, m2, c2) = service_run m1 c1 ts
      in (cy # cys, m2, c2))"

definition polled_in :: "('m, 'p) turn \<Rightarrow> cycle \<Rightarrow> polled" where
  \<comment> \<open>what the policy saw in a turn\<close>
  "polled_in t cy = (observation_of (po_battery (cy_poll cy)), fst (snd (snd t)))"

lemma service_run_policy:
  assumes "\<forall>t \<in> set ts. monitor (fst t) policy" "service_run m c ts = (cys, m', c')"
  shows "length cys = length ts \<and> policy m' = observe_all (policy m) (map2 polled_in ts cys)"
  using assms
proof (induction m c ts arbitrary: cys m' c' rule: service_run.induct)
  case (2 m c poll ops uptime clock now ts)
  obtain cy m1 c1 where s: "service_step poll ops m c uptime clock now = (cy, m1, c1)" by (metis prod.exhaust)
  obtain cys2 m2 c2 where r: "service_run m1 c1 ts = (cys2, m2, c2)" by (metis prod.exhaust)
  have res: "cys = cy # cys2" "m' = m2" using "2.prems"(2) s r by simp_all
  have mon: "monitor poll policy" using "2.prems"(1) by simp
  obtain p where p: "poll m uptime = (m1, p)" "cy_poll cy = p"
    using s by (auto simp: service_step_def split: prod.splits)
  have "policy m1 = fst (observe (policy m) (observation_of (po_battery p)) uptime)"
    using monitor.polls[OF mon p(1)] by simp
  moreover have "length cys2 = length ts \<and> policy m2 = observe_all (policy m1) (map2 polled_in ts cys2)"
    using "2.IH"[OF s[symmetric] refl refl] "2.prems"(1) r by simp
  ultimately show ?case by (simp add: res polled_in_def p(2))
qed simp

lemma service_run_append:
  "service_run m c (ts @ us) =
     (let (cys, m1, c1) = service_run m c ts; (cys', m2, c2) = service_run m1 c1 us in (cys @ cys', m2, c2))"
proof (induction ts arbitrary: m c)
  case (Cons t ts)
  obtain poll ops uptime clock now where t: "t = (poll, ops, uptime, clock, now)" by (metis prod.exhaust)
  obtain cy m1 c1 where s: "service_step poll ops m c uptime clock now = (cy, m1, c1)" by (metis prod.exhaust)
  show ?case by (simp add: t s Cons.IH split_beta Let_def)
qed simp

lemma service_last:
  assumes "\<forall>t \<in> set (ts @ [t]). monitor (fst t) policy"
    and "service_run m c (ts @ [t]) = (cys @ [cy], m', c')"
  shows "\<exists>m1 c1. service_run m c ts = (cys, m1, c1) \<and> length cys = length ts \<and>
    policy m1 = observe_all (policy m) (map2 polled_in ts cys) \<and>
    po_decision (cy_poll cy) = snd (observe (policy m1) (fst (polled_in t cy)) (snd (polled_in t cy))) \<and>
    on_decision (fst (snd t)) (fst (snd (snd (snd t)))) (po_decision (cy_poll cy)) c1 = (cy_action cy, c')"
proof -
  obtain poll ops uptime clock now where t: "t = (poll, ops, uptime, clock, now)" by (metis prod.exhaust)
  obtain cys1 m1 c1 where r: "service_run m c ts = (cys1, m1, c1)" by (metis prod.exhaust)
  obtain cy2 m2 c2 where s: "service_step poll ops m1 c1 uptime clock now = (cy2, m2, c2)" by (metis prod.exhaust)
  have e: "cys1 = cys" "cy2 = cy" "m2 = m'" "c2 = c'"
    using assms(2) by (simp_all add: service_run_append r t s)
  obtain p where p: "poll m1 uptime = (m', p)" "cy_poll cy = p"
    and a: "on_decision ops clock (po_decision p) c1 = (cy_action cy, c')"
    using s by (auto simp: service_step_def e split: prod.splits)
  have "monitor poll policy" using assms(1) t by simp
  from monitor.polls[OF this p(1)]
  have "po_decision (cy_poll cy) = snd (observe (policy m1) (fst (polled_in t cy)) (snd (polled_in t cy)))"
    by (simp add: polled_in_def t p(2))
  moreover have "on_decision (fst (snd t)) (fst (snd (snd (snd t)))) (po_decision (cy_poll cy)) c1 = (cy_action cy, c')"
    using a by (simp add: t p(2))
  moreover have "length cys = length ts \<and> policy m1 = observe_all (policy m) (map2 polled_in ts cys)"
    using service_run_policy[OF _ r[unfolded e(1)], of policy] assms(1) by simp
  ultimately show ?thesis using r e(1) by blast
qed

text \<open>What a coordinator needs to start a poweroff.\<close>

lemma starts_poweroff:
  assumes "on_decision ops now d c = (a, c')"
    and "(\<exists>at. a = Scheduled at \<or> a = Adopted at) \<or> a = WouldSchedule"
  shows "dc_advice d = Shutdown"
proof (rule ccontr)
  assume "dc_advice d \<noteq> Shutdown"
  then have "on_decision ops now d c = recovered ops c \<or> on_decision ops now d c = holding c"
    by (simp add: on_decision_def)
  then show False
    using assms by (auto simp: recovered_def holding_def Let_def split: if_splits option.splits prod.splits sum.splits pending.splits)
qed

text \<open>A poweroff is started only for a battery that is confirmed empty: run the service over any
  monitors that keep their promise, any logind and any times. If a cycle ends with a poweroff
  scheduled, taken over, or reported in dry run, then that cycle read the battery, on battery
  power; the machine had been up for the hold time; and since the last failed read at least
  \<open>confirmations\<close> readings were on battery at or below the critical threshold.\<close>

theorem service_poweroff_justified:
  assumes "\<forall>t \<in> set (ts @ [t]). monitor (fst t) policy" "policy_new cfg = Inr (policy m)"
    and "service_run m c (ts @ [t]) = (cys @ [cy], m', c')"
    and "(\<exists>at. cy_action cy = Scheduled at \<or> cy_action cy = Adopted at) \<or> cy_action cy = WouldSchedule"
  shows "(\<exists>b. po_battery (cy_poll cy) = Some b \<and> bs_source b = Battery) \<and>
    min_uptime cfg \<le> fst (snd (snd t)) \<and>
    unat (confirmations cfg) \<le> fresh_criticals cfg (map2 polled_in ts cys @ [polled_in t cy])"
proof -
  from service_last[OF assms(1,3)] obtain m1 c1 where
    pol: "policy m1 = observe_all (policy m) (map2 polled_in ts cys)"
    and dec: "po_decision (cy_poll cy) = snd (observe (policy m1) (fst (polled_in t cy)) (snd (polled_in t cy)))"
    and act: "on_decision (fst (snd t)) (fst (snd (snd (snd t)))) (po_decision (cy_poll cy)) c1 = (cy_action cy, c')"
    by blast
  have "dc_advice (snd (observe (observe_all (policy m) (map2 polled_in ts cys))
      (fst (polled_in t cy)) (snd (polled_in t cy)))) = Shutdown"
    using starts_poweroff[OF act assms(4)] dec pol by simp
  from shutdown_cause[OF assms(2) this] show ?thesis
    by (auto simp: polled_in_def observation_of_def)
qed

text \<open>A battery that reads as given, for the witness.\<close>

definition sample_link :: "u8 \<Rightarrow> unit ups_link" where
  "sample_link pct l cmd payload deadline = (Inr (frame_of (as_byte cmd) [pct, 1]), l)"

definition sample_turn :: "u8 \<Rightarrow> (unit ups_monitor, (systime \<times> string) option) turn" where
  "sample_turn pct = (ups_poll (sample_link pct) 0, sample_power, from_secs 400, 9, 9)"

definition sample_run :: "cycle list \<times> unit ups_monitor \<times> (systime \<times> string) option coordinator" where
  "sample_run = service_run (ups_monitor_new () fresh_policy) (sample_coordinator None None False)
     ([sample_turn 5] @ [sample_turn 4])"

theorem service_poweroff_justified_witness:
  "cy_action (last (fst sample_run)) = Scheduled 1060 \<and>
   (\<exists>b. po_battery (cy_poll (last (fst sample_run))) = Some b \<and> bs_source b = Battery) \<and>
   unat (confirmations policy_config_default) \<le> fresh_criticals policy_config_default
     (map2 polled_in [sample_turn 5] (butlast (fst sample_run)) @ [polled_in (sample_turn 4) (last (fst sample_run))])"
proof -
  let ?pol = "\<lambda>m. wt_policy (um_watch m)"
  have mon: "\<forall>t \<in> set ([sample_turn 5] @ [sample_turn 4]). monitor (fst t) ?pol"
    by (simp add: sample_turn_def ups_mon.monitor_axioms)
  have pol: "policy_new policy_config_default = Inr (?pol (ups_monitor_new () fresh_policy))"
    by (simp add: policy_new_default ups_monitor_new_def watch_new_def fresh_policy_def)
  have "fst sample_run \<noteq> []"
    using service_run_policy[OF mon, of "ups_monitor_new () fresh_policy" "sample_coordinator None None False"]
    by (cases sample_run) (auto simp: sample_run_def)
  then have run: "service_run (ups_monitor_new () fresh_policy) (sample_coordinator None None False)
      ([sample_turn 5] @ [sample_turn 4]) =
      (butlast (fst sample_run) @ [last (fst sample_run)], fst (snd sample_run), snd (snd sample_run))"
    unfolding sample_run_def[symmetric] by simp
  have act: "cy_action (last (fst sample_run)) = Scheduled 1060"
    by (simp add: sample_run_def sample_turn_def service_step_def ups_poll_def ups_battery_def ups_query_def
        sample_link_def battery_status_decode_def ups_monitor_new_def watch_new_def watch_observe_def
        fresh_policy_def observe_def classify_def policy_config_default_def sat_inc_u8_def coordinator_defs
        sample_coordinator_def sample_power_def coordinator_new_def Let_def word_le_nat_alt)
  from service_poweroff_justified[OF mon pol run] act show ?thesis by auto
qed

end
