(* ===== verification/UpsSeen.thy ===== *)
theory UpsSeen
  imports Status
begin

text \<open>
  The UPS last seen, remembered across restarts (\<open>crates/argon-device/src/ups_seen.rs\<close>): the
  record's text and parser, and the recorder that decides when to write it. As in the status
  file, a time past what Linux holds makes the parser panic (\<open>None\<close>).
\<close>

section \<open>The record\<close>

definition REFRESH_EVERY :: duration where "REFRESH_EVERY = from_secs 3600"

record seen_ups =
  su_name :: string
  su_serial :: "string option"
  su_last_seen :: systime

definition same_unit :: "seen_ups \<Rightarrow> seen_ups \<Rightarrow> bool" where
  "same_unit a b \<longleftrightarrow> su_name a = su_name b \<and> su_serial a = su_serial b"

definition seen_lines :: "seen_ups \<Rightarrow> string list" where
  "seen_lines u =
     [key_line ''name'' (one_line (su_name u)),
      key_line ''serial'' (case su_serial u of None \<Rightarrow> [] | Some s \<Rightarrow> one_line s),
      key_line ''last_seen'' (show_nat (secs (su_last_seen u)))]"

definition seen_to_text :: "seen_ups \<Rightarrow> string" where
  "seen_to_text u = concat (map (\<lambda>l. l @ [newline]) (seen_lines u))"

record seen_fields =
  ef_name :: "string option"
  ef_serial :: "string option"
  ef_last_seen :: systime

definition seen_field :: "seen_fields \<Rightarrow> string \<Rightarrow> string \<Rightarrow> seen_fields option" where
  "seen_field f k v =
     (if k = ''name'' \<and> v \<noteq> [] then Some (f\<lparr>ef_name := Some v\<rparr>)
      else if k = ''serial'' \<and> v \<noteq> [] then Some (f\<lparr>ef_serial := Some v\<rparr>)
      else if k = ''last_seen'' then
        (case parse_uint U64_MAX v of
           None \<Rightarrow> Some f
         | Some s \<Rightarrow> map_option (\<lambda>t. f\<lparr>ef_last_seen := t\<rparr>) (time_from_secs s))
      else Some f)"

definition seen_line :: "seen_fields \<Rightarrow> string \<Rightarrow> seen_fields option" where
  "seen_line f line =
     (case split_once CHR ''='' line of
        None \<Rightarrow> Some f
      | Some (k, v) \<Rightarrow> seen_field f (trim k) (trim v))"

fun seen_fields_of :: "seen_fields \<Rightarrow> string list \<Rightarrow> seen_fields option" where
  "seen_fields_of f [] = Some f"
| "seen_fields_of f (l # ls) = Option.bind (seen_line f l) (\<lambda>f'. seen_fields_of f' ls)"

definition seen_parse :: "string \<Rightarrow> seen_ups option option" where
  "seen_parse text =
     map_option (\<lambda>f. map_option (\<lambda>n. \<lparr>su_name = n, su_serial = ef_serial f, su_last_seen = ef_last_seen f\<rparr>) (ef_name f))
       (seen_fields_of \<lparr>ef_name = None, ef_serial = None, ef_last_seen = 0\<rparr> (text_lines text))"

section \<open>The recorder\<close>

record recorder =
  rc_written :: "(seen_ups \<times> systime) option"

definition recorder_new :: recorder where
  "recorder_new = \<lparr>rc_written = None\<rparr>"

definition record_due :: "recorder \<Rightarrow> seen_ups \<Rightarrow> systime \<Rightarrow> bool" where
  "record_due r u now =
     (case rc_written r of
        None \<Rightarrow> True
      | Some (prev, at) \<Rightarrow> \<not> same_unit prev u \<or> now - at \<ge> REFRESH_EVERY)"

definition record_wrote :: "recorder \<Rightarrow> seen_ups \<Rightarrow> systime \<Rightarrow> recorder" where
  "record_wrote r u now = r\<lparr>rc_written := Some (u, now)\<rparr>"

section \<open>The record survives its file\<close>

definition trimmed :: "string \<Rightarrow> string option" where
  \<comment> \<open>a value as the file keeps it: one line, trimmed, absent when nothing is left\<close>
  "trimmed v = (let t = trim (one_line v) in if t = [] then None else Some t)"

lemma seen_lines_clean: "l \<in> set (seen_lines u) \<Longrightarrow> newline \<notin> set l \<and> carriage \<notin> set l"
  using plain_show_nat[of "secs (su_last_seen u)"] unfolding plain_def
  by (auto simp: seen_lines_def key_line_def split: option.splits)

lemma seen_line_key:
  "CHR ''='' \<notin> set k \<Longrightarrow> seen_line f (key_line k v) = seen_field f (trim k) (trim v)"
  by (simp add: seen_line_def key_line_def split_once_mid)

lemma trim_seen_keys [simp]: "trim ''name'' = ''name''" "trim ''serial'' = ''serial''"
  by (rule trim_ends; simp add: is_ws_def)+

text \<open>The record of a UPS reads back as written: for any name and serial number, whatever characters
  they hold, parsing the written text does not panic and gives the unit with its name and serial
  on one line and trimmed, and the time in whole seconds; a serial that is blank counts as none,
  and a unit whose name is blank is no record.\<close>

theorem seen_roundtrip:
  assumes "linux_time (su_last_seen u)"
  shows "seen_parse (seen_to_text u) =
    Some (map_option (\<lambda>n. \<lparr>su_name = n, su_serial = Option.bind (su_serial u) trimmed,
        su_last_seen = whole_seconds (su_last_seen u)\<rparr>) (trimmed (su_name u)))"
proof -
  have l: "text_lines (seen_to_text u) = seen_lines u"
    unfolding seen_to_text_def by (rule text_lines_unlines) (use seen_lines_clean in blast)
  have t: "secs (su_last_seen u) \<le> U64_MAX" "time_from_secs (secs (su_last_seen u)) = Some (whole_seconds (su_last_seen u))"
    using assms i64_u64 by (simp_all add: linux_time_def time_from_secs_def whole_seconds_def)
  show ?thesis
    using t by (cases "su_serial u")
      (auto simp: seen_parse_def l seen_lines_def seen_line_key seen_field_def trimmed_def Let_def)
qed

theorem seen_roundtrip_witness:
  "seen_parse (seen_to_text \<lparr>su_name = ''Argon'' @ [newline] @ ''UPS'', su_serial = Some '' '', su_last_seen = 7000000001\<rparr>) =
     Some (Some \<lparr>su_name = ''Argon UPS'', su_serial = None, su_last_seen = 7000000000\<rparr>)"
proof -
  have "one_line (''Argon'' @ [newline] @ ''UPS'') = ''Argon UPS''" "one_line '' '' = '' ''"
    by (simp_all add: one_line_def is_control_def)
  moreover have "trim ''Argon UPS'' = ''Argon UPS''" by (rule trim_ends; simp add: is_ws_def)
  moreover have "trim '' '' = []" by (simp add: trim_def trim_start_def trim_end_def is_ws_def)
  moreover have "linux_time 7000000001" by (simp add: linux_time_def secs_def I64_MAX_def)
  ultimately show ?thesis
    using seen_roundtrip[of "\<lparr>su_name = ''Argon'' @ [newline] @ ''UPS'', su_serial = Some '' '', su_last_seen = 7000000001\<rparr>"]
    by (simp add: trimmed_def whole_seconds_def secs_def)
qed

section \<open>How often it is written\<close>

text \<open>What \<open>remember\<close> in the daemon does with each successful read: ask, and note a write.\<close>

fun record_writes :: "recorder \<Rightarrow> (seen_ups \<times> systime) list \<Rightarrow> (seen_ups \<times> systime) list" where
  "record_writes r [] = []"
| "record_writes r ((u, now) # xs) =
     (if record_due r u now then (u, now) # record_writes (record_wrote r u now) xs
      else record_writes r xs)"

fun spaced_writes :: "(seen_ups \<times> systime) list \<Rightarrow> bool" where
  "spaced_writes (x # y # ws) \<longleftrightarrow>
     (same_unit (fst x) (fst y) \<longrightarrow> snd x + REFRESH_EVERY \<le> snd y) \<and> spaced_writes (y # ws)"
| "spaced_writes _ \<longleftrightarrow> True"

lemma record_spaced:
  "rc_written r = Some w \<Longrightarrow> spaced_writes (w # record_writes r xs)"
proof (induction r xs arbitrary: w rule: record_writes.induct)
  case (2 r u now xs)
  show ?case
  proof (cases "record_due r u now")
    case True
    have "spaced_writes ((u, now) # record_writes (record_wrote r u now) xs)"
      using "2.IH"(1)[OF True, of "(u, now)"] by (simp add: record_wrote_def)
    moreover have "same_unit (fst w) u \<longrightarrow> snd w + REFRESH_EVERY \<le> now"
      using True "2.prems" by (cases w) (auto simp: record_due_def REFRESH_EVERY_def)
    ultimately show ?thesis using True by simp
  next
    case False
    then show ?thesis using "2.IH"(2)[OF False "2.prems"] by simp
  qed
qed simp

lemma record_writes_spaced: "spaced_writes (record_writes recorder_new xs)"
proof (cases xs)
  case (Cons x rest)
  obtain u now where x: "x = (u, now)" by (cases x)
  show ?thesis using record_spaced[of "record_wrote recorder_new u now" "(u, now)" rest]
    by (simp add: Cons x record_due_def recorder_new_def record_wrote_def)
qed simp

end
