(* ===== verification/ClockSync.thy ===== *)
theory ClockSync
  imports UpsTime Poweroff
begin

text \<open>
  Keeping the UPS clock right (\<open>crates/argon-device/src/clock_sync.rs\<close>): the comparison of the
  UPS clock with the system clock, and whether the system clock may be trusted. Offsets are in
  seconds, as 64-bit signed integers, which the clamped times keep them inside.
\<close>

definition CHECK_INTERVAL :: duration where "CHECK_INTERVAL = from_secs (6 * 3600)"
definition RETRY_UNSYNCED :: duration where "RETRY_UNSYNCED = from_secs (10 * 60)"

definition next_check_after :: "bool \<Rightarrow> duration" where
  "next_check_after system_synced = (if system_synced then CHECK_INTERVAL else RETRY_UNSYNCED)"

definition THRESHOLD_S :: int where "THRESHOLD_S = 2"

datatype verdict =
  InSync int
| Correct int
| Untrusted int
| Implausible

definition to_i64 :: "nat \<Rightarrow> int" where
  "to_i64 x = min (int x) (2 ^ 63 - 1)"

definition judge :: "ups_time \<Rightarrow> nat \<Rightarrow> bool \<Rightarrow> verdict" where
  "judge ups system_unix_s system_synced =
     (case to_unix_seconds ups of
        None \<Rightarrow> Implausible
      | Some ups_s \<Rightarrow>
          (let offset_s = to_i64 ups_s - to_i64 system_unix_s
           in if \<bar>offset_s\<bar> \<le> THRESHOLD_S then InSync offset_s
              else if system_synced then Correct offset_s
              else Untrusted offset_s))"

text \<open>\<open>system_clock_synced\<close>, over the program that is asked.\<close>

definition system_clock_synced ::
  "('x \<Rightarrow> string \<Rightarrow> string list \<Rightarrow> (string + command_output) \<times> 'x) \<Rightarrow> 'x \<Rightarrow> bool \<times> 'x"
where
  "system_clock_synced exec x =
     (let (r, x1) = exec x ''timedatectl'' [''show'', ''-p'', ''NTPSynchronized'', ''--value'']
      in (case r of Inr out \<Rightarrow> co_success out \<and> trim (co_stdout out) = ''yes'' | Inl _ \<Rightarrow> False, x1))"

lemma sum_list_le: "(\<And>x. x \<in> set xs \<Longrightarrow> f x \<le> c) \<Longrightarrow> sum_list (map f xs) \<le> c * length xs" for f :: "'a \<Rightarrow> nat"
  by (induction xs) (auto simp: add_mono)

text \<open>A time the UPS can hold is far from the bounds of a 64-bit integer.\<close>

lemma to_unix_bound: "to_unix_seconds t = Some s \<Longrightarrow> s < 2 ^ 40"
proof -
  assume "to_unix_seconds t = Some s"
  then have pl: "is_plausible t"
    and s: "s = day_count (unat (ut_year t)) (unat (ut_month t)) (unat (ut_day t)) * 86400 + seconds_of t"
    by (auto simp: to_unix_count split: if_splits)
  let ?y = "unat (ut_year t)" and ?m = "unat (ut_month t)" and ?d = "unat (ut_day t)"
  have b: "?y \<le> 2099" "?m \<le> 12" "?d \<le> 31" using pl by (auto simp: is_plausible_nat)
  have "sum_list (map year_days [1970..<?y]) \<le> 366 * length [1970..<?y]"
    by (rule sum_list_le) (simp add: year_days_def)
  moreover have "sum_list (map (month_days ?y) [1..<?m]) \<le> 31 * length [1..<?m]"
    by (rule sum_list_le) (simp add: month_days_def)
  ultimately have "day_count ?y ?m ?d \<le> 100000" using b by (simp add: day_count_def)
  then show ?thesis using s seconds_of_less[OF pl] by simp
qed

lemma to_i64_small [simp]: "s < 2 ^ 41 \<Longrightarrow> to_i64 s = int s"
  by (simp add: to_i64_def min_def)

lemma judge_expressed:
  assumes "to_unix_seconds t = Some s" "now < 2 ^ 41"
  shows "judge t now synced =
    (if \<bar>int s - int now\<bar> \<le> 2 then InSync (int s - int now)
     else if synced then Correct (int s - int now) else Untrusted (int s - int now))"
proof -
  have "to_i64 s = int s" "to_i64 now = int now" using to_unix_bound[OF assms(1)] assms(2) by simp_all
  then show ?thesis by (simp add: judge_def assms(1) THRESHOLD_S_def)
qed

lemma judge_offset_range:
  "judge ups s synced \<in> {InSync x, Correct x, Untrusted x} \<Longrightarrow> - (2 ^ 63) \<le> x \<and> x < 2 ^ 63"
  by (auto simp: judge_def to_i64_def Let_def split: option.splits if_splits)

end
