(* ===== verification/Drift.thy ===== *)
theory Drift
  imports Prelude
begin

text \<open>
  The record of the UPS clock's drift (\<open>crates/argon-device/src/drift.rs\<close>): one entry per check,
  its line and parser, the cut that keeps the record bounded, and the most recent stretch without
  a correction. The quotient the rate reports is a float and is left as its two terms. A line
  number is an index of the file's lines.
\<close>

section \<open>Entries\<close>

definition MAX_LINES :: nat where "MAX_LINES = 1000"
definition KEEP_LINES :: nat where "KEEP_LINES = 500"
definition MIN_SPAN_S :: nat where "MIN_SPAN_S = 86400"

datatype drift_action =
  DriftInSync
| Corrected int
| LeftAlone

record drift_entry =
  dr_unix :: nat
  dr_offset_s :: int
  dr_action :: drift_action

definition is_i64 :: "int \<Rightarrow> bool" where
  "is_i64 x \<longleftrightarrow> - (2 ^ 63) \<le> x \<and> x < 2 ^ 63"

definition show_signed :: "int \<Rightarrow> string" where
  \<comment> \<open>\<open>{:+}\<close>\<close>
  "show_signed x = (if x < 0 then CHR ''-'' # show_nat (nat (- x)) else CHR ''+'' # show_nat (nat x))"

definition parse_i64 :: "string \<Rightarrow> int option" where
  "parse_i64 s =
     (let neg = (s \<noteq> [] \<and> hd s = CHR ''-'');
          ds = (if s \<noteq> [] \<and> hd s \<in> {CHR ''-'', CHR ''+''} then tl s else s)
      in case parse_digits ds of
           Some v \<Rightarrow> let i = (if neg then - int v else int v) in if is_i64 i then Some i else None
         | None \<Rightarrow> None)"

definition entry_text :: "drift_entry \<Rightarrow> string" where
  "entry_text e =
     show_nat (dr_unix e) @ '' '' @ show_signed (dr_offset_s e) @
     (case dr_action e of
        DriftInSync \<Rightarrow> '' in-sync''
      | Corrected after_s \<Rightarrow> '' corrected '' @ show_signed after_s
      | LeftAlone \<Rightarrow> '' left-alone'')"

text \<open>\<open>split_whitespace\<close>.\<close>

fun words_from :: "string \<Rightarrow> string \<Rightarrow> string list" where
  "words_from acc [] = (if acc = [] then [] else [acc])"
| "words_from acc (c # cs) =
     (if is_ws c then (if acc = [] then [] else [acc]) @ words_from [] cs
      else words_from (acc @ [c]) cs)"

definition split_whitespace :: "string \<Rightarrow> string list" where
  "split_whitespace s = words_from [] s"

definition entry_parse :: "string \<Rightarrow> drift_entry option" where
  "entry_parse line0 =
     (let line = trim line0
      in if line = [] \<or> starts_with ''#'' line then None
         else case split_whitespace line of
           u # ofs # a # rest \<Rightarrow>
             (case (parse_uint U64_MAX u, parse_i64 ofs) of
                (Some unix, Some offset_s) \<Rightarrow>
                  map_option (\<lambda>act. \<lparr>dr_unix = unix, dr_offset_s = offset_s, dr_action = act\<rparr>)
                    (if a = ''in-sync'' then Some DriftInSync
                     else if a = ''left-alone'' then Some LeftAlone
                     else if a = ''corrected''
                       then (case rest of [] \<Rightarrow> None | x # _ \<Rightarrow> map_option Corrected (parse_i64 x))
                     else None)
              | _ \<Rightarrow> None)
         | _ \<Rightarrow> None)"

definition drift_read :: "string \<Rightarrow> drift_entry list" where
  "drift_read text = List.map_filter entry_parse (text_lines text)"

text \<open>\<open>append\<close>: the file's text after one more entry.\<close>

definition unlines :: "string list \<Rightarrow> string" where
  "unlines ls = concat (map (\<lambda>l. l @ [newline]) ls)"

definition drift_append :: "string \<Rightarrow> drift_entry \<Rightarrow> string" where
  "drift_append file e =
     (let text = file @ entry_text e @ [newline];
          lines = text_lines text
      in if length lines > MAX_LINES then unlines (drop (length lines - KEEP_LINES) lines) else text)"

text \<open>The points of the most recent free-running stretch, and what its rate is made of: the change of
  the offset and the seconds it took.\<close>

fun stretch_from :: "(nat \<times> int) list \<Rightarrow> drift_entry list \<Rightarrow> (nat \<times> int) list" where
  "stretch_from acc [] = acc"
| "stretch_from acc (e # es) =
     (case dr_action e of
        Corrected after_s \<Rightarrow> stretch_from [(dr_unix e, after_s)] es
      | _ \<Rightarrow> stretch_from (acc @ [(dr_unix e, dr_offset_s e)]) es)"

definition rate_terms :: "drift_entry list \<Rightarrow> (int \<times> nat) option" where
  "rate_terms entries =
     (case stretch_from [] entries of
        [] \<Rightarrow> None
      | p # ps \<Rightarrow>
          (let (t0, o0) = p; (t1, o1) = last (p # ps)
           in if t1 < t0 then None
              else if t1 - t0 < MIN_SPAN_S then None
              else Some (o1 - o0, t1 - t0)))"

section \<open>An entry reads back\<close>

lemma words_word:
  assumes "w \<noteq> []" "\<forall>c \<in> set w. \<not> is_ws c" "is_ws sp"
  shows "words_from [] (w @ sp # rest) = w # words_from [] rest" "words_from [] w = [w]"
proof -
  have go: "words_from acc (v @ sp # rest) = (acc @ v) # words_from [] rest"
       "words_from acc v = [acc @ v]"
    if "acc \<noteq> []" "\<forall>c \<in> set v. \<not> is_ws c" for acc v
    using that assms(3) by (induction v arbitrary: acc) auto
  obtain c v where w: "w = c # v"
    using assms(1) by (cases w) auto
  show "words_from [] (w @ sp # rest) = w # words_from [] rest" "words_from [] w = [w]"
    using go[of "[c]" v] assms(2) by (simp_all add: w)
qed

definition word :: "string \<Rightarrow> bool" where
  "word w \<longleftrightarrow> w \<noteq> [] \<and> (\<forall>c \<in> set w. \<not> is_ws c)"

lemma space_ws [simp]: "is_ws CHR '' ''"
  by (simp add: is_ws_def)

lemma split_words:
  "word w \<Longrightarrow> split_whitespace (w @ CHR '' '' # rest) = w # split_whitespace rest"
  "word w \<Longrightarrow> split_whitespace w = [w]"
  unfolding split_whitespace_def word_def by (simp_all add: words_word(1) words_word(2)[OF _ _ space_ws])

lemma word_show_nat [simp]: "word (show_nat n)"
  using show_nat_digits[of n] digit_not_ws by (auto simp: word_def list_all_iff)

lemma word_signed [simp]: "word (show_signed x)"
  using word_show_nat by (auto simp: word_def show_signed_def is_ws_def)

lemma parse_signed [simp]: "is_i64 x \<Longrightarrow> parse_i64 (show_signed x) = Some x"
  by (simp add: parse_i64_def show_signed_def)

lemma word_actions [simp]: "word ''in-sync''" "word ''left-alone''" "word ''corrected''"
  by (simp_all add: word_def is_ws_def)

definition entry_ok :: "drift_entry \<Rightarrow> bool" where
  "entry_ok e \<longleftrightarrow> dr_unix e \<le> U64_MAX \<and> is_i64 (dr_offset_s e) \<and>
     (\<forall>a. dr_action e = Corrected a \<longrightarrow> is_i64 a)"

lemma trim_word_ends:
  assumes "word a" "word b" "s = a @ m @ b \<or> s = a"
  shows "trim s = s"
proof -
  have "s \<noteq> []" "hd s \<in> set a" "last s \<in> set a \<union> set b"
    using assms by (auto simp: word_def)
  with assms(1,2) show ?thesis by (intro trim_ends) (auto simp: word_def)
qed

lemma entry_text_shape:
  "\<exists>m b. word b \<and> entry_text e = show_nat (dr_unix e) @ m @ b"
proof (cases "dr_action e")
  case DriftInSync
  then have "entry_text e = show_nat (dr_unix e) @ ('' '' @ show_signed (dr_offset_s e) @ '' '') @ ''in-sync''"
    by (simp add: entry_text_def)
  then show ?thesis using word_actions by blast
next
  case (Corrected a)
  then have "entry_text e = show_nat (dr_unix e) @ ('' '' @ show_signed (dr_offset_s e) @ '' corrected '') @ show_signed a"
    by (simp add: entry_text_def)
  then show ?thesis using word_signed by blast
next
  case LeftAlone
  then have "entry_text e = show_nat (dr_unix e) @ ('' '' @ show_signed (dr_offset_s e) @ '' '') @ ''left-alone''"
    by (simp add: entry_text_def)
  then show ?thesis using word_actions by blast
qed

lemma entry_text_trim: "trim (entry_text e) = entry_text e"
  using entry_text_shape[of e] trim_word_ends word_show_nat by metis

lemma entry_not_comment: "\<not> starts_with ''#'' (entry_text e)"
proof -
  have "hd (show_nat (dr_unix e)) \<noteq> CHR ''#''" using show_nat_hd[of "dr_unix e"] by (auto simp: is_digit_def)
  then show ?thesis by (cases "show_nat (dr_unix e)") (auto simp: starts_with_def entry_text_def)
qed

lemma entry_words:
  "split_whitespace (entry_text e) =
     [show_nat (dr_unix e), show_signed (dr_offset_s e)] @
     (case dr_action e of DriftInSync \<Rightarrow> [''in-sync''] | Corrected a \<Rightarrow> [''corrected'', show_signed a]
      | LeftAlone \<Rightarrow> [''left-alone''])"
proof (cases "dr_action e")
  case (Corrected a)
  have "entry_text e = show_nat (dr_unix e) @ CHR '' '' # (show_signed (dr_offset_s e) @ CHR '' '' # (''corrected'' @ CHR '' '' # show_signed a))"
    using Corrected by (simp add: entry_text_def)
  then show ?thesis using Corrected by (simp only: split_words word_show_nat word_signed word_actions) simp
next
  case DriftInSync
  have "entry_text e = show_nat (dr_unix e) @ CHR '' '' # (show_signed (dr_offset_s e) @ CHR '' '' # ''in-sync'')"
    using DriftInSync by (simp add: entry_text_def)
  then show ?thesis using DriftInSync by (simp only: split_words word_show_nat word_signed word_actions) simp
next
  case LeftAlone
  have "entry_text e = show_nat (dr_unix e) @ CHR '' '' # (show_signed (dr_offset_s e) @ CHR '' '' # ''left-alone'')"
    using LeftAlone by (simp add: entry_text_def)
  then show ?thesis using LeftAlone by (simp only: split_words word_show_nat word_signed word_actions) simp
qed

lemma entry_parse_text: "entry_ok e \<Longrightarrow> entry_parse (entry_text e) = Some e"
proof -
  assume "entry_ok e"
  moreover have "entry_text e \<noteq> []" by (simp add: entry_text_def)
  ultimately show ?thesis
    by (cases e; cases "dr_action e")
      (simp_all add: entry_parse_def entry_text_trim entry_not_comment entry_words entry_ok_def)
qed

section \<open>The record stays bounded\<close>

lemma entry_clean: "newline \<notin> set (entry_text e) \<and> carriage \<notin> set (entry_text e)"
proof -
  have d: "newline \<notin> set (show_nat n) \<and> carriage \<notin> set (show_nat n)" for n
    using show_nat_digits[of n] digit_not_ws by (auto simp: list_all_iff)
  then have "newline \<notin> set (show_signed x) \<and> carriage \<notin> set (show_signed x)" for x
    by (auto simp: show_signed_def)
  with d show ?thesis by (auto simp: entry_text_def split: drift_action.splits)
qed

definition clean_lines :: "string list \<Rightarrow> bool" where
  "clean_lines ls \<longleftrightarrow> (\<forall>l \<in> set ls. newline \<notin> set l \<and> carriage \<notin> set l)"

lemma lines_unlines: "clean_lines ls \<Longrightarrow> text_lines (unlines ls) = ls"
  unfolding unlines_def clean_lines_def by (rule text_lines_unlines)

lemma unlines_snoc: "unlines ls @ l @ [newline] = unlines (ls @ [l])"
  by (simp add: unlines_def)

text \<open>The drift record keeps its newest entries and stays bounded: adding an entry to a record of
  complete lines gives a record of complete lines that ends with it; the earlier lines are kept
  as they were, all of them while there are at most a thousand, and otherwise exactly the newest
  499; a record of at most a thousand lines never has more; and what is read back is what was
  readable in the lines kept, then the entry.\<close>

theorem drift_append_bounded:
  assumes "clean_lines ls" "entry_ok e"
  shows "\<exists>k. drift_append (unlines ls) e = unlines (drop k ls @ [entry_text e]) \<and>
    (length ls < 1000 \<longrightarrow> k = 0) \<and> (1000 \<le> length ls \<longrightarrow> length (drop k ls) = 499) \<and>
    drift_read (drift_append (unlines ls) e) = List.map_filter entry_parse (drop k ls) @ [e]"
proof -
  have c: "clean_lines (ls @ [entry_text e])" using assms(1) entry_clean by (auto simp: clean_lines_def)
  have t: "text_lines (unlines ls @ entry_text e @ [newline]) = ls @ [entry_text e]"
    unfolding unlines_snoc by (rule lines_unlines[OF c])
  let ?k = "if length ls < 1000 then 0 else length ls - 499"
  have "drift_append (unlines ls) e = unlines (drop ?k ls @ [entry_text e])"
    unfolding drift_append_def Let_def t by (simp add: MAX_LINES_def KEEP_LINES_def unlines_snoc)
  moreover have "clean_lines (drop ?k ls @ [entry_text e])"
    using c set_drop_subset[of ?k ls] by (auto simp: clean_lines_def)
  then have "drift_read (unlines (drop ?k ls @ [entry_text e])) = List.map_filter entry_parse (drop ?k ls) @ [e]"
    by (simp add: drift_read_def lines_unlines map_filter_def entry_parse_text[OF assms(2)])
  ultimately show ?thesis by (intro exI[of _ ?k]) simp
qed

theorem drift_append_bounded_witness:
  "\<exists>k. drift_append (unlines [''# checks'', ''? off'']) \<lparr>dr_unix = 9, dr_offset_s = -21, dr_action = Corrected 1\<rparr> =
      unlines (drop k [''# checks'', ''? off''] @ [entry_text \<lparr>dr_unix = 9, dr_offset_s = -21, dr_action = Corrected 1\<rparr>]) \<and> k = 0"
proof -
  have "clean_lines [''# checks'', ''? off'']" "entry_ok \<lparr>dr_unix = 9, dr_offset_s = -21, dr_action = Corrected 1\<rparr>"
    by (simp_all add: clean_lines_def entry_ok_def is_i64_def U64_MAX_def)
  from drift_append_bounded[OF this] show ?thesis by auto
qed

end
