(* ===== verification/UpsThread.thy ===== *)
theory UpsThread
  imports Wake ClockSync Drift UpsSeen UpsService UpsSim
begin

text \<open>
  The daemon's UPS thread (\<open>crates/argon-daemon/src/ups.rs\<close>) and the requests it answers
  (\<open>crates/argon-device/src/control.rs\<close>): a wake request, the safety net that parks a schedule,
  the clock check, and one turn of the loop. The link is given as it behaves at each request of
  the handler, \<open>net k\<close>, with the time \<open>tick k\<close> at which the driver starts it; \<open>wall k\<close> is
  the k-th reading of the system clock, in seconds. What is logged is a value where state depends
  on it.
\<close>

section \<open>Operations on the monitor's unit\<close>

definition on_ups :: "('l \<Rightarrow> 'r \<times> 'l) \<Rightarrow> 'l ups_monitor \<Rightarrow> 'r \<times> 'l ups_monitor" where
  "on_ups f m = (let (r, l) = f (um_ups m) in (r, m\<lparr>um_ups := l\<rparr>))"

type_synonym 'l net = "nat \<Rightarrow> 'l ups_link"

definition wake_get :: "'l net \<Rightarrow> (nat \<Rightarrow> instant) \<Rightarrow> nat \<Rightarrow> 'l gate ups_monitor \<Rightarrow>
    (hal_error + ups_time option) \<times> 'l gate ups_monitor" where
  "wake_get net tick k = on_ups (ups_wake (gate_request (net k)) (tick k))"

definition wake_set :: "'l net \<Rightarrow> (nat \<Rightarrow> instant) \<Rightarrow> nat \<Rightarrow> ups_time \<Rightarrow> 'l gate ups_monitor \<Rightarrow>
    (hal_error + unit) \<times> 'l gate ups_monitor" where
  "wake_set net tick k t = on_ups (\<lambda>l. ups_set_wake (gate_request (net k)) (tick k) l t)"

definition clock_get :: "'l net \<Rightarrow> (nat \<Rightarrow> instant) \<Rightarrow> nat \<Rightarrow> 'l gate ups_monitor \<Rightarrow>
    (hal_error + ups_time) \<times> 'l gate ups_monitor" where
  "clock_get net tick k = on_ups (ups_clock (gate_request (net k)) (tick k))"

definition clock_set :: "'l net \<Rightarrow> (nat \<Rightarrow> instant) \<Rightarrow> nat \<Rightarrow> ups_time \<Rightarrow> 'l gate ups_monitor \<Rightarrow>
    (hal_error + unit) \<times> 'l gate ups_monitor" where
  "clock_set net tick k t = on_ups (\<lambda>l. ups_set_clock (gate_request (net k)) (tick k) l t)"

section \<open>Requests\<close>

datatype control_request = PoweroffWithWake nat

text \<open>An error answer is its reason; \<open>refusal_text\<close> is the message. The derived debug text of a
  read-back is the parameter \<open>dbg\<close>.\<close>

datatype refusal =
  NotFullMode
| BadTime request_error
| SetFailed hal_error
| NotReadBack "hal_error + ups_time option" "hal_error + unit"
| NoPoweroff hal_error "hal_error + unit"
| Unreachable

datatype control_response =
  PoweroffScheduled nat nat
| Refused refusal

definition park_text :: "hal_error + unit \<Rightarrow> string" where
  "park_text r =
     (case r of
        Inr _ \<Rightarrow> ''the wake has been parked (moved to 2097)''
      | Inl e \<Rightarrow> ''PARKING THE WAKE ALSO FAILED ('' @ hal_error_text e @ '') -- check it with `argonctl rtc`'')"

fun refusal_text :: "(hal_error + ups_time option \<Rightarrow> string) \<Rightarrow> refusal \<Rightarrow> string" where
  "refusal_text dbg NotFullMode =
     ''a scheduled wake is a full-mode operation, and argond is not in mode \"full\"''"
| "refusal_text dbg (BadTime e) = request_error_text e"
| "refusal_text dbg (SetFailed e) =
     ''setting the wake failed ('' @ hal_error_text e @ ''); nothing was scheduled and the machine stays on''"
| "refusal_text dbg (NotReadBack other pk) =
     ''the wake did not read back as set ('' @ dbg other @ ''); '' @ park_text pk @ ''; the machine stays on''"
| "refusal_text dbg (NoPoweroff e pk) =
     ''the poweroff could not be scheduled ('' @ hal_error_text e @ ''); '' @ park_text pk @
     '', so it cannot come due on a running machine''"
| "refusal_text dbg Unreachable = ''the UPS is not reachable right now; nothing was done''"

definition park :: "'l net \<Rightarrow> (nat \<Rightarrow> instant) \<Rightarrow> nat \<Rightarrow> 'l gate ups_monitor \<Rightarrow>
    (hal_error + unit) \<times> 'l gate ups_monitor" where
  "park net tick k m = wake_set net tick k PARK_AT m"

definition read_back_ok :: "hal_error + ups_time option \<Rightarrow> ups_time \<Rightarrow> bool" where
  "read_back_ok r t = (case r of Inr (Some got) \<Rightarrow> same_minute got t | _ \<Rightarrow> False)"

definition handle_request ::
  "'l net \<Rightarrow> (nat \<Rightarrow> instant) \<Rightarrow> 'p power_ops \<Rightarrow> 'l gate ups_monitor \<Rightarrow> control_request \<Rightarrow> 'p \<Rightarrow>
   bool \<Rightarrow> nat \<Rightarrow> control_response \<times> 'l gate ups_monitor \<times> 'p"
where
  "handle_request net tick ops m req pw wake_writes now_unix =
     (case req of PoweroffWithWake at_unix \<Rightarrow>
        if \<not> wake_writes then (Refused NotFullMode, m, pw)
        else case schedule_for at_unix now_unix of
          Inl e \<Rightarrow> (Refused (BadTime e), m, pw)
        | Inr t \<Rightarrow>
            (let (r, m1) = wake_set net tick 0 t m
             in case r of
                  Inl e \<Rightarrow> (Refused (SetFailed e), m1, pw)
                | Inr _ \<Rightarrow>
                    (let (other, m2) = wake_get net tick 1 m1
                     in if \<not> read_back_ok other t
                        then (let (pk, m3) = park net tick 2 m2 in (Refused (NotReadBack other pk), m3, pw))
                        else (let (r, pw1) = pw_schedule ops pw POWEROFF_DELAY (poweroff_message t)
                              in case r of
                                   Inr at \<Rightarrow>
                                     (PoweroffScheduled
                                        (case to_unix_seconds t of Some w \<Rightarrow> w | None \<Rightarrow> 0) (secs at), m2, pw1)
                                 | Inl e \<Rightarrow>
                                     (let (pk, m3) = park net tick 2 m2
                                      in (Refused (NoPoweroff e pk), m3, pw1))))))"

section \<open>The safety net\<close>

datatype wake_seen = SeenUnknown | SeenNothing | SeenAt ups_time

datatype wake_log =
  WakeUnread hal_error
| NoWakeSet
| WakeFar ups_time
| WakeParked ups_time park_reason "hal_error + unit"
| WakeNeedsFull ups_time park_reason

fun reason_debug :: "park_reason \<Rightarrow> string" where
  "reason_debug DueSoon = ''DueSoon''"
| "reason_debug Past = ''Past''"
| "reason_debug Unreadable = ''Unreadable''"

fun wake_log_text :: "wake_log \<Rightarrow> string" where
  "wake_log_text (WakeUnread e) = ''argond: ups: wake check: reading the schedule failed: '' @ hal_error_text e"
| "wake_log_text NoWakeSet = ''argond: ups: no wake schedule set''"
| "wake_log_text (WakeFar t) =
     ''argond: ups: wake schedule '' @ minute_text t @ '' UTC, far enough away to leave''"
| "wake_log_text (WakeParked found why result) =
     ''argond: ups: a wake schedule for '' @ minute_text found @ '' UTC was '' @ reason_debug why @
     '' on a running machine; '' @ park_text result"
| "wake_log_text (WakeNeedsFull found why) =
     ''argond: ups: WARNING: a wake schedule for '' @ minute_text found @ '' UTC is '' @ reason_debug why @
     '' on a running machine, and parking it needs mode \"full\"''"

definition check_wake ::
  "'l net \<Rightarrow> (nat \<Rightarrow> instant) \<Rightarrow> 'l gate ups_monitor \<Rightarrow> bool \<Rightarrow> nat \<Rightarrow> wake_seen \<Rightarrow>
   wake_log option \<times> 'l gate ups_monitor \<times> wake_seen"
where
  "check_wake net tick m park_allowed now_unix before =
     (let (r, m1) = wake_get net tick 0 m
      in case r of
           Inl e \<Rightarrow> (Some (WakeUnread e), m1, before)
         | Inr found \<Rightarrow>
             (case assess found now_unix of
                Park found why \<Rightarrow>
                  if park_allowed
                  then (let (result, m2) = park net tick 1 m1
                        in (Some (WakeParked found why result), m2, SeenUnknown))
                  else (Some (WakeNeedsFull found why), m1, before)
              | _ \<Rightarrow>
                  (let now_seen = (case found of None \<Rightarrow> SeenNothing | Some t \<Rightarrow> SeenAt t)
                   in if before \<noteq> now_seen
                      then (Some (case found of None \<Rightarrow> NoWakeSet | Some t \<Rightarrow> WakeFar t), m1, now_seen)
                      else (None, m1, before))))"

section \<open>The clock check\<close>

definition check_clock ::
  "'l net \<Rightarrow> (nat \<Rightarrow> instant) \<Rightarrow> (nat \<Rightarrow> nat) \<Rightarrow> 'l gate ups_monitor \<Rightarrow> bool \<Rightarrow> bool \<Rightarrow>
   drift_entry option \<times> 'l gate ups_monitor"
where
  "check_clock net tick wall m clock_writes system_synced =
     (let (r, m1) = clock_get net tick 0 m
      in case r of
           Inl e \<Rightarrow> (None, m1)
         | Inr now_held \<Rightarrow>
             (let checked_at = wall 0;
                  entry = (\<lambda>offset_s act. Some \<lparr>dr_unix = checked_at, dr_offset_s = offset_s, dr_action = act\<rparr>)
              in case judge now_held checked_at system_synced of
                   InSync offset_s \<Rightarrow> (entry offset_s DriftInSync, m1)
                 | Untrusted offset_s \<Rightarrow> (entry offset_s LeftAlone, m1)
                 | Implausible \<Rightarrow> (None, m1)
                 | Correct offset_s \<Rightarrow>
                     if \<not> clock_writes then (entry offset_s LeftAlone, m1)
                     else (case from_unix_seconds (wall 1) of
                             None \<Rightarrow> (None, m1)
                           | Some now \<Rightarrow>
                               (let (r, m2) = clock_set net tick 1 now m1
                                in case r of
                                     Inl e \<Rightarrow> (entry offset_s LeftAlone, m2)
                                   | Inr _ \<Rightarrow>
                                       (let (r, m3) = clock_get net tick 2 m2;
                                            after = map_option (\<lambda>t. judge t (wall 2) True) (ok r)
                                        in case after of
                                             Some (InSync after_s) \<Rightarrow> (entry offset_s (Corrected after_s), m3)
                                           | _ \<Rightarrow> (entry offset_s LeftAlone, m3))))))"

text \<open>\<open>check_and_record_clock\<close>: the record is the file's text, when there is one; \<open>write_entry\<close> is what
  adding an entry leaves in it.\<close>

definition check_and_record_clock ::
  "'l net \<Rightarrow> (nat \<Rightarrow> instant) \<Rightarrow> (nat \<Rightarrow> nat) \<Rightarrow> (string \<Rightarrow> drift_entry \<Rightarrow> string) \<Rightarrow>
   'l gate ups_monitor \<Rightarrow> bool \<Rightarrow> bool \<Rightarrow> string option \<Rightarrow> duration \<times> 'l gate ups_monitor \<times> string option"
where
  "check_and_record_clock net tick wall write_entry m clock_writes synced record =
     (let (entry, m1) = check_clock net tick wall m clock_writes synced
      in (next_check_after synced, m1,
          case (entry, record) of (Some e, Some file) \<Rightarrow> Some (write_entry file e) | _ \<Rightarrow> record))"

section \<open>The schedule behind the monitor\<close>

abbreviation unit_of :: "'l gate ups_monitor \<Rightarrow> 'l" where
  "unit_of m \<equiv> gt_inner (um_ups m)"

lemma wake_get_store:
  assumes "wake_store (net k) sched ready" "ready (unit_of m)" "wake_get net tick k m = (r, m')"
  shows "ready (unit_of m') \<and> sched (unit_of m') = sched (unit_of m) \<and> (\<forall>x. r = Inr x \<longrightarrow> x = sched (unit_of m))"
proof -
  obtain l' where l: "ups_wake (gate_request (net k)) (tick k) (um_ups m) = (r, l')" "m' = m\<lparr>um_ups := l'\<rparr>"
    using assms(3) by (auto simp: wake_get_def on_ups_def split: prod.splits)
  show ?thesis using wake_store.wake_reads[OF wake_store.gated_store[OF assms(1)] assms(2) l(1)] l(2) by simp
qed

lemma wake_set_store:
  assumes "wake_store (net k) sched ready" "ready (unit_of m)" "wake_set net tick k t m = (r, m')"
  shows "ready (unit_of m') \<and>
    (sched (unit_of m') = sched (unit_of m) \<or> sched (unit_of m') = Some (t\<lparr>ut_second := None\<rparr>)) \<and>
    (r = Inr () \<longrightarrow> sched (unit_of m') = Some (t\<lparr>ut_second := None\<rparr>))"
proof -
  obtain l' where l: "ups_set_wake (gate_request (net k)) (tick k) (um_ups m) t = (r, l')" "m' = m\<lparr>um_ups := l'\<rparr>"
    using assms(3) by (auto simp: wake_set_def on_ups_def split: prod.splits)
  show ?thesis using wake_store.set_wake_stores[OF wake_store.gated_store[OF assms(1)] assms(2) l(1)] l(2) by simp
qed

lemma park_at_minute [simp]: "PARK_AT\<lparr>ut_second := None\<rparr> = PARK_AT"
  by (simp add: PARK_AT_def)

lemmas park_store = wake_set_store[where t = PARK_AT, folded park_def, unfolded park_at_minute]

lemma minute_only: "ut_second t = None \<Longrightarrow> t\<lparr>ut_second := None\<rparr> = t"
  by (cases t) simp

lemma same_minute_eq: "same_minute a b \<Longrightarrow> ut_second a = None \<Longrightarrow> ut_second b = None \<Longrightarrow> a = b"
  by (cases a; cases b) (simp add: same_minute_def)

lemma same_minute_refl [simp]: "same_minute t t"
  by (simp add: same_minute_def)

section \<open>A request leaves no wake on a machine that stays on\<close>

text \<open>What the UPS holds and what was asked of the power control, after each answer.\<close>

definition request_outcome ::
  "'p power_ops \<Rightarrow> 'p \<Rightarrow> nat \<Rightarrow> nat \<Rightarrow> ups_time option \<Rightarrow> control_response \<Rightarrow> ups_time option \<Rightarrow> 'p \<Rightarrow> bool"
where
  "request_outcome ops pw at now held resp held' pw' \<longleftrightarrow>
     (case resp of
        PoweroffScheduled w off \<Rightarrow>
          (\<exists>t at'. schedule_for at now = Inr t \<and> held' = Some t \<and> to_unix_seconds t = Some w \<and> off = secs at' \<and>
             pw_schedule ops pw POWEROFF_DELAY (poweroff_message t) = (Inr at', pw'))
      | Refused (NoPoweroff e pk) \<Rightarrow>
          (\<exists>t. pw_schedule ops pw POWEROFF_DELAY (poweroff_message t) = (Inl e, pw')) \<and>
          (pk = Inr () \<longrightarrow> held' = Some PARK_AT)
      | Refused (NotReadBack other pk) \<Rightarrow> pw' = pw \<and> \<not> is_ok other \<and> (pk = Inr () \<longrightarrow> held' = Some PARK_AT)
      | Refused (SetFailed e) \<Rightarrow> pw' = pw \<and> (\<exists>t. schedule_for at now = Inr t \<and> held' \<in> {held, Some t})
      | Refused _ \<Rightarrow> pw' = pw \<and> held' = held)"

lemma handle_request_outcome:
  assumes net: "\<forall>k. wake_store (net k) sched ready" and "ready (unit_of m)"
    and h: "handle_request net tick ops m (PoweroffWithWake at) pw allowed now = (resp, m', pw')"
  shows "request_outcome ops pw at now (sched (unit_of m)) resp (sched (unit_of m')) pw' \<and> ready (unit_of m')"
proof (cases "allowed \<and> is_ok (schedule_for at now)")
  case False
  then have "m' = m" "pw' = pw" "resp = Refused NotFullMode \<or> (\<exists>e. resp = Refused (BadTime e))"
    using h by (cases "schedule_for at now"; cases allowed; simp add: handle_request_def; blast)+
  then show ?thesis using assms(2) by (auto simp: request_outcome_def)
next
  case True
  then obtain t where al: "allowed" and t: "schedule_for at now = Inr t" by (cases "schedule_for at now") auto
  note f = schedule_for_Inr[OF t]
  note st = net[rule_format]
  obtain r1 m1 where s: "wake_set net tick 0 t m = (r1, m1)" by (rule prod.exhaust)
  note s1 = wake_set_store[OF st assms(2) s, unfolded minute_only[OF f(3)]]
  show ?thesis
  proof (cases r1)
    case (Inl e)
    then have "resp = Refused (SetFailed e)" "m' = m1" "pw' = pw"
      using h al t s by (auto simp: handle_request_def)
    then show ?thesis using s1 t by (auto simp: request_outcome_def)
  next
    case (Inr u)
    obtain other m2 where g: "wake_get net tick 1 m1 = (other, m2)" by (rule prod.exhaust)
    obtain pk m3 where p: "park net tick 2 m2 = (pk, m3)" by (rule prod.exhaust)
    obtain r4 pw4 where q: "pw_schedule ops pw POWEROFF_DELAY (poweroff_message t) = (r4, pw4)" by (rule prod.exhaust)
    have r1: "ready (unit_of m1)" "sched (unit_of m1) = Some t" using s1 Inr by auto
    note g1 = wake_get_store[OF st r1(1) g, unfolded r1(2)]
    then have r2: "ready (unit_of m2)" by simp
    note p1 = park_store[OF st r2 p]
    have res: "(resp, m', pw') =
        (if \<not> read_back_ok other t then (Refused (NotReadBack other pk), m3, pw)
         else case r4 of Inr off \<Rightarrow> (PoweroffScheduled (case to_unix_seconds t of Some w \<Rightarrow> w | None \<Rightarrow> 0) (secs off), m2, pw4)
              | Inl e \<Rightarrow> (Refused (NoPoweroff e pk), m3, pw4))"
      unfolding h[symmetric] using al t s Inr g p q by (simp add: handle_request_def split: sum.split)
    have rb: "read_back_ok other t \<longleftrightarrow> is_ok other"
      using g1 by (cases other) (auto simp: read_back_ok_def)
    show ?thesis
    proof (cases "read_back_ok other t")
      case False
      then show ?thesis using res p1 rb by (auto simp: request_outcome_def)
    next
      case True
      then show ?thesis using res p1 g1 q t f(1) by (cases r4) (auto simp: request_outcome_def)
    qed
  qed
qed


definition sample_monitor :: "ups_time option \<Rightarrow> (serial_link \<times> ups_sim) gate ups_monitor" where
  "sample_monitor w =
     ups_monitor_new (gate_with_writes (sample_sim w) \<lparr>wr_clock = True, wr_wake = True\<rparr>) fresh_policy"

definition sample_minute :: ups_time where
  "sample_minute = \<lparr>ut_year = 2026, ut_month = 9, ut_day = 15, ut_hour = 14, ut_minute = 30, ut_second = None\<rparr>"

lemma sample_minute_plausible: "is_plausible sample_minute"
  by (simp add: is_plausible_def sample_minute_def)

lemma sample_unit [simp]: "unit_of (sample_monitor w) = sample_sim w" "gt_writes (um_ups (sample_monitor w)) = \<lparr>wr_clock = True, wr_wake = True\<rparr>"
  by (simp_all add: sample_monitor_def ups_monitor_new_def gate_with_writes_def)

lemma sample_device [simp]:
  "device_wake (sample_sim w) = w" "device_ready (sample_sim None)" "device_ready (sample_sim (Some sample_minute))"
proof -
  show w: "device_wake (sample_sim w) = w" for w
    by (simp add: device_wake_def sample_sim_def sim_new_def sim_with_faults_def)
  have "ut_second sample_minute = None" by (simp add: sample_minute_def)
  with plausible_encodes[OF sample_minute_plausible]
  show "device_ready (sample_sim None)" "device_ready (sample_sim (Some sample_minute))"
    by (auto simp: device_ready_def w)
qed

lemma cable_stores: "\<forall>k. wake_store (cable (f k)) device_wake device_ready"
  using sim_store.wake_store_axioms by blast


section \<open>A set that times out\<close>

lemma cable_set_wake:
  assumes "cable_ready (unit_of m)" "wr_wake (gt_writes (um_ups m))" "encode_schedule t = Inr p"
    and "wake_set (\<lambda>k. cable (arrive k)) tick k t m = (r, m')"
  shows "r = (if tick k + REQUEST_DEADLINE \<le> arrive k then Inl Timeout else Inr ())"
    "device_wake (unit_of m') = Some (t\<lparr>ut_second := None\<rparr>)"
proof -
  obtain r1 l1 where c: "cable (arrive k) (unit_of m) SetWake p (tick k + REQUEST_DEADLINE) = (r1, l1)"
    by (rule prod.exhaust)
  have len: "length p \<le> 255" using encoded_length[OF assms(3)] by simp
  note rep = cable_reply[OF assms(1) len c]
  have "gate_allows (gt_writes (um_ups m)) SetWake" using assms(2) by (simp add: gate_allows_def)
  then have s: "ups_set_wake (gate_request (cable (arrive k))) (tick k) (um_ups m) t =
      (map_ok (\<lambda>_. ()) r1, (um_ups m)\<lparr>gt_inner := l1\<rparr>)"
    using rep(4) by (simp add: ups_set_wake_def assms(3) gate_request_def c)
  then have "r = map_ok (\<lambda>_. ()) r1" "unit_of m' = l1"
    using assms(4) by (auto simp: wake_set_def on_ups_def)
  moreover have "decode_schedule p = Inr (t\<lparr>ut_second := None\<rparr>)" using assms(3) schedule_codec by simp
  moreover have "\<not> fl_ignore_wake_set (si_faults (snd (unit_of m)))"
    using assms(1) by (simp add: cable_ready_def no_faults_def)
  ultimately show "r = (if tick k + REQUEST_DEADLINE \<le> arrive k then Inl Timeout else Inr ())"
    "device_wake (unit_of m') = Some (t\<lparr>ut_second := None\<rparr>)"
    using rep(2,4) by (simp_all add: device_wake_def)
qed

text \<open>A set that is answered too late is not undone: over the cable, when the device gets the set but
  its acknowledgement misses the deadline, the request is refused as failed with nothing
  scheduled, the power control is not touched, and the device is left holding the requested wake,
  neither read back nor parked.\<close>

theorem wake_set_timeout_not_parked:
  assumes "cable_ready (unit_of m)" "wr_wake (gt_writes (um_ups m))"
    and "schedule_for at now = Inr t" "tick 0 + REQUEST_DEADLINE \<le> arrive 0"
  shows "\<exists>m'. handle_request (\<lambda>k. cable (arrive k)) tick ops m (PoweroffWithWake at) pw True now =
      (Refused (SetFailed Timeout), m', pw) \<and> device_wake (unit_of m') = Some t"
proof -
  obtain p where p: "encode_schedule t = Inr p" using schedule_for_lead[OF assms(3)] by blast
  obtain r m1 where s: "wake_set (\<lambda>k. cable (arrive k)) tick 0 t m = (r, m1)" by (rule prod.exhaust)
  note c = cable_set_wake[OF assms(1,2) p s, unfolded minute_only[OF schedule_for_Inr(3)[OF assms(3)]]]
  show ?thesis using c assms(3,4) s by (simp add: handle_request_def)
qed

lemma sample_request: "schedule_for 1789482641 1789481640 = Inr sample_minute"
  by (simp add: schedule_for_def Let_def sample_second sample_minute_def)

theorem wake_set_timeout_not_parked_witness:
  "\<exists>m'. handle_request (\<lambda>_. cable 3000000000) (\<lambda>_. 4) sample_power (sample_monitor None) (PoweroffWithWake 1789482641) None True 1789481640 =
      (Refused (SetFailed Timeout), m', None) \<and> device_wake (unit_of m') = Some sample_minute"
proof (rule wake_set_timeout_not_parked[OF _ _ sample_request])
  show "cable_ready (unit_of (sample_monitor None))" "wr_wake (gt_writes (um_ups (sample_monitor None)))" by simp_all
  show "4 + REQUEST_DEADLINE \<le> 3000000000" by (simp add: REQUEST_DEADLINE_def)
qed

section \<open>The safety net leaves nothing due\<close>

fun answered_check :: "wake_log option \<Rightarrow> bool" where
  \<comment> \<open>the schedule was read, and parked where that was tried\<close>
  "answered_check (Some (WakeUnread _)) = False"
| "answered_check (Some (WakeParked _ _ r)) = is_ok r"
| "answered_check _ = True"

definition due_by :: "ups_time option \<Rightarrow> nat \<Rightarrow> bool" where
  "due_by w s \<longleftrightarrow> (\<exists>t. w = Some t \<and> (\<forall>at. to_unix_seconds t = Some at \<longrightarrow> at \<le> s))"

lemma parked_not_due: "s < 4014726120 \<Longrightarrow> \<not> due_by (Some PARK_AT) s"
  by (simp add: due_by_def park_at_far)

lemma left_not_due:
  assumes "\<forall>found why. assess w n \<noteq> Park found why"
  shows "\<not> due_by w (n + 600)"
proof (cases w)
  case (Some t)
  then obtain t' where "assess (Some t) n = Leave t'"
    using assms by (auto simp: assess_def split: option.splits if_splits)
  from leave_not_due[OF this] show ?thesis by (auto simp: due_by_def Some)
qed (simp add: due_by_def)

lemma check_wake_read:
  assumes "wake_get net tick 0 m = (Inr w, m1)"
  shows "check_wake net tick m park_allowed now before =
    (case assess w now of
       Park found why \<Rightarrow>
         if park_allowed
         then (Some (WakeParked found why (fst (park net tick 1 m1))), snd (park net tick 1 m1), SeenUnknown)
         else (Some (WakeNeedsFull found why), m1, before)
     | _ \<Rightarrow>
         (if before \<noteq> (case w of None \<Rightarrow> SeenNothing | Some t \<Rightarrow> SeenAt t)
          then Some (case w of None \<Rightarrow> NoWakeSet | Some t \<Rightarrow> WakeFar t) else None, m1,
          case w of None \<Rightarrow> SeenNothing | Some t \<Rightarrow> SeenAt t))"
  using assms by (simp add: check_wake_def Let_def split_beta split: assessment.split)

lemma check_wake_cases:
  assumes net: "\<forall>k. wake_store (net k) sched ready" and rd: "ready (unit_of m)"
    and c: "check_wake net tick m park_allowed now before = (log, m', before')"
  shows "ready (unit_of m')"
    "sched (unit_of m') = sched (unit_of m) \<or>
       park_allowed \<and> sched (unit_of m') = Some PARK_AT \<and> (\<exists>found why. assess (sched (unit_of m)) now = Park found why)"
    "park_allowed \<Longrightarrow> answered_check log \<Longrightarrow> now + 600 < 4014726120 \<Longrightarrow> \<not> due_by (sched (unit_of m')) (now + 600)"
proof -
  obtain r m1 where g: "wake_get net tick 0 m = (r, m1)" by (rule prod.exhaust)
  obtain r2 m2 where p: "park net tick 1 m1 = (r2, m2)" by (rule prod.exhaust)
  note g1 = wake_get_store[OF net[rule_format] rd g]
  then have rd1: "ready (unit_of m1)" and same: "sched (unit_of m1) = sched (unit_of m)" by simp_all
  note p1 = park_store[OF net[rule_format] rd1 p]
  let ?w = "sched (unit_of m)"
  consider (unread) e where "r = Inl e" "log = Some (WakeUnread e)" "m' = m1"
    | (left) "r = Inr ?w" "\<forall>found why. assess ?w now \<noteq> Park found why" "m' = m1"
    | (parked) found why where "park_allowed" "assess ?w now = Park found why" "m' = m2" "log = Some (WakeParked found why r2)"
    | (told) "\<not> park_allowed" "m' = m1"
  proof (cases r)
    case (Inl e)
    then show thesis using c g unread by (simp add: check_wake_def)
  next
    case (Inr w)
    then have "w = ?w" using g1 by simp
    note e = check_wake_read[OF g[unfolded Inr this], of park_allowed now before, unfolded c]
    show thesis
    proof (cases "assess ?w now")
      case (Park found why)
      then show thesis
        using e p told parked[OF _ Park] by (cases park_allowed) auto
    next
      case NoSchedule
      then show thesis using e \<open>w = ?w\<close> Inr by (intro left) auto
    next
      case (Leave t)
      then show thesis using e \<open>w = ?w\<close> Inr by (intro left) auto
    qed
  qed
  then have "ready (unit_of m') \<and>
      (sched (unit_of m') = ?w \<or>
       park_allowed \<and> sched (unit_of m') = Some PARK_AT \<and> (\<exists>found why. assess ?w now = Park found why)) \<and>
      (park_allowed \<and> answered_check log \<and> now + 600 < 4014726120 \<longrightarrow> \<not> due_by (sched (unit_of m')) (now + 600))"
  proof cases
    case unread
    show ?thesis by (simp add: unread rd1 same)
  next
    case left
    show ?thesis using left_not_due[OF left(2)] by (simp add: left(3) rd1 same)
  next
    case parked
    have "is_ok r2 \<longrightarrow> sched (unit_of m2) = Some PARK_AT" using p1 by (cases r2) auto
    moreover have "sched (unit_of m2) = ?w \<or> sched (unit_of m2) = Some PARK_AT" using p1 same by simp
    ultimately show ?thesis using p1 parked(1,2) parked_not_due by (auto simp: parked(3,4))
  next
    case told
    then show ?thesis by (simp add: rd1 same)
  qed
  then show "ready (unit_of m')"
    "sched (unit_of m') = ?w \<or>
       park_allowed \<and> sched (unit_of m') = Some PARK_AT \<and> (\<exists>found why. assess ?w now = Park found why)"
    "park_allowed \<Longrightarrow> answered_check log \<Longrightarrow> now + 600 < 4014726120 \<Longrightarrow> \<not> due_by (sched (unit_of m')) (now + 600)"
    by blast+
qed



section \<open>The clock is put right\<close>

abbreviation device_of :: "(serial_link \<times> ups_sim) gate ups_monitor \<Rightarrow> ups_sim" where
  "device_of m \<equiv> snd (unit_of m)"

lemma encode_clock_length6: "encode_clock t = Inr p \<Longrightarrow> length p = 6"
  by (auto simp: encode_clock_def rbind_Inr_iff)

lemma clock_get_cable:
  assumes "cable_ready (unit_of m)" "arrive k < tick k + REQUEST_DEADLINE"
    and "from_unix_seconds s = Some (clock_now (device_of m) (arrive k))"
    and "clock_get (\<lambda>k. cable (arrive k)) tick k m = (r, m')"
  shows "r = Inr (clock_now (device_of m) (arrive k))" "cable_ready (unit_of m')"
    "si_state (device_of m') = si_state (device_of m)" "si_clock_set_at (device_of m') = si_clock_set_at (device_of m)"
    "gt_writes (um_ups m') = gt_writes (um_ups m)"
proof -
  let ?t = "clock_now (device_of m) (arrive k)"
  obtain p where p: "encode_clock ?t = Inr p" "decode_clock p = Inr ?t"
    using clock_encodes[OF assms(3)] by blast
  obtain r1 l1 where c: "cable (arrive k) (unit_of m) GetRtc [] (tick k + REQUEST_DEADLINE) = (r1, l1)"
    by (rule prod.exhaust)
  note rep = cable_reply[OF assms(1) _ c, simplified]
  have r1: "r1 = Inr (frame_of (as_byte GetRtc) p)" using rep(4) assms(2) p(1) by (simp add: or_zeros_def)
  have len: "length p \<le> 255" using encode_clock_length6[OF p(1)] by simp
  have "ups_clock (gate_request (cable (arrive k))) (tick k) (um_ups m) = (Inr ?t, (um_ups m)\<lparr>gt_inner := l1\<rparr>)"
    using p(2) len by (simp add: ups_clock_def ups_query_def gate_request_def gate_allows_def c r1)
  then have e: "r = Inr ?t" "m' = m\<lparr>um_ups := (um_ups m)\<lparr>gt_inner := l1\<rparr>\<rparr>"
    using assms(4) by (simp_all add: clock_get_def on_ups_def)
  show "r = Inr (clock_now (device_of m) (arrive k))" by (rule e(1))
  show "cable_ready (unit_of m')" "si_state (device_of m') = si_state (device_of m)"
    "si_clock_set_at (device_of m') = si_clock_set_at (device_of m)" "gt_writes (um_ups m') = gt_writes (um_ups m)"
    using rep by (simp_all add: e(2))
qed

lemma clock_set_cable:
  assumes "cable_ready (unit_of m)" "arrive k < tick k + REQUEST_DEADLINE" "wr_clock (gt_writes (um_ups m))"
    and "from_unix_seconds s = Some t" "clock_set (\<lambda>k. cable (arrive k)) tick k t m = (r, m')"
  shows "r = Inr ()" "cable_ready (unit_of m')" "uss_clock (si_state (device_of m')) = t"
    "si_clock_set_at (device_of m') = arrive k" "device_wake (unit_of m') = device_wake (unit_of m)"
proof -
  obtain p where p: "encode_clock t = Inr p" "decode_clock p = Inr t"
    using clock_encodes[OF assms(4)] by blast
  obtain r1 l1 where c: "cable (arrive k) (unit_of m) SetRtc p (tick k + REQUEST_DEADLINE) = (r1, l1)"
    by (rule prod.exhaust)
  have len: "length p \<le> 255" using encode_clock_length6[OF p(1)] by simp
  note rep = cable_reply[OF assms(1) len c]
  have nf: "\<not> fl_ignore_clock_set (si_faults (device_of m))" using assms(1) by (simp add: cable_ready_def no_faults_def)
  have r1: "r1 = Inr (frame_of (as_byte SetRtc) [])" using rep(4) assms(2) by simp
  have "gate_allows (gt_writes (um_ups m)) SetRtc" using assms(3) by (simp add: gate_allows_def)
  then have "ups_set_clock (gate_request (cable (arrive k))) (tick k) (um_ups m) t = (Inr (), (um_ups m)\<lparr>gt_inner := l1\<rparr>)"
    by (simp add: ups_set_clock_def p(1) gate_request_def c r1)
  then have e: "r = Inr ()" "m' = m\<lparr>um_ups := (um_ups m)\<lparr>gt_inner := l1\<rparr>\<rparr>"
    using assms(5) by (simp_all add: clock_set_def on_ups_def)
  show "r = Inr ()" by (rule e(1))
  show "cable_ready (unit_of m')" "uss_clock (si_state (device_of m')) = t"
    "si_clock_set_at (device_of m') = arrive k" "device_wake (unit_of m') = device_wake (unit_of m)"
    using rep p(2) nf by (simp_all add: e(2) device_wake_def)
qed

lemma clock_now_set:
  assumes "uss_clock (si_state d) = t" "si_clock_set_at d = at" "from_unix_seconds s = Some t"
    and "from_unix_seconds (s + (later - at) div 1000000000) = Some t'"
  shows "clock_now d later = t'"
proof -
  have "to_unix_seconds t = Some s" using from_unix_to_unix[OF assms(3)] by blast
  then show ?thesis by (simp add: clock_now_def assms)
qed

lemma check_clock_sets:
  assumes "clock_get net tick 0 m = (Inr h, m1)" "judge h (wall 0) True = Correct ofs"
    and "from_unix_seconds (wall 1) = Some t" "clock_set net tick 1 t m1 = (Inr (), m2)"
    and "clock_get net tick 2 m2 = (Inr t', m3)" "judge t' (wall 2) True = InSync after_s"
  shows "check_clock net tick wall m True True =
    (Some \<lparr>dr_unix = wall 0, dr_offset_s = ofs, dr_action = Corrected after_s\<rparr>, m3)"
  using assms(2,3) by (simp add: check_clock_def Let_def assms(1,4,5,6) del: One_nat_def)

text \<open>A clock that is off is put right: over the cable, with writing allowed, the system clock
  synchronised and every request served in time, a device whose clock is more than two seconds
  from the system clock is set to the system time, and the check records the offset it found and,
  as the correction's result, the difference left between the two clocks when it is read back, as
  long as that is within two seconds; the wake schedule is not touched.\<close>

theorem clock_check_corrects:
  assumes "cable_ready (unit_of m)" "wr_clock (gt_writes (um_ups m))" "\<forall>k. arrive k < tick k + REQUEST_DEADLINE"
    and "from_unix_seconds h = Some (clock_now (device_of m) (arrive 0))"
    and "2 < \<bar>int h - int (wall 0)\<bar>" "wall 0 < 2 ^ 41"
    and "from_unix_seconds (wall 1) = Some t"
    and "from_unix_seconds (wall 1 + (arrive 2 - arrive 1) div 1000000000) = Some t'"
    and "left = int (wall 1 + (arrive 2 - arrive 1) div 1000000000) - int (wall 2)" "\<bar>left\<bar> \<le> 2" "wall 2 < 2 ^ 41"
  shows "\<exists>m'. check_clock (\<lambda>k. cable (arrive k)) tick wall m True True =
      (Some \<lparr>dr_unix = wall 0, dr_offset_s = int h - int (wall 0), dr_action = Corrected left\<rparr>, m') \<and>
    uss_clock (si_state (device_of m')) = t \<and> si_clock_set_at (device_of m') = arrive 1 \<and>
    device_wake (unit_of m') = device_wake (unit_of m)"
proof -
  let ?net = "\<lambda>k. cable (arrive k)"
  note d = assms(3)[rule_format]
  obtain r1 m1 where g: "clock_get ?net tick 0 m = (r1, m1)" by (rule prod.exhaust)
  note g1 = clock_get_cable[OF assms(1) d assms(4) g]
  have w1: "wr_clock (gt_writes (um_ups m1))" using g1(5) assms(2) by simp
  obtain r2 m2 where s: "clock_set ?net tick 1 t m1 = (r2, m2)" by (rule prod.exhaust)
  note s1 = clock_set_cable[OF g1(2) d w1 assms(7) s]
  have n: "clock_now (device_of m2) (arrive 2) = t'" by (rule clock_now_set[OF s1(3,4) assms(7,8)])
  obtain r3 m3 where g': "clock_get ?net tick 2 m2 = (r3, m3)" by (rule prod.exhaust)
  note g2 = clock_get_cable[OF s1(2) d assms(8)[folded n] g', unfolded n]
  have "to_unix_seconds (clock_now (device_of m) (arrive 0)) = Some h" using from_unix_to_unix[OF assms(4)] by blast
  then have j1: "judge (clock_now (device_of m) (arrive 0)) (wall 0) True = Correct (int h - int (wall 0))"
    using judge_expressed assms(5,6) by simp
  have "to_unix_seconds t' = Some (wall 1 + (arrive 2 - arrive 1) div 1000000000)" using from_unix_to_unix[OF assms(8)] by blast
  then have j2: "judge t' (wall 2) True = InSync left"
    using judge_expressed[of t' _ "wall 2" True] assms(9,10,11) by simp
  have "check_clock ?net tick wall m True True =
      (Some \<lparr>dr_unix = wall 0, dr_offset_s = int h - int (wall 0), dr_action = Corrected left\<rparr>, m3)"
    by (rule check_clock_sets[OF g[unfolded g1(1)] j1 assms(7) s[unfolded s1(1)] g'[unfolded g2(1)] j2])
  moreover have "device_wake (unit_of m3) = device_wake (unit_of m)"
    using g1(3) g2(3) s1(5) by (simp add: device_wake_def)
  ultimately show ?thesis using g2(3,4) s1(3,4) by simp
qed

theorem clock_check_corrects_witness:
  "\<exists>m'. check_clock (\<lambda>k. cable (5 + from_secs k)) (\<lambda>k. from_secs k) (\<lambda>k. 1789482000 + k) (sample_monitor None) True True =
      (Some \<lparr>dr_unix = 1789482000, dr_offset_s = 600, dr_action = Corrected 0\<rparr>, m') \<and> device_wake (unit_of m') = None"
proof -
  let ?t = "\<lambda>m s. stamp 2026 9 15 14 m (Some s)"
  have f: "from_unix_seconds (1789482000 + 1) = Some (?t 20 1)"
    by (rule to_unix_from_unix; simp add: count_back)
  have f': "from_unix_seconds (1789482000 + 1 + (5 + from_secs 2 - (5 + from_secs 1)) div 1000000000) = Some (?t 20 2)"
    by (rule to_unix_from_unix; simp add: count_back)
  have "to_unix_seconds (?t 30 0) = Some 1789482600" using from_unix_to_unix[OF sample_second] by blast
  then have n: "clock_now (device_of (sample_monitor None)) (5 + from_secs 0) = ?t 30 0"
    by (simp add: clock_now_def sample_sim_def sim_new_def sim_with_faults_def ups_state_default_def sample_second)
  have "\<exists>m'. check_clock (\<lambda>k. cable (5 + from_secs k)) (\<lambda>k. from_secs k) (\<lambda>k. 1789482000 + k) (sample_monitor None) True True =
      (Some \<lparr>dr_unix = 1789482000 + 0, dr_offset_s = int 1789482600 - int (1789482000 + 0), dr_action = Corrected 0\<rparr>, m') \<and>
      uss_clock (si_state (device_of m')) = ?t 20 1 \<and> si_clock_set_at (device_of m') = 5 + from_secs 1 \<and>
      device_wake (unit_of m') = device_wake (unit_of (sample_monitor None))"
    by (rule clock_check_corrects[where arrive = "\<lambda>k. 5 + from_secs k" and tick = "\<lambda>k. from_secs k" and
          wall = "\<lambda>k. 1789482000 + k" and m = "sample_monitor None", OF _ _ _ sample_second[folded n] _ _ f f']) (simp_all add: REQUEST_DEADLINE_def)
  then show ?thesis by auto
qed

end
