(* ===== verification/UpsLoop.thy ===== *)
theory UpsLoop
  imports UpsThread
begin

text \<open>
  The loop of the daemon's UPS thread (\<open>run\<close> in \<open>crates/argon-daemon/src/ups.rs\<close>): finding and
  opening the port, one turn of the loop over the thread's state, and what holds over any run of
  turns. A turn takes from its surroundings one record, \<open>turn_env\<close>: what discovery, the port, the
  clocks, logind and the file system do during it; the system time is read once for the poll, the
  status and the records of the turn. The sleep between turns has no effect on the
  state; a control request that arrives is in the queue of the turn that finds it.
\<close>

section \<open>Finding the port\<close>

datatype 'l open_result = Opened 'l string | NotFound | OpenFailed | Held

definition REOPEN_AFTER :: nat where "REOPEN_AFTER = 3"

text \<open>\<open>open_link\<close>: the result, and whether an error has been logged. Discovery, the existence of a
  path, the processes that hold it and the opening are parameters.\<close>

definition open_link ::
  "string option \<Rightarrow> string option \<Rightarrow> (string \<Rightarrow> bool) \<Rightarrow> (string \<Rightarrow> nat list) \<Rightarrow> (string \<Rightarrow> hal_error + 'l) \<Rightarrow> bool \<Rightarrow>
   'l open_result \<times> bool"
where
  "open_link port discovered path_exists owners opens error_logged =
     (case (case port of Some p \<Rightarrow> Some p | None \<Rightarrow> discovered) of
        None \<Rightarrow> (NotFound, True)
      | Some path \<Rightarrow>
          if \<not> path_exists path then (NotFound, True)
          else if owners path \<noteq> [] then (Held, error_logged)
          else case opens path of
                 Inr link \<Rightarrow> (Opened link path, error_logged)
               | Inl _ \<Rightarrow> (OpenFailed, True))"

definition ups_identify :: "(string option \<times> string option \<times> string option) option \<Rightarrow> string \<Rightarrow> systime \<Rightarrow> seen_ups" where
  \<comment> \<open>\<open>identify\<close>, from the product, manufacturer and serial strings discovery found\<close>
  "ups_identify dev path now =
     \<lparr>su_name = (case dev of
                   Some (Some product, _, _) \<Rightarrow> product
                 | Some (None, Some manufacturer, _) \<Rightarrow> manufacturer
                 | _ \<Rightarrow> path),
      su_serial = (case dev of Some (_, _, serial) \<Rightarrow> serial | None \<Rightarrow> None),
      su_last_seen = now\<rparr>"

section \<open>The pieces of a turn\<close>

definition uptime_or_zero :: "string + duration \<Rightarrow> bool \<Rightarrow> duration \<times> bool" where
  "uptime_or_zero uptime error_logged = (case uptime of Inr u \<Rightarrow> (u, False) | Inl _ \<Rightarrow> (0, True))"

definition report_cycle :: "cycle \<Rightarrow> bool \<Rightarrow> bool" where
  \<comment> \<open>the flag that a held shutdown has been logged\<close>
  "report_cycle cy held_logged =
     (case dc_advice (po_decision (cy_poll cy)) of HeldForUptime _ \<Rightarrow> True | _ \<Rightarrow> False)"

definition absence :: "seen_ups option \<Rightarrow> systime \<Rightarrow> ups_status" where
  "absence remembered now =
     \<lparr>us_updated = now, us_level = (if remembered \<noteq> None then MISSING else ABSENT),
      us_percent = None, us_shutdown_at = None,
      us_missing = map_option (\<lambda>r. \<lparr>mu_name = su_name r, mu_last_seen = Some (su_last_seen r)\<rparr>) remembered\<rparr>"

definition log_absence :: "seen_ups option \<Rightarrow> bool \<Rightarrow> bool" where
  "log_absence remembered missing_logged = (case remembered of Some _ \<Rightarrow> True | None \<Rightarrow> False)"

definition remember :: "systime \<Rightarrow> bool \<Rightarrow> seen_ups \<Rightarrow> recorder \<Rightarrow> string option \<Rightarrow> seen_ups \<times> recorder \<times> string option" where
  \<comment> \<open>the unit, the recorder and the text of the record; \<open>saved\<close> is whether writing it succeeds\<close>
  "remember now saved u rec file =
     (let u1 = u\<lparr>su_last_seen := now\<rparr>
      in if \<not> record_due rec u1 now then (u1, rec, file)
         else (u1, record_wrote rec u1 now, if saved then Some (seen_to_text u1) else file))"

definition publish_logged :: "bool \<Rightarrow> bool \<Rightarrow> bool" where
  "publish_logged written error_logged = (\<not> written)"

section \<open>State and surroundings\<close>

record ('l, 'p) ups_thread =
  th_monitor :: "'l gate ups_monitor option"
  th_coordinator :: "'p coordinator"
  th_connected :: "seen_ups option"
  th_recorder :: recorder
  th_next_clock :: instant
  th_next_wake :: instant
  th_wake_logged :: wake_seen
  th_missing_logged :: bool
  th_state_error_logged :: bool
  th_uptime_error_logged :: bool
  th_open_error_logged :: bool
  th_held_logged :: bool
  th_queue :: "control_request list"
  th_latest :: "ups_status option"
  th_seen_file :: "string option"
  th_clock_log :: string

record ('l, 'p) turn_env =
  te_port :: "string option"
  te_discovered :: "string option"
  te_exists :: "string \<Rightarrow> bool"
  te_owners :: "string \<Rightarrow> nat list"
  te_opens :: "string \<Rightarrow> hal_error + 'l"
  te_device :: "(string option \<times> string option \<times> string option) option"
  te_net :: "'l net"
  te_tick :: "nat \<Rightarrow> instant"
  te_inst :: "nat \<Rightarrow> instant"
  te_now :: systime
  te_wall :: "nat \<Rightarrow> nat"
  te_uptime :: "string + duration"
  te_ops :: "'p power_ops"
  te_synced :: bool
  te_saved :: bool
  te_written :: bool
  te_arrived :: "control_request list"

text \<open>What the daemon was started with, and what a turn leaves for others to see.\<close>

record thread_config =
  tc_policy :: battery_policy
  tc_writes :: writes
  tc_records :: bool \<comment> \<open>whether systemd gave a state directory\<close>

record turn_report =
  tr_opened :: bool
  tr_cycle :: "cycle option"
  tr_published :: "ups_status option"
  tr_answers :: "control_response list"

definition thread_new :: "'p \<Rightarrow> duration \<Rightarrow> bool \<Rightarrow> instant \<Rightarrow> string option \<Rightarrow> string \<Rightarrow> ('l, 'p) ups_thread" where
  "thread_new pw delay dry_run now seen_file clock_log =
     \<lparr>th_monitor = None, th_coordinator = coordinator_new pw delay dry_run, th_connected = None,
      th_recorder = recorder_new, th_next_clock = now, th_next_wake = now, th_wake_logged = SeenUnknown,
      th_missing_logged = False, th_state_error_logged = False, th_uptime_error_logged = False,
      th_open_error_logged = False, th_held_logged = False, th_queue = [], th_latest = None,
      th_seen_file = seen_file, th_clock_log = clock_log\<rparr>"

section \<open>A turn\<close>

text \<open>Opening, when there is no monitor. A parser that panics on the record ends the thread: \<open>None\<close>.\<close>

definition shift :: "nat \<Rightarrow> (nat \<Rightarrow> 'a) \<Rightarrow> nat \<Rightarrow> 'a" where
  "shift k f i = f (k + i)"

definition load_seen :: "string option \<Rightarrow> seen_ups option option" where
  "load_seen file = (case file of None \<Rightarrow> Some None | Some text \<Rightarrow> seen_parse text)"

definition th_publish :: "('l, 'p) turn_env \<Rightarrow> ups_status \<Rightarrow> ('l, 'p) ups_thread \<Rightarrow> ('l, 'p) ups_thread" where
  "th_publish e s th =
     th\<lparr>th_latest := Some s,
        th_state_error_logged := publish_logged (te_written e) (th_state_error_logged th)\<rparr>"

definition th_open ::
  "thread_config \<Rightarrow> ('l, 'p) turn_env \<Rightarrow> ('l, 'p) ups_thread \<Rightarrow> ('l open_result \<times> ups_status option \<times> ('l, 'p) ups_thread) option"
where
  "th_open cfg e th =
     (let (found, logged) = open_link (te_port e) (te_discovered e) (te_exists e) (te_owners e) (te_opens e)
            (th_open_error_logged th);
          th1 = th\<lparr>th_open_error_logged := logged\<rparr>
      in case found of
           Opened link path \<Rightarrow>
             Some (found, None, th1\<lparr>
               th_monitor := Some (ups_monitor_new (gate_with_writes link (tc_writes cfg)) (tc_policy cfg)),
               th_connected := Some (ups_identify (te_device e) path (te_now e)),
               th_open_error_logged := False, th_missing_logged := False\<rparr>)
         | NotFound \<Rightarrow>
             map_option (\<lambda>remembered.
               let status = absence remembered (te_now e)
               in (found, Some status,
                   th_publish e status (th1\<lparr>th_missing_logged := log_absence remembered (th_missing_logged th1)\<rparr>)))
               (if tc_records cfg then load_seen (th_seen_file th1) else Some None)
         | _ \<Rightarrow> Some (found, None, th1))"

text \<open>The poll, and the housekeeping after a poll that succeeded.\<close>

definition th_remember :: "thread_config \<Rightarrow> ('l, 'p) turn_env \<Rightarrow> ('l, 'p) ups_thread \<Rightarrow> ('l, 'p) ups_thread" where
  "th_remember cfg e th =
     (case (th_connected th, tc_records cfg) of
        (Some u, True) \<Rightarrow>
          let (u1, rec1, file1) = remember (te_now e) (te_saved e) u (th_recorder th) (th_seen_file th)
          in th\<lparr>th_connected := Some u1, th_recorder := rec1, th_seen_file := file1\<rparr>
      | _ \<Rightarrow> th)"

definition th_clock ::
  "thread_config \<Rightarrow> ('l, 'p) turn_env \<Rightarrow> 'l gate ups_monitor \<times> ('l, 'p) ups_thread \<Rightarrow>
   'l gate ups_monitor \<times> ('l, 'p) ups_thread"
where
  "th_clock cfg e mt =
     (let (m, th) = mt
      in if th_next_clock th \<le> te_inst e 0 then
           let (again, m1, log1) = check_and_record_clock (shift 1 (te_net e)) (shift 1 (te_tick e)) (te_wall e)
                 drift_append m (wr_clock (tc_writes cfg)) (te_synced e)
                 (if tc_records cfg then Some (th_clock_log th) else None)
           in (m1, th\<lparr>th_next_clock := te_inst e 1 + again,
                      th_clock_log := (case log1 of Some text \<Rightarrow> text | None \<Rightarrow> th_clock_log th)\<rparr>)
         else (m, th))"

definition th_wake ::
  "thread_config \<Rightarrow> ('l, 'p) turn_env \<Rightarrow> 'l gate ups_monitor \<times> ('l, 'p) ups_thread \<Rightarrow>
   'l gate ups_monitor \<times> ('l, 'p) ups_thread"
where
  "th_wake cfg e mt =
     (let (m, th) = mt
      in if th_next_wake th \<le> te_inst e 2 then
           let (log, m1, before) = check_wake (shift 4 (te_net e)) (shift 4 (te_tick e)) m
                 (wr_wake (tc_writes cfg)) (te_wall e 3) (th_wake_logged th)
           in (m1, th\<lparr>th_next_wake := te_inst e 3 + CHECK_EVERY, th_wake_logged := before\<rparr>)
         else (m, th))"

definition th_house ::
  "thread_config \<Rightarrow> ('l, 'p) turn_env \<Rightarrow> 'l gate ups_monitor \<Rightarrow> ('l, 'p) ups_thread \<Rightarrow> ('l, 'p) ups_thread"
where
  "th_house cfg e m th =
     (let (m1, th1) = th_wake cfg e (th_clock cfg e (m, th_remember cfg e th)) in th1\<lparr>th_monitor := Some m1\<rparr>)"

definition th_poll ::
  "thread_config \<Rightarrow> ('l, 'p) turn_env \<Rightarrow> 'l gate ups_monitor \<Rightarrow> ('l, 'p) ups_thread \<Rightarrow> cycle \<times> ('l, 'p) ups_thread"
where
  "th_poll cfg e m th =
     (let (uptime, logged) = uptime_or_zero (te_uptime e) (th_uptime_error_logged th);
          (cy, m1, c) = service_step (ups_poll (gate_request (te_net e 0)) (te_tick e 0)) (te_ops e) m
                          (th_coordinator th) uptime (te_now e) (te_now e);
          th1 = th\<lparr>th_uptime_error_logged := logged, th_coordinator := c,
                   th_held_logged := report_cycle cy (th_held_logged th)\<rparr>;
          th2 = (if REOPEN_AFTER \<le> po_consecutive_failures (cy_poll cy) then th1\<lparr>th_monitor := None\<rparr>
                 else if po_error (cy_poll cy) = None then th_house cfg e m1 th1
                 else th1\<lparr>th_monitor := Some m1\<rparr>)
      in (cy, th_publish e (cy_status cy) th2))"

text \<open>\<open>serve_requests\<close>: every waiting request, in order, each with requests and a clock of its own. Its
  \<open>Logind\<close> is the one the coordinator uses.\<close>

fun serve_requests ::
  "bool \<Rightarrow> 'l net \<Rightarrow> (nat \<Rightarrow> instant) \<Rightarrow> 'p power_ops \<Rightarrow> (nat \<Rightarrow> nat) \<Rightarrow> control_request list \<Rightarrow>
   'l gate ups_monitor option \<Rightarrow> 'p \<Rightarrow> control_response list \<times> 'l gate ups_monitor option \<times> 'p"
where
  "serve_requests wake_writes net tick ops wall [] m pw = ([], m, pw)"
| "serve_requests wake_writes net tick ops wall (req # reqs) m pw =
     (let (answer, m1, pw1) =
            (case m of
               Some mon \<Rightarrow>
                 (let (a, mon1, pw1) = handle_request net tick ops mon req pw wake_writes (wall 0) in (a, Some mon1, pw1))
             | None \<Rightarrow> (Refused Unreachable, m, pw));
          (answers, m2, pw2) = serve_requests wake_writes (shift 3 net) (shift 3 tick) ops (shift 1 wall) reqs m1 pw1
      in (answer # answers, m2, pw2))"

definition th_serve ::
  "thread_config \<Rightarrow> ('l, 'p) turn_env \<Rightarrow> ('l, 'p) ups_thread \<Rightarrow> control_response list \<times> ('l, 'p) ups_thread"
where
  "th_serve cfg e th =
     (let (answers, m, pw) = serve_requests (wr_wake (tc_writes cfg)) (shift 6 (te_net e)) (shift 6 (te_tick e))
            (te_ops e) (shift 4 (te_wall e)) (th_queue th) (th_monitor th) (sc_power (th_coordinator th))
      in (answers, th\<lparr>th_queue := [], th_monitor := m, th_coordinator := (th_coordinator th)\<lparr>sc_power := pw\<rparr>\<rparr>))"

definition th_start ::
  "thread_config \<Rightarrow> ('l, 'p) turn_env \<Rightarrow> ('l, 'p) ups_thread \<Rightarrow> ('l open_result \<times> ups_status option \<times> ('l, 'p) ups_thread) option"
where
  "th_start cfg e th = (if th_monitor th = None then th_open cfg e th else Some (OpenFailed, None, th))"

definition th_poll_if ::
  "thread_config \<Rightarrow> ('l, 'p) turn_env \<Rightarrow> ('l, 'p) ups_thread \<Rightarrow> cycle option \<times> ('l, 'p) ups_thread"
where
  "th_poll_if cfg e th =
     (case th_monitor th of
        Some m \<Rightarrow> let (cy, th1) = th_poll cfg e m th in (Some cy, th1)
      | None \<Rightarrow> (None, th))"

definition th_rest ::
  "thread_config \<Rightarrow> ('l, 'p) turn_env \<Rightarrow> 'l open_result \<Rightarrow> ups_status option \<Rightarrow> ('l, 'p) ups_thread \<Rightarrow>
   turn_report \<times> ('l, 'p) ups_thread"
where
  "th_rest cfg e found status th =
     (if found = Held
      then (\<lparr>tr_opened = False, tr_cycle = None, tr_published = None, tr_answers = []\<rparr>, th)
      else
        let (cy, th1) = th_poll_if cfg e th; (answers, th2) = th_serve cfg e th1
        in (\<lparr>tr_opened = (case found of Opened _ _ \<Rightarrow> True | _ \<Rightarrow> False), tr_cycle = cy,
             tr_published = (case cy of Some c \<Rightarrow> Some (cy_status c) | None \<Rightarrow> status),
             tr_answers = answers\<rparr>, th2))"

definition thread_turn ::
  "thread_config \<Rightarrow> ('l, 'p) turn_env \<Rightarrow> ('l, 'p) ups_thread \<Rightarrow> (turn_report \<times> ('l, 'p) ups_thread) option"
where
  "thread_turn cfg e th =
     map_option (\<lambda>(found, status, th1). th_rest cfg e found status th1)
       (th_start cfg e (th\<lparr>th_queue := th_queue th @ te_arrived e\<rparr>))"

section \<open>What the pieces leave alone\<close>

text \<open>Every exchange with the unit keeps the policy and its failure count, and the writes the gate
  permits.\<close>

definition kept :: "'l gate ups_monitor \<Rightarrow> 'l gate ups_monitor \<Rightarrow> bool" where
  "kept m m' \<longleftrightarrow> um_watch m' = um_watch m \<and> gt_writes (um_ups m') = gt_writes (um_ups m)"

lemma kept_refl [simp]: "kept m m"
  by (simp add: kept_def)

lemma kept_trans [trans]: "kept a b \<Longrightarrow> kept b c \<Longrightarrow> kept a c"
  by (simp add: kept_def)

lemma gate_keeps [simp]: "gt_writes (snd (gate_request link g c p d)) = gt_writes g"
  by (simp add: gate_request_def split_beta)

lemma kept_get [simp]: "kept m (snd (wake_get net tick k m))" "kept m (snd (clock_get net tick k m))"
  by (simp_all add: kept_def wake_get_def clock_get_def on_ups_def ups_wake_def ups_clock_def ups_query_def split_beta)

lemma kept_set [simp]: "kept m (snd (wake_set net tick k t m))" "kept m (snd (clock_set net tick k t m))"
  by (simp_all add: kept_def wake_set_def clock_set_def on_ups_def ups_set_wake_def ups_set_clock_def split_beta
      split: sum.split)

lemma kept_park [simp]: "kept m (snd (park net tick k m))"
  by (simp add: park_def)

lemmas kept_exchange = kept_get kept_set kept_park

lemma kept_exchanges:
  "wake_get net tick k m = (x, m') \<Longrightarrow> kept m m'" "clock_get net tick k m = (y, m') \<Longrightarrow> kept m m'"
  "wake_set net tick k t m = (z, m') \<Longrightarrow> kept m m'" "clock_set net tick k t m = (z, m') \<Longrightarrow> kept m m'"
  "park net tick k m = (z, m') \<Longrightarrow> kept m m'"
  using kept_exchange by (metis snd_conv)+

lemma kept_request: "handle_request net tick ops m req pw w now = (a, m', pw') \<Longrightarrow> kept m m'"
  by (auto simp: handle_request_def dest!: kept_exchanges split: control_request.splits if_splits sum.splits prod.splits
      intro: kept_trans)

lemma kept_check_wake: "check_wake net tick m p now b = (l, m', b') \<Longrightarrow> kept m m'"
  by (auto simp: check_wake_def Let_def dest!: kept_exchanges split: if_splits sum.splits prod.splits assessment.splits
      intro: kept_trans)

lemma kept_check_clock: "check_clock net tick wall m cw sy = (d, m') \<Longrightarrow> kept m m'"
  by (auto simp: check_clock_def Let_def dest!: kept_exchanges
      split: if_splits sum.splits prod.splits verdict.splits option.splits intro: kept_trans)

lemma kept_record_clock: "check_and_record_clock net tick wall w m cw sy rec = (d, m', rec') \<Longrightarrow> kept m m'"
  by (auto simp: check_and_record_clock_def dest: kept_check_clock split: prod.splits)

lemma serve_kept:
  "serve_requests w net tick ops wall reqs m pw = (as, m', pw') \<Longrightarrow>
     length as = length reqs \<and> (m = None \<longrightarrow> m' = None) \<and> (\<forall>x. m = Some x \<longrightarrow> (\<exists>y. m' = Some y \<and> kept x y))"
proof (induction reqs arbitrary: net tick wall m pw as m' pw')
  case (Cons req reqs)
  obtain a m1 pw1 where h: "(case m of Some mon \<Rightarrow>
        (let (a, mon1, pw1) = handle_request net tick ops mon req pw w (wall 0) in (a, Some mon1, pw1))
      | None \<Rightarrow> (Refused Unreachable, m, pw)) = (a, m1, pw1)" by (metis prod.exhaust)
  obtain as2 m2 pw2 where r: "serve_requests w (shift 3 net) (shift 3 tick) ops (shift 1 wall) reqs m1 pw1 = (as2, m2, pw2)"
    by (metis prod.exhaust)
  have "as = a # as2" "m' = m2" using Cons.prems h r by simp_all
  moreover have "(m = None \<longrightarrow> m1 = None) \<and> (\<forall>x. m = Some x \<longrightarrow> (\<exists>y. m1 = Some y \<and> kept x y))"
    using h kept_request by (cases m) (auto split: prod.splits)
  ultimately show ?case using Cons.IH[OF r] kept_trans by (cases m) auto
qed simp

section \<open>Runs of the loop\<close>

fun thread_run ::
  "thread_config \<Rightarrow> ('l, 'p) turn_env list \<Rightarrow> ('l, 'p) ups_thread \<Rightarrow> (turn_report list \<times> ('l, 'p) ups_thread) option"
where
  "thread_run cfg [] th = Some ([], th)"
| "thread_run cfg (e # es) th =
     (case thread_turn cfg e th of
        None \<Rightarrow> None
      | Some (r, th1) \<Rightarrow> map_option (\<lambda>(rs, th2). (r # rs, th2)) (thread_run cfg es th1))"

text \<open>What the policy has seen since the port was last opened.\<close>

definition uptime_read :: "('l, 'p) turn_env \<Rightarrow> duration" where
  "uptime_read e = (case te_uptime e of Inr u \<Rightarrow> u | Inl _ \<Rightarrow> 0)"

definition seen_after :: "polled list \<Rightarrow> ('l, 'p) turn_env \<times> turn_report \<Rightarrow> polled list" where
  "seen_after h er =
     (if tr_opened (snd er) then [] else h) @
     (case tr_cycle (snd er) of
        Some cy \<Rightarrow> [(observation_of (po_battery (cy_poll cy)), uptime_read (fst er))]
      | None \<Rightarrow> [])"

definition since_open :: "('l, 'p) turn_env list \<Rightarrow> turn_report list \<Rightarrow> polled list" where
  "since_open es rs = foldl seen_after [] (zip es rs)"

text \<open>The invariant of the thread: a monitor's policy has seen exactly the polls since the port was
  opened, fewer than three of its last reads have failed, and its gate is the configured one.\<close>

definition thread_inv :: "thread_config \<Rightarrow> polled list \<Rightarrow> ('l, 'p) ups_thread \<Rightarrow> bool" where
  "thread_inv cfg h th \<longleftrightarrow>
     (\<forall>m. th_monitor th = Some m \<longrightarrow>
        wt_policy (um_watch m) = observe_all (tc_policy cfg) h \<and>
        wt_failures (um_watch m) < REOPEN_AFTER \<and> gt_writes (um_ups m) = tc_writes cfg)"

lemma thread_inv_kept:
  "thread_inv cfg h th \<Longrightarrow> th_monitor th = Some m \<Longrightarrow> th_monitor th' = Some m' \<Longrightarrow> kept m m' \<Longrightarrow> thread_inv cfg h th'"
  by (simp add: thread_inv_def kept_def)

lemma house_monitor:
  "\<exists>m'. th_monitor (th_house cfg e m th) = Some m' \<and> kept m m'"
proof -
  have c: "kept m (fst (th_clock cfg e (m, th)))" for m and th :: "('a, 'b) ups_thread"
    using kept_record_clock by (auto simp: th_clock_def split: prod.splits)
  have w: "kept m (fst (th_wake cfg e (m, th)))" for m and th :: "('a, 'b) ups_thread"
    using kept_check_wake by (auto simp: th_wake_def split: prod.splits)
  obtain m1 th1 where 1: "th_clock cfg e (m, th_remember cfg e th) = (m1, th1)" by (rule prod.exhaust)
  obtain m2 th2 where 2: "th_wake cfg e (m1, th1) = (m2, th2)" by (rule prod.exhaust)
  have "kept m m2" using c[of m "th_remember cfg e th"] w[of m1 th1] 1 2 kept_trans by auto
  then show ?thesis using 1 2 by (simp add: th_house_def)
qed

lemma poll_gate: "gt_writes (um_ups (fst (ups_poll (gate_request link) t m u))) = gt_writes (um_ups m)"
  by (simp add: ups_poll_def ups_battery_def ups_query_def split_beta)

text \<open>A poll adds what it saw to the policy's history, and its decision is the policy's.\<close>

lemma poll_monitor:
  assumes "th_poll cfg e m th = (cy, th')" "wt_policy (um_watch m) = observe_all (tc_policy cfg) h"
    and "gt_writes (um_ups m) = tc_writes cfg"
  shows "thread_inv cfg (h @ [(observation_of (po_battery (cy_poll cy)), uptime_read e)]) th'"
    "po_decision (cy_poll cy) =
       snd (observe (observe_all (tc_policy cfg) h) (observation_of (po_battery (cy_poll cy))) (uptime_read e))"
    "fst (on_decision (te_ops e) (te_now e) (po_decision (cy_poll cy)) (th_coordinator th)) = cy_action cy"
proof -
  let ?poll = "ups_poll (gate_request (te_net e 0)) (te_tick e 0)"
  have up: "uptime_or_zero (te_uptime e) b = (uptime_read e, u)" if "u = (\<exists>x. te_uptime e = Inl x)" for b u
    using that by (cases "te_uptime e") (auto simp: uptime_or_zero_def uptime_read_def)
  obtain m1 p where p: "?poll m (uptime_read e) = (m1, p)" by (rule prod.exhaust)
  obtain a c where a: "on_decision (te_ops e) (te_now e) (po_decision p) (th_coordinator th) = (a, c)" by (rule prod.exhaust)
  have cy: "cy_poll cy = p" "cy_action cy = a" and th': "th_monitor th' = None \<and> REOPEN_AFTER \<le> po_consecutive_failures p \<or>
      po_consecutive_failures p < REOPEN_AFTER \<and> (\<exists>m'. th_monitor th' = Some m' \<and> kept m1 m')"
    using assms(1) p a house_monitor
    by (auto simp: th_poll_def up service_step_def th_publish_def Let_def split: if_splits)
  have w: "wt_policy (um_watch m1) = fst (observe (wt_policy (um_watch m)) (observation_of (po_battery p)) (uptime_read e))"
    "po_decision p = snd (observe (wt_policy (um_watch m)) (observation_of (po_battery p)) (uptime_read e))"
    using ups_mon.polls[OF p] by simp_all
  have f: "po_consecutive_failures p = wt_failures (um_watch m1)"
    using p watch_observe_policy(4) by (auto simp: ups_poll_def split: prod.splits)
  have g: "gt_writes (um_ups m1) = tc_writes cfg" using poll_gate[of "te_net e 0" "te_tick e 0" m "uptime_read e"] p assms(3) by simp
  show "thread_inv cfg (h @ [(observation_of (po_battery (cy_poll cy)), uptime_read e)]) th'"
    using th' w(1) f g assms(2) by (auto simp: thread_inv_def kept_def cy observe_all_append)
  show "po_decision (cy_poll cy) =
       snd (observe (observe_all (tc_policy cfg) h) (observation_of (po_battery (cy_poll cy))) (uptime_read e))"
    using w(2) assms(2) by (simp add: cy)
  show "fst (on_decision (te_ops e) (te_now e) (po_decision (cy_poll cy)) (th_coordinator th)) = cy_action cy"
    using a by (simp add: cy)
qed

lemma serve_inv:
  assumes "thread_inv cfg h th" "th_serve cfg e th = (as, th')"
  shows "thread_inv cfg h th'" "length as = length (th_queue th)" "th_queue th' = []"
proof -
  obtain as' m pw where s: "serve_requests (wr_wake (tc_writes cfg)) (shift 6 (te_net e)) (shift 6 (te_tick e)) (te_ops e)
      (shift 4 (te_wall e)) (th_queue th) (th_monitor th) (sc_power (th_coordinator th)) = (as', m, pw)" by (metis prod.exhaust)
  then have t: "as = as'" "th_monitor th' = m" "th_queue th' = []" using assms(2) by (auto simp: th_serve_def)
  note k = serve_kept[OF s]
  show "thread_inv cfg h th'" using k assms(1) t(2) by (cases "th_monitor th") (auto simp: thread_inv_def kept_def)
  show "length as = length (th_queue th)" "th_queue th' = []" using k t by simp_all
qed

lemma th_open_monitor:
  assumes "th_open cfg e th = Some (found, status, th1)" "th_monitor th = None"
  shows "th_monitor th1 = (case found of
      Opened l p \<Rightarrow> Some (ups_monitor_new (gate_with_writes l (tc_writes cfg)) (tc_policy cfg)) | _ \<Rightarrow> None)"
    "th_queue th1 = th_queue th"
  using assms by (auto simp: th_open_def th_publish_def Let_def split: prod.splits open_result.splits)

definition opened :: "'l open_result \<Rightarrow> bool" where
  "opened found = (case found of Opened _ _ \<Rightarrow> True | _ \<Rightarrow> False)"

lemma start_inv:
  assumes "th_start cfg e th = Some (found, status, th1)" "thread_inv cfg h th"
  shows "thread_inv cfg (if opened found then [] else h) th1" "th_queue th1 = th_queue th"
    "found = Held \<Longrightarrow> th_monitor th1 = None"
proof -
  have "th_monitor th1 = None \<or> found = OpenFailed \<and> th1 = th \<or>
      opened found \<and> (\<exists>l. th_monitor th1 = Some (ups_monitor_new (gate_with_writes l (tc_writes cfg)) (tc_policy cfg)))"
  proof (cases "th_monitor th")
    case None
    then show ?thesis using assms(1) th_open_monitor(1)[of cfg e th found status th1]
      by (cases found) (auto simp: th_start_def opened_def)
  qed (use assms(1) in \<open>simp add: th_start_def\<close>)
  then show "thread_inv cfg (if opened found then [] else h) th1" "found = Held \<Longrightarrow> th_monitor th1 = None"
    using assms(2) by (auto simp: opened_def thread_inv_def ups_monitor_new_def watch_new_def gate_with_writes_def REOPEN_AFTER_def)
  show "th_queue th1 = th_queue th"
    using assms(1) th_open_monitor(2)[of cfg e th found status th1] by (auto simp: th_start_def split: if_splits)
qed

lemma house_queue [simp]: "th_queue (th_house cfg e m th) = th_queue th"
  by (simp add: th_house_def th_wake_def th_clock_def th_remember_def Let_def split: prod.splits option.splits bool.splits)

lemma poll_queue: "th_poll cfg e m th = (cy, th') \<Longrightarrow> th_queue th' = th_queue th"
  by (auto simp: th_poll_def th_publish_def Let_def split: prod.splits if_splits)

text \<open>One turn: the invariant, what its cycle rests on, and the queue.\<close>

lemma turn_cases:
  assumes "thread_turn cfg e th = Some (r, th')" "thread_inv cfg h th"
  shows "thread_inv cfg (seen_after h (e, r)) th'"
    "tr_cycle r = Some cy \<Longrightarrow> \<exists>prior c. seen_after h (e, r) = prior @ [(observation_of (po_battery (cy_poll cy)), uptime_read e)] \<and>
       po_decision (cy_poll cy) =
         snd (observe (observe_all (tc_policy cfg) prior) (observation_of (po_battery (cy_poll cy))) (uptime_read e)) \<and>
       fst (on_decision (te_ops e) (te_now e) (po_decision (cy_poll cy)) c) = cy_action cy"
    "tr_answers r = [] \<and> th_queue th' = th_queue th @ te_arrived e \<or>
     length (tr_answers r) = length (th_queue th @ te_arrived e) \<and> th_queue th' = []"
proof -
  let ?th = "th\<lparr>th_queue := th_queue th @ te_arrived e\<rparr>"
  obtain found status th1 where s: "th_start cfg e ?th = Some (found, status, th1)"
    and t: "th_rest cfg e found status th1 = (r, th')"
    using assms(1) by (auto simp: thread_turn_def)
  have "thread_inv cfg h ?th" using assms(2) by (simp add: thread_inv_def)
  note s1 = start_inv[OF s this]
  let ?h = "if opened found then [] else h"
  have "thread_inv cfg (seen_after h (e, r)) th' \<and>
      (\<forall>cy. tr_cycle r = Some cy \<longrightarrow> (\<exists>prior c. seen_after h (e, r) = prior @ [(observation_of (po_battery (cy_poll cy)), uptime_read e)] \<and>
       po_decision (cy_poll cy) =
         snd (observe (observe_all (tc_policy cfg) prior) (observation_of (po_battery (cy_poll cy))) (uptime_read e)) \<and>
       fst (on_decision (te_ops e) (te_now e) (po_decision (cy_poll cy)) c) = cy_action cy)) \<and>
      (tr_answers r = [] \<and> th_queue th' = th_queue th @ te_arrived e \<or>
       length (tr_answers r) = length (th_queue th @ te_arrived e) \<and> th_queue th' = [])"
  proof (cases "found = Held")
    case True
    then show ?thesis using t s1 by (auto simp: th_rest_def thread_inv_def)
  next
    case False
    obtain cy th2 where p: "th_poll_if cfg e th1 = (cy, th2)" by (rule prod.exhaust)
    obtain as th3 where v: "th_serve cfg e th2 = (as, th3)" by (rule prod.exhaust)
    have r: "th' = th3" "tr_cycle r = cy" "tr_answers r = as" "tr_opened r = opened found"
      using t False p v by (auto simp: th_rest_def opened_def)
    show ?thesis
    proof (cases "th_monitor th1")
      case None
      then have "cy = None" "th2 = th1" using p by (auto simp: th_poll_if_def)
      then show ?thesis using serve_inv[OF _ v] s1 r by (simp add: seen_after_def)
    next
      case (Some m)
      then obtain cy1 where q: "th_poll cfg e m th1 = (cy1, th2)" "cy = Some cy1"
        using p by (auto simp: th_poll_if_def split: prod.splits)
      have m: "wt_policy (um_watch m) = observe_all (tc_policy cfg) ?h" "gt_writes (um_ups m) = tc_writes cfg"
        using s1(1) Some by (auto simp: thread_inv_def)
      note q1 = poll_monitor[OF q(1) m]
      have h: "seen_after h (e, r) = ?h @ [(observation_of (po_battery (cy_poll cy1)), uptime_read e)]"
        by (simp add: seen_after_def r q(2))
      have qu: "th_queue th2 = th_queue th @ te_arrived e" using poll_queue[OF q(1)] s1(2) by simp
      show ?thesis unfolding h r using serve_inv[OF q1(1) v] q1(2,3) qu q(2) by auto
    qed
  qed
  then show "thread_inv cfg (seen_after h (e, r)) th'"
    "tr_cycle r = Some cy \<Longrightarrow> \<exists>prior c. seen_after h (e, r) = prior @ [(observation_of (po_battery (cy_poll cy)), uptime_read e)] \<and>
       po_decision (cy_poll cy) =
         snd (observe (observe_all (tc_policy cfg) prior) (observation_of (po_battery (cy_poll cy))) (uptime_read e)) \<and>
       fst (on_decision (te_ops e) (te_now e) (po_decision (cy_poll cy)) c) = cy_action cy"
    "tr_answers r = [] \<and> th_queue th' = th_queue th @ te_arrived e \<or>
     length (tr_answers r) = length (th_queue th @ te_arrived e) \<and> th_queue th' = []"
    by blast+
qed

section \<open>What holds over any run\<close>

lemma run_inv:
  "thread_run cfg es th = Some (rs, th') \<Longrightarrow> thread_inv cfg h th \<Longrightarrow>
     thread_inv cfg (foldl seen_after h (zip es rs)) th' \<and> length rs = length es"
proof (induction es arbitrary: th rs h)
  case (Cons e es)
  obtain r th1 rs1 where t: "thread_turn cfg e th = Some (r, th1)" and r: "thread_run cfg es th1 = Some (rs1, th')" "rs = r # rs1"
    using Cons.prems(1) by (auto split: option.splits)
  from Cons.IH[OF r(1) turn_cases(1)[OF t Cons.prems(2)]] show ?case by (simp add: r(2))
qed simp

lemma run_snoc:
  "thread_run cfg (es @ [e]) th = Some (rs @ [r], th') \<longleftrightarrow>
     (\<exists>th1. thread_run cfg es th = Some (rs, th1) \<and> thread_turn cfg e th1 = Some (r, th'))"
proof (induction es arbitrary: th rs)
  case Nil
  show ?case by (cases rs) (auto split: option.splits)
next
  case (Cons e1 es)
  show ?case
  proof (cases rs)
    case Nil
    have "thread_run cfg (es @ [e]) t \<noteq> Some ([], x)" for t x
      by (cases es) (auto split: option.splits)
    then show ?thesis using Nil by (auto split: option.splits)
  next
    case (Cons r1 rs1)
    then show ?thesis using Cons.IH by (auto split: option.splits)
  qed
qed

lemma thread_inv_new: "thread_inv cfg [] (thread_new pw delay dry_run now sf cl)"
  by (simp add: thread_inv_def thread_new_def)

text \<open>C1: Across reconnections, a poweroff is started only for a battery confirmed empty on the link that
  is open: run the thread from its start over any sequence of turns, with the port coming and
  going, any replies, any clocks and any logind. If a turn's cycle schedules a poweroff, takes one
  over or reports one in dry run, then that turn read the battery on battery power, the machine
  had been up for the hold time, an uptime that could not be read counting as none, and since the
  port was last opened and the last read failed, at least \<open>confirmations\<close> readings were on battery
  at or below the critical threshold.\<close>

theorem thread_poweroff_justified:
  assumes "policy_new c = Inr (tc_policy cfg)"
    and "thread_run cfg (es @ [e]) (thread_new pw delay dry_run now sf cl) = Some (rs @ [r], th)"
    and "tr_cycle r = Some cy"
    and "(\<exists>at. cy_action cy = Scheduled at \<or> cy_action cy = Adopted at) \<or> cy_action cy = WouldSchedule"
  shows "(\<exists>b. po_battery (cy_poll cy) = Some b \<and> bs_source b = Battery) \<and> min_uptime c \<le> uptime_read e \<and>
    unat (confirmations c) \<le> fresh_criticals c (since_open (es @ [e]) (rs @ [r]))"
proof -
  obtain th1 where run: "thread_run cfg es (thread_new pw delay dry_run now sf cl) = Some (rs, th1)"
    and turn: "thread_turn cfg e th1 = Some (r, th)" using assms(2) run_snoc by blast
  note i = run_inv[OF run thread_inv_new]
  then have since: "since_open (es @ [e]) (rs @ [r]) = seen_after (foldl seen_after [] (zip es rs)) (e, r)"
    by (simp add: since_open_def)
  from turn_cases(2)[OF turn conjunct1[OF i] assms(3)] obtain prior co where
    h: "since_open (es @ [e]) (rs @ [r]) = prior @ [(observation_of (po_battery (cy_poll cy)), uptime_read e)]"
    and d: "po_decision (cy_poll cy) =
       snd (observe (observe_all (tc_policy cfg) prior) (observation_of (po_battery (cy_poll cy))) (uptime_read e))"
    and a: "fst (on_decision (te_ops e) (te_now e) (po_decision (cy_poll cy)) co) = cy_action cy" unfolding since by blast
  have "on_decision (te_ops e) (te_now e) (po_decision (cy_poll cy)) co =
      (cy_action cy, snd (on_decision (te_ops e) (te_now e) (po_decision (cy_poll cy)) co))" using a by (metis prod.collapse)
  from shutdown_cause[OF assms(1) starts_poweroff[OF this assms(4), unfolded d]] show ?thesis
    unfolding h by (auto simp: observation_of_def)
qed

section \<open>Requests while the port is held\<close>

definition held_in :: "('l, 'p) turn_env \<Rightarrow> bool" where
  \<comment> \<open>the port is there, and another process has it\<close>
  "held_in e \<longleftrightarrow>
     (\<exists>path. (case te_port e of Some p \<Rightarrow> Some p | None \<Rightarrow> te_discovered e) = Some path \<and>
        te_exists e path \<and> te_owners e path \<noteq> [])"

definition opens_in :: "('l, 'p) turn_env \<Rightarrow> 'l \<Rightarrow> bool" where
  "opens_in e link \<longleftrightarrow>
     (\<exists>path. (case te_port e of Some p \<Rightarrow> Some p | None \<Rightarrow> te_discovered e) = Some path \<and>
        te_exists e path \<and> te_owners e path = [] \<and> te_opens e path = Inr link)"

lemma held_turn:
  assumes "th_monitor th = None" "held_in e"
  shows "thread_turn cfg e th =
    Some (\<lparr>tr_opened = False, tr_cycle = None, tr_published = None, tr_answers = []\<rparr>,
          th\<lparr>th_queue := th_queue th @ te_arrived e\<rparr>)"
  using assms by (auto simp: held_in_def thread_turn_def th_start_def th_open_def open_link_def th_rest_def)

lemma held_run:
  assumes "th_monitor th = None" "\<forall>e \<in> set es. held_in e"
  shows "\<exists>rs. thread_run cfg es th = Some (rs, th\<lparr>th_queue := th_queue th @ concat (map te_arrived es)\<rparr>) \<and>
    length rs = length es \<and> (\<forall>r \<in> set rs. tr_answers r = [] \<and> tr_published r = None)"
  using assms
proof (induction es arbitrary: th)
  case (Cons e es)
  let ?th1 = "th\<lparr>th_queue := th_queue th @ te_arrived e\<rparr>"
  have "\<exists>rs. thread_run cfg es ?th1 = Some (rs, ?th1\<lparr>th_queue := th_queue ?th1 @ concat (map te_arrived es)\<rparr>) \<and>
    length rs = length es \<and> (\<forall>r \<in> set rs. tr_answers r = [] \<and> tr_published r = None)"
    by (rule Cons.IH) (use Cons.prems in simp_all)
  moreover have "held_in e" using Cons.prems(2) by simp
  ultimately show ?case using held_turn[OF Cons.prems(1) \<open>held_in e\<close>, of cfg] by fastforce
qed simp

lemma open_turn:
  assumes "th_monitor th = None" "opens_in e link" "wr_wake (tc_writes cfg)"
  shows "\<exists>r th' m pw. thread_turn cfg e th = Some (r, th') \<and> tr_opened r \<and>
    tr_answers r = fst (serve_requests True (shift 6 (te_net e)) (shift 6 (te_tick e)) (te_ops e) (shift 4 (te_wall e))
      (th_queue th @ te_arrived e) m pw) \<and> th_queue th' = []"
proof -
  let ?th = "th\<lparr>th_queue := th_queue th @ te_arrived e\<rparr>"
  obtain path th1 where s: "th_start cfg e ?th = Some (Opened link path, None, th1)" and q1: "th_queue th1 = th_queue th @ te_arrived e"
    using assms(1,2) by (auto simp: opens_in_def th_start_def th_open_def open_link_def)
  obtain cy th2 where p: "th_poll_if cfg e th1 = (cy, th2)" by (rule prod.exhaust)
  have q2: "th_queue th2 = th_queue th1"
    using p poll_queue by (auto simp: th_poll_if_def split: option.splits prod.splits)
  obtain as m pw where v: "serve_requests True (shift 6 (te_net e)) (shift 6 (te_tick e)) (te_ops e) (shift 4 (te_wall e))
      (th_queue th2) (th_monitor th2) (sc_power (th_coordinator th2)) = (as, m, pw)" by (metis prod.exhaust)
  have "thread_turn cfg e th = Some (\<lparr>tr_opened = True, tr_cycle = cy,
      tr_published = (case cy of Some c \<Rightarrow> Some (cy_status c) | None \<Rightarrow> None), tr_answers = as\<rparr>,
      th2\<lparr>th_queue := [], th_monitor := m, th_coordinator := (th_coordinator th2)\<lparr>sc_power := pw\<rparr>\<rparr>)"
    using s p v assms(3) by (simp add: thread_turn_def th_rest_def th_serve_def)
  then show ?thesis
    by (intro exI[of _ "th_monitor th2"] exI[of _ "sc_power (th_coordinator th2)"] exI) (use v q1 q2 in auto)
qed


text \<open>A thread over a battery that reads as given, for the witnesses.\<close>

definition sample_config :: thread_config where
  "sample_config = \<lparr>tc_policy = fresh_policy, tc_writes = \<lparr>wr_clock = True, wr_wake = True\<rparr>, tc_records = True\<rparr>"

definition sample_env :: "u8 \<Rightarrow> nat list \<Rightarrow> control_request list \<Rightarrow> (unit, (systime \<times> string) option) turn_env" where
  "sample_env pct owners reqs =
     \<lparr>te_port = Some ''/dev/ttyACM0'', te_discovered = None, te_exists = (\<lambda>_. True), te_owners = (\<lambda>_. owners),
      te_opens = (\<lambda>_. Inr ()), te_device = None, te_net = (\<lambda>_. sample_link pct), te_tick = (\<lambda>_. 0),
      te_inst = (\<lambda>_. 0), te_now = 9, te_wall = (\<lambda>_. 0), te_uptime = Inr (from_secs 400), te_ops = sample_power,
      te_synced = False, te_saved = True, te_written = True, te_arrived = reqs\<rparr>"

definition sample_thread :: "instant \<Rightarrow> (unit, (systime \<times> string) option) ups_thread" where
  "sample_thread due = thread_new None (from_secs 60) False due None []"


lemmas turn_eval = REOPEN_AFTER_def thread_turn_def th_start_def th_open_def open_link_def th_rest_def th_poll_if_def th_poll_def
  th_serve_def th_house_def th_wake_def th_clock_def th_remember_def remember_def th_publish_def uptime_or_zero_def
  report_cycle_def service_step_def ups_poll_def ups_battery_def ups_query_def gate_request_def gate_allows_def
  sample_link_def battery_status_decode_def ups_monitor_new_def watch_new_def watch_observe_def observe_def
  classify_def sat_inc_u8_def gate_with_writes_def ups_identify_def record_due_def record_wrote_def recorder_new_def

theorem thread_poweroff_justified_witness:
  "\<exists>rs r th cy. thread_run sample_config ([sample_env 5 [] []] @ [sample_env 4 [] []]) (sample_thread 1) = Some (rs @ [r], th) \<and>
    tr_cycle r = Some cy \<and> cy_action cy = Scheduled 60000001000 \<and>
    unat (confirmations policy_config_default) \<le>
      fresh_criticals policy_config_default (since_open ([sample_env 5 [] []] @ [sample_env 4 [] []]) (rs @ [r]))"
proof -
  have 1: "\<exists>r1 th1. thread_turn sample_config (sample_env 5 [] []) (sample_thread 1) = Some (r1, th1) \<and>
      th_monitor th1 = Some \<lparr>um_ups = gate_with_writes () \<lparr>wr_clock = True, wr_wake = True\<rparr>,
        um_watch = \<lparr>wt_policy = fresh_policy\<lparr>bp_critical_streak := 1, bp_known := Low, bp_reported := Low\<rparr>, wt_failures = 0\<rparr>\<rparr> \<and>
      th_coordinator th1 = coordinator_new None (from_secs 60) False \<and> th_next_clock th1 = 1 \<and> th_next_wake th1 = 1 \<and>
      th_queue th1 = []"
    by (simp add: turn_eval sample_config_def sample_env_def sample_thread_def thread_new_def fresh_policy_def
        policy_config_default_def coordinator_defs coordinator_new_def Let_def word_le_nat_alt)
  then obtain r1 th1 where 2: "thread_turn sample_config (sample_env 5 [] []) (sample_thread 1) = Some (r1, th1)"
    and th1: "th_monitor th1 = Some \<lparr>um_ups = gate_with_writes () \<lparr>wr_clock = True, wr_wake = True\<rparr>,
        um_watch = \<lparr>wt_policy = fresh_policy\<lparr>bp_critical_streak := 1, bp_known := Low, bp_reported := Low\<rparr>, wt_failures = 0\<rparr>\<rparr>"
      "th_coordinator th1 = coordinator_new None (from_secs 60) False" "th_next_clock th1 = 1" "th_next_wake th1 = 1"
      "th_queue th1 = []" by blast
  have 3: "\<exists>r2 th2 cy. thread_turn sample_config (sample_env 4 [] []) th1 = Some (r2, th2) \<and> tr_cycle r2 = Some cy \<and>
      cy_action cy = Scheduled 60000001000"
    by (simp add: turn_eval th1 sample_config_def sample_env_def fresh_policy_def sample_power_def
        policy_config_default_def coordinator_defs coordinator_new_def Let_def word_le_nat_alt split: prod.splits option.splits)
  then obtain r2 th2 cy where 4: "thread_turn sample_config (sample_env 4 [] []) th1 = Some (r2, th2)" "tr_cycle r2 = Some cy"
    "cy_action cy = Scheduled 60000001000" by blast
  have run: "thread_run sample_config ([sample_env 5 [] []] @ [sample_env 4 [] []]) (sample_thread 1) = Some ([r1] @ [r2], th2)"
    using 2 4(1) by simp
  have pol: "policy_new policy_config_default = Inr (tc_policy sample_config)"
    by (simp add: policy_new_default sample_config_def fresh_policy_def)
  note run' = run[unfolded sample_thread_def]
  have "(\<exists>at. cy_action cy = Scheduled at \<or> cy_action cy = Adopted at) \<or> cy_action cy = WouldSchedule" using 4(3) by simp
  from thread_poweroff_justified[OF pol run' 4(2) this] run 4(2,3) show ?thesis by blast
qed

end
