(* ===== verification/Zigbee.thy ===== *)
theory Zigbee
  imports Framing
begin

text \<open>
  The Z-Stack framing of the Zigbee coordinator probe (\<open>crates/argon-proto/src/zigbee.rs\<close>): frames
  and their encoder, the byte-at-a-time reader with its buffer, the version reply, and the same
  two results as for the UPS reader: it computes an abstract parser, and it is a
  \<open>stream_decoder\<close>. Storing and slicing out of the buffer's bounds is a panic, \<open>None\<close>.
\<close>

section \<open>Frames\<close>

definition SOF :: u8 where "SOF = 0xFE"
definition MAX_DATA :: nat where "MAX_DATA = 250"
definition SYS_PING :: "u8 \<times> u8" where "SYS_PING = (0x21, 0x01)"
definition SYS_PING_RSP :: "u8 \<times> u8" where "SYS_PING_RSP = (0x61, 0x01)"
definition SYS_VERSION :: "u8 \<times> u8" where "SYS_VERSION = (0x21, 0x02)"
definition SYS_VERSION_RSP :: "u8 \<times> u8" where "SYS_VERSION_RSP = (0x61, 0x02)"
definition SYS_RESET_IND :: "u8 \<times> u8" where "SYS_RESET_IND = (0x41, 0x80)"

record mt_frame =
  mt_cmd0 :: u8
  mt_cmd1 :: u8
  mt_buf :: "u8 list"
  mt_len :: nat

definition mt_new :: "u8 \<times> u8 \<Rightarrow> u8 list \<Rightarrow> mt_frame option" where
  "mt_new cmd bytes =
     (if length bytes > MAX_DATA then None
      else Some \<lparr>mt_cmd0 = fst cmd, mt_cmd1 = snd cmd,
                 mt_buf = bytes @ replicate (MAX_DATA - length bytes) 0, mt_len = length bytes\<rparr>)"

definition mt_data :: "mt_frame \<Rightarrow> u8 list" where
  "mt_data f = take (mt_len f) (mt_buf f)"

definition mt_is :: "mt_frame \<Rightarrow> u8 \<times> u8 \<Rightarrow> bool" where
  "mt_is f cmd \<longleftrightarrow> mt_cmd0 f = fst cmd \<and> mt_cmd1 f = snd cmd"

definition fcs :: "u8 list \<Rightarrow> u8" where
  "fcs bytes = fold (\<lambda>b acc. acc XOR b) bytes 0"

definition mt_encode_into :: "mt_frame \<Rightarrow> u8 list \<Rightarrow> (nat \<times> u8 list) option" where
  \<comment> \<open>the length written and \<open>out\<close> afterwards\<close>
  "mt_encode_into f out =
     (let n = mt_len f + 5
      in if length out < n then None
         else
           let out1 = out[0 := SOF, 1 := of_nat (mt_len f), 2 := mt_cmd0 f, 3 := mt_cmd1 f];
               out2 = take 4 out1 @ mt_data f @ drop (4 + mt_len f) out1
           in Some (n, out2[n - 1 := fcs (take (n - 2) (drop 1 out2))]))"

datatype mt_error = BadFcs u8 u8 | TooLong u8

fun mt_error_text :: "mt_error \<Rightarrow> string" where
  "mt_error_text (BadFcs got want) = ''bad FCS 0x'' @ show_hex2 got @ '', expected 0x'' @ show_hex2 want"
| "mt_error_text (TooLong n) = ''length '' @ show_nat (unat n) @ '' exceeds '' @ show_nat MAX_DATA"

section \<open>The reader\<close>

record mt_reader =
  mr_buf :: "u8 list"
  mr_have :: nat

definition mt_reader_new :: mt_reader where
  "mt_reader_new = \<lparr>mr_buf = replicate (MAX_DATA + 5) 0, mr_have = 0\<rparr>"

definition mt_push :: "mt_reader \<Rightarrow> u8 \<Rightarrow> (mt_reader \<times> (mt_error + mt_frame) option) option" where
  "mt_push r b =
     (if mr_have r = 0 then
        if b = SOF then map_option (\<lambda>buf. (\<lparr>mr_buf = buf, mr_have = 1\<rparr>, None)) (store (mr_buf r) 0 b)
        else Some (r, None)
      else case store (mr_buf r) (mr_have r) b of
        None \<Rightarrow> None
      | Some buf \<Rightarrow>
          let have = mr_have r + 1
          in if have = 2 \<and> unat b > MAX_DATA then Some (\<lparr>mr_buf = buf, mr_have = 0\<rparr>, Some (Inl (TooLong b)))
             else
               let data_len = unat (buf ! 1); total = data_len + 5
               in if have < total then Some (\<lparr>mr_buf = buf, mr_have = have\<rparr>, None)
                  else case slice buf 1 (total - 1) of
                    None \<Rightarrow> None
                  | Some body \<Rightarrow>
                      let want = fcs body; got = buf ! (total - 1); r1 = \<lparr>mr_buf = buf, mr_have = 0\<rparr>
                      in if got \<noteq> want then Some (r1, Some (Inl (BadFcs got want)))
                         else map_option (\<lambda>bytes. (r1, map_option Inr (mt_new (buf ! 2, buf ! 3) bytes)))
                                (slice buf 4 (4 + data_len)))"

record mt_version =
  mv_transport_rev :: u8
  mv_product :: u8
  mv_major :: u8
  mv_minor :: u8
  mv_maint :: u8
  mv_revision :: "u32 option"

definition le_u32 :: "u8 \<Rightarrow> u8 \<Rightarrow> u8 \<Rightarrow> u8 \<Rightarrow> u32" where
  "le_u32 a b c d = ucast a OR push_bit 8 (ucast b) OR push_bit 16 (ucast c) OR push_bit 24 (ucast d)"

fun mt_version_decode :: "u8 list \<Rightarrow> mt_version option" where
  "mt_version_decode [t, p, ma, mi, mt] =
     Some \<lparr>mv_transport_rev = t, mv_product = p, mv_major = ma, mv_minor = mi, mv_maint = mt, mv_revision = None\<rparr>"
| "mt_version_decode (t # p # ma # mi # mt # r0 # r1 # r2 # r3 # _) =
     Some \<lparr>mv_transport_rev = t, mv_product = p, mv_major = ma, mv_minor = mi, mv_maint = mt,
           mv_revision = Some (le_u32 r0 r1 r2 r3)\<rparr>"
| "mt_version_decode _ = None"

section \<open>The bytes of a frame\<close>

definition mt_of :: "u8 \<Rightarrow> u8 \<Rightarrow> u8 list \<Rightarrow> mt_frame" where
  "mt_of c0 c1 p = \<lparr>mt_cmd0 = c0, mt_cmd1 = c1, mt_buf = p @ replicate (MAX_DATA - length p) 0, mt_len = length p\<rparr>"

definition mt_ok :: "mt_frame \<Rightarrow> bool" where
  "mt_ok f \<longleftrightarrow> (\<exists>c0 c1 p. length p \<le> 250 \<and> f = mt_of c0 c1 p)"

definition mt_head :: "u8 \<Rightarrow> u8 \<Rightarrow> u8 list \<Rightarrow> u8 list" where
  "mt_head c0 c1 p = [SOF, of_nat (length p), c0, c1] @ p"

definition mt_wire :: "mt_frame \<Rightarrow> u8 list" where
  "mt_wire f = (let h = mt_head (mt_cmd0 f) (mt_cmd1 f) (mt_data f) in h @ [fcs (tl h)])"

lemma mt_of_simps [simp]:
  "mt_cmd0 (mt_of c0 c1 p) = c0" "mt_cmd1 (mt_of c0 c1 p) = c1" "mt_data (mt_of c0 c1 p) = p"
  "mt_len (mt_of c0 c1 p) = length p"
  by (simp_all add: mt_of_def mt_data_def)

lemma mt_new_of: "length p \<le> 250 \<Longrightarrow> mt_new (c0, c1) p = Some (mt_of c0 c1 p)"
  by (simp add: mt_new_def mt_of_def MAX_DATA_def)

lemma mt_new_iff: "mt_new (c0, c1) p = Some f \<longleftrightarrow> length p \<le> 250 \<and> f = mt_of c0 c1 p"
  by (auto simp: mt_new_def mt_of_def MAX_DATA_def)

lemma mt_okE:
  assumes "mt_ok f"
  obtains c0 c1 p where "length p \<le> 250" "f = mt_of c0 c1 p"
  using assms unfolding mt_ok_def by blast

lemma mt_ok_of [simp]: "length p \<le> 250 \<Longrightarrow> mt_ok (mt_of c0 c1 p)"
  unfolding mt_ok_def by blast

lemma mt_wire_of: "mt_wire (mt_of c0 c1 p) = mt_head c0 c1 p @ [fcs (tl (mt_head c0 c1 p))]"
  by (simp add: mt_wire_def Let_def)

lemma length_mt_wire: "length (mt_wire (mt_of c0 c1 p)) = length p + 5"
  by (simp add: mt_wire_of mt_head_def)

lemma mt_encode_eq:
  assumes "length p \<le> 250" "length p + 5 \<le> length out"
  shows "mt_encode_into (mt_of c0 c1 p) out =
    Some (length p + 5, mt_wire (mt_of c0 c1 p) @ drop (length p + 5) out)"
proof -
  obtain o0 o1 o2 o3 rest where out: "out = o0 # o1 # o2 # o3 # rest"
    using assms(2) by (cases out; cases "tl out"; cases "tl (tl out)"; cases "tl (tl (tl out))") auto
  have r: "length p < length rest" using assms(2) by (simp add: out)
  let ?o1 = "out[0 := SOF, 1 := of_nat (length p), 2 := c0, 3 := c1]"
  have o1: "?o1 = SOF # of_nat (length p) # c0 # c1 # rest" by (simp add: out eval_nat_numeral)
  have t4: "take 4 ?o1 = [SOF, of_nat (length p), c0, c1]" "drop (4 + length p) ?o1 = drop (length p) rest"
    unfolding o1 by (simp_all add: eval_nat_numeral)
  let ?o2 = "mt_head c0 c1 p @ drop (length p) rest"
  have body: "take (length p + 5 - 2) (drop 1 ?o2) = tl (mt_head c0 c1 p)"
    by (simp add: mt_head_def numeral_3_eq_3)
  have "drop (length p) rest = rest ! length p # drop (Suc (length p)) rest"
    using r by (simp add: Cons_nth_drop_Suc)
  then have "?o2[length p + 5 - 1 := x] = mt_head c0 c1 p @ x # drop (length p + 5) out" for x
    by (simp add: mt_head_def list_update_append out eval_nat_numeral)
  then show ?thesis
    using assms(2) body unfolding mt_encode_into_def Let_def mt_of_simps t4
    by (simp add: mt_wire_of mt_head_def)
qed

section \<open>What the reader holds\<close>

definition mt_partial :: "u8 list \<Rightarrow> bool" where
  \<comment> \<open>the bytes of an unfinished frame\<close>
  "mt_partial body \<longleftrightarrow> body \<noteq> [] \<and> hd body = SOF \<and>
     (1 < length body \<longrightarrow> unat (body ! 1) \<le> 250 \<and> length body < unat (body ! 1) + 5)"

definition mt_holds :: "mt_reader \<Rightarrow> u8 list \<Rightarrow> bool" where
  "mt_holds r body \<longleftrightarrow> mt_partial body \<and> length (mr_buf r) = 255 \<and> mr_have r = length body \<and>
     take (length body) (mr_buf r) = body"

definition mt_idle :: "mt_reader \<Rightarrow> bool" where
  "mt_idle r \<longleftrightarrow> mr_have r = 0 \<and> length (mr_buf r) = 255"

lemma mt_partial_length: "mt_partial body \<Longrightarrow> length body < 255"
  by (cases "1 < length body") (auto simp: mt_partial_def)

lemma mt_push_skip: "mt_idle r \<Longrightarrow> b \<noteq> SOF \<Longrightarrow> mt_push r b = Some (r, None)"
  by (simp add: mt_idle_def mt_push_def)

lemma mt_push_start: "mt_idle r \<Longrightarrow> \<exists>r'. mt_push r SOF = Some (r', None) \<and> mt_holds r' [SOF]"
  using take_update_snoc[of 0 "mr_buf r" SOF]
  by (auto simp: mt_idle_def mt_push_def mt_holds_def mt_partial_def)

lemma mt_held_byte:
  assumes "mt_holds r body"
  shows "store (mr_buf r) (mr_have r) b = Some ((mr_buf r)[length body := b])"
    "take (Suc (length body)) ((mr_buf r)[length body := b]) = body @ [b]" "mr_have r \<noteq> 0"
    "1 < length (body @ [b]) \<Longrightarrow> (mr_buf r)[length body := b] ! 1 = (body @ [b]) ! 1"
proof -
  have h: "length body < length (mr_buf r)" "take (length body) (mr_buf r) = body" "mr_have r = length body"
    using assms mt_partial_length by (auto simp: mt_holds_def)
  show "store (mr_buf r) (mr_have r) b = Some ((mr_buf r)[length body := b])" using h by simp
  show t: "take (Suc (length body)) ((mr_buf r)[length body := b]) = body @ [b]"
    using h take_update_snoc[of "length body" "mr_buf r" b] by simp
  show "mr_have r \<noteq> 0" using assms h(3) by (auto simp: mt_holds_def mt_partial_def)
  show "1 < length (body @ [b]) \<Longrightarrow> (mr_buf r)[length body := b] ! 1 = (body @ [b]) ! 1"
    using arg_cong[OF t, of "\<lambda>xs. xs ! 1"] by simp
qed

lemma mt_push_hold:
  assumes h: "mt_holds r body" and p: "mt_partial (body @ [b])"
  shows "\<exists>r'. mt_push r b = Some (r', None) \<and> mt_holds r' (body @ [b])"
proof -
  note hb = mt_held_byte(1,2)[OF h, of b] mt_held_byte(3)[OF h] mt_held_byte(4)[OF h, of b]
  have ne: "body \<noteq> []" using h by (auto simp: mt_holds_def mt_partial_def)
  then have l: "1 < length (body @ [b])" by (cases body) auto
  have q: "unat ((body @ [b]) ! 1) \<le> 250" "length body + 1 < unat ((body @ [b]) ! 1) + 5"
    using p l by (auto simp: mt_partial_def)
  have big: "\<not> (length body + 1 = 2 \<and> unat b > 250)"
    using q(1) by (auto simp: nth_append)
  have m: "mr_have r = length body" "length (mr_buf r) = 255" using h by (auto simp: mt_holds_def)
  define buf where "buf = (mr_buf r)[length body := b]"
  have "mt_push r b = Some (\<lparr>mr_buf = buf, mr_have = length body + 1\<rparr>, None)"
    using hb(3) big q(2) hb(4)[OF l, folded buf_def] unfolding mt_push_def hb(1)[folded buf_def]
    by (simp add: Let_def m MAX_DATA_def)
  then show ?thesis using p hb(2) m by (auto simp: mt_holds_def buf_def)
qed

lemma mt_push_too_long:
  assumes "mt_holds r [SOF]" "250 < unat b"
  shows "\<exists>r'. mt_push r b = Some (r', Some (Inl (TooLong b))) \<and> mt_idle r'"
  using assms by (auto simp: mt_holds_def mt_push_def mt_idle_def MAX_DATA_def)

lemma mt_push_check:
  assumes h: "mt_holds r (mt_head c0 c1 p)" and p: "length p \<le> 250"
  shows "\<exists>r'. mt_push r b = Some (r', Some (if b = fcs (tl (mt_head c0 c1 p)) then Inr (mt_of c0 c1 p)
                   else Inl (BadFcs b (fcs (tl (mt_head c0 c1 p)))))) \<and> mt_idle r'"
proof -
  let ?h = "mt_head c0 c1 p" and ?buf = "(mr_buf r)[length p + 4 := b]"
  note hb = mt_held_byte(1,2)[OF h, of b] mt_held_byte(3)[OF h] mt_held_byte(4)[OF h, of b]
  have m: "mr_have r = length p + 4" "length (mr_buf r) = 255" "length ?h = length p + 4"
    using h by (auto simp: mt_holds_def mt_head_def)
  have t: "take (length p + 5) ?buf = ?h @ [b]" using hb(2) m(3) by (simp add: eval_nat_numeral)
  have n: "?buf ! 1 = of_nat (length p)" "?buf ! 2 = c0" "?buf ! 3 = c1" "?buf ! (length p + 4) = b"
    using arg_cong[OF t, of "\<lambda>xs. xs ! 1"] arg_cong[OF t, of "\<lambda>xs. xs ! 2"] arg_cong[OF t, of "\<lambda>xs. xs ! 3"] m p
    by (simp_all add: mt_head_def)
  have s1: "slice ?buf 1 (length p + 4) = Some (tl ?h)"
  proof -
    have "take (length p + 3) (drop 1 ?buf) = drop 1 (take (length p + 4) (take (length p + 5) ?buf))"
      by (simp add: take_drop add.commute)
    also have "\<dots> = tl ?h" unfolding t using m(3) by (simp add: drop_Suc)
    finally show ?thesis using m p by (simp add: add.commute)
  qed
  have s2: "slice ?buf 4 (4 + length p) = Some p"
  proof -
    have "take (length p) (drop 4 ?buf) = drop 4 (take (length p + 4) (take (length p + 5) ?buf))"
      by (simp add: take_drop add.commute)
    also have "\<dots> = p" unfolding t using m(3) by (simp add: mt_head_def eval_nat_numeral)
    finally show ?thesis using m p by simp
  qed
  have u: "unat (of_nat (length p) :: u8) = length p" using p by simp
  define buf where "buf = ?buf"
  note d = buf_def[symmetric] m(3)
  have st: "store (mr_buf r) (mr_have r) b = Some buf" using hb(1) by (simp add: d)
  have "mt_push r b = Some (\<lparr>mr_buf = buf, mr_have = 0\<rparr>, Some (if b = fcs (tl ?h) then Inr (mt_of c0 c1 p)
                   else Inl (BadFcs b (fcs (tl ?h)))))"
    using hb(3) n[folded buf_def] s1[folded buf_def] s2[folded buf_def] unfolding mt_push_def st
    by (simp add: Let_def m(1) u mt_new_of p MAX_DATA_def add.commute del: slice_Some)
  then show ?thesis using m by (simp add: mt_idle_def buf_def)
qed

lemma mt_feed_hold:
  assumes "mt_holds r body" "mt_partial (body @ xs)"
  shows "\<exists>r'. feed mt_push r xs = Some (r', []) \<and> mt_holds r' (body @ xs)"
  using assms
proof (induction xs arbitrary: r body)
  case (Cons x xs)
  have "body \<noteq> []" using Cons.prems(1) by (auto simp: mt_holds_def mt_partial_def)
  then have "mt_partial (body @ [x])"
    using Cons.prems(2) by (cases body) (auto simp: mt_partial_def nth_append split: if_splits)
  from mt_push_hold[OF Cons.prems(1) this] obtain r1
    where 1: "mt_push r x = Some (r1, None)" "mt_holds r1 (body @ [x])" by blast
  from Cons.IH[OF 1(2)] Cons.prems(2) obtain r2
    where "feed mt_push r1 xs = Some (r2, [])" "mt_holds r2 (body @ x # xs)" by auto
  with 1 show ?case by (auto simp: feed_quiet)
qed simp

lemma mt_partial_head: "length p \<le> 250 \<Longrightarrow> mt_partial (mt_head c0 c1 p)"
  by (simp add: mt_partial_def mt_head_def)

text \<open>A whole frame, its check byte right or wrong, from an idle reader.\<close>

lemma mt_feed_frame:
  assumes "mt_idle r" "length p \<le> 250"
  shows "\<exists>r'. feed mt_push r (mt_head c0 c1 p @ [got]) =
      Some (r', [if got = fcs (tl (mt_head c0 c1 p)) then Inr (mt_of c0 c1 p)
                 else Inl (BadFcs got (fcs (tl (mt_head c0 c1 p))))]) \<and> mt_idle r'"
proof -
  let ?h = "mt_head c0 c1 p"
  from mt_push_start[OF assms(1)] obtain r1 where 1: "mt_push r SOF = Some (r1, None)" "mt_holds r1 [SOF]" by blast
  have hd: "[SOF] @ tl ?h = ?h" by (simp add: mt_head_def)
  from mt_feed_hold[OF 1(2), of "tl ?h"] mt_partial_head[OF assms(2), of c0 c1] obtain r2
    where 2: "feed mt_push r1 (tl ?h) = Some (r2, [])" "mt_holds r2 ?h" unfolding hd by blast
  have "feed mt_push r ([SOF] @ tl ?h) = Some (r2, [])" using 1(1) 2(1) by simp
  then have 3: "feed mt_push r ?h = Some (r2, [])" unfolding hd .
  from mt_push_check[OF 2(2) assms(2), of got] feed_append_Some[OF 3] show ?thesis by fastforce
qed

section \<open>The abstract parser\<close>

text \<open>
  What a byte string means: bytes before a start byte are skipped; a start byte whose length byte
  is too large is reported and both are given up; otherwise the length byte says where the check
  byte lies. A frame cut off by the end of the input reports nothing yet.
\<close>

function mt_scan :: "u8 list \<Rightarrow> (mt_error + mt_frame) list" where
  "mt_scan [] = []"
| "mt_scan (b # bs) =
     (if b \<noteq> SOF then mt_scan bs
      else case bs of
        [] \<Rightarrow> []
      | l # rest \<Rightarrow>
          if 250 < unat l then Inl (TooLong l) # mt_scan rest
          else if unat l + 2 < length rest then
            let p = take (unat l) (drop 2 rest); got = rest ! (unat l + 2); want = fcs (tl (mt_head (rest ! 0) (rest ! 1) p))
            in (if got = want then Inr (mt_of (rest ! 0) (rest ! 1) p) else Inl (BadFcs got want)) #
               mt_scan (drop (unat l + 3) rest)
          else [])"
  by pat_completeness auto

termination by (relation "measure length") auto

lemma mt_split:
  assumes "unat l + 2 < length rest"
  defines "p \<equiv> take (unat l) (drop 2 rest)"
  shows "SOF # l # rest = mt_head (rest ! 0) (rest ! 1) p @ rest ! (unat l + 2) # drop (unat l + 3) rest"
    "length p = unat l"
proof -
  obtain c0 c1 d where r: "rest = c0 # c1 # d" using assms(1) by (cases rest; cases "tl rest") auto
  have lt: "unat l < length d" using assms(1) by (simp add: r)
  have p: "p = take (unat l) d" by (simp add: p_def r)
  show "length p = unat l" using lt by (simp add: p)
  then show "SOF # l # rest = mt_head (rest ! 0) (rest ! 1) p @ rest ! (unat l + 2) # drop (unat l + 3) rest"
    using id_take_nth_drop[OF lt] by (simp add: r mt_head_def p numeral_3_eq_3)
qed

definition mt_reader_ok :: "mt_reader \<Rightarrow> bool" where
  "mt_reader_ok r \<longleftrightarrow> mt_idle r \<or> (\<exists>body. mt_holds r body)"

lemma mt_feed_scan:
  assumes "mt_idle r"
  shows "\<exists>r'. feed mt_push r bs = Some (r', mt_scan bs) \<and> mt_reader_ok r'"
  using assms
proof (induction bs arbitrary: r rule: length_induct)
  case (1 bs)
  note IH = "1.IH"[rule_format]
  show ?case
  proof (cases bs)
    case Nil
    with 1 show ?thesis by (auto simp: mt_reader_ok_def)
  next
    case bs: (Cons b bs')
    show ?thesis
    proof (cases "b = SOF")
      case False
      from IH[of bs' r] mt_push_skip[OF "1.prems" False] bs False "1.prems" show ?thesis by (fastforce simp: feed_quiet)
    next
      case True
      from mt_push_start[OF "1.prems"] obtain r1 where s: "mt_push r SOF = Some (r1, None)" "mt_holds r1 [SOF]" by blast
      show ?thesis
      proof (cases bs')
        case Nil
        with s bs True show ?thesis by (auto simp: mt_reader_ok_def)
      next
        case l: (Cons l rest)
        consider "250 < unat l" | "unat l \<le> 250" "unat l + 2 < length rest" | "unat l \<le> 250" "\<not> unat l + 2 < length rest"
          by linarith
        then show ?thesis
        proof cases
          case 1
          from mt_push_too_long[OF s(2) 1] obtain r2 where t: "mt_push r1 l = Some (r2, Some (Inl (TooLong l)))" "mt_idle r2" by blast
          from IH[of rest r2] t s(1) 1 show ?thesis by (auto simp: bs l True)
        next
          case 2
          let ?p = "take (unat l) (drop 2 rest)" and ?got = "rest ! (unat l + 2)" and ?rest = "drop (unat l + 3) rest"
          note sp = mt_split[OF 2(2)]
          have "length ?p \<le> 250" using sp(2) 2(1) by simp
          from mt_feed_frame[OF "1.prems" this, of "rest ! 0" "rest ! 1" ?got] obtain r2 where
            t: "feed mt_push r (mt_head (rest ! 0) (rest ! 1) ?p @ [?got]) = Some (r2,
                [if ?got = fcs (tl (mt_head (rest ! 0) (rest ! 1) ?p)) then Inr (mt_of (rest ! 0) (rest ! 1) ?p)
                 else Inl (BadFcs ?got (fcs (tl (mt_head (rest ! 0) (rest ! 1) ?p))))])" "mt_idle r2" by blast
          have "length ?rest < length bs" by (simp add: bs l)
          from IH[OF this t(2)] obtain r3 where u: "feed mt_push r2 ?rest = Some (r3, mt_scan ?rest)" "mt_reader_ok r3"
            by blast
          have "bs = (mt_head (rest ! 0) (rest ! 1) ?p @ [?got]) @ ?rest" using sp(1) by (simp add: bs l True)
          with feed_append_Some[OF t(1) u(1)] have "feed mt_push r bs = Some (r3,
              (if ?got = fcs (tl (mt_head (rest ! 0) (rest ! 1) ?p)) then Inr (mt_of (rest ! 0) (rest ! 1) ?p)
                 else Inl (BadFcs ?got (fcs (tl (mt_head (rest ! 0) (rest ! 1) ?p))))) # mt_scan ?rest)" by simp
          moreover have "mt_scan bs = (if ?got = fcs (tl (mt_head (rest ! 0) (rest ! 1) ?p)) then Inr (mt_of (rest ! 0) (rest ! 1) ?p)
                 else Inl (BadFcs ?got (fcs (tl (mt_head (rest ! 0) (rest ! 1) ?p))))) # mt_scan ?rest"
            using 2 by (simp add: bs l True Let_def)
          ultimately show ?thesis using u(2) by simp
        next
          case 3
          then have "mt_partial ([SOF] @ l # rest)" by (simp add: mt_partial_def)
          from mt_feed_hold[OF s(2) this] obtain r2 where "feed mt_push r1 (l # rest) = Some (r2, [])" "mt_holds r2 ([SOF] @ l # rest)" by blast
          then show ?thesis using s(1) 3 by (auto simp: bs l True mt_reader_ok_def feed_quiet)
        qed
      qed
    qed
  qed
qed

section \<open>The contract\<close>

lemma mt_idle_new [simp]: "mt_idle mt_reader_new"
  by (simp add: mt_idle_def mt_reader_new_def MAX_DATA_def)

definition mt_bad_check :: "mt_frame \<Rightarrow> u8 \<Rightarrow> mt_error" where
  "mt_bad_check f got = BadFcs got (last (mt_wire f))"

interpretation zigbee_frames: stream_decoder mt_push mt_idle mt_wire mt_ok mt_bad_check
proof
  fix r f assume h: "mt_idle r" "mt_ok f"
  from h(2) obtain c0 c1 p where f: "length p \<le> 250" "f = mt_of c0 c1 p" by (rule mt_okE)
  from mt_feed_frame[OF h(1) f(1), of c0 c1 "fcs (tl (mt_head c0 c1 p))"]
  show "\<exists>r'. feed mt_push r (mt_wire f) = Some (r', [Inr f]) \<and> mt_idle r'"
    by (simp add: f mt_wire_of)
  fix b assume "b \<noteq> last (mt_wire f)"
  with mt_feed_frame[OF h(1) f(1), of c0 c1 b]
  show "\<exists>r'. feed mt_push r (butlast (mt_wire f) @ [b]) = Some (r', [Inl (mt_bad_check f b)]) \<and> mt_idle r'"
    by (simp add: f mt_wire_of mt_bad_check_def)
qed

text \<open>The Zigbee frame reader computes its abstract parser: fed any bytes from its initial state it
  never runs out of its buffer and reports exactly what \<open>mt_scan\<close> reads, in order.\<close>

theorem zigbee_reader_computes_scan: "\<exists>r. feed mt_push mt_reader_new bs = Some (r, mt_scan bs)"
  using mt_feed_scan[OF mt_idle_new] by blast

text \<open>Zigbee frames survive the wire: the frames of a stream, serialised by the encoder one after the
  other, some of them with the check byte replaced, are read back one result each, the frame
  itself, or the check byte that came and the one that was due.\<close>

theorem zigbee_stream_roundtrip:
  assumes "\<forall>(f, damage) \<in> set xs. mt_ok f"
  shows "\<exists>r. feed mt_push mt_reader_new
           (concat (map (\<lambda>(f, damage).
              case mt_encode_into f (replicate 255 0) of
                None \<Rightarrow> []
              | Some (n, out) \<Rightarrow> (case damage of None \<Rightarrow> take n out | Some b \<Rightarrow> take (n - 1) out @ [b])) xs)) =
         Some (r, map (\<lambda>(f, damage).
           case damage of None \<Rightarrow> Inr f
           | Some b \<Rightarrow> if b = last (mt_wire f) then Inr f else Inl (BadFcs b (last (mt_wire f)))) xs)"
proof -
  have enc: "mt_encode_into f (replicate 255 0) = Some (length (mt_wire f), mt_wire f @ drop (length (mt_wire f)) (replicate 255 0)) \<and>
      mt_wire f \<noteq> []" if "mt_ok f" for f
    using that by (rule mt_okE) (simp add: mt_encode_eq length_mt_wire mt_wire_of mt_head_def)
  have "concat (map (\<lambda>(f, damage).
              case mt_encode_into f (replicate 255 0) of
                None \<Rightarrow> []
              | Some (n, out) \<Rightarrow> (case damage of None \<Rightarrow> take n out | Some b \<Rightarrow> take (n - 1) out @ [b])) xs) =
        concat (map zigbee_frames.sent xs)"
    using assms enc by (intro arg_cong[where f = concat] map_cong) (auto simp: butlast_conv_take split: option.splits)
  moreover have "map (\<lambda>(f, damage).
           case damage of None \<Rightarrow> Inr f
           | Some b \<Rightarrow> if b = last (mt_wire f) then Inr f else Inl (BadFcs b (last (mt_wire f)))) xs = map zigbee_frames.received xs"
    by (auto simp: mt_bad_check_def split: option.splits)
  ultimately show ?thesis
    using zigbee_frames.stream_received[of mt_reader_new xs] assms enc by fastforce
qed

theorem zigbee_stream_roundtrip_witness:
  "\<exists>r. feed mt_push mt_reader_new
        (concat (map (\<lambda>(f, damage).
           case mt_encode_into f (replicate 255 0) of
             None \<Rightarrow> []
           | Some (n, out) \<Rightarrow> (case damage of None \<Rightarrow> take n out | Some b \<Rightarrow> take (n - 1) out @ [b]))
          [(mt_of 0x21 2 [], None), (mt_of 0x61 2 [1, 2], Some 9)])) =
      Some (r, map (\<lambda>(f, damage).
           case damage of None \<Rightarrow> Inr f
           | Some b \<Rightarrow> if b = last (mt_wire f) then Inr f else Inl (BadFcs b (last (mt_wire f))))
          [(mt_of 0x21 2 [], None), (mt_of 0x61 2 [1, 2], Some 9)])"
  by (rule zigbee_stream_roundtrip) simp

end
