(* ===== verification/Hid.thy ===== *)
theory Hid
  imports Prelude "HOL-Library.AList"
begin

text \<open>
  The HID report descriptor parser of argon-proto/src/hid/descriptor.rs, which reads the layout of
  a USB power device. A descriptor is a byte string from a device that is not trusted; the parser
  is a loop over its items with the global state and its stack, the pending usages, and one bit
  cursor for every pair of report id and report kind. \<open>usize\<close> has 64 bits here: a main item moves
  a cursor by less than 2 to the power 24, so a descriptor would have to be longer than 2 to the power
  40 bytes to wrap one.
\<close>

section \<open>Fields\<close>

datatype item_kind = InputItem | OutputItem | FeatureItem

record hid_field =
  hf_report_id :: u8
  hf_kind :: item_kind
  hf_usage_page :: u16
  hf_usage :: u16
  hf_bit_offset :: nat
  hf_bit_size :: u8
  hf_logical_min :: i32
  hf_logical_max :: i32
  hf_flags :: u32

definition is_constant :: "hid_field \<Rightarrow> bool" where
  "is_constant f \<longleftrightarrow> hf_flags f AND 1 \<noteq> 0"

definition is_volatile :: "hid_field \<Rightarrow> bool" where
  "is_volatile f \<longleftrightarrow> hf_flags f AND 0x80 \<noteq> 0"

definition is_signed :: "hid_field \<Rightarrow> bool" where
  "is_signed f \<longleftrightarrow> hf_logical_min f < 0"

text \<open>The loop of \<open>extract\<close> after \<open>n\<close> rounds.\<close>

primrec raw_bits :: "nat \<Rightarrow> nat \<Rightarrow> u8 list \<Rightarrow> 64 word" where
  "raw_bits off 0 payload = 0"
| "raw_bits off (Suc i) payload =
     (let bt = off + i;
          b = payload ! (bt div 8)
      in raw_bits off i payload OR push_bit i (ucast (drop_bit (bt mod 8) b AND 1)))"

definition hid_extract :: "hid_field \<Rightarrow> u8 list \<Rightarrow> int option" where
  "hid_extract f payload =
     (let n = unat (hf_bit_size f)
      in if n = 0 \<or> 32 < n then None
         else if length payload * 8 < hf_bit_offset f + n then None
         else let raw = raw_bits (hf_bit_offset f) n payload
              in if is_signed f \<and> n < 64 \<and> raw AND push_bit (n - 1) 1 \<noteq> 0
                 then Some (sint (raw OR NOT (push_bit n 1 - 1)))
                 else Some (sint raw))"

text \<open>Reference: the payload read as one little-endian number, the field a window of its bits.\<close>

primrec le_number :: "u8 list \<Rightarrow> int" where
  "le_number [] = 0"
| "le_number (b # bs) = uint b + 256 * le_number bs"

definition window :: "bool \<Rightarrow> nat \<Rightarrow> nat \<Rightarrow> int \<Rightarrow> int" where
  "window sgnd off w x =
     (if sgnd then signed_take_bit (w - 1) (drop_bit off x) else take_bit w (drop_bit off x))"

lemma bit_le_number: "bit (le_number p) k \<longleftrightarrow> k div 8 < length p \<and> bit (p ! (k div 8)) (k mod 8)"
proof (induction p arbitrary: k)
  case (Cons b bs)
  have "take_bit 8 (uint b) = uint b"
    using unsigned_less[of b] by (intro take_bit_int_eq_self) auto
  then have "le_number (b # bs) = concat_bit 8 (uint b) (le_number bs)"
    by (simp add: concat_bit_eq push_bit_eq_mult)
  then have *: "bit (le_number (b # bs)) k \<longleftrightarrow> (if k < 8 then bit b k else bit (le_number bs) (k - 8))"
    by (auto simp: bit_concat_bit_iff bit_uint_iff)
  show ?case
  proof (cases "k < 8")
    case True
    then show ?thesis using * by simp
  next
    case False
    then have "k div 8 = Suc ((k - 8) div 8)" "(k - 8) mod 8 = k mod 8"
      by (simp_all add: le_div_geq le_mod_geq)
    then show ?thesis using * False Cons.IH[of "k - 8"] by simp
  qed
qed simp

lemma bit_raw_bits:
  "n \<le> 64 \<Longrightarrow> bit (raw_bits off n p) j \<longleftrightarrow> j < n \<and> bit (p ! ((off + j) div 8)) ((off + j) mod 8)"
proof (induction n)
  case (Suc n)
  have "bit (ucast (drop_bit m b AND 1) :: 64 word) i \<longleftrightarrow> i = 0 \<and> bit b m" for b :: u8 and i m
    by (auto simp: bit_simps)
  then show ?case using Suc by (auto simp: Let_def bit_or_iff bit_push_bit_iff less_Suc_eq)
qed simp

lemma raw_bits_window:
  assumes "n \<le> 32" "off + n \<le> 8 * length p"
  shows "bit (raw_bits off n p) j \<longleftrightarrow> j < n \<and> bit (drop_bit off (le_number p)) j"
proof -
  have "j < n \<Longrightarrow> (off + j) div 8 < length p" using assms(2) by simp
  then show ?thesis using assms(1) by (auto simp: bit_raw_bits bit_drop_bit_eq bit_le_number)
qed

lemma raw_bits_unsigned:
  assumes "n \<le> 32" "off + n \<le> 8 * length p"
  shows "sint (raw_bits off n p) = take_bit n (drop_bit off (le_number p))"
  by (rule bit_eqI) (use assms in \<open>auto simp: bit_sint_iff bit_take_bit_iff raw_bits_window min_def\<close>)

lemma raw_bits_signed:
  assumes "0 < n" "n \<le> 32" "off + n \<le> 8 * length p"
    and "bit (drop_bit off (le_number p)) (n - 1)"
  shows "sint (raw_bits off n p OR NOT (push_bit n 1 - 1)) = signed_take_bit (n - 1) (drop_bit off (le_number p))"
proof (rule bit_eqI)
  fix j
  have "bit (NOT (push_bit n 1 - 1) :: 64 word) k \<longleftrightarrow> n \<le> k" if "k < 64" for k
    using that by (simp add: push_bit_eq_mult mask_eq_exp_minus_1[symmetric] bit_simps not_less)
  then have *: "bit (raw_bits off n p OR NOT (push_bit n 1 - 1)) k \<longleftrightarrow> (k < n \<longrightarrow> bit (drop_bit off (le_number p)) k)"
    if "k < 64" for k
    using that assms(2,3) by (auto simp: bit_or_iff raw_bits_window)
  have "min j 63 < (64 :: nat)" by simp
  note * = *[OF this]
  show "bit (sint (raw_bits off n p OR NOT (push_bit n 1 - 1))) j
      \<longleftrightarrow> bit (signed_take_bit (n - 1) (drop_bit off (le_number p))) j"
  proof (cases "j < n")
    case True
    then have "min j 63 = j" "min (n - 1) j = j" "\<not> 64 \<le> j" using assms(2) by simp_all
    then show ?thesis using * True by (simp only: bit_sint_iff bit_signed_take_bit_iff) simp
  next
    case False
    then have "\<not> min j 63 < n" "min (n - 1) j = n - 1" using assms(2) by simp_all
    then show ?thesis using * assms(4)
      by (cases "64 \<le> j") (simp_all add: bit_sint_iff bit_signed_take_bit_iff min_def split: if_splits)
  qed
qed

text \<open>C25: extracting a field is taking its window of the payload read as one little-endian number,
  sign-extended exactly when the declared minimum is negative; a field of no bits or of more than 32,
  or one whose last bit lies past the payload, gives nothing.\<close>

theorem hid_extract_reference:
  "hid_extract f payload =
     (let w = unat (hf_bit_size f)
      in if 0 < w \<and> w \<le> 32 \<and> hf_bit_offset f + w \<le> 8 * length payload
         then Some (window (is_signed f) (hf_bit_offset f) w (le_number payload)) else None)"
proof -
  define n where "n = unat (hf_bit_size f)"
  define off where "off = hf_bit_offset f"
  define x where "x = drop_bit off (le_number payload)"
  show ?thesis
  proof (cases "0 < n \<and> n \<le> 32 \<and> off + n \<le> 8 * length payload")
    case ok: True
    have sb: "raw_bits off n payload AND push_bit (n - 1) 1 \<noteq> 0 \<longleftrightarrow> bit x (n - 1)"
      using ok by (simp only: bit_iff_and_push_bit_not_eq_0[symmetric] x_def raw_bits_window) simp
    have "signed_take_bit (n - 1) x = take_bit n x" if "\<not> bit x (n - 1)"
      unfolding signed_take_bit_eq_if_positive[OF that]
    proof (rule bit_eqI)
      fix j
      have "j < n \<longleftrightarrow> j < n - 1 \<or> j = n - 1" using ok by auto
      then show "bit (take_bit (n - 1) x) j \<longleftrightarrow> bit (take_bit n x) j"
        using that by (auto simp: bit_take_bit_iff)
    qed
    then show ?thesis
      using ok sb raw_bits_unsigned[of n off payload] raw_bits_signed[of n off payload]
      by (auto simp: hid_extract_def window_def Let_def n_def[symmetric] off_def[symmetric] x_def[symmetric])
  qed (auto simp: hid_extract_def Let_def n_def[symmetric] off_def[symmetric])
qed

section \<open>The parser\<close>

datatype hid_error = HidTruncated | HidTooDeep | HidTooManyFields

fun hid_error_text :: "hid_error \<Rightarrow> string" where
  "hid_error_text HidTruncated = ''report descriptor is truncated''"
| "hid_error_text HidTooDeep = ''report descriptor nests Push items too deeply''"
| "hid_error_text HidTooManyFields = ''report descriptor declares too many fields''"

record hid_global =
  hg_usage_page :: u16
  hg_logical_min :: i32
  hg_logical_max :: i32
  hg_report_size :: u8
  hg_report_count :: u16
  hg_report_id :: u8

definition hid_global_default :: hid_global where
  "hid_global_default =
     \<lparr>hg_usage_page = 0, hg_logical_min = 0, hg_logical_max = 0, hg_report_size = 0,
      hg_report_count = 0, hg_report_id = 0\<rparr>"

type_synonym hid_key = "u8 \<times> item_kind"

record hid_parser =
  hp_global :: hid_global
  hp_stack :: "hid_global list" \<comment> \<open>top first\<close>
  hp_usages :: "u16 list"
  hp_usage_min :: "u16 option"
  hp_cursors :: "(hid_key \<times> nat) list"
  hp_fields :: "hid_field list"

definition hid_parser_start :: hid_parser where
  "hid_parser_start =
     \<lparr>hp_global = hid_global_default, hp_stack = [], hp_usages = [], hp_usage_min = None,
      hp_cursors = [], hp_fields = []\<rparr>"

definition MAX_FIELDS :: nat where "MAX_FIELDS = 4096"
definition MAX_PUSH_DEPTH :: nat where "MAX_PUSH_DEPTH = 16"

definition item_value :: "u8 list \<Rightarrow> u32 \<times> i32" where
  "item_value data =
     (foldl (\<lambda>acc b. push_bit 8 acc OR ucast b) 0 (rev data),
      if length data = 1 then sint (data ! 0)
      else if length data = 2 then sint (push_bit 8 (ucast (data ! 1)) OR ucast (data ! 0) :: u16)
      else if length data = 4 then
        sint (push_bit 24 (ucast (data ! 3)) OR push_bit 16 (ucast (data ! 2))
              OR push_bit 8 (ucast (data ! 1)) OR ucast (data ! 0) :: u32)
      else 0)"

definition usage_at :: "u16 list \<Rightarrow> nat \<Rightarrow> u16 option" where
  "usage_at us n = (if n < length us then Some (us ! n) else if us = [] then None else Some (last us))"

definition new_field :: "hid_global \<Rightarrow> item_kind \<Rightarrow> u32 \<Rightarrow> u16 \<Rightarrow> nat \<Rightarrow> hid_field" where
  "new_field g kind flags u off =
     \<lparr>hf_report_id = hg_report_id g, hf_kind = kind, hf_usage_page = hg_usage_page g, hf_usage = u,
      hf_bit_offset = off, hf_bit_size = hg_report_size g, hf_logical_min = hg_logical_min g,
      hf_logical_max = hg_logical_max g, hf_flags = flags\<rparr>"

text \<open>The loop of \<open>emit_fields\<close> at round \<open>n\<close> with \<open>k\<close> rounds to go: the cursor moves in every round,
  also when no usage is pending and no field is declared.\<close>

fun emit_loop :: "hid_global \<Rightarrow> item_kind \<Rightarrow> u32 \<Rightarrow> u16 list \<Rightarrow> nat \<Rightarrow> nat \<Rightarrow> nat \<Rightarrow> hid_field list
    \<Rightarrow> hid_error + nat \<times> hid_field list" where
  "emit_loop g kind flags us n 0 cur fs = Inr (cur, fs)"
| "emit_loop g kind flags us n (Suc k) cur fs =
     (let next = cur + unat (hg_report_size g)
      in case usage_at us n of
           None \<Rightarrow> emit_loop g kind flags us (Suc n) k next fs
         | Some u \<Rightarrow>
             if MAX_FIELDS \<le> length fs then Inl HidTooManyFields
             else emit_loop g kind flags us (Suc n) k next (fs @ [new_field g kind flags u cur]))"

definition cursor_of :: "(hid_key \<times> nat) list \<Rightarrow> hid_key \<Rightarrow> nat" where
  "cursor_of cs key = (case map_of cs key of Some c \<Rightarrow> c | None \<Rightarrow> 0)"

definition emit_fields :: "item_kind \<Rightarrow> u32 \<Rightarrow> hid_parser \<Rightarrow> hid_error + hid_parser" where
  "emit_fields kind flags p =
     (let g = hp_global p;
          key = (hg_report_id g, kind)
      in map_ok (\<lambda>(cur, fs). p\<lparr>hp_cursors := AList.update key cur (hp_cursors p), hp_fields := fs\<rparr>)
           (emit_loop g kind flags (hp_usages p) 0 (unat (hg_report_count g))
              (cursor_of (hp_cursors p) key) (hp_fields p)))"

definition clear_local :: "hid_parser \<Rightarrow> hid_parser" where
  "clear_local p = p\<lparr>hp_usages := [], hp_usage_min := None\<rparr>"

text \<open>The usages of a range item, from the least to the largest, one push at a time.\<close>

fun push_range :: "nat \<Rightarrow> nat \<Rightarrow> u16 list \<Rightarrow> hid_error + u16 list" where
  "push_range u 0 us = Inr us"
| "push_range u (Suc k) us =
     (if MAX_FIELDS \<le> length us then Inl HidTooManyFields
      else push_range (Suc u) k (us @ [of_nat u]))"

definition parse_item :: "u8 \<Rightarrow> u8 list \<Rightarrow> hid_parser \<Rightarrow> hid_error + hid_parser" where
  "parse_item tag data p =
     (let (uval, sval) = item_value data;
          g = hp_global p;
          low16 = (ucast (uval AND 0xFFFF) :: u16);
          low8 = (ucast (uval AND 0xFF) :: u8)
      in if tag = 0x04 then Inr (p\<lparr>hp_global := g\<lparr>hg_usage_page := low16\<rparr>\<rparr>)
         else if tag = 0x14 then Inr (p\<lparr>hp_global := g\<lparr>hg_logical_min := sval\<rparr>\<rparr>)
         else if tag = 0x24 then
           Inr (p\<lparr>hp_global := g\<lparr>hg_logical_max := (if 0 \<le> hg_logical_min g then sint uval else sval)\<rparr>\<rparr>)
         else if tag = 0x74 then Inr (p\<lparr>hp_global := g\<lparr>hg_report_size := low8\<rparr>\<rparr>)
         else if tag = 0x94 then Inr (p\<lparr>hp_global := g\<lparr>hg_report_count := low16\<rparr>\<rparr>)
         else if tag = 0x84 then Inr (p\<lparr>hp_global := g\<lparr>hg_report_id := low8\<rparr>\<rparr>)
         else if tag = 0xA4 then
           (if MAX_PUSH_DEPTH \<le> length (hp_stack p) then Inl HidTooDeep
            else Inr (p\<lparr>hp_stack := g # hp_stack p\<rparr>))
         else if tag = 0xB4 then
           Inr (case hp_stack p of [] \<Rightarrow> p | t # rest \<Rightarrow> p\<lparr>hp_global := t, hp_stack := rest\<rparr>)
         else if tag = 0x08 then Inr (p\<lparr>hp_usages := hp_usages p @ [low16]\<rparr>)
         else if tag = 0x18 then Inr (p\<lparr>hp_usage_min := Some low16\<rparr>)
         else if tag = 0x28 then
           (case hp_usage_min p of
              None \<Rightarrow> Inr p
            | Some lo \<Rightarrow>
                map_ok (\<lambda>us. p\<lparr>hp_usage_min := None, hp_usages := us\<rparr>)
                  (push_range (unat lo) (Suc (max (unat low16) (unat lo)) - unat lo) (hp_usages p)))
         else if tag = 0x80 then map_ok clear_local (emit_fields InputItem uval p)
         else if tag = 0x90 then map_ok clear_local (emit_fields OutputItem uval p)
         else if tag = 0xB0 then map_ok clear_local (emit_fields FeatureItem uval p)
         else Inr (clear_local p))"

definition item_size :: "u8 \<Rightarrow> nat" where
  "item_size prefix = (let r = unat (prefix AND 3) in if r = 3 then 4 else r)"

function parse_loop :: "u8 list \<Rightarrow> nat \<Rightarrow> hid_parser \<Rightarrow> hid_error + hid_parser" where
  "parse_loop bytes i p =
     (if i < length bytes then
        let prefix = bytes ! i;
            data_start = i + 1;
            data_end = data_start + item_size prefix
        in if length bytes < data_end then Inl HidTruncated
           else case parse_item (prefix AND 0xFC) (take (data_end - data_start) (drop data_start bytes)) p of
                  Inl e \<Rightarrow> Inl e
                | Inr p' \<Rightarrow> parse_loop bytes data_end p'
      else Inr p)"
  by pat_completeness auto
termination by (relation "measure (\<lambda>(bytes, i, p). length bytes - i)") (auto simp: Let_def)

declare parse_loop.simps [simp del]

definition hid_parse :: "u8 list \<Rightarrow> hid_error + hid_field list" where
  "hid_parse bytes = map_ok hp_fields (parse_loop bytes 0 hid_parser_start)"

definition hid_find :: "hid_field list \<Rightarrow> item_kind \<Rightarrow> u16 \<Rightarrow> u16 \<Rightarrow> hid_field option" where
  "hid_find fs kind page u =
     find (\<lambda>f. hf_kind f = kind \<and> hf_usage_page f = page \<and> hf_usage f = u) fs"

definition report_ids :: "hid_field list \<Rightarrow> item_kind \<Rightarrow> u8 list" where
  "report_ids fs kind = remdups_adj (sort (map hf_report_id (filter (\<lambda>f. hf_kind f = kind) fs)))"

section \<open>The layout\<close>

definition field_key :: "hid_field \<Rightarrow> hid_key" where
  "field_key f = (hf_report_id f, hf_kind f)"

definition field_end :: "hid_field \<Rightarrow> nat" where
  "field_end f = hf_bit_offset f + unat (hf_bit_size f)"

definition apart :: "hid_field \<Rightarrow> hid_field \<Rightarrow> bool" where
  "apart f g \<longleftrightarrow> (field_key f = field_key g \<longrightarrow> field_end f \<le> hf_bit_offset g)"

definition range_i32 :: "hid_field \<Rightarrow> bool" where
  "range_i32 f \<longleftrightarrow> is_i32 (hf_logical_min f) \<and> is_i32 (hf_logical_max f)"

definition global_i32 :: "hid_global \<Rightarrow> bool" where
  "global_i32 g \<longleftrightarrow> is_i32 (hg_logical_min g) \<and> is_i32 (hg_logical_max g)"

definition layout_ok :: "hid_parser \<Rightarrow> bool" where
  "layout_ok p \<longleftrightarrow>
     length (hp_fields p) \<le> MAX_FIELDS \<and> sorted_wrt apart (hp_fields p)
     \<and> (\<forall>f \<in> set (hp_fields p). field_end f \<le> cursor_of (hp_cursors p) (field_key f) \<and> range_i32 f)
     \<and> length (hp_stack p) \<le> MAX_PUSH_DEPTH
     \<and> global_i32 (hp_global p) \<and> (\<forall>g \<in> set (hp_stack p). global_i32 g)"

lemma new_field_simps [simp]:
  "field_key (new_field g kind flags u off) = (hg_report_id g, kind)"
  "field_end (new_field g kind flags u off) = off + unat (hg_report_size g)"
  "hf_bit_offset (new_field g kind flags u off) = off"
  "range_i32 (new_field g kind flags u off) = global_i32 g"
  by (simp_all add: field_key_def field_end_def new_field_def range_i32_def global_i32_def)

lemma apart_new_field [simp]:
  "apart f (new_field g kind flags u off) \<longleftrightarrow> (field_key f = (hg_report_id g, kind) \<longrightarrow> field_end f \<le> off)"
  by (simp add: apart_def)

lemma cursor_of_update: "cursor_of (AList.update k v cs) k' = (if k = k' then v else cursor_of cs k')"
  by (simp add: cursor_of_def update_conv')

lemma is_i32_sint:
  "is_i32 (sint (b :: u8))" "is_i32 (sint (w :: u16))" "is_i32 (sint (d :: u32))"
  using sint_range_size[of b] sint_range_size[of w] sint_range_size[of d]
  by (simp_all add: is_i32_def word_size)

lemma item_value_i32: "is_i32 (snd (item_value data))"
  by (auto simp: item_value_def is_i32_sint) (simp add: is_i32_def)

lemma emit_loop_layout:
  assumes "emit_loop g kind flags us n k cur fs = Inr (cur', fs')"
    and "length fs \<le> MAX_FIELDS" "sorted_wrt apart fs"
    and "\<forall>f \<in> set fs. field_key f = (hg_report_id g, kind) \<longrightarrow> field_end f \<le> cur"
  shows "cur \<le> cur' \<and> length fs' \<le> MAX_FIELDS \<and> sorted_wrt apart fs'
    \<and> (\<forall>f \<in> set fs'. field_key f = (hg_report_id g, kind) \<longrightarrow> field_end f \<le> cur')
    \<and> (\<forall>f \<in> set fs'. f \<in> set fs \<or> field_key f = (hg_report_id g, kind) \<and> range_i32 f = global_i32 g)"
  using assms
proof (induction g kind flags us n k cur fs rule: emit_loop.induct)
  case (2 g kind flags us n k cur fs)
  let ?next = "cur + unat (hg_report_size g)"
  show ?case
  proof (cases "usage_at us n")
    case None
    have "\<forall>f \<in> set fs. field_key f = (hg_report_id g, kind) \<longrightarrow> field_end f \<le> ?next" using "2.prems"(4) by force
    with 2 None show ?thesis by (force simp: Let_def)
  next
    case (Some u)
    let ?f = "new_field g kind flags u cur"
    have room: "length fs < MAX_FIELDS"
      and run: "emit_loop g kind flags us (Suc n) k ?next (fs @ [?f]) = Inr (cur', fs')"
      using "2.prems"(1) Some by (auto simp: Let_def split: if_splits)
    have "sorted_wrt apart (fs @ [?f])"
      using "2.prems"(3,4) by (auto simp: sorted_wrt_append)
    moreover have "\<forall>f \<in> set (fs @ [?f]). field_key f = (hg_report_id g, kind) \<longrightarrow> field_end f \<le> ?next"
      using "2.prems"(4) by force
    ultimately show ?thesis
      using "2.IH"(2)[OF refl Some _ run] room by fastforce
  qed
qed auto

lemma emit_fields_layout:
  assumes "emit_fields kind flags p = Inr p'" "layout_ok p"
  shows "layout_ok p'"
proof -
  define key where "key = (hg_report_id (hp_global p), kind)"
  obtain cur fs where
      run: "emit_loop (hp_global p) kind flags (hp_usages p) 0 (unat (hg_report_count (hp_global p)))
              (cursor_of (hp_cursors p) key) (hp_fields p) = Inr (cur, fs)"
    and p': "p' = p\<lparr>hp_cursors := AList.update key cur (hp_cursors p), hp_fields := fs\<rparr>"
    using assms(1) unfolding emit_fields_def Let_def key_def[symmetric]
    by (auto simp: map_ok_def split: sum.splits prod.splits)
  note * = emit_loop_layout[OF run]
  have "\<forall>f \<in> set (hp_fields p). field_key f = key \<longrightarrow> field_end f \<le> cursor_of (hp_cursors p) key"
    using assms(2) by (auto simp: layout_ok_def)
  then show ?thesis
    using * assms(2) unfolding layout_ok_def p' key_def[symmetric]
    by (auto simp: cursor_of_update)
qed

lemma clear_local_layout [simp]: "layout_ok (clear_local p) = layout_ok p"
  by (simp add: layout_ok_def clear_local_def)

lemma layout_ok_global: "layout_ok p \<Longrightarrow> global_i32 g \<Longrightarrow> layout_ok (p\<lparr>hp_global := g\<rparr>)"
  by (simp add: layout_ok_def)

lemma layout_ok_local:
  "layout_ok (p\<lparr>hp_usages := us\<rparr>) = layout_ok p"
  "layout_ok (p\<lparr>hp_usage_min := m\<rparr>) = layout_ok p"
  by (simp_all add: layout_ok_def)

lemma map_ok_Inr_iff: "map_ok f r = Inr y \<longleftrightarrow> (\<exists>x. r = Inr x \<and> y = f x)"
  by (cases r) auto

lemma parse_item_layout:
  assumes "parse_item tag data p = Inr p'" "layout_ok p"
  shows "layout_ok p'"
proof -
  obtain uval sval where v: "item_value data = (uval, sval)" by fastforce
  then have s: "is_i32 sval" using item_value_i32[of data] by simp
  have g: "global_i32 (hp_global p)" and st: "length (hp_stack p) \<le> MAX_PUSH_DEPTH" "\<forall>g \<in> set (hp_stack p). global_i32 g"
    using assms(2) by (auto simp: layout_ok_def)
  show ?thesis
    using assms(1) unfolding parse_item_def v prod.case Let_def
    by (auto simp: map_ok_Inr_iff layout_ok_local assms(2) s is_i32_sint split: if_splits list.splits option.splits
        intro!: layout_ok_global[OF assms(2)] dest!: emit_fields_layout[OF _ assms(2)])
      (use assms(2) g st s in \<open>auto simp: global_i32_def layout_ok_def is_i32_sint\<close>)
qed

lemma parse_loop_layout: "parse_loop bytes i p = Inr p' \<Longrightarrow> layout_ok p \<Longrightarrow> layout_ok p'"
proof (induction bytes i p rule: parse_loop.induct)
  case (1 bytes i p)
  then show ?case
    by (subst (asm) (2) parse_loop.simps) (auto simp: Let_def split: if_splits sum.splits dest: parse_item_layout)
qed

text \<open>C24: the fields of an accepted descriptor, at most 4096 of them, do not share a bit: of two fields
  of the same report and kind the one declared first ends before the other begins, and the declared
  ranges are 32-bit values.\<close>

theorem hid_fields_laid_out:
  assumes "hid_parse bytes = Inr fs"
  shows "length fs \<le> MAX_FIELDS \<and> sorted_wrt apart fs \<and> list_all range_i32 fs"
proof -
  have "layout_ok hid_parser_start"
    by (simp add: layout_ok_def hid_parser_start_def hid_global_default_def global_i32_def is_i32_def)
  then show ?thesis
    using assms parse_loop_layout[of bytes 0 hid_parser_start]
    by (auto simp: hid_parse_def map_ok_Inr_iff layout_ok_def list_all_iff)
qed

text \<open>A descriptor with two fields of eight bits in feature report 1.\<close>

definition two_field_descriptor :: "u8 list" where
  "two_field_descriptor =
     [0x05, 0x84, 0x85, 0x01, 0x09, 0x66, 0x09, 0x68, 0x15, 0x00, 0x26, 0xFF, 0x00, 0x75, 0x08,
      0x95, 0x02, 0xB1, 0x02]"

lemma two_field_parse: "map_ok (map (\<lambda>f. (hf_usage f, hf_bit_offset f))) (hid_parse two_field_descriptor) = Inr [(0x66, 0), (0x68, 8)]"
  by code_simp

theorem hid_fields_laid_out_witness:
  "\<exists>fs. hid_parse two_field_descriptor = Inr fs \<and> length fs = 2 \<and> sorted_wrt apart fs"
proof -
  obtain fs where fs: "hid_parse two_field_descriptor = Inr fs" "map (\<lambda>f. (hf_usage f, hf_bit_offset f)) fs = [(0x66, 0), (0x68, 8)]"
    using two_field_parse by (auto simp: map_ok_Inr_iff)
  from arg_cong[OF fs(2), of length] have "length fs = 2" by simp
  with fs(1) hid_fields_laid_out[OF fs(1)] show ?thesis by blast
qed

text \<open>The run over a list of items, which the loop over the bytes has to equal.\<close>

type_synonym hid_item = "u8 \<times> u8 list" \<comment> \<open>the prefix byte and the data\<close>

fun run_items :: "hid_item list \<Rightarrow> hid_parser \<Rightarrow> hid_error + hid_parser" where
  "run_items [] p = Inr p"
| "run_items ((prefix, data) # items) p =
     rbind (parse_item (prefix AND 0xFC) data p) (run_items items)"

definition item_bytes :: "hid_item \<Rightarrow> u8 list" where
  "item_bytes it = fst it # snd it"

lemma item_bytes_pair: "item_bytes (prefix, data) = prefix # data"
  by (simp add: item_bytes_def)

definition whole_item :: "hid_item \<Rightarrow> bool" where
  "whole_item it \<longleftrightarrow> length (snd it) = item_size (fst it)"

definition cut_item :: "u8 list \<Rightarrow> bool" where
  "cut_item tail \<longleftrightarrow> (\<exists>prefix data. tail = prefix # data \<and> length data < item_size prefix)"

lemma split_items:
  "\<exists>items tail. bytes = concat (map item_bytes items) @ tail \<and> list_all whole_item items
     \<and> (tail = [] \<or> cut_item tail)"
proof (induction bytes rule: length_induct)
  case (1 bytes)
  show ?case
  proof (cases bytes)
    case (Cons prefix rest)
    show ?thesis
    proof (cases "length rest < item_size prefix")
      case True
      then have "bytes = concat (map item_bytes []) @ bytes \<and> list_all whole_item [] \<and> cut_item bytes"
        using Cons by (auto simp: cut_item_def)
      then show ?thesis by blast
    next
      case False
      obtain items tail where it: "drop (item_size prefix) rest = concat (map item_bytes items) @ tail"
          "list_all whole_item items" "tail = [] \<or> cut_item tail"
        using 1 Cons by (metis length_Cons length_drop less_Suc_eq_le diff_le_self)
      let ?it = "(prefix, take (item_size prefix) rest)"
      have "bytes = concat (map item_bytes (?it # items)) @ tail \<and> list_all whole_item (?it # items)"
        using it False Cons by (simp add: item_bytes_def whole_item_def it(1)[symmetric])
      then show ?thesis using it(3) by blast
    qed
  next
    case Nil
    then have "bytes = concat (map item_bytes []) @ [] \<and> list_all whole_item []" by simp
    then show ?thesis by blast
  qed
qed

lemma parse_loop_cut: "cut_item tail \<Longrightarrow> parse_loop (pre @ tail) (length pre) p = Inl HidTruncated"
  by (subst parse_loop.simps) (auto simp: cut_item_def Let_def nth_append)

lemma parse_loop_done: "parse_loop bytes (length bytes) p = Inr p"
  by (subst parse_loop.simps) simp

lemma parse_loop_items:
  assumes "list_all whole_item items"
  shows "parse_loop (pre @ concat (map item_bytes items) @ tail) (length pre) p =
    rbind (run_items items p)
      (parse_loop (pre @ concat (map item_bytes items) @ tail) (length (pre @ concat (map item_bytes items))))"
  using assms
proof (induction items arbitrary: pre p)
  case (Cons it items)
  obtain prefix data where it: "it = (prefix, data)" by (cases it)
  have n: "item_size prefix = length data" using Cons.prems it by (simp add: whole_item_def)
  define bytes where "bytes = pre @ concat (map item_bytes (it # items)) @ tail"
  have eq: "bytes = (pre @ prefix # data) @ concat (map item_bytes items) @ tail"
    by (simp add: bytes_def it item_bytes_def)
  have nth: "bytes ! length pre = prefix"
    and data: "take (length data) (drop (Suc (length pre)) bytes) = data"
    and len: "length pre + length data < length bytes"
    by (simp_all add: eq nth_append)
  have "parse_loop bytes (length pre) p =
      rbind (parse_item (prefix AND 0xFC) data p) (parse_loop bytes (length (pre @ prefix # data)))"
    using len by (subst parse_loop.simps) (simp add: Let_def nth n data rbind_def split: sum.split)
  also have "\<dots> = rbind (parse_item (prefix AND 0xFC) data p) (\<lambda>p'. rbind (run_items items p')
      (parse_loop bytes (length ((pre @ prefix # data) @ concat (map item_bytes items)))))"
    unfolding eq using Cons.IH[of "pre @ prefix # data"] Cons.prems
    by (intro arg_cong[of _ _ "rbind _"] ext) simp
  finally show ?case by (simp add: bytes_def it item_bytes_pair rbind_def split: sum.split)
qed simp

text \<open>C23: parsing ends on every byte string and is a run over its items: the string is a sequence of
  whole items and, possibly, one item cut short; the outcome is that of the whole items in order, and
  a cut item is an error of truncation once the whole ones have passed.\<close>

theorem hid_parse_runs_items:
  "\<exists>items tail. bytes = concat (map item_bytes items) @ tail \<and> list_all whole_item items
     \<and> (tail = [] \<or> cut_item tail)
     \<and> hid_parse bytes = rbind (run_items items hid_parser_start)
         (\<lambda>p. if tail = [] then Inr (hp_fields p) else Inl HidTruncated)"
proof -
  obtain items tail where it: "bytes = concat (map item_bytes items) @ tail"
      "list_all whole_item items" "tail = [] \<or> cut_item tail"
    using split_items by blast
  have "hid_parse bytes = rbind (run_items items hid_parser_start)
         (\<lambda>p. if tail = [] then Inr (hp_fields p) else Inl HidTruncated)"
    using parse_loop_items[OF it(2), of "[]" tail hid_parser_start] it(3)
      parse_loop_cut[of tail "concat (map item_bytes items)"] parse_loop_done[of "concat (map item_bytes items)"]
    by (cases "run_items items hid_parser_start") (auto simp: hid_parse_def it(1))
  with it show ?thesis by blast
qed

text \<open>a physical minimum or maximum, a unit or a unit exponent between a usage and its main item
  makes the main item declare nothing: the parser forgets the pending usages at every global item it
  does not know, where the HID specification clears them only at main items.\<close>

theorem hid_unit_item_drops_fields:
  assumes "tag \<in> {0x34, 0x44, 0x54, 0x64}"
    and "main \<in> {0x80, 0x90, 0xB0}"
    and "rbind (parse_item tag data p) (parse_item main flags) = Inr p'"
  shows "hp_fields p' = hp_fields p"
proof -
  have none: "emit_loop g kind fl [] n k cur fs = Inr (cur + k * unat (hg_report_size g), fs)" for g kind fl n k cur fs
    by (induction k arbitrary: n cur) (simp_all add: usage_at_def Let_def algebra_simps)
  have "parse_item tag data p = Inr (clear_local p)"
    using assms(1) by (auto simp: parse_item_def Let_def split: prod.split)
  then have "parse_item main flags (clear_local p) = Inr p'" using assms(3) by simp
  then show ?thesis
    using assms(2) by (auto simp: parse_item_def emit_fields_def Let_def map_ok_Inr_iff clear_local_def none
        split: prod.splits)
qed

text \<open>A parser about to meet an input item for one pending usage.\<close>

definition pending_parser :: hid_parser where
  "pending_parser = hid_parser_start
     \<lparr>hp_global := hid_global_default\<lparr>hg_usage_page := 0x84, hg_report_size := 8, hg_report_count := 1\<rparr>,
      hp_usages := [0x66]\<rparr>"

lemma pending_without_unit: "map_ok (\<lambda>p. length (hp_fields p)) (parse_item 0x80 [2] pending_parser) = Inr 1"
  by code_simp

theorem hid_unit_item_drops_fields_witness:
  "\<exists>p'. rbind (parse_item 0x64 [0] pending_parser) (parse_item 0x80 [2]) = Inr p'
     \<and> hp_fields p' = hp_fields pending_parser"
proof -
  have "is_ok (rbind (parse_item 0x64 [0] pending_parser) (parse_item 0x80 [2]))" by code_simp
  then obtain p' where "rbind (parse_item 0x64 [0] pending_parser) (parse_item 0x80 [2]) = Inr p'"
    by (metis is_ok.simps(1) old.sum.exhaust)
  from hid_unit_item_drops_fields[OF _ _ this] this show ?thesis by auto
qed

end
