(* ===== verification/Config.thy ===== *)
theory Config
  imports Policy Mcu
begin

text \<open>
  The configuration of the daemon (\<open>crates/argon-device/src/config.rs\<close>): its sections with their
  defaults, the checks made after the file was parsed, and what the other components take from it.
  The TOML parser, reading the file and the parser of socket addresses are parameters. Whole
  degrees become tenths with a 32-bit multiplication, which wraps in a release build.
\<close>

section \<open>Sections\<close>

record button_config =
  bcf_action :: string

definition button_config_default :: button_config where
  "button_config_default = \<lparr>bcf_action = ''none''\<rparr>"

definition button_armed :: "button_config \<Rightarrow> bool" where
  "button_armed b \<longleftrightarrow> bcf_action b = ''shutdown''"

record lid_config =
  lcf_action :: string
  lcf_radios_off :: bool
  lcf_cpu_throttle :: bool
  lcf_shutdown_delay_s :: nat

definition lid_config_default :: lid_config where
  "lid_config_default =
     \<lparr>lcf_action = ''power-save'', lcf_radios_off = False, lcf_cpu_throttle = False, lcf_shutdown_delay_s = 1\<rparr>"

record oled_config =
  ocf_enabled :: bool
  ocf_flip :: bool
  ocf_contrast :: u8
  ocf_refresh_s :: nat

definition oled_config_default :: oled_config where
  "oled_config_default = \<lparr>ocf_enabled = False, ocf_flip = False, ocf_contrast = 64, ocf_refresh_s = 5\<rparr>"

record telemetry_config =
  tcf_enabled :: bool
  tcf_listen :: string

definition telemetry_config_default :: telemetry_config where
  "telemetry_config_default = \<lparr>tcf_enabled = False, tcf_listen = ''127.0.0.1:9843''\<rparr>"

record curve_entry =
  ce_temp_c :: i32
  ce_duty :: u8

record fan_config =
  fcf_curve :: "curve_entry list"
  fcf_hysteresis_c :: i32
  fcf_min_duty :: u8
  fcf_safe_duty :: u8
  fcf_hot_threshold_c :: i32
  fcf_allow_stop :: bool
  fcf_poll_interval_s :: nat
  fcf_min_write_interval_ms :: nat

definition fan_config_default :: fan_config where
  "fan_config_default =
     \<lparr>fcf_curve = [\<lparr>ce_temp_c = 55, ce_duty = 30\<rparr>, \<lparr>ce_temp_c = 60, ce_duty = 55\<rparr>,
        \<lparr>ce_temp_c = 65, ce_duty = 100\<rparr>],
      fcf_hysteresis_c = 3, fcf_min_duty = 10, fcf_safe_duty = 55, fcf_hot_threshold_c = 75,
      fcf_allow_stop = False, fcf_poll_interval_s = 5, fcf_min_write_interval_ms = 500\<rparr>"

record mcu_config =
  mcf_dialect :: string
  mcf_bus :: string

definition mcu_config_default :: mcu_config where
  "mcu_config_default = \<lparr>mcf_dialect = ''legacy'', mcf_bus = ''auto''\<rparr>"

definition configured_dialect :: "mcu_config \<Rightarrow> dialect" where
  "configured_dialect m = (case dialect_from_config (mcf_dialect m) of Some d \<Rightarrow> d | None \<Rightarrow> Legacy)"

record ups_config =
  ucf_source :: string
  ucf_port :: string
  ucf_poll_interval_s :: nat
  ucf_low_percent :: u8
  ucf_critical_percent :: u8
  ucf_recover_margin :: u8
  ucf_confirmations :: u8
  ucf_min_uptime_s :: nat
  ucf_shutdown_delay_min :: nat
  ucf_state_file :: string
  ucf_sync_clock :: bool

definition ups_config_default :: ups_config where
  "ups_config_default =
     (let p = policy_config_default
      in \<lparr>ucf_source = ''serial'', ucf_port = ''auto'', ucf_poll_interval_s = 10,
          ucf_low_percent = low_percent p, ucf_critical_percent = critical_percent p,
          ucf_recover_margin = recover_margin p, ucf_confirmations = confirmations p,
          ucf_min_uptime_s = min_uptime p div 1000000000, ucf_shutdown_delay_min = 2,
          ucf_state_file = ''/run/argon-utils/ups.state'', ucf_sync_clock = True\<rparr>)"

definition ups_policy :: "ups_config \<Rightarrow> policy_config" where
  "ups_policy u =
     \<lparr>low_percent = ucf_low_percent u, critical_percent = ucf_critical_percent u,
      recover_margin = ucf_recover_margin u, confirmations = ucf_confirmations u,
      min_uptime = from_secs (ucf_min_uptime_s u)\<rparr>"

record config =
  cf_mode :: string
  cf_fan :: fan_config
  cf_mcu :: mcu_config
  cf_ups :: ups_config
  cf_telemetry :: telemetry_config
  cf_oled :: oled_config
  cf_lid :: lid_config
  cf_button :: button_config

definition config_default :: config where
  "config_default =
     \<lparr>cf_mode = mode_text ReadOnly, cf_fan = fan_config_default, cf_mcu = mcu_config_default,
      cf_ups = ups_config_default, cf_telemetry = telemetry_config_default,
      cf_oled = oled_config_default, cf_lid = lid_config_default, cf_button = button_config_default\<rparr>"

section \<open>Checks\<close>

datatype config_error =
  ConfigIo string
| ConfigToml string
| BadValue (bv_key: string) (bv_got: string) (bv_expected: string)
| ConfigCurve string

fun config_error_text :: "config_error \<Rightarrow> string" where
  "config_error_text (ConfigIo e) = e"
| "config_error_text (ConfigToml e) = e"
| "config_error_text (BadValue key got expected) =
     key @ '': '' @ debug_str got @ '' is not valid; expected '' @ expected"
| "config_error_text (ConfigCurve e) = ''fan curve: '' @ e"

fun policy_expectation :: "policy_error \<Rightarrow> string" where
  "policy_expectation CriticalNotBelowLow = ''critical_percent below low_percent''"
| "policy_expectation PolicyOutOfRange = ''percentages within 0..=100''"
| "policy_expectation NoConfirmations = ''confirmations of at least 1; 0 would act on a single reading''"
| "policy_expectation NoMargin = ''recover_margin of at least 1; 0 lets a reading flap''"

definition config_mode :: "config \<Rightarrow> config_error + mode" where
  "config_mode c =
     (case mode_parse (cf_mode c) of
        Some m \<Rightarrow> Inr m
      | None \<Rightarrow> Inl (BadValue ''mode'' (cf_mode c) ''read-only, managed or full''))"

fun curve_points :: "curve_entry list \<Rightarrow> config_error + curve_point list" where
  "curve_points [] = Inr []"
| "curve_points (e # es) =
     (case duty_new (ce_duty e) of
        Inl _ \<Rightarrow> Inl (BadValue ''fan.curve.duty'' (show_nat (unat (ce_duty e))) ''0..=100'')
      | Inr duty \<Rightarrow> map_ok (\<lambda>ps. from_celsius (ce_temp_c e) duty # ps) (curve_points es))"

definition config_fan_curve :: "config \<Rightarrow> config_error + fan_curve" where
  "config_fan_curve c =
     rbind (curve_points (fcf_curve (cf_fan c)))
       (\<lambda>ps. map_err (\<lambda>e. ConfigCurve (curve_error_text e)) (curve_new ps))"

definition fan_poll_interval :: "config \<Rightarrow> duration" where
  "fan_poll_interval c = from_secs (fcf_poll_interval_s (cf_fan c))"

definition min_write_interval :: "config \<Rightarrow> duration" where
  "min_write_interval c = from_millis (fcf_min_write_interval_ms (cf_fan c))"

definition MAX_SHUTDOWN_DELAY_S :: nat where "MAX_SHUTDOWN_DELAY_S = 60"
definition MAX_FAN_POLL_INTERVAL_S :: nat where "MAX_FAN_POLL_INTERVAL_S = 15"

definition lid_validate :: "lid_config \<Rightarrow> config_error + unit" where
  "lid_validate l =
     (if lcf_action l \<notin> {''power-save'', ''shutdown''}
        then Inl (BadValue ''lid.action'' (lcf_action l) ''power-save or shutdown'')
      else if MAX_SHUTDOWN_DELAY_S < lcf_shutdown_delay_s l
        then Inl (BadValue ''lid.shutdown_delay_s'' (show_nat (lcf_shutdown_delay_s l)) ''0 to 60 seconds'')
      else Inr ())"

definition dialect_expectation :: "string \<Rightarrow> string" where
  "dialect_expectation d =
     (if d = ''auto'' then ''legacy or register (there is no auto: detection is unsafe, see ADR-0002)''
      else ''legacy (the ONE V1 and the default) or register (the ONE V3)'')"

text \<open>The checks in the order of the code; \<open>addr_ok\<close> is whether an address and port parses.\<close>

definition config_validate :: "(string \<Rightarrow> bool) \<Rightarrow> config \<Rightarrow> config_error + unit" where
  "config_validate addr_ok c =
     rbind (config_mode c) (\<lambda>_.
     rbind (config_fan_curve c) (\<lambda>_.
     rbind (lid_validate (cf_lid c)) (\<lambda>_.
       if bcf_action (cf_button c) \<notin> {''none'', ''shutdown''}
         then Inl (BadValue ''button.action'' (bcf_action (cf_button c)) ''none or shutdown'')
       else if ocf_refresh_s (cf_oled c) = 0
         then Inl (BadValue ''oled.refresh_s'' ''0'' ''at least 1 second; zero is a busy loop on a shared I2C bus'')
       else if dialect_from_config (mcf_dialect (cf_mcu c)) = None
         then Inl (BadValue ''mcu.dialect'' (mcf_dialect (cf_mcu c)) (dialect_expectation (mcf_dialect (cf_mcu c))))
       else case policy_validate (ups_policy (cf_ups c)) of
         Inl e \<Rightarrow> Inl (BadValue ''ups''
             (''low_percent='' @ show_nat (unat (ucf_low_percent (cf_ups c))) @
              '', critical_percent='' @ show_nat (unat (ucf_critical_percent (cf_ups c))) @
              '', recover_margin='' @ show_nat (unat (ucf_recover_margin (cf_ups c))) @
              '', confirmations='' @ show_nat (unat (ucf_confirmations (cf_ups c))))
             (policy_expectation e))
       | Inr _ \<Rightarrow>
         if \<not> (1 \<le> ucf_shutdown_delay_min (cf_ups c) \<and> ucf_shutdown_delay_min (cf_ups c) \<le> 30)
           then Inl (BadValue ''ups.shutdown_delay_min'' (show_nat (ucf_shutdown_delay_min (cf_ups c)))
             ''1 to 30 minutes: 0 would be immediate, and a long delay spends the battery the shutdown exists to protect'')
         else if ucf_source (cf_ups c) \<notin> {''serial'', ''oneup'', ''hid'', ''none''}
           then Inl (BadValue ''ups.source'' (ucf_source (cf_ups c)) ''serial, oneup, hid or none'')
         else if fcf_safe_duty (cf_fan c) = 0
           then Inl (BadValue ''fan.safe_duty'' ''0''
             ''a duty that actually spins the fan; 0 would make the safety fallback a stopped fan'')
         else if tcf_enabled (cf_telemetry c) \<and> \<not> addr_ok (tcf_listen (cf_telemetry c))
           then Inl (BadValue ''telemetry.listen'' (tcf_listen (cf_telemetry c))
             ''an address and port, e.g. 127.0.0.1:9843'')
         else if fcf_poll_interval_s (cf_fan c) = 0
           then Inl (BadValue ''fan.poll_interval_s'' ''0'' ''at least 1 second; zero is a busy loop'')
         else if MAX_FAN_POLL_INTERVAL_S \<le> fcf_poll_interval_s (cf_fan c)
           then Inl (BadValue ''fan.poll_interval_s'' (show_nat (fcf_poll_interval_s (cf_fan c)))
             ''below 15 seconds: it is also the systemd watchdog ping period                            (WatchdogSec=30 in the shipped unit)'')
         else Inr ())))"

text \<open>\<open>toml\<close> is the TOML parser with the structure of \<open>config\<close>, \<open>file\<close> the outcome of reading.\<close>

definition config_from_toml :: "(string \<Rightarrow> bool) \<Rightarrow> (string \<Rightarrow> string + config) \<Rightarrow> string
    \<Rightarrow> config_error + config" where
  "config_from_toml addr_ok toml txt =
     rbind (map_err ConfigToml (toml txt)) (\<lambda>c. rbind (config_validate addr_ok c) (\<lambda>_. Inr c))"

definition config_load :: "(string \<Rightarrow> bool) \<Rightarrow> (string \<Rightarrow> string + config) \<Rightarrow> (string \<Rightarrow> string + string) \<Rightarrow> string
    \<Rightarrow> config_error + config" where
  "config_load addr_ok toml file path =
     rbind (map_err (\<lambda>e. ConfigIo (path @ '': '' @ e)) (file path)) (config_from_toml addr_ok toml)"

definition strip_suffix :: "string \<Rightarrow> string \<Rightarrow> string option" where
  "strip_suffix p s = map_option rev (strip_prefix (rev p) (rev s))"

definition section_name :: "string \<Rightarrow> string option" where
  "section_name line =
     (case strip_prefix ''['' (trim line) of None \<Rightarrow> None | Some r \<Rightarrow> strip_suffix '']'' r)"

definition missing_sections :: "string \<Rightarrow> string list" where
  "missing_sections txt =
     filter (\<lambda>s. s \<notin> set (List.map_filter section_name (text_lines txt)))
       [''fan'', ''mcu'', ''ups'', ''oled'', ''telemetry'', ''lid'', ''button'']"

section \<open>What a validated configuration promises\<close>

definition entry_point :: "curve_entry \<Rightarrow> curve_point" where
  "entry_point e = from_celsius (ce_temp_c e) (if ce_duty e = 0 then Off else Percent (ce_duty e))"

definition duties_ok :: "fan_config \<Rightarrow> bool" where
  "duties_ok f \<longleftrightarrow> list_all (\<lambda>e. ce_duty e \<le> 100) (fcf_curve f)"

lemma curve_points_Inr: "list_all (\<lambda>e. ce_duty e \<le> 100) es \<Longrightarrow> curve_points es = Inr (map entry_point es)"
  by (induction es) (auto simp: duty_new_def entry_point_def)

lemma curve_points_Inl: "\<not> list_all (\<lambda>e. ce_duty e \<le> 100) es \<Longrightarrow> \<exists>err. curve_points es = Inl err"
  by (induction es) (auto simp: duty_new_def map_ok_def split: sum.split)

lemma config_fan_curve_ok:
  "(\<exists>fc. config_fan_curve c = Inr fc) \<longleftrightarrow>
     duties_ok (cf_fan c) \<and> points_ok (map entry_point (fcf_curve (cf_fan c)))"
proof (cases "duties_ok (cf_fan c)")
  case True
  then show ?thesis
    by (simp add: config_fan_curve_def curve_points_Inr duties_ok_def flip: curve_new_iff)
      (cases "curve_new (map entry_point (fcf_curve (cf_fan c)))"; simp)
next
  case False
  then show ?thesis using curve_points_Inl[of "fcf_curve (cf_fan c)"]
    by (auto simp: config_fan_curve_def duties_ok_def)
qed

definition config_sound :: "(string \<Rightarrow> bool) \<Rightarrow> config \<Rightarrow> bool" where
  "config_sound addr_ok c \<longleftrightarrow>
     mode_parse (cf_mode c) \<noteq> None
     \<and> duties_ok (cf_fan c) \<and> points_ok (map entry_point (fcf_curve (cf_fan c)))
     \<and> fcf_safe_duty (cf_fan c) \<noteq> 0 \<and> fcf_poll_interval_s (cf_fan c) \<in> {1..14}
     \<and> mcf_dialect (cf_mcu c) \<in> {''legacy'', ''register''}
     \<and> ucf_source (cf_ups c) \<in> {''serial'', ''oneup'', ''hid'', ''none''}
     \<and> ucf_critical_percent (cf_ups c) < ucf_low_percent (cf_ups c) \<and> ucf_low_percent (cf_ups c) \<le> 100
     \<and> ucf_confirmations (cf_ups c) \<noteq> 0 \<and> ucf_recover_margin (cf_ups c) \<noteq> 0
     \<and> ucf_shutdown_delay_min (cf_ups c) \<in> {1..30}
     \<and> lcf_action (cf_lid c) \<in> {''power-save'', ''shutdown''} \<and> lcf_shutdown_delay_s (cf_lid c) \<le> 60
     \<and> bcf_action (cf_button c) \<in> {''none'', ''shutdown''}
     \<and> 1 \<le> ocf_refresh_s (cf_oled c)
     \<and> (tcf_enabled (cf_telemetry c) = False \<or> addr_ok (tcf_listen (cf_telemetry c)))"

lemma policy_validate_iff:
  "policy_validate (ups_policy u) = Inr () \<longleftrightarrow>
     ucf_critical_percent u < ucf_low_percent u \<and> ucf_low_percent u \<le> 100
     \<and> ucf_confirmations u \<noteq> 0 \<and> ucf_recover_margin u \<noteq> 0"
  by (auto simp: policy_validate_def ups_policy_def not_less not_le)

lemma dialect_known: "dialect_from_config d \<noteq> None \<longleftrightarrow> d \<in> {''legacy'', ''register''}"
  by (auto simp: dialect_from_config_def)

lemma lid_validate_iff:
  "lid_validate l = Inr () \<longleftrightarrow> lcf_action l \<in> {''power-save'', ''shutdown''} \<and> lcf_shutdown_delay_s l \<le> 60"
  by (auto simp: lid_validate_def MAX_SHUTDOWN_DELAY_S_def)

lemma config_mode_ok: "(\<exists>m. config_mode c = Inr m) \<longleftrightarrow> mode_parse (cf_mode c) \<noteq> None"
  by (auto simp: config_mode_def split: option.split)

lemma validate_sound: "config_validate addr_ok c = Inr () \<longleftrightarrow> config_sound addr_ok c"
proof -
  let ?steps = "(\<exists>m. config_mode c = Inr m) \<and> (\<exists>fc. config_fan_curve c = Inr fc) \<and> lid_validate (cf_lid c) = Inr ()"
  let ?rest = "bcf_action (cf_button c) \<in> {''none'', ''shutdown''} \<and> ocf_refresh_s (cf_oled c) \<noteq> 0
    \<and> dialect_from_config (mcf_dialect (cf_mcu c)) \<noteq> None \<and> policy_validate (ups_policy (cf_ups c)) = Inr ()
    \<and> (1 \<le> ucf_shutdown_delay_min (cf_ups c) \<and> ucf_shutdown_delay_min (cf_ups c) \<le> 30)
    \<and> ucf_source (cf_ups c) \<in> {''serial'', ''oneup'', ''hid'', ''none''} \<and> fcf_safe_duty (cf_fan c) \<noteq> 0
    \<and> \<not> (tcf_enabled (cf_telemetry c) \<and> \<not> addr_ok (tcf_listen (cf_telemetry c)))
    \<and> fcf_poll_interval_s (cf_fan c) \<noteq> 0 \<and> fcf_poll_interval_s (cf_fan c) < MAX_FAN_POLL_INTERVAL_S"
  have "config_validate addr_ok c = Inr () \<longleftrightarrow> ?steps \<and> ?rest"
    unfolding config_validate_def
    by (cases "config_mode c"; cases "config_fan_curve c"; cases "lid_validate (cf_lid c)";
        cases "policy_validate (ups_policy (cf_ups c))")
      (auto simp del: insert_iff)
  also have "\<dots> \<longleftrightarrow> config_sound addr_ok c"
    unfolding config_mode_ok config_fan_curve_ok lid_validate_iff policy_validate_iff dialect_known config_sound_def
      MAX_FAN_POLL_INTERVAL_S_def atLeastAtMost_iff by auto
  finally show ?thesis .
qed

lemma config_validate_sound_default: "config_sound addr_ok config_default"
proof -
  have "mode_parse (cf_mode config_default) \<noteq> None"
    using mode_parse_text[of ReadOnly] by (simp add: config_default_def)
  moreover have "map (\<lambda>e. cp_decicelsius (entry_point e)) (fcf_curve fan_config_default) = [550, 600, 650]"
    by (simp add: fan_config_default_def entry_point_def from_celsius_def is_i32_def)
  then have "points_ok (map entry_point (fcf_curve fan_config_default))" "duties_ok fan_config_default"
    by (auto simp: fan_config_default_def points_ok_def duties_ok_def entry_point_def from_celsius_def is_i32_def)
  ultimately show ?thesis
    by (simp add: config_sound_def config_default_def fan_config_default_def mcu_config_default_def
        ups_config_default_def policy_config_default_def telemetry_config_default_def oled_config_default_def
        lid_config_default_def button_config_default_def Let_def)
qed


text \<open>The checks are made on the wrapped thresholds: a threshold of 429496732 degrees passes and is
  2.4 degrees to the controller.\<close>

lemma config_threshold_wraps:
  defines "c \<equiv> config_default\<lparr>cf_fan := fan_config_default\<lparr>fcf_curve := [\<lparr>ce_temp_c = 429496732, ce_duty = 100\<rparr>]\<rparr>\<rparr>"
  shows "config_validate addr_ok c = Inr ()"
    and "entry_point \<lparr>ce_temp_c = 429496732, ce_duty = 100\<rparr> = \<lparr>cp_decicelsius = 24, cp_duty = Percent 100\<rparr>"
proof -
  show "entry_point \<lparr>ce_temp_c = 429496732, ce_duty = 100\<rparr> = \<lparr>cp_decicelsius = 24, cp_duty = Percent 100\<rparr>"
    by (simp add: entry_point_def from_celsius_def wrap_i32_def signed_take_bit_eq_take_bit_shift take_bit_eq_mod)
  have "config_sound addr_ok config_default" by (rule config_validate_sound_default)
  then have "config_sound addr_ok c"
    by (auto simp: c_def config_sound_def config_default_def duties_ok_def points_ok_def fan_config_default_def)
  then show "config_validate addr_ok c = Inr ()" by (simp add: validate_sound)
qed

end
