(* ===== verification/Lid.thy ===== *)
theory Lid
  imports Config
begin

text \<open>
  What closing and opening the lid does (\<open>crates/argon-device/src/lid.rs\<close>): reports of the lid and
  the passing of time go in, effects come out. The theorems speak of whole histories of calls and of
  an abstract desktop that carries the effects out.
\<close>

section \<open>The policy\<close>

datatype lid_effect =
  ScreenOff
| ScreenOn
| RadiosOff
| RadiosRestore
| CpuCap bool
| ShutdownAlert duration
| ShutdownCancelled
| PowerOff

datatype lid_action = PowerSave | LidShutdown

record saving =
  sv_radios :: bool
  sv_cpu :: bool

record lid =
  ld_action :: lid_action
  ld_radios_off :: bool
  ld_cpu_throttle :: bool
  ld_delay :: duration
  ld_closed :: "bool option"
  ld_saving :: "saving option"
  ld_shutdown_at :: "duration option"
  ld_powering_off :: bool

definition lid_new :: "lid_config \<Rightarrow> lid" where
  "lid_new c =
     \<lparr>ld_action = (if lcf_action c = ''shutdown'' then LidShutdown else PowerSave),
      ld_radios_off = lcf_radios_off c, ld_cpu_throttle = lcf_cpu_throttle c,
      ld_delay = from_secs (lcf_shutdown_delay_s c), ld_closed = None, ld_saving = None,
      ld_shutdown_at = None, ld_powering_off = False\<rparr>"

definition lid_undo :: "saving \<Rightarrow> lid_effect list" where
  "lid_undo s =
     [ScreenOn] @ (if sv_radios s then [RadiosRestore] else []) @ (if sv_cpu s then [CpuCap False] else [])"

definition on_close :: "duration \<Rightarrow> lid \<Rightarrow> lid_effect list \<times> lid" where
  "on_close now l =
     (case ld_action l of
        PowerSave \<Rightarrow>
          let s = \<lparr>sv_radios = ld_radios_off l, sv_cpu = ld_cpu_throttle l\<rparr>
          in ([ScreenOff] @ (if sv_radios s then [RadiosOff] else []) @ (if sv_cpu s then [CpuCap True] else []),
              l\<lparr>ld_saving := Some s\<rparr>)
      | LidShutdown \<Rightarrow>
          if ld_powering_off l then ([], l)
          else ([ShutdownAlert (ld_delay l)], l\<lparr>ld_shutdown_at := Some (now + ld_delay l)\<rparr>))"

definition on_open :: "lid \<Rightarrow> lid_effect list \<times> lid" where
  "on_open l =
     ((case ld_saving l of None \<Rightarrow> [ScreenOn] | Some s \<Rightarrow> lid_undo s) @
      (if ld_shutdown_at l \<noteq> None then [ShutdownCancelled] else []),
      l\<lparr>ld_saving := None, ld_shutdown_at := None\<rparr>)"

definition lid_report :: "bool \<Rightarrow> duration \<Rightarrow> lid \<Rightarrow> lid_effect list \<times> lid" where
  "lid_report closed now l =
     (let before = ld_closed l; l1 = l\<lparr>ld_closed := Some closed\<rparr>
      in if before = Some False \<and> closed then on_close now l1
         else if before = Some True \<and> \<not> closed then on_open l1
         else ([], l1))"

definition lid_tick :: "duration \<Rightarrow> lid \<Rightarrow> lid_effect list \<times> lid" where
  "lid_tick now l =
     (case ld_shutdown_at l of
        None \<Rightarrow> ([], l)
      | Some at \<Rightarrow>
          if at \<le> now \<and> ld_closed l = Some True \<and> \<not> ld_powering_off l
          then ([PowerOff], l\<lparr>ld_shutdown_at := None, ld_powering_off := True\<rparr>)
          else ([], l))"

definition next_deadline :: "lid \<Rightarrow> duration option" where
  "next_deadline l = ld_shutdown_at l"

definition restore_all :: "lid \<Rightarrow> lid_effect list \<times> lid" where
  "restore_all l =
     ((case ld_saving l of None \<Rightarrow> [] | Some s \<Rightarrow> lid_undo s),
      l\<lparr>ld_shutdown_at := None, ld_saving := None\<rparr>)"

section \<open>Histories\<close>

datatype lid_call = Report bool duration | Tick duration | RestoreAll

fun lid_step :: "lid_call \<Rightarrow> lid \<Rightarrow> lid_effect list \<times> lid" where
  "lid_step (Report closed now) l = lid_report closed now l"
| "lid_step (Tick now) l = lid_tick now l"
| "lid_step RestoreAll l = restore_all l"

definition lid_run :: "lid_call list \<Rightarrow> lid \<Rightarrow> lid_effect list \<times> lid" where
  "lid_run cs l = foldl (\<lambda>(out, l) c. let (o', l') = lid_step c l in (out @ o', l')) ([], l) cs"

lemma lid_run_snoc:
  "lid_run (cs @ [c]) l = (fst (lid_run cs l) @ fst (lid_step c (snd (lid_run cs l))), snd (lid_step c (snd (lid_run cs l))))"
  by (simp add: lid_run_def Let_def split: prod.split)

lemma lid_run_Nil [simp]: "lid_run [] l = ([], l)"
  by (simp add: lid_run_def)

lemmas lid_ops = lid_report_def lid_tick_def restore_all_def on_close_def on_open_def lid_undo_def

text \<open>The desktop: what is down because of the lid.\<close>

record desktop =
  dk_dark :: bool
  dk_radios_down :: bool
  dk_capped :: bool

fun carry_out :: "lid_effect \<Rightarrow> desktop \<Rightarrow> desktop" where
  "carry_out ScreenOff d = d\<lparr>dk_dark := True\<rparr>"
| "carry_out ScreenOn d = d\<lparr>dk_dark := False\<rparr>"
| "carry_out RadiosOff d = d\<lparr>dk_radios_down := True\<rparr>"
| "carry_out RadiosRestore d = d\<lparr>dk_radios_down := False\<rparr>"
| "carry_out (CpuCap b) d = d\<lparr>dk_capped := b\<rparr>"
| "carry_out _ d = d"

definition carry_all :: "lid_effect list \<Rightarrow> desktop \<Rightarrow> desktop" where
  "carry_all es d = fold carry_out es d"

definition all_up :: desktop where
  "all_up = \<lparr>dk_dark = False, dk_radios_down = False, dk_capped = False\<rparr>"

text \<open>What a desktop has to look like for a policy to be in its state.\<close>

definition desktop_of :: "lid \<Rightarrow> desktop" where
  "desktop_of l =
     (case ld_saving l of
        None \<Rightarrow> all_up
      | Some s \<Rightarrow> \<lparr>dk_dark = True, dk_radios_down = sv_radios s, dk_capped = sv_cpu s\<rparr>)"

definition lid_inv :: "lid_config \<Rightarrow> lid \<Rightarrow> bool" where
  "lid_inv c l \<longleftrightarrow>
     ld_action l = ld_action (lid_new c) \<and> ld_delay l = ld_delay (lid_new c)
     \<and> ld_radios_off l = lcf_radios_off c \<and> ld_cpu_throttle l = lcf_cpu_throttle c
     \<and> (ld_closed l \<noteq> Some True \<longrightarrow> ld_saving l = None \<and> ld_shutdown_at l = None)
     \<and> (ld_action l = LidShutdown \<longrightarrow> ld_saving l = None)
     \<and> (ld_action l = PowerSave \<longrightarrow> ld_shutdown_at l = None \<and> \<not> ld_powering_off l)
     \<and> (\<forall>s. ld_saving l = Some s \<longrightarrow> s = \<lparr>sv_radios = lcf_radios_off c, sv_cpu = lcf_cpu_throttle c\<rparr>)
     \<and> (ld_powering_off l \<longrightarrow> ld_shutdown_at l = None)"

lemma lid_inv_new: "lid_inv c (lid_new c)"
  by (simp add: lid_inv_def lid_new_def)

lemma lid_inv_call: "lid_inv c l \<Longrightarrow> lid_inv c (snd (lid_step e l))"
  by (cases e) (auto simp: lid_inv_def lid_ops Let_def split: lid_action.splits option.splits if_splits)

lemma lid_inv_run: "lid_inv c (snd (lid_run cs (lid_new c)))"
  by (induction cs rule: rev_induct) (simp_all add: lid_inv_new lid_inv_call lid_run_snoc)

lemma carry_call: "lid_inv c l \<Longrightarrow> carry_all (fst (lid_step e l)) (desktop_of l) = desktop_of (snd (lid_step e l))"
  by (cases e) (auto simp: lid_inv_def lid_ops Let_def carry_all_def desktop_of_def all_up_def
      split: lid_action.splits option.splits if_splits)

lemma lid_desktop:
  "carry_all (fst (lid_run cs (lid_new c))) all_up = desktop_of (snd (lid_run cs (lid_new c)))"
proof (induction cs rule: rev_induct)
  case (snoc e cs)
  then show ?case using carry_call[OF lid_inv_run[of c cs], of e] by (simp add: lid_run_snoc carry_all_def)
qed (simp add: carry_all_def desktop_of_def lid_new_def)

text \<open>C16: whatever the lid and the clock do, the desktop that carries out the effects is the one the
  policy believes in; and it is fully up, screen, radios and processor, whenever the lid is not known
  to be closed and after every \<open>restore_all\<close>.\<close>

theorem lid_desktop_restored:
  "let (out, l) = lid_run cs (lid_new c); d = carry_all out all_up
   in d = desktop_of l
      \<and> (ld_closed l = Some True \<or> d = all_up)
      \<and> carry_all (fst (restore_all l)) d = all_up"
proof -
  obtain out l where run: "lid_run cs (lid_new c) = (out, l)" by fastforce
  have d: "carry_all out all_up = desktop_of l" using lid_desktop[of cs c] run by simp
  have inv: "lid_inv c l" using lid_inv_run[of c cs] run by simp
  have "carry_all (fst (restore_all l)) (desktop_of l) = all_up"
    using carry_call[OF inv, of RestoreAll] by (simp add: desktop_of_def restore_all_def)
  moreover have "ld_closed l = Some True \<or> desktop_of l = all_up"
    using inv by (auto simp add: lid_inv_def desktop_of_def)
  ultimately show ?thesis using run d by simp
qed

text \<open>The lid as the calls report it: since when it has been closed after having been open, as long
  as no call since then opened it or asked for everything to be restored.\<close>

fun closing :: "lid_call \<Rightarrow> bool option \<times> duration option \<Rightarrow> bool option \<times> duration option" where
  "closing (Report closed now) (before, since) =
     (Some closed, if closed then (if before = Some False then Some now else since) else None)"
| "closing (Tick now) s = s"
| "closing RestoreAll (before, since) = (before, None)"

definition closed_since :: "lid_call list \<Rightarrow> duration option" where
  "closed_since cs = snd (fold closing cs (None, None))"

lemma closing_run:
  "fst (fold closing cs (None, None)) = ld_closed (snd (lid_run cs (lid_new c)))
   \<and> (\<forall>at. ld_shutdown_at (snd (lid_run cs (lid_new c))) = Some at \<longrightarrow>
         (\<exists>s. snd (fold closing cs (None, None)) = Some s \<and> at = s + from_secs (lcf_shutdown_delay_s c)))"
proof (induction cs rule: rev_induct)
  case (snoc e cs)
  obtain b s where f: "fold closing cs (None, None) = (b, s)" by fastforce
  have "lid_inv c (snd (lid_run cs (lid_new c)))" by (rule lid_inv_run)
  moreover from this have "ld_delay (snd (lid_run cs (lid_new c))) = from_secs (lcf_shutdown_delay_s c)"
    by (simp add: lid_inv_def lid_new_def)
  ultimately show ?case using snoc f unfolding lid_inv_def
    by (cases e) (auto simp: lid_run_snoc lid_ops Let_def split: lid_action.splits option.splits if_splits)
qed (simp add: lid_new_def)

text \<open>C14: the machine is powered off at most once, and only by a tick that finds the lid closed for
  the whole configured delay, with shutdown as the configured action: opened and closed before, not
  closed when the agent started, and neither opened nor restored since.\<close>

theorem lid_poweroff_justified:
  assumes "PowerOff \<in> set (fst (lid_step e (snd (lid_run cs (lid_new c)))))"
  shows "PowerOff \<notin> set (fst (lid_run cs (lid_new c))) \<and> lcf_action c = ''shutdown''
    \<and> (\<exists>now since. e = Tick now \<and> closed_since cs = Some since
         \<and> since + from_secs (lcf_shutdown_delay_s c) \<le> now)"
proof -
  let ?l = "snd (lid_run cs (lid_new c))"
  have once: "PowerOff \<in> set (fst (lid_run cs (lid_new c))) \<Longrightarrow> ld_powering_off (snd (lid_run cs (lid_new c)))" for cs
  proof (induction cs rule: rev_induct)
    case (snoc e cs)
    then show ?case
      by (cases e) (auto simp: lid_run_snoc lid_ops Let_def split: lid_action.splits option.splits if_splits)
  qed simp
  obtain now at where e: "e = Tick now" and l: "ld_shutdown_at ?l = Some at" "at \<le> now" "\<not> ld_powering_off ?l"
    using assms by (cases e) (auto simp: lid_ops Let_def split: lid_action.splits option.splits if_splits)
  moreover have "lcf_action c = ''shutdown''"
    using lid_inv_run[of c cs] l(1) by (auto simp: lid_inv_def lid_new_def split: if_splits)
  ultimately show ?thesis using once[of cs] closing_run[of cs c] by (auto simp: closed_since_def)
qed

definition lid_shutdown_config :: lid_config where
  "lid_shutdown_config = lid_config_default\<lparr>lcf_action := ''shutdown''\<rparr>"

theorem lid_poweroff_justified_witness:
  "closed_since [Report False 0, Report True 5] = Some 5
   \<and> PowerOff \<in> set (fst (lid_step (Tick 1000000005) (snd (lid_run [Report False 0, Report True 5] (lid_new lid_shutdown_config)))))"
proof -
  have p: "PowerOff \<in> set (fst (lid_step (Tick 1000000005) (snd (lid_run [Report False 0, Report True 5] (lid_new lid_shutdown_config)))))"
    by (simp add: lid_run_def lid_ops lid_new_def lid_shutdown_config_def lid_config_default_def)
  from lid_poweroff_justified[OF this] p show ?thesis by (auto simp: closed_since_def)
qed

end
