(* ===== verification/VendorCurve.thy ===== *)
theory VendorCurve
  imports Fan
begin

text \<open>
  Importing the vendor's fan curve file (\<open>crates/argon-proto/src/fan/config.rs\<close>): one
  temperature and duty per line, comments, and an error for the first line that is neither.
\<close>

section \<open>The parser\<close>

datatype vendor_error_kind = NotAPair | BadTemperature | BadDuty | BadCurve curve_error

record vendor_error =
  ve_line :: nat
  ve_kind :: vendor_error_kind

fun vendor_kind_text :: "vendor_error_kind \<Rightarrow> string" where
  "vendor_kind_text NotAPair = ''expected `<temperature>=<duty>`''"
| "vendor_kind_text BadTemperature = ''temperature is not a number''"
| "vendor_kind_text BadDuty = ''duty is not a number in 0..=100''"
| "vendor_kind_text (BadCurve e) = curve_error_text e"

definition vendor_error_text :: "vendor_error \<Rightarrow> string" where
  "vendor_error_text e = ''line '' @ show_nat (ve_line e) @ '': '' @ vendor_kind_text (ve_kind e)"

definition parse_decicelsius :: "string \<Rightarrow> i32 option" where
  "parse_decicelsius s =
     (let (negative, digits) =
            (case strip_prefix ''-'' s of
               Some r \<Rightarrow> (True, r)
             | None \<Rightarrow> (False, case strip_prefix ''+'' s of Some r \<Rightarrow> r | None \<Rightarrow> s));
          (whole, frac) = (case split_once CHR ''.'' digits of Some (w, f) \<Rightarrow> (w, f) | None \<Rightarrow> (digits, []))
      in if whole = [] \<or> \<not> list_all is_digit whole then None
         else if \<not> list_all is_digit frac then None
         else case parse_i32 whole of
           None \<Rightarrow> None
         | Some w \<Rightarrow>
             if 1 < length frac then None
             else let tenths = (if frac = [] then 0 else int (digit_val (hd frac)))
                  in if is_i32 (w * 10) \<and> is_i32 (w * 10 + tenths)
                     then Some (if negative then - (w * 10 + tenths) else w * 10 + tenths)
                     else None)"

text \<open>One line: nothing to do, or a point, or what is wrong with it.\<close>

definition line_content :: "string \<Rightarrow> string" where
  "line_content raw = trim (takeWhile (\<lambda>c. c \<noteq> CHR ''#'') raw)"

definition vendor_pair :: "string \<Rightarrow> vendor_error_kind + curve_point" where
  "vendor_pair content =
     (case split_once CHR ''='' content of
        None \<Rightarrow> Inl NotAPair
      | Some (l, r) \<Rightarrow>
          let lhs = trim l; rhs = trim r
          in if lhs = [] \<or> rhs = [] \<or> CHR ''='' \<in> set rhs then Inl NotAPair
             else case parse_decicelsius lhs of
               None \<Rightarrow> Inl BadTemperature
             | Some t \<Rightarrow>
                 (case parse_uint U8_MAX rhs of
                    None \<Rightarrow> Inl BadDuty
                  | Some d \<Rightarrow>
                      (case duty_new (of_nat d) of
                         Inl _ \<Rightarrow> Inl BadDuty
                       | Inr duty \<Rightarrow> Inr \<lparr>cp_decicelsius = t, cp_duty = duty\<rparr>)))"

text \<open>The loop over the lines, \<open>idx\<close> lines in.\<close>

fun vendor_lines :: "nat \<Rightarrow> string list \<Rightarrow> curve_point list \<Rightarrow> vendor_error + curve_point list" where
  "vendor_lines idx [] points = Inr points"
| "vendor_lines idx (raw # rest) points =
     (if line_content raw = [] then vendor_lines (Suc idx) rest points
      else case vendor_pair (line_content raw) of
        Inl k \<Rightarrow> Inl \<lparr>ve_line = idx + 1, ve_kind = k\<rparr>
      | Inr p \<Rightarrow> vendor_lines (Suc idx) rest (points @ [p]))"

definition vendor_parse :: "string \<Rightarrow> vendor_error + fan_curve" where
  "vendor_parse txt =
     rbind (vendor_lines 0 (text_lines txt) [])
       (\<lambda>points. map_err (\<lambda>e. \<lparr>ve_line = 0, ve_kind = BadCurve e\<rparr>) (curve_new points))"

section \<open>No line is dropped\<close>

definition contents :: "string list \<Rightarrow> string list" where
  "contents ls = filter (\<lambda>c. c \<noteq> []) (map line_content ls)"

lemma vendor_lines_Inr:
  "vendor_lines idx ls points = Inr ps \<longleftrightarrow>
     (\<exists>qs. ps = points @ qs \<and> map vendor_pair (contents ls) = map Inr qs)"
proof (induction idx ls points rule: vendor_lines.induct)
  case (2 idx raw rest points)
  show ?case
  proof (cases "line_content raw = []")
    case False
    then show ?thesis using 2(2)
      by (cases "vendor_pair (line_content raw)") (auto simp: contents_def Cons_eq_map_conv)
  qed (use 2(1) in \<open>simp add: contents_def\<close>)
qed (auto simp: contents_def)

lemma vendor_lines_Inl:
  "vendor_lines idx ls points = Inl e \<longleftrightarrow>
     (\<exists>n < length ls. ve_line e = idx + n + 1 \<and> line_content (ls ! n) \<noteq> []
        \<and> vendor_pair (line_content (ls ! n)) = Inl (ve_kind e)
        \<and> (\<exists>qs. map vendor_pair (contents (take n ls)) = map Inr qs))"
proof (induction idx ls points rule: vendor_lines.induct)
  case (2 idx raw rest points)
  let ?bad = "\<lambda>ls idx n. ve_line e = idx + n + 1 \<and> line_content (ls ! n) \<noteq> []
        \<and> vendor_pair (line_content (ls ! n)) = Inl (ve_kind e)
        \<and> (\<exists>qs. map vendor_pair (contents (take n ls)) = map Inr qs)"
  have split: "(\<exists>n < length (raw # rest). ?bad (raw # rest) idx n) \<longleftrightarrow>
      ?bad (raw # rest) idx 0 \<or> (\<exists>n < length rest. ?bad (raw # rest) idx (Suc n))"
    by (auto simp: less_Suc_eq_0_disj)
  show ?case
  proof (cases "line_content raw = []")
    case True
    then show ?thesis using 2(1) unfolding split by (simp add: contents_def)
  next
    case False
    show ?thesis
    proof (cases "vendor_pair (line_content raw)")
      case (Inl k)
      with False show ?thesis unfolding split by (cases e) (auto simp: contents_def Cons_eq_map_conv)
    next
      case (Inr p)
      with False 2(2) show ?thesis unfolding split by (auto simp: contents_def Cons_eq_map_conv)
    qed
  qed
qed simp

text \<open>the imported curve is the whole file: its points are those of all lines that are not blank or
  comments, in order, so a file with one line that is not a temperature and a duty is refused, with the
  number of the first such line.\<close>

theorem vendor_parse_whole_file:
  "case vendor_parse txt of
     Inr c \<Rightarrow> \<exists>points. map vendor_pair (contents (text_lines txt)) = map Inr points \<and> curve_new points = Inr c
   | Inl e \<Rightarrow>
       (\<exists>points err. map vendor_pair (contents (text_lines txt)) = map Inr points
          \<and> curve_new points = Inl err \<and> e = \<lparr>ve_line = 0, ve_kind = BadCurve err\<rparr>)
       \<or> (\<exists>n < length (text_lines txt). ve_line e = n + 1
            \<and> vendor_pair (line_content (text_lines txt ! n)) = Inl (ve_kind e)
            \<and> (\<exists>points. map vendor_pair (contents (take n (text_lines txt))) = map Inr points))"
proof (cases "vendor_lines 0 (text_lines txt) []")
  case (Inl e)
  then show ?thesis using vendor_lines_Inl[of 0 "text_lines txt" "[]" e] by (auto simp: vendor_parse_def)
next
  case (Inr points)
  then have "map vendor_pair (contents (text_lines txt)) = map Inr points"
    using vendor_lines_Inr[of 0 "text_lines txt" "[]" points] by simp
  then show ?thesis using Inr by (cases "curve_new points") (auto simp: vendor_parse_def)
qed

section \<open>Writing and reading back\<close>

definition write_decicelsius :: "i32 \<Rightarrow> string" where
  "write_decicelsius t =
     (if t < 0 then ''-'' else []) @ show_nat (nat \<bar>t\<bar> div 10) @ ''.'' @ [digit_char (nat \<bar>t\<bar> mod 10)]"

definition write_point :: "curve_point \<Rightarrow> string" where
  "write_point p = write_decicelsius (cp_decicelsius p) @ ''='' @ show_nat (unat (duty_percent (cp_duty p)))"

lemma digits_no: "list_all is_digit ds \<Longrightarrow> \<not> is_digit c \<Longrightarrow> c \<notin> set ds"
  by (auto simp: list_all_iff)

lemma parse_decicelsius_write:
  assumes "\<bar>t\<bar> < 2 ^ 31"
  shows "parse_decicelsius (write_decicelsius t) = Some t"
proof -
  define m where "m = nat \<bar>t\<bar>"
  define w where "w = show_nat (m div 10)"
  have m: "m < 2 ^ 31" using assms by (simp add: m_def)
  have wd: "list_all is_digit w" "w \<noteq> []" by (simp_all add: w_def show_nat_digits)
  then have hd: "is_digit (hd w)" by (cases w) auto
  then have hds: "hd w \<noteq> CHR ''-''" "hd w \<noteq> CHR ''+''" using is_digit_sign by metis+
  have "\<not> is_digit CHR ''.''" by (simp add: is_digit_def)
  then have dot: "CHR ''.'' \<notin> set w" using wd by (intro digits_no)
  define ds where "ds = w @ CHR ''.'' # [digit_char (m mod 10)]"
  have sp: "split_once CHR ''.'' ds = Some (w, [digit_char (m mod 10)])"
    unfolding ds_def by (rule split_once_mid[OF dot])
  have whole: "parse_i32 w = Some (int (m div 10))"
    using hds m by (simp add: parse_i32_def w_def is_i32_def)
  have sum: "int (m div 10) * 10 + int (m mod 10) = int m" by presburger
  have range: "is_i32 (int (m div 10) * 10)" "is_i32 (int m)" using m by (simp_all add: is_i32_def)
  have plain: "strip_prefix ''-'' ds = None" "strip_prefix ''+'' ds = None"
    using hds wd(2) by (cases w; simp add: ds_def strip_prefix_def starts_with_def)+
  show ?thesis
  proof (cases "t < 0")
    case True
    then have "write_decicelsius t = ''-'' @ ds" "t = - int m"
      by (simp_all add: write_decicelsius_def ds_def w_def m_def)
    then show ?thesis
      using wd by (simp only: parse_decicelsius_def strip_prefix_append) (simp add: sp whole sum range)
  next
    case False
    then have "write_decicelsius t = ds" "t = int m"
      by (simp_all add: write_decicelsius_def ds_def w_def m_def)
    then show ?thesis using wd by (simp add: parse_decicelsius_def plain sp whole sum range)
  qed
qed

definition point_ok :: "curve_point \<Rightarrow> bool" where
  "point_ok p \<longleftrightarrow> \<bar>cp_decicelsius p\<bar> < 2 ^ 31 \<and> duty_ok (cp_duty p)"

definition file_char :: "char \<Rightarrow> bool" where
  "file_char c \<longleftrightarrow> is_digit c \<or> c \<in> {CHR ''-'', CHR ''.'', CHR ''=''}"

lemma file_char_plain: "file_char c \<Longrightarrow> \<not> is_ws c \<and> c \<noteq> newline \<and> c \<noteq> carriage \<and> c \<noteq> CHR ''#''"
  using digit_not_ws[of c] by (auto simp: file_char_def is_ws_def is_digit_def Let_def)

lemma show_nat_chars: "c \<in> set (show_nat n) \<Longrightarrow> is_digit c"
  using show_nat_digits[of n] by (simp add: list_all_iff)

lemma write_decicelsius_chars: "c \<in> set (write_decicelsius t) \<Longrightarrow> file_char c \<and> c \<noteq> CHR ''=''"
proof -
  assume "c \<in> set (write_decicelsius t)"
  then have "c = CHR ''-'' \<or> c = CHR ''.'' \<or> is_digit c"
    by (auto simp: write_decicelsius_def split: if_splits dest: show_nat_chars)
  then show ?thesis by (auto simp: file_char_def is_digit_def)
qed

lemma write_decicelsius_ne [simp]: "write_decicelsius t \<noteq> []"
  by (simp add: write_decicelsius_def)

lemma write_point_chars: "c \<in> set (write_point p) \<Longrightarrow> file_char c"
  by (auto simp: write_point_def file_char_def dest: show_nat_chars write_decicelsius_chars[unfolded file_char_def])

lemma trim_file: "(\<And>c. c \<in> set s \<Longrightarrow> file_char c) \<Longrightarrow> trim s = s"
proof (cases "s = []")
  case False
  assume "\<And>c. c \<in> set s \<Longrightarrow> file_char c"
  then have "\<not> is_ws (hd s)" "\<not> is_ws (last s)" using False file_char_plain by auto
  with False show ?thesis by (intro trim_ends)
qed simp

lemma write_point_content: "line_content (write_point p) = write_point p" "write_point p \<noteq> []"
proof -
  have "takeWhile (\<lambda>c. c \<noteq> CHR ''#'') (write_point p) = write_point p"
    using write_point_chars file_char_plain by (auto simp: takeWhile_eq_all_conv)
  then show "line_content (write_point p) = write_point p"
    by (simp only: line_content_def trim_file[OF write_point_chars])
qed (simp add: write_point_def)

lemma vendor_pair_write:
  assumes "point_ok p"
  shows "vendor_pair (write_point p) = Inr p"
proof -
  let ?l = "write_decicelsius (cp_decicelsius p)" and ?r = "show_nat (unat (duty_percent (cp_duty p)))"
  have "CHR ''='' \<notin> set ?l" using write_decicelsius_chars by blast
  then have split: "split_once CHR ''='' (write_point p) = Some (?l, ?r)"
    using split_once_mid[of "CHR ''=''" ?l ?r] by (simp add: write_point_def)
  have "trim ?l = ?l" using write_decicelsius_chars by (intro trim_file) blast
  moreover have "CHR ''='' \<notin> set ?r" by (rule digits_no[OF show_nat_digits]) (simp add: is_digit_def)
  moreover have "unat (duty_percent (cp_duty p)) \<le> U8_MAX" using unat_u8_le by (simp add: U8_MAX_def)
  moreover have "duty_new (duty_percent (cp_duty p)) = Inr (cp_duty p)"
    using assms by (cases "cp_duty p") (auto simp: point_ok_def duty_new_def)
  ultimately show ?thesis
    using assms by (simp add: vendor_pair_def split parse_decicelsius_write point_ok_def Let_def)
qed

text \<open>a curve written in the vendor's format, in tenths of a degree, comes back point for point, with
  the same verdict as if it had been given directly.\<close>

theorem vendor_roundtrip:
  assumes "\<forall>p \<in> set points. point_ok p"
  shows "vendor_parse (concat (map (\<lambda>p. write_point p @ [newline]) points)) =
    map_err (\<lambda>e. \<lparr>ve_line = 0, ve_kind = BadCurve e\<rparr>) (curve_new points)"
proof -
  have "text_lines (concat (map (\<lambda>l. l @ [newline]) (map write_point points))) = map write_point points"
    using write_point_chars[of newline] file_char_plain[of newline] write_point_chars[of carriage] file_char_plain[of carriage]
    by (intro text_lines_unlines) auto
  then have lines: "text_lines (concat (map (\<lambda>p. write_point p @ [newline]) points)) = map write_point points"
    by (simp add: comp_def)
  have "contents (map write_point points) = map write_point points"
    by (induction points) (simp_all add: contents_def write_point_content)
  moreover have "map vendor_pair (map write_point points) = map Inr points"
    using assms by (simp add: vendor_pair_write)
  ultimately have "vendor_lines 0 (map write_point points) [] = Inr points"
    by (simp add: vendor_lines_Inr)
  then show ?thesis by (simp add: vendor_parse_def lines)
qed

theorem vendor_roundtrip_witness:
  "vendor_parse (concat (map (\<lambda>p. write_point p @ [newline])
       [\<lparr>cp_decicelsius = 605, cp_duty = Percent 55\<rparr>, \<lparr>cp_decicelsius = - 5, cp_duty = Off\<rparr>]))
   = Inr [\<lparr>cp_decicelsius = - 5, cp_duty = Off\<rparr>, \<lparr>cp_decicelsius = 605, cp_duty = Percent 55\<rparr>]"
proof -
  let ?ps = "[\<lparr>cp_decicelsius = 605, cp_duty = Percent 55\<rparr>, \<lparr>cp_decicelsius = - 5, cp_duty = Off\<rparr>]"
  have "\<forall>p \<in> set ?ps. point_ok p" by (simp add: point_ok_def)
  from vendor_roundtrip[OF this] show ?thesis by (simp add: curve_new_def)
qed

end
