(* ===== verification/Startup.thy ===== *)
theory Startup
  imports Config UpsService
begin

text \<open>
  How the daemon starts (\<open>startup.rs\<close> and the choices of \<open>run\<close> in \<open>crates/argon-daemon/src/main.rs\<close>):
  the vendor's units (\<open>crates/argon-hal/src/foreign.rs\<close>), what drives the fan, the mode that is
  adopted, and the bus the fan is driven over. What \<open>systemctl\<close> prints, what answers on the bus and
  what discovery finds are parameters.
\<close>

section \<open>The vendor's units\<close>

definition VENDOR_UNITS :: "(string \<times> string) list" where
  "VENDOR_UNITS =
     [(''argononed.service'', ''fan, power button, OLED''),
      (''argononeupsd.service'', ''UPS battery notifications''),
      (''argonupsrtcd.service'', ''UPS serial port and RTC''),
      (''argononeupd.service'', ''ONE UP battery and lid''),
      (''argoneond.service'', ''EON RTC'')]"

record unit_state =
  un_unit :: string
  un_owns :: string
  un_state :: string

definition unit_active :: "unit_state \<Rightarrow> bool" where
  "unit_active u \<longleftrightarrow> un_state u = ''active'' \<or> un_state u = ''activating''"

definition unit_unknown :: "unit_state \<Rightarrow> bool" where
  "unit_unknown u \<longleftrightarrow> un_state u = ''unknown''"

definition unit_contends :: "unit_state \<Rightarrow> bool" where
  "unit_contends u \<longleftrightarrow> unit_active u \<or> unit_unknown u"

text \<open>\<open>systemctl\<close> is the standard output of asking after a unit, if the program could be run.\<close>

definition unit_answer :: "string option \<Rightarrow> string" where
  "unit_answer answer =
     (case answer of None \<Rightarrow> ''unknown'' | Some out \<Rightarrow> if trim out = [] then ''not-installed'' else trim out)"

definition vendor_units :: "(string \<Rightarrow> string option) \<Rightarrow> unit_state list" where
  "vendor_units systemctl =
     map (\<lambda>(name, owns). \<lparr>un_unit = name, un_owns = owns, un_state = unit_answer (systemctl name)\<rparr>) VENDOR_UNITS"

definition active_vendor_units :: "(string \<Rightarrow> string option) \<Rightarrow> string list" where
  "active_vendor_units systemctl = map un_unit (filter unit_contends (vendor_units systemctl))"

section \<open>The decision\<close>

datatype fan_plan = McuPlan | KernelReportOnly | NoFan

definition plan_fan :: "bool \<Rightarrow> bool \<Rightarrow> fan_plan" where
  "plan_fan mcu_answers kernel_fan =
     (if mcu_answers then McuPlan else if kernel_fan then KernelReportOnly else NoFan)"

definition MCU_VENDOR_UNIT :: string where "MCU_VENDOR_UNIT = ''argononed.service''"

datatype start_refusal = Contended "string list"

fun start_refusal_text :: "start_refusal \<Rightarrow> string" where
  "start_refusal_text (Contended units) =
     join '', '' units @ '' is running and drives the Argon MCU this daemon would drive.'' @ [newline, newline] @
     ''Two writers on one MCU corrupt each other's state, so argond leaves the fan alone while it runs. Stop it to let argond drive the fan:'' @
     [newline, newline] @ ''    sudo systemctl disable --now '' @ join '' '' units"

record startup =
  st_fan :: fan_plan
  st_mode :: mode
  st_requested :: mode
  st_refusal :: "start_refusal option"

definition startup_degraded :: "startup \<Rightarrow> bool" where
  "startup_degraded s \<longleftrightarrow> st_refusal s \<noteq> None"

definition requested_mode :: "config \<Rightarrow> mode" where
  "requested_mode c = (case config_mode c of Inr m \<Rightarrow> m | Inl _ \<Rightarrow> ReadOnly)"

definition startup_decide :: "config \<Rightarrow> string list \<Rightarrow> fan_plan \<Rightarrow> startup" where
  "startup_decide c active_units fan =
     (let requested = requested_mode c;
          contended = filter (\<lambda>u. u = MCU_VENDOR_UNIT) active_units
      in if fan \<noteq> McuPlan \<or> requested = ReadOnly \<or> contended = []
         then \<lparr>st_fan = fan, st_mode = requested, st_requested = requested, st_refusal = None\<rparr>
         else \<lparr>st_fan = fan, st_mode = ReadOnly, st_requested = requested, st_refusal = Some (Contended contended)\<rparr>)"

section \<open>The bus of the fan\<close>

definition resolve_bus :: "config \<Rightarrow> string option \<Rightarrow> string + string" where
  "resolve_bus c discovered =
     (if mcf_bus (cf_mcu c) \<noteq> ''auto'' then Inr (mcf_bus (cf_mcu c))
      else case discovered of
        Some p \<Rightarrow> Inr p
      | None \<Rightarrow> Inl ''no I2C bus found; is dtparam=i2c_arm=on set in config.txt?'')"

text \<open>A bus that accepts writes and discards them.\<close>

definition null_bus_ops :: "unit i2c_ops" where
  "null_bus_ops = \<lparr>
     i2c_write = (\<lambda>b addr data. (Inr (), b)),
     i2c_probe = (\<lambda>b addr. (Inr False, b)),
     i2c_describe = (\<lambda>b. ''none (read-only)'') \<rparr>"

datatype fan_transport = DriveOver string | Observe | Unavailable

text \<open>The branch of \<open>run\<close>: \<open>opens\<close> is whether the bus device can be opened.\<close>

definition choose_transport :: "startup \<Rightarrow> fan_plan \<Rightarrow> string option \<Rightarrow> (string \<Rightarrow> bool) \<Rightarrow> fan_transport" where
  "choose_transport decision fan bus_path opens =
     (case bus_path of
        Some p \<Rightarrow>
          if allows_writes (st_mode decision) \<and> fan = McuPlan
          then if opens p then DriveOver p else Unavailable
          else Observe
      | None \<Rightarrow> Observe)"

definition start_fan :: "config \<Rightarrow> (string \<Rightarrow> string option) \<Rightarrow> string option \<Rightarrow> (string \<Rightarrow> bool) \<Rightarrow> bool \<Rightarrow>
    (string \<Rightarrow> bool) \<Rightarrow> startup \<times> fan_transport" where
  "start_fan c systemctl discovered answers kernel_fan opens =
     (let bus_path = ok (resolve_bus c discovered);
          fan = plan_fan (case bus_path of Some p \<Rightarrow> answers p | None \<Rightarrow> False) kernel_fan;
          decision = startup_decide c (active_vendor_units systemctl) fan
      in (decision, choose_transport decision fan bus_path opens))"

section \<open>Stalled workers\<close>

text \<open>\<open>Workers\<close>: the UPS thread's heartbeat, in seconds, and how old it may be.\<close>

definition STALL_INTERVALS :: nat where "STALL_INTERVALS = 4"

definition stale_after :: "config \<Rightarrow> nat" where
  "stale_after c = max (max (ucf_poll_interval_s (cf_ups c)) 1 * STALL_INTERVALS) 60"

definition stalled_for :: "bool \<Rightarrow> nat \<Rightarrow> nat \<Rightarrow> nat \<Rightarrow> nat option" where
  "stalled_for has_thread stale now heartbeat =
     (if \<not> has_thread then None
      else let since = now - heartbeat in if stale < since then Some since else None)"

lemma no_vendor_unit:
  "filter (\<lambda>u. u = MCU_VENDOR_UNIT) (active_vendor_units systemctl) = [] \<longleftrightarrow>
     (\<exists>out. systemctl ''argononed.service'' = Some out \<and> trim out \<notin> {''active'', ''activating'', ''unknown''})"
  (is "?f = [] \<longleftrightarrow> ?ok")
proof -
  let ?u = "\<lambda>state. \<lparr>un_unit = ''argononed.service'', un_owns = ''fan, power button, OLED'', un_state = state\<rparr>"
  have "?f = [] \<longleftrightarrow> (\<forall>u \<in> set (vendor_units systemctl). un_unit u = MCU_VENDOR_UNIT \<longrightarrow> \<not> unit_contends u)"
    by (auto simp: active_vendor_units_def filter_empty_conv)
  also have "\<dots> \<longleftrightarrow> \<not> unit_contends (?u (unit_answer (systemctl ''argononed.service'')))"
    by (simp add: vendor_units_def VENDOR_UNITS_def MCU_VENDOR_UNIT_def)
  also have "\<dots> \<longleftrightarrow> ?ok"
    by (cases "systemctl ''argononed.service''")
      (simp_all add: unit_contends_def unit_active_def unit_unknown_def unit_answer_def)
  finally show ?thesis .
qed


end
