(* ===== verification/FanLoop.thy ===== *)
theory FanLoop
  imports Startup FanTask
begin

text \<open>
  The control loop of the daemon (\<open>control_loop\<close>, \<open>install_signal_handlers\<close> and \<open>NullBus\<close> in
  \<open>crates/argon-daemon/src/main.rs\<close>) as a relation between states: the loop's thread and the thread
  that waits for a signal, which share the MCU behind a lock and the guard behind an \<open>Arc\<close>. The guard
  is dropped when the last of its two owners lets go of it, and not at all when the process ends
  before. What the metrics exporter is told is part of a step (\<open>record\<close> in \<open>exporter.rs\<close>).
\<close>

section \<open>State\<close>

record loop_metrics =
  lm_cpu_decicelsius :: "i32 option"
  lm_sensor_failures :: nat
  lm_fan_duty_percent :: "u8 option"
  lm_fan_driving :: bool
  lm_updated_unix :: "nat option"

definition metrics_default :: loop_metrics where
  "metrics_default = \<lparr>lm_cpu_decicelsius = None, lm_sensor_failures = 0, lm_fan_duty_percent = None,
     lm_fan_driving = False, lm_updated_unix = None\<rparr>"

definition metrics_record :: "i32 option \<Rightarrow> nat \<Rightarrow> u8 option \<Rightarrow> bool \<Rightarrow> nat option \<Rightarrow> loop_metrics \<Rightarrow> loop_metrics" where
  "metrics_record temp failures duty driving unix s =
     s\<lparr>lm_cpu_decicelsius := (if temp \<noteq> None then temp else lm_cpu_decicelsius s),
       lm_sensor_failures := failures, lm_fan_duty_percent := duty, lm_fan_driving := driving,
       lm_updated_unix := unix\<rparr>"

text \<open>Where the two threads are.\<close>

datatype loop_pc = Checking | Stepping | Pinged | Leaving | Unwinding | LoopExited
datatype signal_pc = Waiting | Restoring | Restored | Flagged | SignalEnded

record ('b, 't) fan_loop =
  fl_task :: "('b, 't) fan_task"
  fl_metrics :: loop_metrics
  fl_stopping :: bool
  fl_pc :: loop_pc
  fl_signal :: signal_pc
  fl_failed :: bool

text \<open>What the loop was built with.\<close>

record ('b, 't) fan_setup =
  fs_read :: "'t \<Rightarrow> (hal_error + i32) \<times> 't"
  fs_buses :: "'b i2c_ops \<Rightarrow> bool" \<comment> \<open>the bus as any moment may show it\<close>
  fs_guard :: fan_safe_guard
  fs_drive :: bool
  fs_once :: bool

definition loop_start :: "config \<Rightarrow> ('t \<Rightarrow> (hal_error + i32) \<times> 't) \<Rightarrow> ('b i2c_ops \<Rightarrow> bool) \<Rightarrow> bool \<Rightarrow> bool \<Rightarrow>
    'b i2c_ops \<Rightarrow> 'b \<Rightarrow> 't \<Rightarrow> fan_curve \<Rightarrow> ('b, 't) fan_setup \<times> ('b, 't) fan_loop" where
  "loop_start c rd buses drive once bus dev source curve =
     (let m = mcu_new dev (configured_dialect (cf_mcu c));
          f = cf_fan c;
          controller = controller_new curve (fcf_hysteresis_c f) (fcf_min_duty f) (fcf_allow_stop f);
          safe = duty_clamped (fcf_safe_duty f);
          task = fan_task_new m source controller safe;
          task1 = (if drive then task\<lparr>ft_mcu := snd (set_fan bus m safe)\<rparr> else task)
      in (\<lparr>fs_read = rd, fs_buses = buses, fs_guard = guard_new safe, fs_drive = drive, fs_once = once\<rparr>,
          \<lparr>fl_task = task1, fl_metrics = metrics_default, fl_stopping = False, fl_pc = Checking,
           fl_signal = Waiting, fl_failed = False\<rparr>))"

definition after_step :: "bool \<Rightarrow> nat option \<Rightarrow> hal_error + fan_step_result \<Rightarrow> loop_metrics \<Rightarrow> loop_metrics" where
  "after_step drive unix r m =
     (case r of
        Inr (Applied decicelsius duty wrote) \<Rightarrow>
          metrics_record (Some decicelsius) 0 (Some (duty_percent duty)) drive unix m
      | Inr (SensorFailed fallback consecutive) \<Rightarrow>
          metrics_record None consecutive (Some (duty_percent fallback)) drive unix m
      | Inl _ \<Rightarrow> m)"

text \<open>The step of either thread. An exit drops the loop's share of the guard: the guard itself goes
  only when the signal thread has ended and dropped its own. A panic in the loop's thread unwinds to
  the same place without setting the flag or joining the workers.\<close>

inductive loop_step :: "('b, 't) fan_setup \<Rightarrow> ('b, 't) fan_loop \<Rightarrow> ('b, 't) fan_loop \<Rightarrow> bool" for s where
  go: "fl_pc l = Checking \<Longrightarrow> \<not> fl_stopping l \<Longrightarrow> loop_step s l (l\<lparr>fl_pc := Stepping\<rparr>)"
| stop: "fl_pc l = Checking \<Longrightarrow> fl_stopping l \<Longrightarrow> loop_step s l (l\<lparr>fl_pc := Leaving\<rparr>)"
| control: "fl_pc l = Stepping \<Longrightarrow> fs_buses s bus \<Longrightarrow> fan_step (fs_read s) bus (fl_task l) = (r, t) \<Longrightarrow>
    loop_step s l (l\<lparr>fl_task := t, fl_metrics := after_step (fs_drive s) unix r (fl_metrics l), fl_pc := Pinged\<rparr>)"
| stalled: "fl_pc l = Pinged \<Longrightarrow> loop_step s l (l\<lparr>fl_failed := True, fl_pc := Leaving\<rparr>)"
| once: "fl_pc l = Pinged \<Longrightarrow> fs_once s \<Longrightarrow> loop_step s l (l\<lparr>fl_pc := Leaving\<rparr>)"
| sleep: "fl_pc l = Pinged \<Longrightarrow> \<not> fs_once s \<Longrightarrow> loop_step s l (l\<lparr>fl_pc := Checking\<rparr>)"
| panic: "fl_pc l \<notin> {Unwinding, LoopExited} \<Longrightarrow> loop_step s l (l\<lparr>fl_pc := Unwinding\<rparr>)"
| leave: "fl_pc l = Leaving \<Longrightarrow> loop_step s l (l\<lparr>fl_stopping := True, fl_pc := Unwinding\<rparr>)"
| exit_shared: "fl_pc l = Unwinding \<Longrightarrow> fl_signal l \<noteq> SignalEnded \<Longrightarrow> loop_step s l (l\<lparr>fl_pc := LoopExited\<rparr>)"
| exit_last: "fl_pc l = Unwinding \<Longrightarrow> fl_signal l = SignalEnded \<Longrightarrow> fs_buses s bus \<Longrightarrow>
    loop_step s l (l\<lparr>fl_task := (fl_task l)\<lparr>ft_mcu := guard_drop bus (fs_guard s) (ft_mcu (fl_task l))\<rparr>, fl_pc := LoopExited\<rparr>)"
| signal: "fl_signal l = Waiting \<Longrightarrow> fl_pc l \<noteq> LoopExited \<Longrightarrow> loop_step s l (l\<lparr>fl_signal := Restoring\<rparr>)"
| restore: "fl_signal l = Restoring \<Longrightarrow> fl_pc l \<noteq> LoopExited \<Longrightarrow> fs_buses s bus \<Longrightarrow>
    loop_step s l (l\<lparr>fl_task := (fl_task l)\<lparr>ft_mcu := snd (restore_now bus (fs_guard s) (ft_mcu (fl_task l)))\<rparr>,
                     fl_signal := Restored\<rparr>)"
| signalled: "fl_signal l = Restored \<Longrightarrow> fl_pc l \<noteq> LoopExited \<Longrightarrow>
    loop_step s l (l\<lparr>fl_stopping := True, fl_signal := Flagged\<rparr>)"
| ended: "fl_signal l = Flagged \<Longrightarrow> fl_pc l \<noteq> LoopExited \<Longrightarrow> loop_step s l (l\<lparr>fl_signal := SignalEnded\<rparr>)"

inductive loop_run :: "('b, 't) fan_setup \<Rightarrow> ('b, 't) fan_loop \<Rightarrow> ('b, 't) fan_loop \<Rightarrow> bool" for s where
  start: "loop_run s l l"
| further: "loop_run s l l1 \<Longrightarrow> loop_step s l1 l2 \<Longrightarrow> loop_run s l l2"

inductive_simps loop_step_iff: "loop_step s l l'"

section \<open>How the fan is left\<close>

text \<open>The last attempt to write a duty: the duty, and the bus and driver it was made with.\<close>

definition last_attempt :: "('b i2c_ops \<Rightarrow> bool) \<Rightarrow> fan_duty \<Rightarrow> 'b mcu \<Rightarrow> bool" where
  "last_attempt buses d m \<longleftrightarrow> (\<exists>bus m0. buses bus \<and> m = snd (set_fan bus m0 d))"

lemma restore_attempt: "fs_buses s bus \<Longrightarrow> last_attempt (fs_buses s) (fg_safe_duty g) (snd (restore_now bus g m))"
  by (auto simp: last_attempt_def restore_now_def Let_def split: prod.splits) (metis snd_conv)

lemma drop_attempt:
  "fs_buses s bus \<Longrightarrow> \<not> fg_disarmed g \<Longrightarrow> last_attempt (fs_buses s) (fg_safe_duty g) (guard_drop bus g m)"
  by (auto simp: last_attempt_def guard_drop_def)

text \<open>A steady setup: the guard is armed, as the loop makes it.\<close>

lemma signalled_exit:
  "loop_run s l0 l \<Longrightarrow> fl_pc l0 \<noteq> LoopExited \<Longrightarrow> \<not> fg_disarmed (fs_guard s) \<Longrightarrow>
   fl_pc l = LoopExited \<Longrightarrow> fl_signal l = SignalEnded \<Longrightarrow>
   last_attempt (fs_buses s) (fg_safe_duty (fs_guard s)) (ft_mcu (fl_task l))"
proof (induction rule: loop_run.induct)
  case (further l0 l1 l2)
  note prems = further.prems and IH = further.IH[OF further.prems(1,2)]
  from further.hyps(2) show ?case
    by cases (use prems IH in \<open>auto intro: drop_attempt\<close>)
qed simp

lemma unsignalled_step:
  assumes "loop_step s l l'" "fl_signal l' = Waiting"
  shows "fl_signal l = Waiting"
    and "fl_task l' = fl_task l \<or> (\<exists>bus. fs_buses s bus \<and> fl_task l' = snd (fan_step (fs_read s) bus (fl_task l)))"
  using assms by (cases; auto; metis snd_conv)+

lemma fan_steps_snoc: "fan_steps rd (bs @ [b]) t = snd (fan_step rd b (fan_steps rd bs t))"
  by (induction bs arbitrary: t) simp_all

lemma unsignalled_run:
  "loop_run s l0 l \<Longrightarrow> fl_signal l = Waiting \<Longrightarrow>
   \<exists>buses. list_all (fs_buses s) buses \<and> fl_task l = fan_steps (fs_read s) buses (fl_task l0)"
proof (induction rule: loop_run.induct)
  case (start l)
  show ?case by (rule exI[of _ "[]"]) simp
next
  case (further l0 l1 l2)
  note step = unsignalled_step[OF further.hyps(2) further.prems]
  obtain buses where b: "list_all (fs_buses s) buses" "fl_task l1 = fan_steps (fs_read s) buses (fl_task l0)"
    using further.IH[OF step(1)] by blast
  from step(2) show ?case
  proof
    assume "\<exists>bus. fs_buses s bus \<and> fl_task l2 = snd (fan_step (fs_read s) bus (fl_task l1))"
    then obtain bus where "fs_buses s bus" "fl_task l2 = snd (fan_step (fs_read s) bus (fl_task l1))" by blast
    with b have "list_all (fs_buses s) (buses @ [bus]) \<and> fl_task l2 = fan_steps (fs_read s) (buses @ [bus]) (fl_task l0)"
      by (simp add: fan_steps_snoc)
    then show ?thesis by blast
  qed (use b in metis)
qed



text \<open>A cold machine whose fan may stop: the loop runs one iteration and ends.\<close>

definition cold_config :: config where
  "cold_config = config_default\<lparr>cf_fan := fan_config_default\<lparr>fcf_allow_stop := True\<rparr>\<rparr>"

definition cold_curve :: fan_curve where
  "cold_curve = [\<lparr>cp_decicelsius = 550, cp_duty = Percent 30\<rparr>]"

definition cold_bus :: "unit dry_run i2c_ops" where
  "cold_bus = dry_run_ops null_bus_ops"

abbreviation cold_start :: "(unit dry_run, i32) fan_setup \<times> (unit dry_run, i32) fan_loop" where
  "cold_start \<equiv> loop_start cold_config (\<lambda>t. (Inr t, t)) ((=) cold_bus) True True cold_bus (dry_run_new ()) 200 cold_curve"

lemma once_run:
  assumes "fs_once s" "fs_buses s bus" "fl_pc l = Checking" "\<not> fl_stopping l" "fl_signal l = Waiting"
  shows "\<exists>l'. loop_run s l l' \<and> fl_pc l' = Leaving \<and> fl_signal l' = Waiting
    \<and> fl_task l' = snd (fan_step (fs_read s) bus (fl_task l))"
proof -
  obtain r t where st: "fan_step (fs_read s) bus (fl_task l) = (r, t)" by fastforce
  define l1 where "l1 = l\<lparr>fl_pc := Stepping\<rparr>"
  define l2 where "l2 = l1\<lparr>fl_task := t, fl_metrics := after_step (fs_drive s) None r (fl_metrics l1), fl_pc := Pinged\<rparr>"
  have "loop_step s l l1" using assms unfolding l1_def by (intro loop_step.go)
  moreover have "loop_step s l1 l2" unfolding l2_def
    by (rule loop_step.control[of l1 s bus r t]) (use assms st in \<open>simp_all add: l1_def\<close>)
  moreover have "loop_step s l2 (l2\<lparr>fl_pc := Leaving\<rparr>)"
    by (rule loop_step.once) (use assms in \<open>simp_all add: l2_def\<close>)
  ultimately have "loop_run s l (l2\<lparr>fl_pc := Leaving\<rparr>)" by (meson loop_run.intros)
  then show ?thesis using st assms by (intro exI[of _ "l2\<lparr>fl_pc := Leaving\<rparr>"]) (simp add: l2_def l1_def)
qed

lemma cold_facts:
  assumes "(s, l0) = cold_start"
  shows "fs_once s" "fs_buses s = (=) cold_bus" "fs_read s = (\<lambda>t. (Inr t, t))" "fl_pc l0 = Checking"
    "\<not> fl_stopping l0" "fl_signal l0 = Waiting"
    "mc_shadow_duty (ft_mcu (snd (fan_step (\<lambda>t. (Inr t, t)) cold_bus (fl_task l0)))) = Some Off"
  using assms
  by (simp_all add: loop_start_def Let_def cold_config_def config_default_def fan_config_default_def fan_step_def
      fan_task_new_def mcu_new_def controller_new_def controller_update_def duty_for_def cold_curve_def apply_floor_def
      write_if_changed_def set_fan_def mcu_write_def cold_bus_def dry_run_ops_def configured_dialect_def
      mcu_config_default_def dialect_from_config_def split: prod.splits)



end
