(* ===== verification/GaugeLoop.thy ===== *)
theory GaugeLoop
  imports UpsLoop Startup
begin

text \<open>
  The daemon's battery thread for the ONE UP (\<open>crates/argon-daemon/src/gauge.rs\<close>): the gauge is
  opened and identified, polled through the same cycle as the serial UPS, and reopened after three
  failures; requests are refused. A turn takes from its surroundings one record, \<open>gauge_env\<close>.
\<close>

section \<open>Starting\<close>

definition gauge_enforce :: "config \<Rightarrow> string list \<Rightarrow> bool" where
  "gauge_enforce c active_units \<longleftrightarrow> requested_mode c = Full \<and> oneup_contention active_units = []"

record gauge_setup =
  gs_bus :: string
  gs_policy :: battery_policy
  gs_interval :: duration
  gs_delay :: duration
  gs_dry_run :: bool

text \<open>\<open>spawn\<close>: what the thread is started with, if it is.\<close>

definition gauge_spawn :: "config \<Rightarrow> string list \<Rightarrow> string option \<Rightarrow> gauge_setup option" where
  "gauge_spawn c active_units discovered =
     (case policy_new (ups_policy (cf_ups c)) of
        Inl _ \<Rightarrow> None
      | Inr p \<Rightarrow>
          map_option (\<lambda>bus.
            \<lparr>gs_bus = bus, gs_policy = p, gs_interval = from_secs (max (ucf_poll_interval_s (cf_ups c)) 1),
             gs_delay = from_secs (ucf_shutdown_delay_min (cf_ups c) * 60),
             gs_dry_run = (\<not> gauge_enforce c active_units)\<rparr>)
            (if mcf_bus (cf_mcu c) = ''auto'' then discovered else Some (mcf_bus (cf_mcu c))))"

section \<open>A turn\<close>

record ('b, 'p) gauge_thread =
  gt_monitor :: "'b gauge_monitor option"
  gt_coordinator :: "'p coordinator"
  gt_open_error_logged :: bool
  gt_uptime_error_logged :: bool
  gt_state_error_logged :: bool
  gt_held_logged :: bool
  gt_last_flow :: "flow option"
  gt_queue :: "control_request list"
  gt_latest :: "ups_status option"

record ('b, 'p) gauge_env =
  ge_open :: "hal_error + 'b"
  ge_read :: "'b register_read"
  ge_uptime :: "string + duration"
  ge_ops :: "'p power_ops"
  ge_now :: systime
  ge_written :: bool
  ge_arrived :: "control_request list"

definition gauge_thread_new :: "gauge_setup \<Rightarrow> 'p \<Rightarrow> ('b, 'p) gauge_thread" where
  "gauge_thread_new s pw =
     \<lparr>gt_monitor = None, gt_coordinator = coordinator_new pw (gs_delay s) (gs_dry_run s),
      gt_open_error_logged = False, gt_uptime_error_logged = False, gt_state_error_logged = False,
      gt_held_logged = False, gt_last_flow = None, gt_queue = [], gt_latest = None\<rparr>"

fun flow_name :: "flow \<Rightarrow> string" where
  "flow_name Charging = ''charging''"
| "flow_name Discharging = ''discharging''"
| "flow_name Idle = ''resting on the charger''"

definition open_gauge :: "'b register_read \<Rightarrow> hal_error + 'b \<Rightarrow> battery_policy \<Rightarrow> bool \<Rightarrow> 'b gauge_monitor option \<times> bool" where
  "open_gauge rd attempt policy error_logged =
     (case rbind attempt (identify rd) of
        Inr g \<Rightarrow> (Some (gauge_monitor_new (snd (gauge_health rd g)) policy), False)
      | Inl _ \<Rightarrow> (None, True))"

definition REFUSED :: string where
  "REFUSED = ''this machine's battery is the ONE UP's, which has no scheduled wake; nothing was done''"

definition refuse_requests :: "control_request list \<Rightarrow> string list" where
  "refuse_requests queue = map (\<lambda>_. REFUSED) queue"

definition gauge_open :: "gauge_setup \<Rightarrow> ('b, 'p) gauge_env \<Rightarrow> ('b, 'p) gauge_thread \<Rightarrow> ('b, 'p) gauge_thread" where
  "gauge_open s e t =
     (if gt_monitor t = None then
        let (m, logged) = open_gauge (ge_read e) (ge_open e) (gs_policy s) (gt_open_error_logged t)
        in t\<lparr>gt_monitor := m, gt_open_error_logged := logged\<rparr>
      else t)"

definition gauge_cycle :: "('b, 'p) gauge_env \<Rightarrow> 'b gauge_monitor \<Rightarrow> ('b, 'p) gauge_thread \<Rightarrow> cycle \<times> ('b, 'p) gauge_thread" where
  "gauge_cycle e m t =
     (let (uptime, logged) = uptime_or_zero (ge_uptime e) (gt_uptime_error_logged t);
          (cy, m1, c) = service_step (gauge_poll (ge_read e)) (ge_ops e) m (gt_coordinator t) uptime (ge_now e) (ge_now e);
          t1 = t\<lparr>gt_uptime_error_logged := logged, gt_coordinator := c,
                 gt_held_logged := report_cycle cy (gt_held_logged t),
                 gt_last_flow := (case gm_last m1 of Some r \<Rightarrow> Some (gr_flow r) | None \<Rightarrow> gt_last_flow t)\<rparr>;
          t2 = (if REOPEN_AFTER \<le> po_consecutive_failures (cy_poll cy)
                then t1\<lparr>gt_monitor := None, gt_last_flow := None\<rparr> else t1\<lparr>gt_monitor := Some m1\<rparr>)
      in (cy, t2\<lparr>gt_latest := Some (cy_status cy),
                 gt_state_error_logged := publish_logged (ge_written e) (gt_state_error_logged t2)\<rparr>))"

record gauge_report =
  gz_opened :: bool
  gz_cycle :: "cycle option"
  gz_answers :: "string list"

definition gauge_turn :: "gauge_setup \<Rightarrow> ('b, 'p) gauge_env \<Rightarrow> ('b, 'p) gauge_thread \<Rightarrow> gauge_report \<times> ('b, 'p) gauge_thread" where
  "gauge_turn s e t0 =
     (let t = gauge_open s e t0;
          (cy, t1) = (case gt_monitor t of
                        Some m \<Rightarrow> (let (cy, t1) = gauge_cycle e m t in (Some cy, t1))
                      | None \<Rightarrow> (None, t));
          queue = gt_queue t1 @ ge_arrived e
      in (\<lparr>gz_opened = (gt_monitor t0 = None), gz_cycle = cy, gz_answers = refuse_requests queue\<rparr>, t1\<lparr>gt_queue := []\<rparr>))"

fun gauge_run :: "gauge_setup \<Rightarrow> ('b, 'p) gauge_env list \<Rightarrow> ('b, 'p) gauge_thread \<Rightarrow>
    gauge_report list \<times> ('b, 'p) gauge_thread" where
  "gauge_run s [] t = ([], t)"
| "gauge_run s (e # es) t =
     (let (r, t1) = gauge_turn s e t; (rs, t2) = gauge_run s es t1 in (r # rs, t2))"

section \<open>What holds over any run\<close>

definition gauge_uptime :: "('b, 'p) gauge_env \<Rightarrow> duration" where
  "gauge_uptime e = (case ge_uptime e of Inr u \<Rightarrow> u | Inl _ \<Rightarrow> 0)"

definition gauge_seen :: "polled list \<Rightarrow> ('b, 'p) gauge_env \<times> gauge_report \<Rightarrow> polled list" where
  "gauge_seen h er =
     (if gz_opened (snd er) then [] else h) @
     (case gz_cycle (snd er) of
        Some cy \<Rightarrow> [(observation_of (po_battery (cy_poll cy)), gauge_uptime (fst er))]
      | None \<Rightarrow> [])"

definition gauge_since_open :: "('b, 'p) gauge_env list \<Rightarrow> gauge_report list \<Rightarrow> polled list" where
  "gauge_since_open es rs = foldl gauge_seen [] (zip es rs)"

definition gauge_inv :: "gauge_setup \<Rightarrow> polled list \<Rightarrow> ('b, 'p) gauge_thread \<Rightarrow> bool" where
  "gauge_inv s h t \<longleftrightarrow>
     (\<forall>m. gt_monitor t = Some m \<longrightarrow> wt_policy (gm_watch m) = observe_all (gs_policy s) h)
     \<and> sc_dry_run (gt_coordinator t) = gs_dry_run s"

lemma on_decision_dry_run:
  assumes "on_decision ops now d c = (a, c')"
  shows "sc_dry_run c' = sc_dry_run c"
    and "sc_dry_run c \<Longrightarrow> (\<exists>at. a = Scheduled at \<or> a = Adopted at) \<or> a = WouldSchedule \<Longrightarrow> a = WouldSchedule"
  using assms advised_fields(1)[of ops now c a c'] recovered_fields(1)[of ops c a c']
  by (cases rule: on_decision_cases[of d ops now c];
      auto simp: coordinator_defs Let_def split: if_splits option.splits prod.splits sum.splits pending.splits)+

lemma gauge_open_inv:
  assumes "gauge_inv s h t"
  shows "gauge_inv s (if gt_monitor t = None then [] else h) (gauge_open s e t)"
    and "gt_coordinator (gauge_open s e t) = gt_coordinator t" "gt_queue (gauge_open s e t) = gt_queue t"
  using assms
  by (auto simp: gauge_open_def open_gauge_def gauge_inv_def gauge_monitor_new_def watch_new_def split: prod.splits sum.splits)

text \<open>One cycle: the policy's history grows by what it saw, and the decision is the policy's.\<close>

lemma gauge_cycle_inv:
  assumes "gauge_cycle e m t = (cy, t')" "gauge_inv s h t" "gt_monitor t = Some m"
  shows "gauge_inv s (h @ [(observation_of (po_battery (cy_poll cy)), gauge_uptime e)]) t'"
    and "po_decision (cy_poll cy) =
      snd (observe (observe_all (gs_policy s) h) (observation_of (po_battery (cy_poll cy))) (gauge_uptime e))"
    and "fst (on_decision (ge_ops e) (ge_now e) (po_decision (cy_poll cy)) (gt_coordinator t)) = cy_action cy"
    and "gt_queue t' = gt_queue t"
proof -
  have up: "\<exists>u. uptime_or_zero (ge_uptime e) b = (gauge_uptime e, u)" for b
    by (cases "ge_uptime e") (auto simp: uptime_or_zero_def gauge_uptime_def)
  obtain u where u: "uptime_or_zero (ge_uptime e) (gt_uptime_error_logged t) = (gauge_uptime e, u)" using up by blast
  obtain m1 p where p: "gauge_poll (ge_read e) m (gauge_uptime e) = (m1, p)" by (rule prod.exhaust)
  obtain a c where a: "on_decision (ge_ops e) (ge_now e) (po_decision p) (gt_coordinator t) = (a, c)" by (rule prod.exhaust)
  have cy: "cy_poll cy = p" "cy_action cy = a" "gt_coordinator t' = c" "gt_queue t' = gt_queue t"
    "gt_monitor t' = None \<or> gt_monitor t' = Some m1"
    using assms(1) p a by (auto simp: gauge_cycle_def u service_step_def Let_def split: if_splits)
  have pol: "wt_policy (gm_watch m) = observe_all (gs_policy s) h" using assms(2,3) by (simp add: gauge_inv_def)
  have w: "wt_policy (gm_watch m1) = fst (observe (wt_policy (gm_watch m)) (observation_of (po_battery p)) (gauge_uptime e))"
    "po_decision p = snd (observe (wt_policy (gm_watch m)) (observation_of (po_battery p)) (gauge_uptime e))"
    using gauge_mon.polls[OF p] by simp_all
  have "sc_dry_run c = sc_dry_run (gt_coordinator t)" using on_decision_dry_run(1)[OF a] .
  then show "gauge_inv s (h @ [(observation_of (po_battery (cy_poll cy)), gauge_uptime e)]) t'"
    using cy w(1) pol assms(2) by (auto simp: gauge_inv_def observe_all_append)
  show "po_decision (cy_poll cy) =
      snd (observe (observe_all (gs_policy s) h) (observation_of (po_battery (cy_poll cy))) (gauge_uptime e))"
    using w(2) pol cy by simp
  show "fst (on_decision (ge_ops e) (ge_now e) (po_decision (cy_poll cy)) (gt_coordinator t)) = cy_action cy"
    "gt_queue t' = gt_queue t" using a cy by simp_all
qed

lemma gauge_turn_cases:
  assumes "gauge_turn s e t = (r, t')" "gauge_inv s h t"
  shows "gauge_inv s (gauge_seen h (e, r)) t'"
    and "gz_cycle r = Some cy \<Longrightarrow> \<exists>prior c. sc_dry_run c = gs_dry_run s
       \<and> gauge_seen h (e, r) = prior @ [(observation_of (po_battery (cy_poll cy)), gauge_uptime e)]
       \<and> po_decision (cy_poll cy) =
         snd (observe (observe_all (gs_policy s) prior) (observation_of (po_battery (cy_poll cy))) (gauge_uptime e))
       \<and> fst (on_decision (ge_ops e) (ge_now e) (po_decision (cy_poll cy)) c) = cy_action cy"
    and "gt_queue t = [] \<Longrightarrow> gt_queue t' = [] \<and> gz_answers r = map (\<lambda>_. REFUSED) (ge_arrived e)"
proof -
  let ?t = "gauge_open s e t" and ?h = "if gt_monitor t = None then [] else h"
  note o = gauge_open_inv[OF assms(2), of e]
  have "gauge_inv s (gauge_seen h (e, r)) t'
    \<and> (\<forall>cy. gz_cycle r = Some cy \<longrightarrow> (\<exists>prior c. sc_dry_run c = gs_dry_run s
       \<and> gauge_seen h (e, r) = prior @ [(observation_of (po_battery (cy_poll cy)), gauge_uptime e)]
       \<and> po_decision (cy_poll cy) =
         snd (observe (observe_all (gs_policy s) prior) (observation_of (po_battery (cy_poll cy))) (gauge_uptime e))
       \<and> fst (on_decision (ge_ops e) (ge_now e) (po_decision (cy_poll cy)) c) = cy_action cy))
    \<and> (gt_queue t = [] \<longrightarrow> gt_queue t' = [] \<and> gz_answers r = map (\<lambda>_. REFUSED) (ge_arrived e))"
  proof (cases "gt_monitor ?t")
    case None
    then have "gz_cycle r = None" "gz_opened r = (gt_monitor t = None)" "t' = ?t\<lparr>gt_queue := []\<rparr>"
      "gz_answers r = refuse_requests (gt_queue ?t @ ge_arrived e)"
      using assms(1) by (auto simp: gauge_turn_def Let_def)
    then show ?thesis using o by (auto simp: gauge_seen_def gauge_inv_def refuse_requests_def)
  next
    case (Some m)
    obtain cy t1 where c: "gauge_cycle e m ?t = (cy, t1)" by (rule prod.exhaust)
    have r: "gz_cycle r = Some cy" "gz_opened r = (gt_monitor t = None)" "t' = t1\<lparr>gt_queue := []\<rparr>"
      "gz_answers r = refuse_requests (gt_queue t1 @ ge_arrived e)"
      using assms(1) Some c by (auto simp: gauge_turn_def Let_def)
    note i = gauge_cycle_inv[OF c o(1) Some]
    have h: "gauge_seen h (e, r) = ?h @ [(observation_of (po_battery (cy_poll cy)), gauge_uptime e)]"
      by (simp add: gauge_seen_def r)
    have "gauge_inv s (gauge_seen h (e, r)) t'" using i(1) unfolding h r(3) by (simp add: gauge_inv_def)
    moreover have "sc_dry_run (gt_coordinator ?t) = gs_dry_run s" using o(1) by (simp add: gauge_inv_def)
    ultimately show ?thesis unfolding h r(1) using i(2,3,4) o(3) r(3,4) by (auto simp: refuse_requests_def)
  qed
  then show "gauge_inv s (gauge_seen h (e, r)) t'"
    "gz_cycle r = Some cy \<Longrightarrow> \<exists>prior c. sc_dry_run c = gs_dry_run s
       \<and> gauge_seen h (e, r) = prior @ [(observation_of (po_battery (cy_poll cy)), gauge_uptime e)]
       \<and> po_decision (cy_poll cy) =
         snd (observe (observe_all (gs_policy s) prior) (observation_of (po_battery (cy_poll cy))) (gauge_uptime e))
       \<and> fst (on_decision (ge_ops e) (ge_now e) (po_decision (cy_poll cy)) c) = cy_action cy"
    "gt_queue t = [] \<Longrightarrow> gt_queue t' = [] \<and> gz_answers r = map (\<lambda>_. REFUSED) (ge_arrived e)"
    by blast+
qed

lemma gauge_run_snoc:
  "gauge_run s (es @ [e]) t = (rs @ [r], t') \<longleftrightarrow>
     (\<exists>t1. gauge_run s es t = (rs, t1) \<and> gauge_turn s e t1 = (r, t'))"
proof (induction es arbitrary: t rs)
  case Nil
  show ?case by (cases rs) (auto split: prod.splits)
next
  case (Cons e1 es)
  note IH = Cons.IH
  have len: "gauge_run s xs t = (ys, u) \<Longrightarrow> length ys = length xs" for xs t ys u
    by (induction xs arbitrary: t ys) (auto split: prod.splits)
  show ?case
  proof (cases rs)
    case Nil
    then show ?thesis by (auto split: prod.splits dest!: len)
  next
    case (Cons r1 rs1)
    note rs = this
    obtain r2 t2 where t: "gauge_turn s e1 t = (r2, t2)" by (rule prod.exhaust)
    obtain rs3 t3 where n: "gauge_run s (es @ [e]) t2 = (rs3, t3)" by (rule prod.exhaust)
    obtain rs4 t4 where m: "gauge_run s es t2 = (rs4, t4)" by (rule prod.exhaust)
    show ?thesis using IH[of t2 rs1] by (auto simp: t n m rs)
  qed
qed

lemma gauge_run_inv:
  "gauge_run s es t = (rs, t') \<Longrightarrow> gauge_inv s h t \<Longrightarrow> gauge_inv s (foldl gauge_seen h (zip es rs)) t' \<and> length rs = length es"
proof (induction es arbitrary: t rs h)
  case (Cons e es)
  obtain r t1 where 1: "gauge_turn s e t = (r, t1)" by (rule prod.exhaust)
  obtain rs1 where 2: "gauge_run s es t1 = (rs1, t')" "rs = r # rs1" using Cons.prems(1) 1 by (auto split: prod.splits)
  from Cons.IH[OF 2(1) gauge_turn_cases(1)[OF 1 Cons.prems(2)]] show ?case by (simp add: 2(2))
qed simp

text \<open>C2: on the ONE UP, whatever the gauge, the clocks and logind do over a run of the thread: a cycle that
  starts a poweroff read the battery as discharging, with the machine up for the hold time, and at least
  the configured number of critical readings since the gauge was opened and last failed; and only the
  mode full with the vendor's daemon away makes it more than a dry run.\<close>

theorem gauge_thread_poweroff_justified:
  assumes "gauge_spawn c active_units discovered = Some s"
    and "gauge_run s (es @ [e]) (gauge_thread_new s pw) = (rs @ [r], t)"
    and "gz_cycle r = Some cy"
    and "(\<exists>at. cy_action cy = Scheduled at \<or> cy_action cy = Adopted at) \<or> cy_action cy = WouldSchedule"
  shows "(\<exists>b. po_battery (cy_poll cy) = Some b \<and> bs_source b = Battery)
    \<and> from_secs (ucf_min_uptime_s (cf_ups c)) \<le> gauge_uptime e
    \<and> unat (ucf_confirmations (cf_ups c)) \<le> fresh_criticals (ups_policy (cf_ups c)) (gauge_since_open (es @ [e]) (rs @ [r]))
    \<and> (cy_action cy = WouldSchedule \<or> gauge_enforce c active_units)"
proof -
  have pol: "policy_new (ups_policy (cf_ups c)) = Inr (gs_policy s)" and dry: "gs_dry_run s = (\<not> gauge_enforce c active_units)"
    using assms(1) by (auto simp: gauge_spawn_def split: sum.splits if_splits)
  obtain t1 where run: "gauge_run s es (gauge_thread_new s pw) = (rs, t1)" and turn: "gauge_turn s e t1 = (r, t)"
    using assms(2) gauge_run_snoc by blast
  have "gauge_inv s [] (gauge_thread_new s pw)"
    by (simp add: gauge_inv_def gauge_thread_new_def coordinator_new_def)
  note i = gauge_run_inv[OF run this]
  then have since: "gauge_since_open (es @ [e]) (rs @ [r]) = gauge_seen (foldl gauge_seen [] (zip es rs)) (e, r)"
    by (simp add: gauge_since_open_def)
  from gauge_turn_cases(2)[OF turn conjunct1[OF i] assms(3)] obtain prior co where
    co: "sc_dry_run co = gs_dry_run s"
    and h: "gauge_since_open (es @ [e]) (rs @ [r]) = prior @ [(observation_of (po_battery (cy_poll cy)), gauge_uptime e)]"
    and d: "po_decision (cy_poll cy) =
       snd (observe (observe_all (gs_policy s) prior) (observation_of (po_battery (cy_poll cy))) (gauge_uptime e))"
    and a: "fst (on_decision (ge_ops e) (ge_now e) (po_decision (cy_poll cy)) co) = cy_action cy" unfolding since by blast
  have act: "on_decision (ge_ops e) (ge_now e) (po_decision (cy_poll cy)) co =
      (cy_action cy, snd (on_decision (ge_ops e) (ge_now e) (po_decision (cy_poll cy)) co))" using a by (metis prod.collapse)
  have "cy_action cy = WouldSchedule \<or> gauge_enforce c active_units"
    using on_decision_dry_run(2)[OF act _ assms(4)] co dry by blast
  with shutdown_cause[OF pol starts_poweroff[OF act assms(4), unfolded d]] show ?thesis
    unfolding h by (auto simp: observation_of_def ups_policy_def)
qed

text \<open>A gauge at five percent, discharging, for the witness.\<close>

definition low_memory :: "u8 \<Rightarrow> u8" where
  "low_memory a = (if a = 0 then 0xA0 else if a = 4 then 5 else if a = 2 then 0x30 else if a = 0x0E then 0xF0 else 0)"

definition oneup_config :: config where
  "oneup_config = config_default\<lparr>cf_mode := mode_text Full, cf_ups := ups_config_default\<lparr>ucf_confirmations := 1\<rparr>\<rparr>"

definition oneup_policy :: battery_policy where
  "oneup_policy = fresh_policy\<lparr>bp_config := policy_config_default\<lparr>confirmations := 1\<rparr>\<rparr>"

definition low_env :: "(u8 \<Rightarrow> u8, (systime \<times> string) option) gauge_env" where
  "low_env = \<lparr>ge_open = Inr low_memory, ge_read = sample_chip, ge_uptime = Inr (from_secs 400), ge_ops = sample_power,
     ge_now = 9, ge_written = True, ge_arrived = []\<rparr>"

definition oneup_setup :: gauge_setup where
  "oneup_setup = \<lparr>gs_bus = ''/dev/i2c-1'', gs_policy = oneup_policy, gs_interval = from_secs 10,
     gs_delay = from_secs 120, gs_dry_run = False\<rparr>"

lemma oneup_spawn: "gauge_spawn oneup_config [] (Some ''/dev/i2c-1'') = Some oneup_setup"
proof -
  have full: "mode_parse (cf_mode oneup_config) = Some Full"
    using mode_parse_text[of Full] by (simp add: oneup_config_def)
  have up: "ups_policy (cf_ups oneup_config) = policy_config_default\<lparr>confirmations := 1\<rparr>"
    by (simp add: oneup_config_def ups_policy_def ups_config_default_def policy_config_default_def Let_def)
  have pol: "policy_new (ups_policy (cf_ups oneup_config)) = Inr oneup_policy"
    unfolding up by (simp add: policy_new_def policy_validate_def policy_config_default_def oneup_policy_def fresh_policy_def)
  have enf: "gauge_enforce oneup_config []"
    by (simp add: gauge_enforce_def requested_mode_def config_mode_def full oneup_contention_def contention_among_def)
  have "mcf_bus (cf_mcu oneup_config) = ''auto''" "ucf_poll_interval_s (cf_ups oneup_config) = 10"
    "ucf_shutdown_delay_min (cf_ups oneup_config) = 2"
    by (simp_all add: oneup_config_def config_default_def mcu_config_default_def ups_config_default_def Let_def)
  then show ?thesis by (simp add: gauge_spawn_def pol enf oneup_setup_def)
qed

lemma low_gauge:
  "open_gauge sample_chip (Inr low_memory) p b = (Some (gauge_monitor_new \<lparr>cw_bus = low_memory\<rparr> p), False)"
  "\<exists>v. read_now sample_chip \<lparr>cw_bus = low_memory\<rparr> =
     (Inr \<lparr>gr_percent = 5, gr_vcell_uv = v, gr_current = current_raw (0xF0, 0), gr_flow = flow_of (current_raw (0xF0, 0))\<rparr>,
      \<lparr>cw_bus = low_memory\<rparr>)"
  by (simp_all add: open_gauge_def identify_def gauge_health_def read_now_def gauge_read_def sample_chip_def low_memory_def
      byte_of_def pair_of_def soc_def regs is_permitted_read_def READS_def upt_rec Let_def VERSION_VALUE_def)

lemma low_turn:
  "\<exists>r t cy. gauge_run oneup_setup ([] @ [low_env]) (gauge_thread_new oneup_setup None) = ([] @ [r], t)
     \<and> gz_cycle r = Some cy \<and> cy_action cy = Scheduled (1000 + from_secs 120)"
proof -
  obtain v where v: "read_now sample_chip \<lparr>cw_bus = low_memory\<rparr> =
     (Inr \<lparr>gr_percent = 5, gr_vcell_uv = v, gr_current = current_raw (0xF0, 0), gr_flow = flow_of (current_raw (0xF0, 0))\<rparr>,
      \<lparr>cw_bus = low_memory\<rparr>)" using low_gauge(2) by blast
  have fl: "flow_source (flow_of (current_raw (0xF0, 0))) = Battery"
    by (simp add: flow_of_def FLOW_THRESHOLD_def current_value)
  show ?thesis
    by (simp add: gauge_turn_def gauge_open_def gauge_thread_new_def low_gauge(1) gauge_cycle_def low_env_def
        uptime_or_zero_def service_step_def gauge_poll_def gauge_monitor_new_def v reading_battery_def fl watch_new_def
        watch_observe_def observe_def classify_def oneup_setup_def oneup_policy_def fresh_policy_def policy_config_default_def
        sat_inc_u8_def coordinator_defs coordinator_new_def sample_power_def Let_def word_le_nat_alt)
qed

theorem gauge_thread_poweroff_justified_witness:
  "\<exists>r t cy b. gauge_run oneup_setup ([] @ [low_env]) (gauge_thread_new oneup_setup None) = ([] @ [r], t)
     \<and> gz_cycle r = Some cy \<and> cy_action cy = Scheduled (1000 + from_secs 120) \<and> po_battery (cy_poll cy) = Some b
     \<and> bs_source b = Battery \<and> gauge_enforce oneup_config []"
proof -
  obtain r t cy where run: "gauge_run oneup_setup ([] @ [low_env]) (gauge_thread_new oneup_setup None) = ([] @ [r], t)"
    "gz_cycle r = Some cy" "cy_action cy = Scheduled (1000 + from_secs 120)" using low_turn by blast
  have "(\<exists>at. cy_action cy = Scheduled at \<or> cy_action cy = Adopted at) \<or> cy_action cy = WouldSchedule" using run(3) by simp
  from gauge_thread_poweroff_justified[OF oneup_spawn run(1,2) this] run show ?thesis by auto
qed

end
