(* ===== verification/CpuCap.thy ===== *)
theory CpuCap
  imports Hal "HOL-Library.List_Lexorder"
begin

text \<open>
  Capping the processor while the lid is closed: the cpufreq policies and their limits
  (\<open>crates/argon-hal/src/cpufreq.rs\<close>) and the cap that remembers what to put back
  (\<open>crates/argon-daemon/src/cpu_cap.rs\<close>). Files are behind two parameters, a read that gives a text or
  an error text and a write that may fail, over a state of the caller's choice.
\<close>

section \<open>Policies\<close>

record cpu_policy =
  cp_dir :: string
  cp_min_khz :: nat
  cp_max_khz :: nat

type_synonym 'f file_read = "'f \<Rightarrow> string \<Rightarrow> string + string"
type_synonym 'f file_write = "'f \<Rightarrow> string \<Rightarrow> string \<Rightarrow> (string + unit) \<times> 'f"

definition read_khz :: "'f file_read \<Rightarrow> 'f \<Rightarrow> string \<Rightarrow> hal_error + nat" where
  "read_khz rd f path =
     (case rd f path of
        Inl e \<Rightarrow> Inl (Io (path @ '': '' @ e))
      | Inr text \<Rightarrow>
          (case parse_uint U32_MAX (trim text) of
             Some khz \<Rightarrow> Inr khz
           | None \<Rightarrow> Inl (ParseError ''a cpufreq value in kHz'' (trim text))))"

text \<open>\<open>policies_in\<close> over the paths in the directory, sorted by path.\<close>

definition file_name :: "string \<Rightarrow> string" where
  "file_name path = rev (takeWhile (\<lambda>c. c \<noteq> CHR ''/'') (rev path))"

definition read_policy :: "'f file_read \<Rightarrow> 'f \<Rightarrow> string \<Rightarrow> cpu_policy option" where
  "read_policy rd f dir =
     (case (ok (read_khz rd f (dir @ ''/cpuinfo_min_freq'')), ok (read_khz rd f (dir @ ''/cpuinfo_max_freq''))) of
        (Some lo, Some hi) \<Rightarrow> Some \<lparr>cp_dir = dir, cp_min_khz = lo, cp_max_khz = hi\<rparr>
      | _ \<Rightarrow> None)"

definition policies_in :: "'f file_read \<Rightarrow> 'f \<Rightarrow> string list option \<Rightarrow> cpu_policy list" where
  "policies_in rd f entries =
     (case entries of
        None \<Rightarrow> []
      | Some paths \<Rightarrow>
          sort_key (\<lambda>p. map (of_char :: char \<Rightarrow> nat) (cp_dir p))
            (List.map_filter (read_policy rd f) (filter (\<lambda>p. starts_with ''policy'' (file_name p)) paths)))"

definition limit_file :: "cpu_policy \<Rightarrow> string" where
  "limit_file p = cp_dir p @ ''/scaling_max_freq''"

definition scaling_max :: "'f file_read \<Rightarrow> 'f \<Rightarrow> cpu_policy \<Rightarrow> hal_error + nat" where
  "scaling_max rd f p = read_khz rd f (limit_file p)"

definition set_scaling_max :: "'f file_write \<Rightarrow> cpu_policy \<Rightarrow> nat \<Rightarrow> 'f \<Rightarrow> (hal_error + unit) \<times> 'f" where
  "set_scaling_max wr p khz f =
     (if \<not> (cp_min_khz p \<le> khz \<and> khz \<le> cp_max_khz p)
      then (Inl (WriteBlocked (cp_dir p @ '' scaling_max_freq <- '' @ show_nat khz)
                   ''outside the hardware's own frequency range''), f)
      else let (r, f1) = wr f (limit_file p) (show_nat khz)
           in (map_err (\<lambda>e. Io (limit_file p @ '': '' @ e)) r, f1))"

section \<open>The cap\<close>

type_synonym saved = "(cpu_policy \<times> nat) list"

text \<open>The failures of putting back, one text per policy, and the files after.\<close>

fun put_back :: "'f file_write \<Rightarrow> saved \<Rightarrow> 'f \<Rightarrow> string list \<times> 'f" where
  "put_back wr [] f = ([], f)"
| "put_back wr ((p, before) # rest) f =
     (let (r, f1) = set_scaling_max wr p before f;
          (failed, f2) = put_back wr rest f1
      in (case r of Inl e \<Rightarrow> (cp_dir p @ '': '' @ hal_error_text e) # failed | Inr _ \<Rightarrow> failed, f2))"

definition cap_lift :: "'f file_write \<Rightarrow> saved \<times> 'f \<Rightarrow> (string + unit) \<times> saved \<times> 'f" where
  "cap_lift wr c =
     (let (failed, f1) = put_back wr (fst c) (snd c)
      in (if failed = [] then Inr () else Inl (join ''; '' failed), [], f1))"

fun cap_policies :: "'f file_read \<Rightarrow> 'f file_write \<Rightarrow> cpu_policy list \<Rightarrow> saved \<times> 'f \<Rightarrow> (string + unit) \<times> saved \<times> 'f" where
  "cap_policies rd wr [] c = (Inr (), c)"
| "cap_policies rd wr (p # ps) c =
     (let (capped, f1) =
            (case scaling_max rd (snd c) p of
               Inl e \<Rightarrow> (Inl (hal_error_text e), snd c)
             | Inr b \<Rightarrow> (let (r, f1) = set_scaling_max wr p (cp_min_khz p) (snd c)
                         in (map_ok (\<lambda>_. b) (map_err hal_error_text r), f1)))
      in case capped of
           Inr b \<Rightarrow> cap_policies rd wr ps (fst c @ [(p, b)], f1)
         | Inl e \<Rightarrow> (Inl (''capping '' @ cp_dir p @ '': '' @ e), snd (cap_lift wr (fst c, f1))))"

definition cap_apply :: "'f file_read \<Rightarrow> 'f file_write \<Rightarrow> cpu_policy list \<Rightarrow> saved \<times> 'f \<Rightarrow> (string + unit) \<times> saved \<times> 'f" where
  "cap_apply rd wr policies c =
     (if fst c \<noteq> [] then (Inr (), c)
      else if policies = [] then (Inl ''this machine has no cpufreq policies to cap'', c)
      else cap_policies rd wr policies c)"

definition cap_drop :: "'f file_write \<Rightarrow> saved \<times> 'f \<Rightarrow> saved \<times> 'f" where
  "cap_drop wr c = (if fst c \<noteq> [] then snd (cap_lift wr c) else c)"

section \<open>Files that keep what is written\<close>

text \<open>What a sysfs limit does: a write that succeeds is read back, a write that fails changes nothing,
  and neither touches another file. The kernel is outside; this is the contract the cap relies on.\<close>

definition limit_files :: "'f file_read \<Rightarrow> 'f file_write \<Rightarrow> bool" where
  "limit_files rd wr \<longleftrightarrow>
     (\<forall>f path text.
        (is_ok (fst (wr f path text)) \<longrightarrow> rd (snd (wr f path text)) path = Inr text)
        \<and> (\<not> is_ok (fst (wr f path text)) \<longrightarrow> rd (snd (wr f path text)) = rd f)
        \<and> (\<forall>other. other \<noteq> path \<longrightarrow> rd (snd (wr f path text)) other = rd f other))"

lemma set_limit:
  assumes "limit_files rd wr" "set_scaling_max wr p khz f = (r, f')" "cp_max_khz p \<le> U32_MAX"
  shows "is_ok r \<Longrightarrow> scaling_max rd f' p = Inr khz"
    and "\<not> is_ok r \<Longrightarrow> rd f' = rd f"
    and "limit_file q \<noteq> limit_file p \<Longrightarrow> scaling_max rd f' q = scaling_max rd f q"
proof -
  obtain w f1 where w: "wr f (limit_file p) (show_nat khz) = (w, f1)" by (rule prod.exhaust)
  have l: "is_ok w \<Longrightarrow> rd f1 (limit_file p) = Inr (show_nat khz)" "\<not> is_ok w \<Longrightarrow> rd f1 = rd f"
    "limit_file q \<noteq> limit_file p \<Longrightarrow> rd f1 (limit_file q) = rd f (limit_file q)"
    using assms(1)[unfolded limit_files_def, rule_format, of f "limit_file p" "show_nat khz"] w by auto
  consider (refused) e where "r = Inl e" "f' = f" | (tried) "r = map_err (\<lambda>e. Io (limit_file p @ '': '' @ e)) w" "f' = f1" "khz \<le> U32_MAX"
    using assms(2,3) w by (auto simp: set_scaling_max_def split: if_splits)
  then have "(is_ok r \<longrightarrow> scaling_max rd f' p = Inr khz) \<and> (\<not> is_ok r \<longrightarrow> rd f' = rd f)
    \<and> (limit_file q \<noteq> limit_file p \<longrightarrow> scaling_max rd f' q = scaling_max rd f q)"
  proof cases
    case tried
    then show ?thesis using l by (cases w) (auto simp: scaling_max_def read_khz_def)
  qed simp
  then show "is_ok r \<Longrightarrow> scaling_max rd f' p = Inr khz" "\<not> is_ok r \<Longrightarrow> rd f' = rd f"
    "limit_file q \<noteq> limit_file p \<Longrightarrow> scaling_max rd f' q = scaling_max rd f q" by blast+
qed

text \<open>Putting back without failures: every saved limit is in force again, other files are as before.\<close>

abbreviation files_of :: "saved \<Rightarrow> string list" where
  "files_of saved \<equiv> map (\<lambda>(p, _). limit_file p) saved"

definition in_range :: "saved \<Rightarrow> bool" where
  "in_range saved \<longleftrightarrow> list_all (\<lambda>(p, _). cp_max_khz p \<le> U32_MAX) saved"

lemma put_back_restores:
  assumes "limit_files rd wr" "put_back wr saved f = ([], f')" "distinct (files_of saved)" "in_range saved"
  shows "(\<forall>(p, b) \<in> set saved. scaling_max rd f' p = Inr b)
    \<and> (\<forall>q. limit_file q \<notin> set (files_of saved) \<longrightarrow> scaling_max rd f' q = scaling_max rd f q)"
  using assms(2,3,4)
proof (induction saved arbitrary: f)
  case (Cons x rest)
  obtain p b where x: "x = (p, b)" by (cases x)
  obtain r f1 where s: "set_scaling_max wr p b f = (r, f1)" by (rule prod.exhaust)
  have rest: "put_back wr rest f1 = ([], f')" and r: "is_ok r"
    using Cons.prems(1) s x by (auto split: prod.splits sum.splits)
  have p: "cp_max_khz p \<le> U32_MAX" "limit_file p \<notin> set (files_of rest)" using Cons.prems x by (auto simp: in_range_def)
  have IH: "(\<forall>(p, b) \<in> set rest. scaling_max rd f' p = Inr b)
    \<and> (\<forall>q. limit_file q \<notin> set (files_of rest) \<longrightarrow> scaling_max rd f' q = scaling_max rd f1 q)"
    using Cons.IH[OF rest] Cons.prems by (simp add: in_range_def)
  have "scaling_max rd f' p = Inr b" using IH p(2) set_limit(1)[OF assms(1) s p(1) r] by simp
  moreover have "scaling_max rd f' q = scaling_max rd f q" if "limit_file q \<notin> set (files_of (x # rest))" for q
    using that IH set_limit(3)[OF assms(1) s p(1), of q] by (simp add: x)
  ultimately show ?case using IH by (auto simp: x)
qed simp

text \<open>Capping: whatever the outcome, what is saved and what the files hold belong together.\<close>

definition capped_from :: "'f file_read \<Rightarrow> 'f \<Rightarrow> saved \<times> 'f \<Rightarrow> bool" where
  "capped_from rd f0 c \<longleftrightarrow>
     (\<forall>(p, b) \<in> set (fst c). scaling_max rd f0 p = Inr b \<and> scaling_max rd (snd c) p = Inr (cp_min_khz p))
     \<and> (\<forall>q. limit_file q \<notin> set (files_of (fst c)) \<longrightarrow> scaling_max rd (snd c) q = scaling_max rd f0 q)"

lemma cap_policies_capped:
  assumes "limit_files rd wr" "cap_policies rd wr ps c = (Inr u, c')" "capped_from rd f0 c"
    and "distinct (files_of (fst c) @ map limit_file ps)" "list_all (\<lambda>p. cp_max_khz p \<le> U32_MAX) ps"
  shows "capped_from rd f0 c' \<and> map fst (fst c') = map fst (fst c) @ ps"
  using assms(2-5)
proof (induction ps arbitrary: c)
  case (Cons p ps)
  obtain saved f where c: "c = (saved, f)" by (cases c)
  obtain b where b: "scaling_max rd f p = Inr b"
    using Cons.prems(1) c by (cases "scaling_max rd f p") auto
  obtain r f1 where s: "set_scaling_max wr p (cp_min_khz p) f = (r, f1)" by (rule prod.exhaust)
  have r: "is_ok r" and run: "cap_policies rd wr ps (saved @ [(p, b)], f1) = (Inr u, c')"
    using Cons.prems(1) c b s by (auto simp: Let_def split: sum.splits) (cases r; simp)+
  have p: "cp_max_khz p \<le> U32_MAX" "limit_file p \<notin> set (files_of saved)" using Cons.prems(3,4) c by auto
  note set_p = set_limit(1)[OF assms(1) s p(1) r] set_limit(3)[OF assms(1) s p(1)]
  have "scaling_max rd f0 p = Inr b" using Cons.prems(2) b c p(2) by (simp add: capped_from_def)
  moreover have "limit_file q \<noteq> limit_file p" if "(q, x) \<in> set saved" for q x
    using that p(2) by force
  ultimately have "capped_from rd f0 (saved @ [(p, b)], f1)"
    using Cons.prems(2) set_p c by (fastforce simp: capped_from_def)
  moreover have "distinct (files_of (fst (saved @ [(p, b)], f1)) @ map limit_file ps)"
    using Cons.prems(3) c by auto
  ultimately show ?case using Cons.IH[OF run] Cons.prems(4) c by simp
qed (simp add: capped_from_def)

text \<open>a cap that succeeds holds every policy at its lowest frequency, and lifting it puts every limit
  of the machine back to what it was before, not to the maximum.\<close>

theorem cpu_cap_lift_restores:
  assumes "limit_files rd wr" "distinct (map limit_file policies)" "list_all (\<lambda>p. cp_max_khz p \<le> U32_MAX) policies"
    and "cap_apply rd wr policies ([], f) = (Inr u, c)" "cap_lift wr c = (Inr v, c')"
  shows "(\<forall>p \<in> set policies. scaling_max rd (snd c) p = Inr (cp_min_khz p))
    \<and> (\<forall>q. scaling_max rd (snd c') q = scaling_max rd f q) \<and> fst c' = []"
proof -
  have "cap_policies rd wr policies ([], f) = (Inr u, c)" using assms(4) by (auto simp: cap_apply_def split: if_splits)
  moreover have "capped_from rd f ([], f)" by (simp add: capped_from_def)
  ultimately have cap: "capped_from rd f c" "map fst (fst c) = policies"
    using cap_policies_capped[OF assms(1)] assms(2,3) by fastforce+
  have files: "files_of (fst c) = map limit_file policies"
    unfolding cap(2)[symmetric] by (simp add: comp_def case_prod_beta)
  have range: "in_range (fst c)"
    using assms(3) unfolding cap(2)[symmetric] by (auto simp: in_range_def list_all_iff)
  obtain f1 where put: "put_back wr (fst c) (snd c) = ([], f1)" "c' = ([], f1)"
    using assms(5) by (auto simp: cap_lift_def Let_def split: prod.splits if_splits)
  note restored = put_back_restores[OF assms(1) put(1) _ range]
  have d: "distinct (files_of (fst c))" using assms(2) files by simp
  have "scaling_max rd f1 q = scaling_max rd f q" for q
  proof (cases "limit_file q \<in> set (files_of (fst c))")
    case True
    then obtain p b where pb: "(p, b) \<in> set (fst c)" "limit_file p = limit_file q" by auto
    then have "scaling_max rd g q = scaling_max rd g p" for g by (simp add: scaling_max_def)
    moreover have "scaling_max rd f1 p = Inr b" "scaling_max rd f p = Inr b"
      using restored[OF d] cap(1) pb(1) by (auto simp: capped_from_def)
    ultimately show ?thesis by simp
  next
    case False
    then show ?thesis using restored[OF d] cap(1) by (simp add: capped_from_def)
  qed
  moreover have "\<forall>p \<in> set policies. scaling_max rd (snd c) p = Inr (cp_min_khz p)"
    using cap(1) unfolding cap(2)[symmetric] by (auto simp: capped_from_def)
  ultimately show ?thesis by (simp add: put(2))
qed

text \<open>a limit that could not be put back is forgotten: lifting again reports success and writes
  nothing, and so does the drop, so the processor stays capped.\<close>

theorem cpu_lift_forgets:
  "cap_lift wr (snd (cap_lift wr c)) = (Inr (), snd (cap_lift wr c)) \<and> cap_drop wr (snd (cap_lift wr c)) = snd (cap_lift wr c)"
  by (simp add: cap_lift_def cap_drop_def Let_def split: prod.split)

text \<open>Files as a map, all of which can be written.\<close>

definition map_read :: "(string \<Rightarrow> string option) file_read" where
  "map_read f path = (case f path of Some t \<Rightarrow> Inr t | None \<Rightarrow> Inl ''No such file or directory'')"

definition map_write :: "(string \<Rightarrow> string option) file_write" where
  "map_write f path text = (Inr (), f(path \<mapsto> text))"

definition pi5 :: cpu_policy where
  "pi5 = \<lparr>cp_dir = ''policy0'', cp_min_khz = 1500000, cp_max_khz = 2400000\<rparr>"

theorem cpu_cap_lift_restores_witness:
  "\<exists>c c'. cap_apply map_read map_write [pi5] ([], Map.empty(limit_file pi5 \<mapsto> show_nat 2000000)) = (Inr (), c)
     \<and> cap_lift map_write c = (Inr (), c') \<and> scaling_max map_read (snd c) pi5 = Inr 1500000
     \<and> scaling_max map_read (snd c') pi5 = Inr 2000000"
proof -
  let ?f = "Map.empty(limit_file pi5 \<mapsto> show_nat 2000000)"
  have honest: "limit_files map_read map_write" by (simp add: limit_files_def map_read_def map_write_def)
  have before: "scaling_max map_read ?f pi5 = Inr 2000000"
    by (simp add: scaling_max_def read_khz_def map_read_def U32_MAX_def)
  have set: "set_scaling_max map_write pi5 k g = (Inr (), g(limit_file pi5 \<mapsto> show_nat k))" if "k \<in> {1500000..2400000}" for k g
    using that by (simp add: set_scaling_max_def map_write_def pi5_def)
  obtain c where c: "cap_apply map_read map_write [pi5] ([], ?f) = (Inr (), c)" "fst c = [(pi5, 2000000)]"
    using before set by (simp add: cap_apply_def pi5_def[THEN arg_cong[of _ _ cp_min_khz], simplified])
  obtain c' where c': "cap_lift map_write c = (Inr (), c')"
    using c(2) set by (cases c) (simp add: cap_lift_def)
  have d: "distinct (map limit_file [pi5])" "list_all (\<lambda>p. cp_max_khz p \<le> U32_MAX) [pi5]"
    by (simp_all add: pi5_def U32_MAX_def)
  have "scaling_max map_read (snd c) pi5 = Inr 1500000" "scaling_max map_read (snd c') pi5 = Inr 2000000"
    using cpu_cap_lift_restores[OF honest d c(1) c'] before by (simp_all add: pi5_def)
  with c(1) c' show ?thesis by blast
qed

end
