(* ===== verification/FrameBuffer.thy ===== *)
theory FrameBuffer
  imports Prelude
begin

text \<open>
  The frame buffer of the case display and its font (\<open>framebuffer.rs\<close> and \<open>font.rs\<close> in
  \<open>crates/argon-proto/src/oled\<close>), and the command bytes of the panel (\<open>mod.rs\<close>). A buffer is the
  list of its 1024 bytes, eight rows to a byte. What a drawing operation means is said over the set
  of lit pixels, \<open>lit\<close>.
\<close>

section \<open>Font\<close>

definition GLYPH_WIDTH :: nat where "GLYPH_WIDTH = 5"
definition GLYPH_HEIGHT :: nat where "GLYPH_HEIGHT = 7"
definition FONT_FIRST :: u8 where "FONT_FIRST = 0x20"

definition FONT :: "u8 list list" where
  "FONT =
    [[0x00, 0x00, 0x00, 0x00, 0x00], [0x00, 0x00, 0x5F, 0x00, 0x00], [0x00, 0x07, 0x00, 0x07, 0x00],
     [0x14, 0x7F, 0x14, 0x7F, 0x14], [0x24, 0x2A, 0x7F, 0x2A, 0x12], [0x23, 0x13, 0x08, 0x64, 0x62],
     [0x36, 0x49, 0x55, 0x22, 0x50], [0x00, 0x05, 0x03, 0x00, 0x00], [0x00, 0x1C, 0x22, 0x41, 0x00],
     [0x00, 0x41, 0x22, 0x1C, 0x00], [0x14, 0x08, 0x3E, 0x08, 0x14], [0x08, 0x08, 0x3E, 0x08, 0x08],
     [0x00, 0x50, 0x30, 0x00, 0x00], [0x08, 0x08, 0x08, 0x08, 0x08], [0x00, 0x60, 0x60, 0x00, 0x00],
     [0x20, 0x10, 0x08, 0x04, 0x02], [0x3E, 0x51, 0x49, 0x45, 0x3E], [0x00, 0x42, 0x7F, 0x40, 0x00],
     [0x42, 0x61, 0x51, 0x49, 0x46], [0x21, 0x41, 0x45, 0x4B, 0x31], [0x18, 0x14, 0x12, 0x7F, 0x10],
     [0x27, 0x45, 0x45, 0x45, 0x39], [0x3C, 0x4A, 0x49, 0x49, 0x30], [0x01, 0x71, 0x09, 0x05, 0x03],
     [0x36, 0x49, 0x49, 0x49, 0x36], [0x06, 0x49, 0x49, 0x29, 0x1E], [0x00, 0x36, 0x36, 0x00, 0x00],
     [0x00, 0x56, 0x36, 0x00, 0x00], [0x08, 0x14, 0x22, 0x41, 0x00], [0x14, 0x14, 0x14, 0x14, 0x14],
     [0x00, 0x41, 0x22, 0x14, 0x08], [0x02, 0x01, 0x51, 0x09, 0x06], [0x32, 0x49, 0x79, 0x41, 0x3E],
     [0x7E, 0x11, 0x11, 0x11, 0x7E], [0x7F, 0x49, 0x49, 0x49, 0x36], [0x3E, 0x41, 0x41, 0x41, 0x22],
     [0x7F, 0x41, 0x41, 0x22, 0x1C], [0x7F, 0x49, 0x49, 0x49, 0x41], [0x7F, 0x09, 0x09, 0x09, 0x01],
     [0x3E, 0x41, 0x49, 0x49, 0x7A], [0x7F, 0x08, 0x08, 0x08, 0x7F], [0x00, 0x41, 0x7F, 0x41, 0x00],
     [0x20, 0x40, 0x41, 0x3F, 0x01], [0x7F, 0x08, 0x14, 0x22, 0x41], [0x7F, 0x40, 0x40, 0x40, 0x40],
     [0x7F, 0x02, 0x0C, 0x02, 0x7F], [0x7F, 0x04, 0x08, 0x10, 0x7F], [0x3E, 0x41, 0x41, 0x41, 0x3E],
     [0x7F, 0x09, 0x09, 0x09, 0x06], [0x3E, 0x41, 0x51, 0x21, 0x5E], [0x7F, 0x09, 0x19, 0x29, 0x46],
     [0x46, 0x49, 0x49, 0x49, 0x31], [0x01, 0x01, 0x7F, 0x01, 0x01], [0x3F, 0x40, 0x40, 0x40, 0x3F],
     [0x1F, 0x20, 0x40, 0x20, 0x1F], [0x3F, 0x40, 0x38, 0x40, 0x3F], [0x63, 0x14, 0x08, 0x14, 0x63],
     [0x07, 0x08, 0x70, 0x08, 0x07], [0x61, 0x51, 0x49, 0x45, 0x43], [0x00, 0x7F, 0x41, 0x41, 0x00],
     [0x02, 0x04, 0x08, 0x10, 0x20], [0x00, 0x41, 0x41, 0x7F, 0x00], [0x04, 0x02, 0x01, 0x02, 0x04],
     [0x40, 0x40, 0x40, 0x40, 0x40], [0x00, 0x01, 0x02, 0x04, 0x00], [0x20, 0x54, 0x54, 0x54, 0x78],
     [0x7F, 0x48, 0x44, 0x44, 0x38], [0x38, 0x44, 0x44, 0x44, 0x20], [0x38, 0x44, 0x44, 0x48, 0x7F],
     [0x38, 0x54, 0x54, 0x54, 0x18], [0x08, 0x7E, 0x09, 0x01, 0x02], [0x0C, 0x52, 0x52, 0x52, 0x3E],
     [0x7F, 0x08, 0x04, 0x04, 0x78], [0x00, 0x44, 0x7D, 0x40, 0x00], [0x20, 0x40, 0x44, 0x3D, 0x00],
     [0x7F, 0x10, 0x28, 0x44, 0x00], [0x00, 0x41, 0x7F, 0x40, 0x00], [0x7C, 0x04, 0x18, 0x04, 0x78],
     [0x7C, 0x08, 0x04, 0x04, 0x78], [0x38, 0x44, 0x44, 0x44, 0x38], [0x7C, 0x14, 0x14, 0x14, 0x08],
     [0x08, 0x14, 0x14, 0x18, 0x7C], [0x7C, 0x08, 0x04, 0x04, 0x08], [0x48, 0x54, 0x54, 0x54, 0x20],
     [0x04, 0x3F, 0x44, 0x40, 0x20], [0x3C, 0x40, 0x40, 0x20, 0x7C], [0x1C, 0x20, 0x40, 0x20, 0x1C],
     [0x3C, 0x40, 0x30, 0x40, 0x3C], [0x44, 0x28, 0x10, 0x28, 0x44], [0x0C, 0x50, 0x50, 0x50, 0x3C],
     [0x44, 0x64, 0x54, 0x4C, 0x44], [0x00, 0x08, 0x36, 0x41, 0x00], [0x00, 0x00, 0x7F, 0x00, 0x00],
     [0x00, 0x41, 0x36, 0x08, 0x00], [0x08, 0x04, 0x08, 0x10, 0x08]]"

definition glyph :: "char \<Rightarrow> u8 list" where
  "glyph c =
     (let n = (of_char c :: nat);
          code = (if n < 128 then n else 63);
          index = code - unat FONT_FIRST
      in if index < length FONT then FONT ! index else FONT ! (63 - unat FONT_FIRST))"

section \<open>The buffer\<close>

definition WIDTH :: nat where "WIDTH = 128"
definition HEIGHT :: nat where "HEIGHT = 64"
definition PAGES :: nat where "PAGES = HEIGHT div 8"

type_synonym frame_buffer = "u8 list"

definition fb_new :: frame_buffer where
  "fb_new = replicate (WIDTH * PAGES) 0"

definition fb_clear :: "frame_buffer \<Rightarrow> frame_buffer" where
  "fb_clear fb = replicate (WIDTH * PAGES) 0"

definition fb_fill :: "frame_buffer \<Rightarrow> frame_buffer" where
  "fb_fill fb = replicate (WIDTH * PAGES) 0xFF"

definition set_pixel :: "nat \<Rightarrow> nat \<Rightarrow> bool \<Rightarrow> frame_buffer \<Rightarrow> frame_buffer" where
  "set_pixel x y on fb =
     (if WIDTH \<le> x \<or> HEIGHT \<le> y then fb
      else let index = (y div 8) * WIDTH + x; b = push_bit (y mod 8) 1
           in if on then fb[index := fb ! index OR b] else fb[index := fb ! index AND NOT b])"

definition pixel :: "frame_buffer \<Rightarrow> nat \<Rightarrow> nat \<Rightarrow> bool" where
  "pixel fb x y =
     (if WIDTH \<le> x \<or> HEIGHT \<le> y then False
      else fb ! ((y div 8) * WIDTH + x) AND push_bit (y mod 8) 1 \<noteq> 0)"

definition rect :: "nat \<Rightarrow> nat \<Rightarrow> nat \<Rightarrow> nat \<Rightarrow> bool \<Rightarrow> frame_buffer \<Rightarrow> frame_buffer" where
  "rect x y w h on fb =
     fold (\<lambda>dy fb. fold (\<lambda>dx fb. set_pixel (x + dx) (y + dy) on fb) [0..<w] fb) [0..<h] fb"

definition bar_filled :: "nat \<Rightarrow> u8 \<Rightarrow> nat" where
  "bar_filled inner percent = (inner * (if 100 < percent then 100 else unat percent) + 50) div 100"

definition bar :: "nat \<Rightarrow> nat \<Rightarrow> nat \<Rightarrow> nat \<Rightarrow> u8 \<Rightarrow> frame_buffer \<Rightarrow> frame_buffer" where
  "bar x y w h percent fb =
     (if w < 2 \<or> h < 2 then fb
      else rect (x + 1) (y + 1) (bar_filled (w - 2) percent) (h - 2) True
             (rect (x + w - 1) y 1 h True (rect x y 1 h True
               (rect x (y + h - 1) w 1 True (rect x y w 1 True fb)))))"

definition draw_char :: "nat \<Rightarrow> nat \<Rightarrow> char \<Rightarrow> frame_buffer \<Rightarrow> nat \<times> frame_buffer" where
  "draw_char x y c fb =
     (GLYPH_WIDTH + 1,
      fold (\<lambda>(dx, column) fb. fold (\<lambda>dy fb. if column AND push_bit dy 1 \<noteq> 0 then set_pixel (x + dx) (y + dy) True fb else fb)
              [0..<8] fb) (List.enumerate 0 (glyph c)) fb)"

text \<open>The loop over the characters from a cursor; the result is where the cursor ends.\<close>

fun draw_chars :: "nat \<Rightarrow> nat \<Rightarrow> string \<Rightarrow> frame_buffer \<Rightarrow> nat \<times> frame_buffer" where
  "draw_chars cursor y [] fb = (cursor, fb)"
| "draw_chars cursor y (c # cs) fb =
     (if WIDTH < cursor + GLYPH_WIDTH then (cursor, fb)
      else let (w, fb1) = draw_char cursor y c fb in draw_chars (cursor + w) y cs fb1)"

definition draw_text :: "nat \<Rightarrow> nat \<Rightarrow> string \<Rightarrow> frame_buffer \<Rightarrow> nat \<times> frame_buffer" where
  "draw_text x y s fb = (let (cursor, fb1) = draw_chars x y s fb in (cursor - x, fb1))"

definition text_width :: "string \<Rightarrow> nat" where
  "text_width s = length s * (GLYPH_WIDTH + 1)"

definition draw_text_centred :: "nat \<Rightarrow> nat \<Rightarrow> nat \<Rightarrow> string \<Rightarrow> frame_buffer \<Rightarrow> frame_buffer" where
  "draw_text_centred x y box_width s fb = snd (draw_text (x + (box_width - text_width s) div 2) y s fb)"

definition count_ones :: "u8 \<Rightarrow> nat" where
  "count_ones b = length (filter (\<lambda>i. bit b i) [0..<8])"

definition lit_pixels :: "frame_buffer \<Rightarrow> nat" where
  "lit_pixels fb = sum_list (map count_ones fb)"

section \<open>Commands of the panel\<close>

definition OLED_ADDR :: u8 where "OLED_ADDR = 0x3c"
definition CONTROL_COMMAND :: u8 where "CONTROL_COMMAND = 0x00"
definition CONTROL_DATA :: u8 where "CONTROL_DATA = 0x40"

datatype addressing_mode = Horizontal | Vertical | PageMode

fun addressing_byte :: "addressing_mode \<Rightarrow> u8" where
  "addressing_byte Horizontal = 0x00"
| "addressing_byte Vertical = 0x01"
| "addressing_byte PageMode = 0x02"

definition init_sequence :: "u8 list" where
  "init_sequence =
     [0xAE, 0xD5, 0x80, 0xA8, 0x3F, 0xD3, 0x00, 0x40, 0x8D, 0x14, 0x20, addressing_byte Horizontal,
      0xA1, 0xC8, 0xDA, 0x12, 0x81, 0xCF, 0xD9, 0xF1, 0xDB, 0x40, 0xA4, 0xA6, 0x2E, 0xAF]"

definition LAST_COLUMN :: u8 where "LAST_COLUMN = 127"
definition LAST_PAGE :: u8 where "LAST_PAGE = 7"

definition full_frame_window :: "u8 list" where
  "full_frame_window = [0x21, 0, LAST_COLUMN, 0x22, 0, LAST_PAGE]"

definition orientation :: "bool \<Rightarrow> u8 list" where
  "orientation rotated_180 = (if rotated_180 then [0xA0, 0xC0] else [0xA1, 0xC8])"

definition panel_power :: "bool \<Rightarrow> u8" where
  "panel_power on = (if on then 0xAF else 0xAE)"

definition contrast :: "u8 \<Rightarrow> u8 list" where
  "contrast level = [0x81, level]"

definition invert :: "bool \<Rightarrow> u8" where
  "invert inverted = (if inverted then 0xA7 else 0xA6)"

lemma panel_constants: "unat LAST_COLUMN = WIDTH - 1" "unat LAST_PAGE = PAGES - 1" "length init_sequence = 26"
  by (simp_all add: LAST_COLUMN_def LAST_PAGE_def WIDTH_def PAGES_def HEIGHT_def init_sequence_def)

section \<open>The lit pixels\<close>

definition panel :: "(nat \<times> nat) set" where
  "panel = {(x, y). x < WIDTH \<and> y < HEIGHT}"

definition lit :: "frame_buffer \<Rightarrow> (nat \<times> nat) set" where
  "lit fb = {(x, y). pixel fb x y}"

definition fb_ok :: "frame_buffer \<Rightarrow> bool" where
  "fb_ok fb \<longleftrightarrow> length fb = WIDTH * PAGES"

lemmas dims = WIDTH_def HEIGHT_def PAGES_def

lemma pixel_bit: "pixel fb x y \<longleftrightarrow> x < WIDTH \<and> y < HEIGHT \<and> bit (fb ! ((y div 8) * WIDTH + x)) (y mod 8)"
  by (auto simp: pixel_def bit_iff_and_push_bit_not_eq_0)

lemma pixel_in: "pixel fb x y \<Longrightarrow> x < WIDTH \<and> y < HEIGHT"
  by (simp add: pixel_bit)

lemma index_bound: "x < WIDTH \<Longrightarrow> y < HEIGHT \<Longrightarrow> (y div 8) * WIDTH + x < WIDTH * PAGES"
proof -
  assume "x < WIDTH" "y < HEIGHT"
  then have "x < 128" "y div 8 \<le> 7" by (auto simp: dims)
  then have "(y div 8) * 128 + x < 128 * 8" by linarith
  then show ?thesis by (simp add: dims)
qed

lemma index_inj:
  assumes "x < WIDTH" "x' < WIDTH"
  shows "(p :: nat) * WIDTH + x = p' * WIDTH + x' \<longleftrightarrow> p = p' \<and> x = x'"
proof
  assume eq: "p * WIDTH + x = p' * WIDTH + x'"
  have "x = x'" using arg_cong[OF eq, of "\<lambda>n. n mod WIDTH"] assms by simp
  with eq show "p = p' \<and> x = x'" by (simp add: dims)
qed simp

lemma set_pixel_ok [simp]: "fb_ok (set_pixel x y on fb) = fb_ok fb"
  by (simp add: fb_ok_def set_pixel_def Let_def)

lemma lit_set_pixel:
  assumes "fb_ok fb"
  shows "lit (set_pixel x y on fb) = (if on then lit fb \<union> ({(x, y)} \<inter> panel) else lit fb - {(x, y)})"
proof -
  have "pixel (set_pixel x y on fb) x' y' \<longleftrightarrow>
      (if x' = x \<and> y' = y then on \<and> x < WIDTH \<and> y < HEIGHT else pixel fb x' y')" for x' y'
  proof (cases "x < WIDTH \<and> y < HEIGHT")
    case True
    let ?i = "(y div 8) * WIDTH + x" and ?i' = "(y' div 8) * WIDTH + x'"
    have i: "?i < length fb" using assms True index_bound by (simp add: fb_ok_def)
    have bits: "bit (2 ^ (y mod 8) :: u8) k \<longleftrightarrow> k = y mod 8" for k
      by (auto simp: bit_exp_iff)
    show ?thesis
    proof (cases "x' < WIDTH \<and> y' < HEIGHT")
      case in': True
      have same: "?i = ?i' \<longleftrightarrow> y div 8 = y' div 8 \<and> x = x'" using index_inj True in' by blast
      have y: "y = y' \<longleftrightarrow> y div 8 = y' div 8 \<and> y mod 8 = y' mod 8" by (metis div_mult_mod_eq)
      have "pixel (set_pixel x y on fb) x' y' \<longleftrightarrow>
          (if ?i' = ?i then (if on then bit (fb ! ?i) (y' mod 8) \<or> y' mod 8 = y mod 8
                             else bit (fb ! ?i) (y' mod 8) \<and> y' mod 8 \<noteq> y mod 8)
           else bit (fb ! ?i') (y' mod 8))"
        using True in' i
        by (simp add: pixel_bit set_pixel_def Let_def nth_list_update bit_or_iff bit_and_iff bit_not_iff bits)
      note after = this
      consider (here) "x' = x" "y' = y" | (page) "?i' = ?i" "y' mod 8 \<noteq> y mod 8" "y' \<noteq> y" | (other) "?i' \<noteq> ?i" "\<not> (x' = x \<and> y' = y)"
        using same y by metis
      then show ?thesis
      proof cases
        case here
        then show ?thesis using after True by simp
      next
        case page
        then show ?thesis using after in' by (simp add: pixel_bit)
      next
        case other
        then show ?thesis using after in' by (simp only: pixel_bit if_False) simp
      qed
    qed (use True in \<open>auto simp: pixel_bit\<close>)
  qed (auto simp: set_pixel_def pixel_bit)
  note * = this
  show ?thesis
  proof (rule set_eqI)
    fix q :: "nat \<times> nat"
    obtain a b where "q = (a, b)" by (cases q)
    then show "q \<in> lit (set_pixel x y on fb) \<longleftrightarrow> q \<in> (if on then lit fb \<union> ({(x, y)} \<inter> panel) else lit fb - {(x, y)})"
      using *[of a b] by (cases on) (auto simp: lit_def panel_def dest: pixel_in)
  qed
qed

section \<open>Drawing as sets\<close>

definition draws :: "bool \<Rightarrow> (nat \<times> nat) list \<Rightarrow> frame_buffer \<Rightarrow> frame_buffer" where
  "draws on cs fb = fold (\<lambda>(x, y). set_pixel x y on) cs fb"

lemma lit_draws:
  "fb_ok fb \<Longrightarrow> fb_ok (draws on cs fb) \<and>
     lit (draws on cs fb) = (if on then lit fb \<union> (set cs \<inter> panel) else lit fb - set cs)"
proof (induction cs arbitrary: fb)
  case (Cons c cs)
  obtain x y where c: "c = (x, y)" by (cases c)
  have "fb_ok (set_pixel x y on fb)" using Cons.prems by simp
  from Cons.IH[OF this] show ?case
    by (cases on) (auto simp: draws_def c lit_set_pixel[OF Cons.prems])
qed (simp add: draws_def)

lemma fold_concat: "fold f (concat xss) = fold (fold f) xss"
  by (induction xss) auto

lemma fold_if: "fold (\<lambda>k s. if P k then f k s else s) xs = fold f (filter P xs)"
proof (induction xs)
  case (Cons x xs)
  then show ?case by (cases "P x") (auto simp: comp_def)
qed simp

definition box :: "nat \<Rightarrow> nat \<Rightarrow> nat \<Rightarrow> nat \<Rightarrow> (nat \<times> nat) set" where
  "box x y w h = {x..<x + w} \<times> {y..<y + h}"

lemma rect_draws: "rect x y w h on fb = draws on (concat (map (\<lambda>dy. map (\<lambda>dx. (x + dx, y + dy)) [0..<w]) [0..<h])) fb"
  by (simp add: rect_def draws_def fold_concat fold_map comp_def)

lemma set_rect: "set (concat (map (\<lambda>dy. map (\<lambda>dx. (x + dx, y + dy)) [0..<w]) [0..<h])) = box x y w h" (is "?l = _")
proof (rule set_eqI)
  fix q :: "nat \<times> nat"
  obtain a b where q: "q = (a, b)" by (cases q)
  have "q \<in> ?l \<longleftrightarrow> (\<exists>dy < h. \<exists>dx < w. a = x + dx \<and> b = y + dy)" by (force simp: q)
  also have "\<dots> \<longleftrightarrow> (\<exists>dy < h. b = y + dy) \<and> (\<exists>dx < w. a = x + dx)" by blast
  also have "(\<exists>dx < w. a = x + dx) \<longleftrightarrow> x \<le> a \<and> a < x + w" by (auto intro!: exI[of _ "a - x"])
  also have "(\<exists>dy < h. b = y + dy) \<longleftrightarrow> y \<le> b \<and> b < y + h" by (auto intro!: exI[of _ "b - y"])
  finally show "q \<in> ?l \<longleftrightarrow> q \<in> box x y w h" by (auto simp: q box_def)
qed

lemma lit_rect:
  "fb_ok fb \<Longrightarrow> lit (rect x y w h on fb) = (if on then lit fb \<union> (box x y w h \<inter> panel) else lit fb - box x y w h)"
  using lit_draws[of fb on "concat (map (\<lambda>dy. map (\<lambda>dx. (x + dx, y + dy)) [0..<w]) [0..<h])"]
  by (simp only: rect_draws set_rect)

lemma rect_ok [simp]: "fb_ok fb \<Longrightarrow> fb_ok (rect x y w h on fb)"
  using lit_draws by (simp only: rect_draws)

definition glyph_pixels :: "nat \<Rightarrow> nat \<Rightarrow> char \<Rightarrow> (nat \<times> nat) set" where
  "glyph_pixels x y c = {(x + dx, y + dy) | dx dy. dx < GLYPH_WIDTH \<and> dy < 8 \<and> bit (glyph c ! dx) dy}"

definition text_pixels :: "nat \<Rightarrow> nat \<Rightarrow> string \<Rightarrow> (nat \<times> nat) set" where
  "text_pixels x y s =
     (\<Union>i \<in> {i. i < length s \<and> x + i * (GLYPH_WIDTH + 1) + GLYPH_WIDTH \<le> WIDTH}. glyph_pixels (x + i * (GLYPH_WIDTH + 1)) y (s ! i))"

lemma font_shape: "list_all (\<lambda>g. length g = GLYPH_WIDTH \<and> list_all (\<lambda>b. b < 0x80) g) FONT" "length FONT = 95"
  by (simp_all add: FONT_def GLYPH_WIDTH_def)

lemma glyph_length: "length (glyph c) = GLYPH_WIDTH"
proof -
  have "glyph c \<in> set FONT"
    using font_shape(2) by (auto simp: glyph_def Let_def FONT_FIRST_def)
  then show ?thesis using font_shape(1) by (auto simp: list_all_iff)
qed

definition glyph_coords :: "nat \<Rightarrow> nat \<Rightarrow> char \<Rightarrow> (nat \<times> nat) list" where
  "glyph_coords x y c =
     concat (map (\<lambda>(dx, column). map (\<lambda>dy. (x + dx, y + dy)) (filter (\<lambda>dy. column AND push_bit dy 1 \<noteq> 0) [0..<8]))
       (List.enumerate 0 (glyph c)))"

lemma draw_char_draws: "draw_char x y c fb = (GLYPH_WIDTH + 1, draws True (glyph_coords x y c) fb)"
  by (simp add: draw_char_def draws_def glyph_coords_def fold_concat fold_map comp_def fold_if split_def)

lemma set_glyph: "set (glyph_coords x y c) = glyph_pixels x y c"
proof (rule set_eqI)
  fix q :: "nat \<times> nat"
  have "q \<in> set (glyph_coords x y c) \<longleftrightarrow>
      (\<exists>(dx, column) \<in> set (List.enumerate 0 (glyph c)). \<exists>dy. dy < 8 \<and> bit column dy \<and> q = (x + dx, y + dy))"
    unfolding glyph_coords_def bit_iff_and_push_bit_not_eq_0 by fastforce
  also have "\<dots> \<longleftrightarrow> (\<exists>dx < GLYPH_WIDTH. \<exists>dy. dy < 8 \<and> bit (glyph c ! dx) dy \<and> q = (x + dx, y + dy))"
    by (force simp: in_set_enumerate_eq glyph_length Bex_def)
  also have "\<dots> \<longleftrightarrow> q \<in> glyph_pixels x y c" by (auto simp: glyph_pixels_def)
  finally show "q \<in> set (glyph_coords x y c) \<longleftrightarrow> q \<in> glyph_pixels x y c" .
qed

lemma text_pixels_Cons:
  "text_pixels x y (c # cs) =
     (if WIDTH < x + GLYPH_WIDTH then {} else glyph_pixels x y c \<union> text_pixels (x + (GLYPH_WIDTH + 1)) y cs)"
proof (cases "WIDTH < x + GLYPH_WIDTH")
  case False
  let ?I = "\<lambda>x (s :: string). {i. i < length s \<and> x + i * (GLYPH_WIDTH + 1) + GLYPH_WIDTH \<le> WIDTH}"
  have "?I x (c # cs) = insert 0 (Suc ` ?I (x + (GLYPH_WIDTH + 1)) cs)"
  proof (rule set_eqI)
    fix i show "i \<in> ?I x (c # cs) \<longleftrightarrow> i \<in> insert 0 (Suc ` ?I (x + (GLYPH_WIDTH + 1)) cs)"
      using False by (cases i) (auto simp: image_iff algebra_simps)
  qed
  then show ?thesis using False by (simp add: text_pixels_def algebra_simps)
qed (auto simp: text_pixels_def)

lemma lit_draw_chars:
  assumes "fb_ok fb"
  shows "fb_ok (snd (draw_chars x y s fb)) \<and> lit (snd (draw_chars x y s fb)) = lit fb \<union> (text_pixels x y s \<inter> panel)"
  using assms
proof (induction x y s fb rule: draw_chars.induct)
  case (2 x y c cs fb)
  show ?case
  proof (cases "WIDTH < x + GLYPH_WIDTH")
    case False
    let ?fb = "draws True (glyph_coords x y c) fb"
    have fb: "fb_ok ?fb" "lit ?fb = lit fb \<union> (glyph_pixels x y c \<inter> panel)"
      using lit_draws[OF "2.prems", of True "glyph_coords x y c"] by (simp_all add: set_glyph)
    from "2.IH"[OF False draw_char_draws[symmetric] refl fb(1)] show ?thesis
      using False by (auto simp: draw_char_draws text_pixels_Cons fb(2))
  qed (simp add: text_pixels_Cons "2.prems")
qed (simp add: text_pixels_def)

lemma draw_text_snd: "snd (draw_text x y s fb) = snd (draw_chars x y s fb)"
  by (simp add: draw_text_def split_beta)

lemma draw_text_ok [simp]: "fb_ok fb \<Longrightarrow> fb_ok (snd (draw_text x y s fb))"
  using lit_draw_chars by (simp add: draw_text_snd)

text \<open>C27: every drawing operation is the set operation it stands for, clipped to the panel: a pixel, a
  rectangle set or cleared, and a text, whose characters are drawn as long as they fit and whose
  glyphs only add pixels.\<close>

theorem canvas_refines_sets:
  assumes "fb_ok fb"
  shows "lit (set_pixel x y on fb) = (if on then lit fb \<union> ({(x, y)} \<inter> panel) else lit fb - {(x, y)})
    \<and> lit (rect x y w h on fb) = (if on then lit fb \<union> (box x y w h \<inter> panel) else lit fb - box x y w h)
    \<and> lit (snd (draw_text x y s fb)) = lit fb \<union> (text_pixels x y s \<inter> panel)"
  using assms lit_draw_chars by (simp_all add: lit_set_pixel lit_rect draw_text_snd)

lemma fb_new_ok [simp]: "fb_ok fb_new"
  by (simp add: fb_ok_def fb_new_def)

lemma lit_new [simp]: "lit fb_new = {}"
proof -
  have "\<not> pixel fb_new x y" for x y
  proof
    assume p: "pixel fb_new x y"
    then have "(y div 8) * WIDTH + x < WIDTH * PAGES" using pixel_in index_bound by blast
    then show False using p by (simp add: pixel_bit fb_new_def)
  qed
  then show ?thesis by (simp add: lit_def)
qed

theorem canvas_refines_sets_witness: "lit (rect 120 60 20 20 True fb_new) = {120..<128} \<times> {60..<64}"
proof -
  have p: "panel = {0..<128} \<times> {0..<64}" by (auto simp: panel_def dims)
  have "box 120 60 20 20 \<inter> panel = {120..<128} \<times> {60..<64}"
    unfolding box_def p Times_Int_Times Int_atLeastLessThan by simp
  then show ?thesis using canvas_refines_sets[OF fb_new_ok, where x = 120 and y = 60 and w = 20 and h = 20 and on = True] by simp
qed

text \<open>A bar is a frame and a part of its inside that grows with the percentage, empty at 0 and all of
  the inside from 100 on.\<close>

lemma bar_filled_bounds:
  "bar_filled inner p \<le> inner" "bar_filled inner 0 = 0" "100 \<le> unat p \<Longrightarrow> bar_filled inner p = inner"
  "unat p \<le> unat q \<Longrightarrow> bar_filled inner p \<le> bar_filled inner q"
proof -
  have p: "100 < (r :: u8) \<longleftrightarrow> 100 < unat r" for r by (simp add: word_less_nat_alt)
  have eq: "bar_filled inner r = (inner * min (unat r) 100 + 50) div 100" for r
    by (auto simp: bar_filled_def p min_def)
  have mono: "(inner * a + 50) div 100 \<le> (inner * b + 50) div 100" if "a \<le> b" for a b :: nat
    by (rule div_le_mono) (simp add: that)
  have full: "(inner * 100 + 50) div 100 = inner" by simp
  show "bar_filled inner p \<le> inner" using mono[of "min (unat p) 100" 100] by (simp add: eq full)
  show "bar_filled inner 0 = 0" by (simp add: eq)
  show "100 \<le> unat p \<Longrightarrow> bar_filled inner p = inner" by (simp add: eq min_def)
  show "unat p \<le> unat q \<Longrightarrow> bar_filled inner p \<le> bar_filled inner q" unfolding eq by (rule mono) (simp add: min_def)
qed

end
