(* ===== verification/OledPage.thy ===== *)
theory OledPage
  imports Status FrameBuffer
begin

text \<open>
  The status page of the case display (\<open>crates/argon-device/src/oled_page.rs\<close>): what it says, from
  the status, the temperature and the fan, and where its pixels go. The time of day is a parameter,
  as in the code.
\<close>

section \<open>What the page says\<close>

definition MAX_SHIFT :: nat where "MAX_SHIFT = 2"
definition SHIFT_PERIOD :: duration where "SHIFT_PERIOD = from_secs (5 * 60)"
definition CONTENT_WIDTH :: nat where "CONTENT_WIDTH = WIDTH - 2 - MAX_SHIFT"
definition LINE_CHARS :: nat where "LINE_CHARS = CONTENT_WIDTH div 6"
definition PAGE_LINES :: nat where "PAGE_LINES = 4"

record fan_reading =
  fr_pwm :: u8
  fr_rpm :: "nat option"

record page_input =
  pi_status :: "ups_status option"
  pi_now :: systime
  pi_cpu_decicelsius :: "i32 option"
  pi_fan :: "fan_reading option"

record page =
  pg_title :: string
  pg_state :: string
  pg_bar :: "u8 option"
  pg_lines :: "string list"

definition short_age :: "duration \<Rightarrow> string" where
  "short_age age =
     (let s = age div 1000000000
      in if s < 120 then show_nat s @ ''s''
         else if s < 7200 then show_nat (s div 60) @ ''min''
         else if s < 172800 then show_nat (s div 3600) @ ''h''
         else show_nat (s div 86400) @ ''d'')"

definition fan_text :: "fan_reading \<Rightarrow> string" where
  "fan_text f =
     (if (fr_rpm f = Some 0 \<or> fr_rpm f = None) \<and> fr_pwm f = 0 then ''FAN OFF''
      else case fr_rpm f of
        Some rpm \<Rightarrow> ''FAN '' @ show_nat rpm
      | None \<Rightarrow> ''FAN '' @ show_nat (unat (fr_pwm f) * 100 div 255) @ ''%'')"

definition machine_line :: "page_input \<Rightarrow> string option" where
  "machine_line input =
     (let cpu = map_option (\<lambda>dc. ''CPU '' @ show_int (trunc_div dc 10) @ ''C'') (pi_cpu_decicelsius input);
          fan = map_option fan_text (pi_fan input)
      in case (cpu, fan) of
           (Some c, Some f) \<Rightarrow> Some (c @ ''  '' @ f)
         | (Some c, None) \<Rightarrow> Some c
         | (None, Some f) \<Rightarrow> Some f
         | (None, None) \<Rightarrow> None)"

fun shown_state :: "level_shown \<Rightarrow> string" where
  "shown_state ShownOnMains = ''MAINS''"
| "shown_state ShownOnBattery = ''BATTERY''"
| "shown_state ShownLow = ''LOW''"
| "shown_state ShownCritical = ''CRITICAL''"
| "shown_state (Unrecognised _) = ''?''"

definition charge_title :: "u8 \<Rightarrow> string" where
  "charge_title percent = ''BAT '' @ show_nat (unat percent) @ ''%''"

definition seen_ago :: "systime \<Rightarrow> systime option \<Rightarrow> string" where
  "seen_ago now last_seen =
     (case last_seen of
        None \<Rightarrow> ''Battery NOT watched''
      | Some t \<Rightarrow> if t \<le> now then ''Seen '' @ short_age (now - t) @ '' ago'' else ''Battery NOT watched'')"

fun reading_page :: "(systime \<Rightarrow> string) \<Rightarrow> systime \<Rightarrow> status_reading \<Rightarrow> page" where
  "reading_page hhmm now NoData =
     \<lparr>pg_title = ''BAT'', pg_state = ''NO DATA'', pg_bar = None, pg_lines = [''No status from'', ''argond'']\<rparr>"
| "reading_page hhmm now (Stale age) =
     \<lparr>pg_title = ''BAT'', pg_state = ''STALE'', pg_bar = None,
      pg_lines = [''No update for '' @ short_age age, ''Battery NOT watched'']\<rparr>"
| "reading_page hhmm now NoUps =
     \<lparr>pg_title = ''BAT'', pg_state = ''NO UPS'', pg_bar = None, pg_lines = [''No UPS connected'']\<rparr>"
| "reading_page hhmm now (UpsMissing name last_seen) =
     \<lparr>pg_title = ''BAT'', pg_state = ''MISSING'', pg_bar = None,
      pg_lines = [''UPS not found'', seen_ago now last_seen]\<rparr>"
| "reading_page hhmm now ReadFailed =
     \<lparr>pg_title = ''BAT'', pg_state = ''READ FAIL'', pg_bar = None, pg_lines = [''Battery read failed'']\<rparr>"
| "reading_page hhmm now (PowerOffPending percent at) =
     \<lparr>pg_title = charge_title percent, pg_state = ''CRITICAL'', pg_bar = Some percent,
      pg_lines = [''POWER OFF AT '' @ hhmm at, ''Plug in mains to'', ''cancel'']\<rparr>"
| "reading_page hhmm now (CurrentReading percent level) =
     \<lparr>pg_title = charge_title percent, pg_state = shown_state level, pg_bar = Some percent, pg_lines = []\<rparr>"

definition page_of :: "page_input \<Rightarrow> (systime \<Rightarrow> string) \<Rightarrow> page" where
  "page_of input hhmm =
     (let p = reading_page hhmm (pi_now input) (interpret_status (pi_status input) (pi_now input));
          ls = pg_lines p @ (case machine_line input of Some line \<Rightarrow> [line] | None \<Rightarrow> [])
      in p\<lparr>pg_lines := take PAGE_LINES ls\<rparr>)"

section \<open>Where the pixels go\<close>

definition ORBIT :: "(nat \<times> nat) list" where
  "ORBIT = [(0, 0), (1, 0), (2, 0), (2, 1), (2, 2), (1, 2), (0, 2), (0, 1)]"

definition shift_at :: "duration \<Rightarrow> nat \<times> nat" where
  "shift_at elapsed = ORBIT ! (elapsed div 1000000000 div (SHIFT_PERIOD div 1000000000) mod 8)"

definition clip_line :: "string \<Rightarrow> string" where
  "clip_line s = take LINE_CHARS s"

fun draw_lines :: "nat \<Rightarrow> nat \<Rightarrow> nat \<Rightarrow> string list \<Rightarrow> frame_buffer \<Rightarrow> frame_buffer" where
  "draw_lines x y i [] fb = fb"
| "draw_lines x y i (l # ls) fb = draw_lines x y (Suc i) ls (snd (draw_text x (y + 22 + i * 10) (clip_line l) fb))"

definition draw_page :: "page \<Rightarrow> nat \<times> nat \<Rightarrow> frame_buffer" where
  "draw_page p shift =
     (let x = 1 + min (fst shift) MAX_SHIFT;
          y = 1 + min (snd shift) MAX_SHIFT;
          fb1 = snd (draw_text x y (clip_line (pg_title p)) fb_new);
          st = clip_line (pg_state p);
          state_x = x + (CONTENT_WIDTH - text_width st);
          fb2 = snd (draw_text state_x y st fb1);
          fb3 = (case pg_bar p of Some pct \<Rightarrow> bar x (y + 10) CONTENT_WIDTH 9 pct fb2 | None \<Rightarrow> fb2)
      in draw_lines x y 0 (take PAGE_LINES (pg_lines p)) fb3)"

section \<open>What the page may claim\<close>

text \<open>the page shows a charge, as a number or a bar, only while it is current: the status was updated
  at most a minute ago, its last read of the UPS succeeded, and the charge is the one it holds.\<close>

theorem page_charge_current:
  assumes "pg_bar (page_of input hhmm) \<noteq> None \<or> CHR ''%'' \<in> set (pg_title (page_of input hhmm))"
  shows "\<exists>s percent. pi_status input = Some s \<and> pi_now input - us_updated s \<le> STALE_AFTER
    \<and> us_level s \<notin> {''unknown'', ABSENT, MISSING} \<and> us_percent s = Some percent
    \<and> pg_bar (page_of input hhmm) = Some percent \<and> pg_title (page_of input hhmm) = charge_title percent"
  using assms
  by (cases "pi_status input")
    (auto simp: page_of_def interpret_status_def Let_def not_less split: option.splits if_splits)

theorem page_charge_current_witness:
  "\<exists>percent. pg_bar (page_of \<lparr>pi_status = Some \<lparr>us_updated = 5, us_level = ''low'', us_percent = Some 7, us_shutdown_at = None,
      us_missing = None\<rparr>, pi_now = 9, pi_cpu_decicelsius = None, pi_fan = None\<rparr> (\<lambda>_. [])) = Some percent"
proof -
  let ?i = "\<lparr>pi_status = Some \<lparr>us_updated = 5, us_level = ''low'', us_percent = Some 7, us_shutdown_at = None,
      us_missing = None\<rparr>, pi_now = 9, pi_cpu_decicelsius = None, pi_fan = None\<rparr>"
  have "pg_bar (page_of ?i (\<lambda>_. [])) \<noteq> None \<or> CHR ''%'' \<in> set (pg_title (page_of ?i (\<lambda>_. [])))"
    by (simp add: page_of_def interpret_status_def STALE_AFTER_def ABSENT_def MISSING_def Let_def)
  from page_charge_current[OF this] show ?thesis by blast
qed

text \<open>Title and state of every page fit beside each other, and its lines on the panel.\<close>

lemma show_nat_length: "n < 10 ^ Suc k \<Longrightarrow> length (show_nat n) \<le> Suc k"
proof (induction k arbitrary: n)
  case (Suc k)
  then show ?case by (cases "n < 10") (subst show_nat.simps, simp)+
qed (subst show_nat.simps, simp)

lemma page_fits:
  "text_width (clip_line (pg_title (page_of input hhmm))) + text_width (clip_line (pg_state (page_of input hhmm))) < CONTENT_WIDTH"
  "length (pg_lines (page_of input hhmm)) \<le> PAGE_LINES"
  "(1 + MAX_SHIFT) + 22 + (PAGE_LINES - 1) * 10 + GLYPH_HEIGHT \<le> HEIGHT"
  "(1 + MAX_SHIFT) + LINE_CHARS * (GLYPH_WIDTH + 1) \<le> WIDTH"
proof -
  have n: "length (show_nat (unat (p :: u8))) \<le> 3" for p
    using show_nat_length[of "unat p" 2] unat_u8[of p] by simp
  have "length (pg_title (page_of input hhmm)) \<le> 8 \<and> length (pg_state (page_of input hhmm)) \<le> 9"
  proof (cases "interpret_status (pi_status input) (pi_now input)")
    case (CurrentReading p l)
    then show ?thesis using n[of p] by (cases l) (auto simp: page_of_def charge_title_def)
  next
    case (PowerOffPending p at)
    then show ?thesis using n[of p] by (simp add: page_of_def charge_title_def)
  qed (simp_all add: page_of_def)
  then have "length (clip_line (pg_title (page_of input hhmm))) + length (clip_line (pg_state (page_of input hhmm))) \<le> 17"
    by (auto simp: clip_line_def)
  then show "text_width (clip_line (pg_title (page_of input hhmm))) + text_width (clip_line (pg_state (page_of input hhmm))) < CONTENT_WIDTH"
    by (simp add: text_width_def GLYPH_WIDTH_def CONTENT_WIDTH_def WIDTH_def MAX_SHIFT_def)
  show "length (pg_lines (page_of input hhmm)) \<le> PAGE_LINES"
    by (simp add: page_of_def Let_def PAGE_LINES_def)
qed (simp_all add: MAX_SHIFT_def PAGE_LINES_def GLYPH_HEIGHT_def GLYPH_WIDTH_def HEIGHT_def WIDTH_def LINE_CHARS_def CONTENT_WIDTH_def)

end
