(* ===== verification/OledPanel.thy ===== *)
theory OledPanel
  imports OledPage Startup
begin

text \<open>
  The case display: the driver (\<open>crates/argon-device/src/oled.rs\<close>) over any I2C bus, the switch it
  shares with the desktop and the daemon's drawing thread (\<open>crates/argon-daemon/src/oled.rs\<close>). A turn
  of the thread takes from its surroundings one record, \<open>oled_env\<close>; \<open>None\<close> is a panic.
\<close>

section \<open>The driver\<close>

definition DATA_CHUNK :: nat where "DATA_CHUNK = WIDTH"

record 'b oled =
  ol_bus :: 'b
  ol_rotated_180 :: bool

definition oled_new :: "'b \<Rightarrow> bool \<Rightarrow> 'b oled" where
  "oled_new bus rotated_180 = \<lparr>ol_bus = bus, ol_rotated_180 = rotated_180\<rparr>"

definition oled_is_present :: "'b i2c_ops \<Rightarrow> 'b oled \<Rightarrow> (hal_error + bool) \<times> 'b oled" where
  "oled_is_present io p = (let (r, b) = i2c_probe io (ol_bus p) OLED_ADDR in (r, p\<lparr>ol_bus := b\<rparr>))"

definition oled_write :: "'b i2c_ops \<Rightarrow> u8 list \<Rightarrow> 'b oled \<Rightarrow> (hal_error + unit) \<times> 'b oled" where
  "oled_write io tx p = (let (r, b) = i2c_write io (ol_bus p) OLED_ADDR tx in (r, p\<lparr>ol_bus := b\<rparr>))"

definition oled_command :: "'b i2c_ops \<Rightarrow> u8 list \<Rightarrow> 'b oled \<Rightarrow> (hal_error + unit) \<times> 'b oled" where
  "oled_command io bytes p = oled_write io (CONTROL_COMMAND # bytes) p"

definition oled_then ::
  "('b oled \<Rightarrow> ('e + unit) \<times> 'b oled) \<Rightarrow> ('b oled \<Rightarrow> ('e + unit) \<times> 'b oled) \<Rightarrow> 'b oled \<Rightarrow> ('e + unit) \<times> 'b oled" where
  \<comment> \<open>the \<open>?\<close> operator between two writes\<close>
  "oled_then f g p = (case f p of (Inl e, p1) \<Rightarrow> (Inl e, p1) | (Inr u, p1) \<Rightarrow> g p1)"

definition oled_init :: "'b i2c_ops \<Rightarrow> 'b oled \<Rightarrow> (hal_error + unit) \<times> 'b oled" where
  "oled_init io p =
     oled_then (oled_command io init_sequence) (oled_command io (orientation (ol_rotated_180 p))) p"

fun chunks :: "nat \<Rightarrow> 'a list \<Rightarrow> 'a list list" where
  "chunks n xs = (if xs = [] \<or> n = 0 then [] else take n xs # chunks n (drop n xs))"

declare chunks.simps [simp del]

fun oled_send :: "'b i2c_ops \<Rightarrow> u8 list list \<Rightarrow> 'b oled \<Rightarrow> (hal_error + unit) \<times> 'b oled" where
  "oled_send io [] p = (Inr (), p)"
| "oled_send io (chunk # rest) p = oled_then (oled_write io (CONTROL_DATA # chunk)) (oled_send io rest) p"

definition oled_flush :: "'b i2c_ops \<Rightarrow> frame_buffer \<Rightarrow> 'b oled \<Rightarrow> (hal_error + unit) \<times> 'b oled" where
  "oled_flush io frame = oled_then (oled_command io full_frame_window) (oled_send io (chunks DATA_CHUNK frame))"

definition oled_set_contrast :: "'b i2c_ops \<Rightarrow> u8 \<Rightarrow> 'b oled \<Rightarrow> (hal_error + unit) \<times> 'b oled" where
  "oled_set_contrast io level = oled_command io (contrast level)"

definition oled_off :: "'b i2c_ops \<Rightarrow> 'b oled \<Rightarrow> (hal_error + unit) \<times> 'b oled" where
  "oled_off io = oled_then (oled_flush io fb_new) (oled_command io [panel_power False])"

definition test_pattern :: frame_buffer where
  "test_pattern =
     (let fb1 = rect 0 0 WIDTH 1 True fb_new;
          fb2 = rect 0 (HEIGHT - 1) WIDTH 1 True fb1;
          fb3 = rect 0 0 1 HEIGHT True fb2;
          fb4 = rect (WIDTH - 1) 0 1 HEIGHT True fb3;
          fb5 = rect 3 3 7 7 True fb4;
          fb6 = snd (draw_text 14 4 ''argon-utils T7'' fb5);
          fb7 = snd (draw_text 4 16 ''SSD1306 @ 0x3c'' fb6);
          fb8 = snd (draw_text 4 26 ''box = top left'' fb7);
          fb9 = snd (draw_text 4 36 ''bar = 60%'' fb8)
      in bar 4 48 120 11 60 fb9)"

section \<open>The switch\<close>

record 'f file_ops =
  fo_exists :: "string \<Rightarrow> 'f \<Rightarrow> bool"
  fo_remove :: "string \<Rightarrow> 'f \<Rightarrow> (bool + unit) \<times> 'f" \<comment> \<open>\<open>Inl True\<close>: there was no such file\<close>
  fo_write :: "string \<Rightarrow> string \<Rightarrow> 'f \<Rightarrow> (bool + unit) \<times> 'f"

record oled_control =
  oc_available :: bool
  oc_on :: bool
  oc_record :: "string option"

definition oled_control_new :: "'f file_ops \<Rightarrow> 'f \<Rightarrow> string option \<Rightarrow> oled_control" where
  "oled_control_new fs f rcd =
     \<lparr>oc_available = False, oc_on = (\<not> (case rcd of Some path \<Rightarrow> fo_exists fs path f | None \<Rightarrow> False)), oc_record = rcd\<rparr>"

definition from_state_directory :: "string option \<Rightarrow> string option" where
  \<comment> \<open>where the record is, from the value of \<open>STATE_DIRECTORY\<close>\<close>
  "from_state_directory dirs =
     (case dirs of
        None \<Rightarrow> None
      | Some ds \<Rightarrow> (let d = takeWhile (\<lambda>c. c \<noteq> CHR '':'') ds in if d \<noteq> [] then Some (d @ ''/oled-off'') else None))"

definition oled_state :: "oled_control \<Rightarrow> string" where
  "oled_state c = (if \<not> oc_available c then ''na'' else if oc_on c then ''on'' else ''off'')"

definition oled_set :: "'f file_ops \<Rightarrow> bool \<Rightarrow> oled_control \<Rightarrow> 'f \<Rightarrow> (string + unit) \<times> oled_control \<times> 'f" where
  "oled_set fs on c f =
     (if \<not> oc_available c then (Inl ''no case display is being driven (see [oled] in the config)'', c, f)
      else (Inr (), c\<lparr>oc_on := on\<rparr>,
            (case oc_record c of
               None \<Rightarrow> f
             | Some path \<Rightarrow>
                 if on then snd (fo_remove fs path f)
                 else snd (fo_write fs path (''switched off from the desktop'' @ [newline]) f))))"

section \<open>Starting\<close>

record oled_settings =
  os_state_file :: string
  os_contrast :: u8
  os_interval :: duration

datatype oled_refusal = NotEnabled | NoWrites mode | VendorRuns | NoBus | CannotOpen hal_error | NothingAnswers | ProbeFailed hal_error

definition oled_spawn ::
  "config \<Rightarrow> string list \<Rightarrow> string option \<Rightarrow> (string \<Rightarrow> u8 \<Rightarrow> hal_error + 'b) \<Rightarrow> 'b i2c_ops \<Rightarrow>
   oled_control \<Rightarrow> oled_refusal + 'b oled \<times> oled_settings \<times> oled_control" where
  "oled_spawn c active_units discovered open_bus io control =
     (if \<not> ocf_enabled (cf_oled c) then Inl NotEnabled
      else if \<not> allows_writes (requested_mode c) then Inl (NoWrites (requested_mode c))
      else if ''argononed.service'' \<in> set active_units then Inl VendorRuns
      else case (if mcf_bus (cf_mcu c) = ''auto'' then discovered else Some (mcf_bus (cf_mcu c))) of
        None \<Rightarrow> Inl NoBus
      | Some path \<Rightarrow>
          (case open_bus path OLED_ADDR of
             Inl e \<Rightarrow> Inl (CannotOpen e)
           | Inr bus \<Rightarrow>
               (case oled_is_present io (oled_new bus (ocf_flip (cf_oled c))) of
                  (Inr True, p) \<Rightarrow>
                    Inr (p, \<lparr>os_state_file = ucf_state_file (cf_ups c), os_contrast = ocf_contrast (cf_oled c),
                             os_interval = from_secs (max (ocf_refresh_s (cf_oled c)) 1)\<rparr>,
                         control\<lparr>oc_available := True\<rparr>)
                | (Inr False, p) \<Rightarrow> Inl NothingAnswers
                | (Inl e, p) \<Rightarrow> Inl (ProbeFailed e))))"

section \<open>The thread\<close>

record oled_env =
  oe_on :: bool \<comment> \<open>the switch, as the turn reads it\<close>
  oe_text :: "string option" \<comment> \<open>the status file\<close>
  oe_now :: systime
  oe_cpu :: "i32 option"
  oe_fan :: "fan_reading option"
  oe_elapsed :: duration

record 'b oled_thread =
  ot_panel :: "'b oled"
  ot_shown :: "frame_buffer option"
  ot_needs_init :: bool
  ot_error_logged :: bool
  ot_dark :: bool

definition oled_thread_new :: "'b oled \<Rightarrow> 'b oled_thread" where
  "oled_thread_new p =
     \<lparr>ot_panel = p, ot_shown = None, ot_needs_init = True, ot_error_logged = False, ot_dark = False\<rparr>"

definition draw_frame ::
  "'b i2c_ops \<Rightarrow> frame_buffer \<Rightarrow> u8 \<Rightarrow> bool \<Rightarrow> 'b oled \<Rightarrow> (hal_error + unit) \<times> 'b oled" where
  "draw_frame io frame level init =
     (if init then oled_then (oled_init io) (oled_then (oled_set_contrast io level) (oled_flush io frame))
      else oled_flush io frame)"

definition read_status :: "string option \<Rightarrow> ups_status option option" where
  "read_status contents =
     (case contents of
        None \<Rightarrow> Some None
      | Some text \<Rightarrow> map_option ok (ups_status_parse text))"

definition oled_frame :: "(systime \<Rightarrow> string) \<Rightarrow> oled_env \<Rightarrow> frame_buffer option" where
  "oled_frame hhmm e =
     map_option (\<lambda>status.
       draw_page (page_of \<lparr>pi_status = status, pi_now = oe_now e, pi_cpu_decicelsius = oe_cpu e, pi_fan = oe_fan e\<rparr> hhmm)
         (shift_at (oe_elapsed e))) (read_status (oe_text e))"

definition oled_darken :: "'b i2c_ops \<Rightarrow> 'b oled_thread \<Rightarrow> 'b oled_thread" where
  "oled_darken io t =
     (if \<not> ot_dark t then t\<lparr>ot_panel := snd (oled_off io (ot_panel t)), ot_dark := True, ot_shown := None\<rparr> else t)"

definition oled_show :: "'b i2c_ops \<Rightarrow> u8 \<Rightarrow> frame_buffer \<Rightarrow> 'b oled_thread \<Rightarrow> 'b oled_thread" where
  "oled_show io level frame t =
     (if ot_needs_init t \<or> ot_shown t \<noteq> Some frame then
        case draw_frame io frame level (ot_needs_init t) (ot_panel t) of
          (Inr u, p) \<Rightarrow> t\<lparr>ot_panel := p, ot_shown := Some frame, ot_needs_init := False, ot_error_logged := False\<rparr>
        | (Inl e, p) \<Rightarrow> t\<lparr>ot_panel := p, ot_shown := None, ot_needs_init := True, ot_error_logged := True\<rparr>
      else t)"

definition oled_turn ::
  "'b i2c_ops \<Rightarrow> (systime \<Rightarrow> string) \<Rightarrow> oled_settings \<Rightarrow> oled_env \<Rightarrow> 'b oled_thread \<Rightarrow> 'b oled_thread option" where
  "oled_turn io hhmm s e t =
     (if \<not> oe_on e then Some (oled_darken io t)
      else map_option (\<lambda>frame.
             oled_show io (os_contrast s) frame (if ot_dark t then t\<lparr>ot_dark := False, ot_needs_init := True\<rparr> else t))
           (oled_frame hhmm e))"

fun oled_turns ::
  "'b i2c_ops \<Rightarrow> (systime \<Rightarrow> string) \<Rightarrow> oled_settings \<Rightarrow> oled_env list \<Rightarrow> 'b oled_thread \<Rightarrow> 'b oled_thread option" where
  "oled_turns io hhmm s [] t = Some t"
| "oled_turns io hhmm s (e # es) t =
     (case oled_turn io hhmm s e t of None \<Rightarrow> None | Some t1 \<Rightarrow> oled_turns io hhmm s es t1)"

definition oled_run ::
  "'b i2c_ops \<Rightarrow> (systime \<Rightarrow> string) \<Rightarrow> oled_settings \<Rightarrow> oled_env list \<Rightarrow> 'b oled \<Rightarrow> 'b oled option" where
  \<comment> \<open>the turns until the stop request, and the blanking on the way out\<close>
  "oled_run io hhmm s es p =
     map_option (\<lambda>t. snd (oled_off io (ot_panel t))) (oled_turns io hhmm s es (oled_thread_new p))"

fun oled_sleep_until :: "nat \<Rightarrow> duration \<Rightarrow> (nat \<Rightarrow> bool) \<Rightarrow> duration list" where
  \<comment> \<open>the slices slept: at each, \<open>wake n\<close> says whether the thread stops or the switch was flipped\<close>
  "oled_sleep_until n left wake =
     (if left = 0 \<or> wake n then [] else min left 250000000 # oled_sleep_until (Suc n) (left - min left 250000000) wake)"

declare oled_sleep_until.simps [simp del]

section \<open>What reaches the panel\<close>

definition frame_writes :: "frame_buffer \<Rightarrow> (u8 \<times> u8 list) list" where
  "frame_writes frame =
     (OLED_ADDR, CONTROL_COMMAND # full_frame_window)
     # map (\<lambda>chunk. (OLED_ADDR, CONTROL_DATA # chunk)) (chunks DATA_CHUNK frame)"

lemma concat_chunks: "0 < n \<Longrightarrow> concat (chunks n xs) = xs"
  by (induction n xs rule: chunks.induct) (subst chunks.simps, simp)

lemma chunk_bound: "chunk \<in> set (chunks n xs) \<Longrightarrow> length chunk \<le> n"
  by (induction n xs rule: chunks.induct) (subst (asm) (2) chunks.simps, auto split: if_splits)

lemma frame_payload_whole: "concat (map (tl \<circ> snd) (tl (frame_writes frame))) = frame"
  by (simp add: frame_writes_def comp_def concat_chunks DATA_CHUNK_def WIDTH_def)

definition shown_on_wire :: "('b \<Rightarrow> (u8 \<times> u8 list) list) \<Rightarrow> frame_buffer option \<Rightarrow> 'b oled_thread \<Rightarrow> bool" where
  "shown_on_wire sent latest t \<longleftrightarrow>
     (ot_dark t \<longrightarrow> ot_shown t = None)
     \<and> (\<forall>f. ot_shown t = Some f \<longrightarrow> latest = Some f \<and> (\<exists>pre. sent (ol_bus (ot_panel t)) = pre @ frame_writes f))"

definition wanted :: "(systime \<Rightarrow> string) \<Rightarrow> oled_env list \<Rightarrow> frame_buffer option" where
  "wanted hhmm es = (if es \<noteq> [] \<and> oe_on (last es) then oled_frame hhmm (last es) else None)"

context wire_bus
begin

lemma oled_write_wire:
  "oled_write bus tx p = (r, p') \<Longrightarrow>
     wire (ol_bus p') = wire (ol_bus p) @ (if is_ok r then [(OLED_ADDR, tx)] else [])"
  using write_wire[of "ol_bus p" OLED_ADDR tx]
  by (auto simp: oled_write_def Let_def split: prod.splits)

lemma oled_send_wire:
  "oled_send bus cs p = (Inr u, p') \<Longrightarrow>
     wire (ol_bus p') = wire (ol_bus p) @ map (\<lambda>c. (OLED_ADDR, CONTROL_DATA # c)) cs"
  by (induction cs arbitrary: p)
    (auto simp: oled_then_def oled_write_wire split: prod.splits sum.splits)

lemma oled_flush_wire:
  "oled_flush bus frame p = (Inr u, p') \<Longrightarrow> wire (ol_bus p') = wire (ol_bus p) @ frame_writes frame"
  by (auto simp: oled_flush_def oled_then_def oled_command_def frame_writes_def oled_write_wire oled_send_wire
      split: prod.splits sum.splits)

lemma draw_frame_wire:
  "draw_frame bus frame level init p = (Inr u, p') \<Longrightarrow> \<exists>pre. wire (ol_bus p') = pre @ frame_writes frame"
  by (auto simp: draw_frame_def oled_then_def oled_flush_wire split: if_splits prod.splits sum.splits)

lemma oled_show_shown:
  assumes "shown_on_wire wire x t" and "\<not> ot_dark t"
  shows "shown_on_wire wire (Some frame) (oled_show bus level frame t)"
proof (cases "ot_needs_init t \<or> ot_shown t \<noteq> Some frame")
  case True
  obtain r p where d: "draw_frame bus frame level (ot_needs_init t) (ot_panel t) = (r, p)"
    by fastforce
  with True assms show ?thesis
    by (cases r) (auto simp: oled_show_def shown_on_wire_def dest: draw_frame_wire)
qed (use assms in \<open>auto simp: oled_show_def shown_on_wire_def\<close>)

lemma oled_turn_shown:
  assumes "shown_on_wire wire x t" and "oled_turn bus hhmm s e t = Some t'"
  shows "shown_on_wire wire (if oe_on e then oled_frame hhmm e else None) t'"
proof (cases "oe_on e")
  case True
  then obtain frame where f: "oled_frame hhmm e = Some frame"
    and t': "t' = oled_show bus (os_contrast s) frame (if ot_dark t then t\<lparr>ot_dark := False, ot_needs_init := True\<rparr> else t)"
    using assms(2) by (auto simp: oled_turn_def)
  have "shown_on_wire wire x (if ot_dark t then t\<lparr>ot_dark := False, ot_needs_init := True\<rparr> else t)"
    using assms(1) by (auto simp: shown_on_wire_def)
  from oled_show_shown[OF this] show ?thesis by (simp add: True f t')
next
  case False
  with assms show ?thesis by (auto simp: oled_turn_def oled_darken_def shown_on_wire_def)
qed

lemma oled_turns_shown:
  "shown_on_wire wire x t \<Longrightarrow> oled_turns bus hhmm s es t = Some t' \<Longrightarrow>
     shown_on_wire wire (if es = [] then x else wanted hhmm es) t'"
proof (induction es arbitrary: x t)
  case (Cons e es)
  from Cons.prems(2) obtain t1 where t1: "oled_turn bus hhmm s e t = Some t1" "oled_turns bus hhmm s es t1 = Some t'"
    by (auto split: option.splits)
  from Cons.IH[OF oled_turn_shown[OF Cons.prems(1) t1(1)] t1(2)] show ?case
    by (auto simp: wanted_def split: if_splits)
qed simp

end


lemma oled_then_ok: "fst (f p) = Inr () \<Longrightarrow> (\<And>q. fst (g q) = Inr ()) \<Longrightarrow> fst (oled_then f g p) = Inr ()"
  by (cases "f p") (auto simp: oled_then_def)

lemma oled_write_dry: "fst (oled_write (dry_run_ops bus) tx p) = Inr ()"
  by (simp add: oled_write_def dry_run_ops_def)

lemma oled_send_dry: "fst (oled_send (dry_run_ops bus) cs p) = Inr ()"
  by (induction cs arbitrary: p) (simp_all add: oled_then_ok oled_write_dry)

lemma draw_frame_dry: "fst (draw_frame (dry_run_ops bus) frame level init p) = Inr ()"
  by (simp add: draw_frame_def oled_flush_def oled_init_def oled_set_contrast_def oled_command_def
      oled_then_ok oled_write_dry oled_send_dry)


text \<open>what switching the display off does: the panel is told exactly once. The turn that finds the
  switch off sends the blank frame and the power-off command, and whether they arrived or failed the thread
  counts the panel as dark, so no later turn sends them again until the switch has been on.\<close>

theorem oled_off_sent_once:
  assumes "list_all (\<lambda>e. \<not> oe_on e) (e # es)" and "\<not> ot_dark t"
  shows "oled_turns io hhmm s (e # es) t =
    Some (t\<lparr>ot_panel := snd (oled_off io (ot_panel t)), ot_dark := True, ot_shown := None\<rparr>)"
proof -
  have dark: "oled_turns io hhmm s es u = Some u" if "ot_dark u" for u
    using that assms(1) by (induction es) (auto simp: oled_turn_def oled_darken_def)
  show ?thesis using assms by (simp add: oled_turn_def oled_darken_def dark)
qed

text \<open>On a bus that refuses the write the panel is then still lit, and it stays so.\<close>

theorem oled_off_sent_once_witness:
  "oled_turns (read_only_ops quiet_bus) (\<lambda>_. []) \<lparr>os_state_file = [], os_contrast = 64, os_interval = 1\<rparr>
     (replicate 3 \<lparr>oe_on = False, oe_text = None, oe_now = 0, oe_cpu = None, oe_fan = None, oe_elapsed = 0\<rparr>)
     (oled_thread_new (oled_new () False)) =
   Some ((oled_thread_new (oled_new () False))\<lparr>ot_dark := True\<rparr>)"
proof -
  let ?e = "\<lparr>oe_on = False, oe_text = None, oe_now = 0, oe_cpu = None, oe_fan = None, oe_elapsed = 0\<rparr>"
  have off: "snd (oled_off (read_only_ops quiet_bus) (oled_new () False)) = oled_new () False"
    by (simp add: oled_off_def oled_flush_def oled_then_def oled_command_def oled_write_def read_only_ops_def)
  have three: "replicate 3 ?e = ?e # [?e, ?e]"
    by (simp add: numeral_3_eq_3)
  show ?thesis
    unfolding three by (subst oled_off_sent_once) (simp_all add: off oled_thread_new_def)
qed

text \<open>The switch: a choice that could be remembered is the one found after a restart.\<close>

lemma oled_set_remembered:
  assumes "oc_available c" and "oc_record c = Some path"
    and "\<And>r f'. fo_remove fs path f = (r, f') \<Longrightarrow> r \<noteq> Inl False \<Longrightarrow> \<not> fo_exists fs path f'"
    and "\<And>text f'. fo_write fs path text f = (Inr (), f') \<Longrightarrow> fo_exists fs path f'"
    and "oled_set fs on c f = (r, c', f')"
    and "fst (fo_remove fs path f) \<noteq> Inl False" and "\<And>text. fst (fo_write fs path text f) = Inr ()"
  shows "r = Inr () \<and> oc_on c' = on \<and> oc_on (oled_control_new fs f' (Some path)) = on"
proof (cases on)
  case True
  with assms(1,2,5) assms(3)[of "fst (fo_remove fs path f)" "snd (fo_remove fs path f)"] assms(6) show ?thesis
    by (auto simp: oled_set_def oled_control_new_def)
next
  case False
  let ?t = "''switched off from the desktop'' @ [newline]"
  have "fo_write fs path ?t f = (Inr (), snd (fo_write fs path ?t f))"
    using assms(7)[of ?t] by (cases "fo_write fs path ?t f") auto
  from assms(4)[OF this] False assms(1,2,5) show ?thesis
    by (auto simp: oled_set_def oled_control_new_def)
qed

text \<open>The wait between turns: its slices never exceed the interval, and a flip of the switch ends it.\<close>

lemma oled_sleep_bounded: "sum_list (oled_sleep_until n left wake) \<le> left"
  by (induction n left wake rule: oled_sleep_until.induct) (subst oled_sleep_until.simps, force)

lemma oled_sleep_whole: "(\<And>k. \<not> wake k) \<Longrightarrow> sum_list (oled_sleep_until n left wake) = left"
  by (induction n left wake rule: oled_sleep_until.induct) (subst oled_sleep_until.simps, force)

text \<open>The thread starts only for an enabled display it may write to, and that answers.\<close>

lemma oled_spawn_iff:
  "(\<exists>r. oled_spawn c units discovered open_bus io control = Inr r) \<longleftrightarrow>
     ocf_enabled (cf_oled c) \<and> allows_writes (requested_mode c) \<and> ''argononed.service'' \<notin> set units
     \<and> (\<exists>path bus p. (if mcf_bus (cf_mcu c) = ''auto'' then discovered else Some (mcf_bus (cf_mcu c))) = Some path
          \<and> open_bus path OLED_ADDR = Inr bus
          \<and> oled_is_present io (oled_new bus (ocf_flip (cf_oled c))) = (Inr True, p))"
  by (auto simp: oled_spawn_def split: option.splits sum.splits prod.splits bool.splits)

end
