(* ===== verification/Boot.thy ===== *)
theory Boot
  imports Config
begin

text \<open>
  What \<open>argonctl setup\<close> concludes about a machine: the directives of \<open>config.txt\<close> in force on a board
  (\<open>crates/argon-device/src/boot_config.rs\<close>) and the checks drawn from them and from what was found
  (\<open>crates/argon-cli/src/setup.rs\<close>). Finding it out, which only reads, is the caller's.
\<close>

section \<open>Directives in force\<close>

record directive =
  di_section :: "string option"
  di_value :: string
  di_commented :: bool
  di_line :: nat

definition eq_ignore_case :: "string \<Rightarrow> string \<Rightarrow> bool" where
  "eq_ignore_case s t \<longleftrightarrow> map ascii_lower s = map ascii_lower t"

definition applies_to :: "string list \<Rightarrow> directive \<Rightarrow> bool" where
  "applies_to sections d \<longleftrightarrow>
     \<not> di_commented d \<and> (case di_section d of None \<Rightarrow> True | Some s \<Rightarrow> list_ex (\<lambda>w. eq_ignore_case w s) sections)"

text \<open>A line of the file: a filter, an assignment (commented out or not), or neither.\<close>

definition filter_line :: "string \<Rightarrow> string option" where
  "filter_line raw = map_option trim (section_name raw)"

definition assignment :: "string \<Rightarrow> (bool \<times> string \<times> string) option" where
  "assignment raw =
     (let line = trim raw;
          (commented, body) = (case strip_prefix ''#'' line of Some rest \<Rightarrow> (True, trim rest) | None \<Rightarrow> (False, line))
      in map_option (\<lambda>(k, v). (commented, trim k, trim v)) (split_once CHR ''='' body))"

fun find_from :: "string \<Rightarrow> string option \<Rightarrow> nat \<Rightarrow> string list \<Rightarrow> directive list" where
  "find_from key sec i [] = []"
| "find_from key sec i (raw # rest) =
     (case filter_line raw of
        Some name \<Rightarrow> find_from key (Some name) (Suc i) rest
      | None \<Rightarrow>
          (case assignment raw of
             Some (commented, k, v) \<Rightarrow>
               if eq_ignore_case k key
               then \<lparr>di_section = sec, di_value = v, di_commented = commented, di_line = i + 1\<rparr> # find_from key sec (Suc i) rest
               else find_from key sec (Suc i) rest
           | None \<Rightarrow> find_from key sec (Suc i) rest))"

definition boot_find :: "string \<Rightarrow> string \<Rightarrow> directive list" where
  "boot_find text key = find_from key None 0 (text_lines text)"

definition is_active :: "string \<Rightarrow> string \<Rightarrow> string \<Rightarrow> string list \<Rightarrow> bool" where
  "is_active text key val sections \<longleftrightarrow>
     list_ex (\<lambda>d. applies_to sections d \<and> eq_ignore_case (di_value d) (trim val)) (boot_find text key)"

definition is_active_prefix :: "string \<Rightarrow> string \<Rightarrow> string \<Rightarrow> string list \<Rightarrow> bool" where
  "is_active_prefix text key prefix sections \<longleftrightarrow>
     list_ex (\<lambda>d. applies_to sections d \<and> starts_with (map ascii_lower prefix) (map ascii_lower (di_value d)))
       (boot_find text key)"

definition sections_for :: "string \<Rightarrow> string list" where
  "sections_for model =
     (let m = map ascii_lower model
      in ''all'' #
         (if str_contains ''compute module 5'' m \<or> str_contains ''cm5'' m then [''cm5'', ''pi5'']
          else if str_contains ''pi 5'' m then [''pi5'']
          else if str_contains ''compute module 4'' m \<or> str_contains ''cm4'' m then [''cm4'', ''pi4'']
          else if str_contains ''pi 4'' m \<or> str_contains ''pi 400'' m then [''pi4'']
          else if str_contains ''pi 3'' m then [''pi3'']
          else if str_contains ''pi zero 2'' m then [''pi02'', ''pi0'']
          else []))"

section \<open>Checks\<close>

datatype check_state = CheckOk | CheckMissing | CheckOptional | NotApplicable

fun check_mark :: "check_state \<Rightarrow> string" where
  "check_mark CheckOk = ''ok     ''"
| "check_mark CheckMissing = ''MISSING''"
| "check_mark CheckOptional = ''--     ''"
| "check_mark NotApplicable = ''n/a    ''"

fun check_state_name :: "check_state \<Rightarrow> string" where
  "check_state_name CheckOk = ''ok''"
| "check_state_name CheckMissing = ''missing''"
| "check_state_name CheckOptional = ''optional''"
| "check_state_name NotApplicable = ''not-applicable''"

record check =
  ck_name :: string
  ck_state :: check_state
  ck_detail :: string
  ck_fix :: "string option"

definition check_new :: "string \<Rightarrow> check_state \<Rightarrow> string \<Rightarrow> check" where
  "check_new name state detail = \<lparr>ck_name = name, ck_state = state, ck_detail = detail, ck_fix = None\<rparr>"

definition with_fix :: "string \<Rightarrow> check \<Rightarrow> check" where
  "with_fix fix_line c = c\<lparr>ck_fix := Some fix_line\<rparr>"

record facts =
  fa_model :: string
  fa_config_txt :: "string option"
  fa_config_path :: string
  fa_header_bus :: bool
  fa_mcu_answers :: "bool option"
  fa_oled_answers :: "bool option"
  fa_gauge_answers :: "bool option"
  fa_ups_present :: bool
  fa_lirc :: bool
  fa_groups :: "string list"
  fa_package :: "string option"
  fa_ir_ctl :: bool
  fa_udev_rules :: bool
  fa_argond_active :: bool
  fa_vendor_units :: "(string \<times> bool) list"
  fa_vendor_files :: bool

definition facts_sections :: "facts \<Rightarrow> string list" where
  "facts_sections f = sections_for (fa_model f)"

definition is_one_up :: "facts \<Rightarrow> bool" where
  "is_one_up f \<longleftrightarrow> fa_gauge_answers f = Some True \<or> str_contains ''compute module 5'' (map ascii_lower (fa_model f))"

definition has_mcu :: "facts \<Rightarrow> bool" where
  "has_mcu f \<longleftrightarrow> fa_mcu_answers f = Some True"

definition is_pi5 :: "facts \<Rightarrow> bool" where
  "is_pi5 f \<longleftrightarrow> (let m = map ascii_lower (fa_model f) in str_contains ''pi 5'' m \<or> str_contains ''compute module 5'' m)"

definition tee_line :: "string \<Rightarrow> facts \<Rightarrow> string" where
  "tee_line directive f = ''echo '' @ [CHR 39] @ directive @ [CHR 39] @ '' | sudo tee -a '' @ fa_config_path f"

definition i2c_check :: "facts \<Rightarrow> string \<Rightarrow> string list \<Rightarrow> check" where
  "i2c_check f text sections =
     (let needed = has_mcu f \<or> is_one_up f \<or> fa_oled_answers f = Some True;
          set_on = is_active text ''dtparam'' ''i2c_arm=on'' sections
      in if fa_header_bus f then check_new ''header I2C bus'' CheckOk ''/dev/i2c-1 is present''
         else if set_on
           then with_fix ''sudo reboot''
             (check_new ''header I2C bus'' CheckMissing
                (''config.txt enables it, but no /dev/i2c-1 '' @ em_dash @ '' a reboot is pending''))
         else if needed
           then with_fix (tee_line ''dtparam=i2c_arm=on'' f @ '' && sudo reboot'')
             (check_new ''header I2C bus'' CheckMissing ''no /dev/i2c-1, and dtparam=i2c_arm=on is not set'')
         else with_fix (tee_line ''dtparam=i2c_arm=on'' f)
             (check_new ''header I2C bus'' CheckOptional ''not enabled; nothing here needs it yet''))"

definition usb_check :: "facts \<Rightarrow> string \<Rightarrow> string list \<Rightarrow> check" where
  "usb_check f text sections =
     (if fa_ups_present f
        then check_new ''internal USB hub'' CheckOk ''the UPS is enumerated, so the hub is live''
      else if is_active_prefix text ''dtoverlay'' ''dwc2'' sections
        then check_new ''internal USB hub'' CheckOk ''dtoverlay=dwc2 is set''
      else if is_pi5 f
        then with_fix (tee_line ''dtoverlay=dwc2,dr_mode=host'' f)
          (check_new ''internal USB hub'' CheckOptional
             (''dtoverlay=dwc2,dr_mode=host is not set; the case'' @ [CHR 39] @
              ''s internal header (UPS, Zigbee) stays dark without it''))
      else check_new ''internal USB hub'' NotApplicable ''not a Pi 5 case'')"

definition ir_check :: "facts \<Rightarrow> string \<Rightarrow> string list \<Rightarrow> check" where
  "ir_check f text sections =
     (let ir_set = is_active_prefix text ''dtoverlay'' ''gpio-ir'' sections;
          line = tee_line ''dtoverlay=gpio-ir,gpio_pin=23'' f
      in if ir_set \<and> fa_lirc f then check_new ''IR receiver'' CheckOk ''gpio-ir is configured and bound''
         else if ir_set
           then with_fix ''sudo reboot''
             (check_new ''IR receiver'' CheckMissing
                (''gpio-ir is in config.txt but no /dev/lirc0 '' @ em_dash @ '' a reboot is pending''))
         else if fa_lirc f
           then with_fix line
             (check_new ''IR receiver'' CheckMissing ''bound now, but not in config.txt: it will be gone after a reboot'')
         else if is_pi5 f
           then with_fix (line @ '' && sudo reboot'')
             (check_new ''IR receiver'' CheckOptional
                (''not configured. The ONE V5 has no receiver wired (T6); other Pi 5 cases are'' @ replicate 14 CHR '' '' @
                 ''unmeasured, so this is worth trying only if your case has an IR window''))
         else with_fix (line @ '' && sudo reboot'')
             (check_new ''IR receiver'' CheckOptional ''not configured; Pi 4-era cases have a receiver on BCM 23''))"

definition lid_check :: "facts \<Rightarrow> string \<Rightarrow> string list \<Rightarrow> check" where
  "lid_check f text sections =
     (if \<not> is_one_up f then check_new ''ONE UP lid switch'' NotApplicable ''not a ONE UP''
      else if is_active_prefix text ''dtoverlay'' ''argon-oneup-lid'' sections
        then check_new ''ONE UP lid switch'' CheckOk ''the lid overlay is configured''
      else with_fix ''sudo /usr/libexec/argon-utils/oneup-takeover''
        (check_new ''ONE UP lid switch'' CheckOptional ''the lid is not a lid switch without the overlay''))"

definition boot_checks :: "facts \<Rightarrow> check list" where
  "boot_checks f =
     (case fa_config_txt f of
        None \<Rightarrow> [check_new ''config.txt'' CheckMissing (''cannot read '' @ fa_config_path f)]
      | Some text \<Rightarrow>
          (let s = facts_sections f in [i2c_check f text s, usb_check f text s, ir_check f text s, lid_check f text s]))"

definition software_checks :: "facts \<Rightarrow> check list" where
  "software_checks f =
     [case fa_package f of
        Some v \<Rightarrow> check_new ''argon-utils package'' CheckOk (''version '' @ v)
      | None \<Rightarrow> with_fix ''dpkg-buildpackage -b -us -uc && sudo apt install ../argon-utils_*.deb''
          (check_new ''argon-utils package'' CheckOptional
             (''not installed; running from a build tree is fine for testing, but the daemon, '' @
              ''udev rules and polkit action come with the package'')),
      if fa_ir_ctl f then check_new ''ir-ctl (v4l-utils)'' CheckOk ''available''
      else if fa_lirc f \<or> \<not> is_pi5 f
        then with_fix ''sudo apt install v4l-utils''
          (check_new ''ir-ctl (v4l-utils)'' CheckOptional ''not installed; it is how raw IR is captured and decoded'')
      else check_new ''ir-ctl (v4l-utils)'' NotApplicable ''no IR here'',
      if fa_vendor_files f
      then check_new ''vendor software'' CheckOptional
          (''/etc/argon is present. argon-utils does not need it, and the package retires '' @
           ''the vendor'' @ [CHR 39] @ ''s UPS daemons on install, recording what it disabled'')
      else check_new ''vendor software'' CheckOk ''not installed'']"

definition group_check :: "facts \<Rightarrow> string \<Rightarrow> string \<Rightarrow> bool \<Rightarrow> check" where
  "group_check f grp purpose needed =
     (let name = ''group '' @ [CHR 96] @ grp @ [CHR 96]
      in if grp \<in> set (fa_groups f) then check_new name CheckOk ''you are a member''
         else if needed
           then with_fix (''sudo adduser $USER '' @ grp @ ''   # then log in again'')
             (check_new name CheckOptional (''not a member; needed for '' @ purpose @ '' without sudo''))
         else check_new name NotApplicable ''not needed here'')"

definition access_checks :: "facts \<Rightarrow> check list" where
  "access_checks f =
     [group_check f ''i2c'' ''reading the MCU, OLED or fuel gauge by hand'' (fa_header_bus f),
      group_check f ''gpio'' ''watching the button and lid lines'' True,
      group_check f ''video'' ''reading /dev/lirc0 for IR'' (fa_lirc f),
      check_new (''group '' @ [CHR 96] @ ''argon'' @ [CHR 96]) CheckOk
        (''do not join it: it owns the UPS port and hidraw node so that exactly one process '' @
         ''does. '' @ [CHR 96] @ ''argonctl ups'' @ [CHR 96] @ '' asks the daemon over D-Bus instead''),
      if fa_udev_rules f then check_new ''udev rules'' CheckOk ''installed''
      else if fa_ups_present f
        then with_fix ''sudo apt install ../argon-utils_*.deb''
          (check_new ''udev rules'' CheckMissing
             ''a UPS is present but the rules are not installed, so its nodes stay root-only'')
      else check_new ''udev rules'' NotApplicable ''no UPS present'']"

definition service_checks :: "facts \<Rightarrow> check list" where
  "service_checks f =
     (let contending = map fst (filter snd (fa_vendor_units f))
      in [if fa_argond_active f then check_new ''argond'' CheckOk ''running''
          else if fa_package f \<noteq> None
            then with_fix ''sudo systemctl start argond && journalctl -u argond -n 20 --no-pager''
              (check_new ''argond'' CheckMissing ''installed but not running'')
          else check_new ''argond'' NotApplicable ''the package is not installed'',
          if contending = [] then check_new ''vendor daemons'' CheckOk ''none active''
          else with_fix (''sudo systemctl stop '' @ join '' '' contending)
              (check_new ''vendor daemons'' CheckMissing
                 (''active: '' @ join '', '' contending @
                  ''. Two readers on the UPS serial port corrupt each other'' @ [CHR 39] @ ''s frames''))])"

definition review :: "facts \<Rightarrow> (string \<times> check list) list" where
  "review f = [(''Boot configuration'', boot_checks f), (''Software'', software_checks f),
               (''Access'', access_checks f), (''Services'', service_checks f)]"

definition missing_count :: "(string \<times> check list) list \<Rightarrow> nat" where
  "missing_count sections = length (filter (\<lambda>c. ck_state c = CheckMissing) (concat (map snd sections)))"

definition setup_verdict :: "nat \<Rightarrow> string" where
  "setup_verdict missing =
     (if missing = 0 then ''Nothing missing. Lines marked -- are optional extras.''
      else show_nat missing @ '' thing(s) need attention, with the command beside each.'')"

section \<open>What the search finds\<close>

text \<open>The filter a line stands under: that of the last filter line before it.\<close>

definition filter_before :: "string list \<Rightarrow> nat \<Rightarrow> string option" where
  "filter_before ls i =
     (let names = List.map_filter filter_line (take i ls) in if names = [] then None else Some (last names))"

definition directive_at :: "string list \<Rightarrow> string \<Rightarrow> nat \<Rightarrow> directive option" where
  "directive_at ls key i =
     (case (filter_line (ls ! i), assignment (ls ! i)) of
        (None, Some (commented, k, v)) \<Rightarrow>
          if eq_ignore_case k key
          then Some \<lparr>di_section = filter_before ls i, di_value = v, di_commented = commented, di_line = i + 1\<rparr> else None
      | _ \<Rightarrow> None)"

lemma map_filter_append: "List.map_filter g (xs @ ys) = List.map_filter g xs @ List.map_filter g ys"
  by (simp add: List.map_filter_def)

lemma filter_before_0 [simp]: "filter_before ls 0 = None"
  by (simp add: filter_before_def map_filter_simps)

lemma filter_before_Suc:
  assumes "i < length ls"
  shows "filter_before ls (Suc i) = (case filter_line (ls ! i) of Some name \<Rightarrow> Some name | None \<Rightarrow> filter_before ls i)"
  using assms
  by (simp add: filter_before_def take_Suc_conv_app_nth map_filter_append map_filter_simps split: option.splits)

lemma find_from_at:
  "i \<le> length ls \<Longrightarrow> find_from key (filter_before ls i) i (drop i ls) = List.map_filter (directive_at ls key) [i..<length ls]"
proof (induction "length ls - i" arbitrary: i)
  case 0
  then show ?case by (simp add: List.map_filter_def)
next
  case (Suc n)
  then have i: "i < length ls" by simp
  have upt: "[i..<length ls] = i # [Suc i..<length ls]" and cons: "drop i ls = ls ! i # drop (Suc i) ls"
    using i by (simp_all add: upt_conv_Cons Cons_nth_drop_Suc)
  have IH: "find_from key (filter_before ls (Suc i)) (Suc i) (drop (Suc i) ls) =
      List.map_filter (directive_at ls key) [Suc i..<length ls]"
    using Suc by simp
  show ?case
    unfolding upt cons IH[symmetric]
    by (cases "filter_line (ls ! i)")
      (auto simp: map_filter_simps directive_at_def filter_before_Suc[OF i] IH[symmetric] split: option.splits prod.splits)
qed

lemma boot_find_at:
  "boot_find text key =
     List.map_filter (directive_at (text_lines text) key) [0..<length (text_lines text)]"
  using find_from_at[of 0 "text_lines text" key] by (simp add: boot_find_def)

lemma bex_map_filter: "(\<exists>d \<in> set (List.map_filter g xs). P d) \<longleftrightarrow> (\<exists>y \<in> set xs. \<exists>d. g y = Some d \<and> P d)"
  by (force simp: List.map_filter_def)

lemma directive_at_iff:
  "directive_at ls key i = Some d \<longleftrightarrow> filter_line (ls ! i) = None \<and>
     (\<exists>commented k v. assignment (ls ! i) = Some (commented, k, v) \<and> eq_ignore_case k key
        \<and> d = \<lparr>di_section = filter_before ls i, di_value = v, di_commented = commented, di_line = i + 1\<rparr>)"
  by (auto simp: directive_at_def split: option.splits)

lemma applies_iff:
  "applies_to sections d \<longleftrightarrow> \<not> di_commented d \<and>
     (di_section d = None \<or> (\<exists>s w. di_section d = Some s \<and> w \<in> set sections \<and> eq_ignore_case w s))"
  by (auto simp: applies_to_def list_ex_iff split: option.splits)


text \<open>every check that reports something missing names the command that puts it right, except the
  one check that says config.txt could not be read, which has none.\<close>

theorem missing_has_remedy:
  "{c \<in> set (concat (map snd (review f))). ck_state c = CheckMissing \<and> ck_fix c = None} =
     (if fa_config_txt f = None
      then {check_new ''config.txt'' CheckMissing (''cannot read '' @ fa_config_path f)} else {})"
proof -
  have "ck_state (i2c_check f t s) \<noteq> CheckMissing \<or> ck_fix (i2c_check f t s) \<noteq> None"
    "ck_state (usb_check f t s) \<noteq> CheckMissing \<or> ck_fix (usb_check f t s) \<noteq> None"
    "ck_state (ir_check f t s) \<noteq> CheckMissing \<or> ck_fix (ir_check f t s) \<noteq> None"
    "ck_state (lid_check f t s) \<noteq> CheckMissing \<or> ck_fix (lid_check f t s) \<noteq> None" for t s
    by (simp_all add: i2c_check_def usb_check_def ir_check_def lid_check_def check_new_def with_fix_def Let_def)
  note remedied = this
  have boot: "{c \<in> set (boot_checks f). ck_state c = CheckMissing \<and> ck_fix c = None} =
     (if fa_config_txt f = None
      then {check_new ''config.txt'' CheckMissing (''cannot read '' @ fa_config_path f)} else {})"
  proof (cases "fa_config_txt f")
    case None
    then show ?thesis by (auto simp: boot_checks_def check_new_def)
  next
    case (Some t)
    then have "set (boot_checks f) = {i2c_check f t (facts_sections f), usb_check f t (facts_sections f),
        ir_check f t (facts_sections f), lid_check f t (facts_sections f)}"
      by (simp add: boot_checks_def Let_def)
    with Some remedied show ?thesis by auto
  qed
  have "list_all (\<lambda>c. ck_state c \<noteq> CheckMissing \<or> ck_fix c \<noteq> None) (software_checks f)"
    by (simp add: software_checks_def check_new_def with_fix_def split: option.split)
  moreover have "list_all (\<lambda>c. ck_state c \<noteq> CheckMissing \<or> ck_fix c \<noteq> None) (access_checks f)"
    by (simp add: access_checks_def group_check_def check_new_def with_fix_def Let_def)
  moreover have "list_all (\<lambda>c. ck_state c \<noteq> CheckMissing \<or> ck_fix c \<noteq> None) (service_checks f)"
    by (simp add: service_checks_def check_new_def with_fix_def Let_def)
  moreover have "set (concat (map snd (review f))) =
      set (boot_checks f) \<union> set (software_checks f) \<union> set (access_checks f) \<union> set (service_checks f)"
    by (auto simp: review_def)
  ultimately show ?thesis using boot by (auto simp: list_all_iff)
qed

text \<open>Only the start of an overlay's name is compared, so a transmitter's overlay counts as a receiver's:
  the check then asks for a reboot that changes nothing.\<close>

lemma transmitter_taken_for_receiver:
  fixes f :: facts
  assumes "fa_lirc f = False"
  shows "ck_detail (ir_check f ''dtoverlay=gpio-ir-tx,gpio_pin=18'' sections) =
    ''gpio-ir is in config.txt but no /dev/lirc0 '' @ em_dash @ '' a reboot is pending''"
proof -
  have "is_active_prefix ''dtoverlay=gpio-ir-tx,gpio_pin=18'' ''dtoverlay'' ''gpio-ir'' sections"
    by (simp add: is_active_prefix_def boot_find_def text_lines_def filter_line_def section_name_def assignment_def
        strip_prefix_def starts_with_def trim_def trim_start_def trim_end_def is_ws_def split_once_def
        strip_cr_def eq_ignore_case_def ascii_lower_def applies_to_def Let_def)
  then show ?thesis using assms by (simp add: ir_check_def check_new_def with_fix_def)
qed

end
