(* ===== verification/Tray.thy ===== *)
theory Tray
  imports OledPage Wake
begin

text \<open>
  The tray: what its icon and menu say (\<open>crates/argon-tray/src/view.rs\<close>) and the wakes it offers with a
  poweroff (\<open>crates/argon-tray/src/wake.rs\<close>). The time of day, the program \<open>date\<close> and the two D-Bus
  services it asks are parameters.
\<close>

section \<open>The view\<close>

datatype monitoring = MonitoringUnknown | MonitoringOff | MonitoringSource string
datatype icons = SymbolicIcons | ColourIcons
datatype tray_urgency = TrayNormal | TrayAttention

record snapshot =
  sn_ups :: "ups_status option"
  sn_now :: systime
  sn_cpu_decicelsius :: "i32 option"
  sn_fan :: "fan_reading option"
  sn_icons :: icons
  sn_monitoring :: monitoring

record view =
  vw_icon :: string
  vw_urgency :: tray_urgency
  vw_headline :: string
  vw_details :: "string list"
  vw_shutdown_pending :: bool

definition tray_ago :: "duration \<Rightarrow> string" where
  "tray_ago d =
     (let s = as_secs d
      in if s < 120 then show_nat s @ '' s''
         else if s < 7200 then show_nat (s div 60) @ '' min''
         else if s < 172800 then show_nat (s div 3600) @ '' h''
         else show_nat (s div 86400) @ '' days'')"

definition fan_line :: "fan_reading \<Rightarrow> string" where
  "fan_line f =
     (let duty = show_nat (unat (fr_pwm f) * 100 div 255)
      in if (fr_rpm f = Some 0 \<or> fr_rpm f = None) \<and> fr_pwm f = 0 then ''Fan off''
         else case fr_rpm f of
           Some rpm \<Rightarrow> ''Fan '' @ show_nat rpm @ '' rpm ('' @ duty @ '' %)''
         | None \<Rightarrow> ''Fan '' @ duty @ '' %'')"

fun missing_icon :: "icons \<Rightarrow> string" where
  "missing_icon SymbolicIcons = ''battery-missing-symbolic''"
| "missing_icon ColourIcons = ''battery-missing''"

fun caution_icon :: "icons \<Rightarrow> string" where
  "caution_icon SymbolicIcons = ''battery-caution-symbolic''"
| "caution_icon ColourIcons = ''battery-caution''"

definition colour_level :: "u8 \<Rightarrow> bool \<Rightarrow> string" where
  "colour_level pct on_mains =
     (if on_mains then
        (if 100 \<le> pct then ''battery-full-charged''
         else if 80 \<le> pct then ''battery-full-charging''
         else if 40 \<le> pct then ''battery-good-charging''
         else if 20 \<le> pct then ''battery-low-charging''
         else ''battery-caution-charging'')
      else
        (if 80 \<le> pct then ''battery-full''
         else if 40 \<le> pct then ''battery-good''
         else if 20 \<le> pct then ''battery-low''
         else if 10 \<le> pct then ''battery-caution''
         else ''battery-empty''))"

definition SYMBOLIC_ON_BATTERY :: "string list" where
  "SYMBOLIC_ON_BATTERY =
     [''battery-level-0-symbolic'', ''battery-level-10-symbolic'', ''battery-level-20-symbolic'',
      ''battery-level-30-symbolic'', ''battery-level-40-symbolic'', ''battery-level-50-symbolic'',
      ''battery-level-60-symbolic'', ''battery-level-70-symbolic'', ''battery-level-80-symbolic'',
      ''battery-level-90-symbolic'', ''battery-level-100-symbolic'']"

definition SYMBOLIC_ON_MAINS :: "string list" where
  "SYMBOLIC_ON_MAINS =
     [''battery-level-0-charging-symbolic'', ''battery-level-10-charging-symbolic'', ''battery-level-20-charging-symbolic'',
      ''battery-level-30-charging-symbolic'', ''battery-level-40-charging-symbolic'', ''battery-level-50-charging-symbolic'',
      ''battery-level-60-charging-symbolic'', ''battery-level-70-charging-symbolic'', ''battery-level-80-charging-symbolic'',
      ''battery-level-90-charging-symbolic'', ''battery-level-100-charged-symbolic'']"

definition symbolic_level :: "u8 \<Rightarrow> bool \<Rightarrow> string" where
  "symbolic_level pct on_mains =
     (let i = min (unat pct) 100 div 10 in if on_mains then SYMBOLIC_ON_MAINS ! i else SYMBOLIC_ON_BATTERY ! i)"

fun level_icon :: "u8 \<Rightarrow> bool \<Rightarrow> icons \<Rightarrow> string" where
  "level_icon pct on_mains SymbolicIcons = symbolic_level pct on_mains"
| "level_icon pct on_mains ColourIcons = colour_level pct on_mains"

text \<open>\<open>dirs\<close> are the directories in a directory, none for one that cannot be read; \<open>is_file\<close> the files there are.\<close>

definition colour_icons_installed :: "(string \<Rightarrow> string list) \<Rightarrow> (string \<Rightarrow> bool) \<Rightarrow> string list \<Rightarrow> bool" where
  "colour_icons_installed dirs is_file bases \<longleftrightarrow>
     list_ex (\<lambda>base. list_ex (\<lambda>theme_dir. list_ex (\<lambda>sz. list_ex (\<lambda>ctx.
       is_file (ctx @ ''/battery-good.png'')) (dirs sz)) (dirs theme_dir)) (dirs base)) bases"

definition plain_view :: "string \<Rightarrow> tray_urgency \<Rightarrow> string \<Rightarrow> string \<Rightarrow> view" where
  "plain_view icon u headline detail =
     \<lparr>vw_icon = icon, vw_urgency = u, vw_headline = headline, vw_details = [detail], vw_shutdown_pending = False\<rparr>"

definition missing_view :: "snapshot \<Rightarrow> string \<Rightarrow> systime option \<Rightarrow> view" where
  "missing_view s name last_seen =
     (let seen = (case last_seen of
                    Some t \<Rightarrow> if t \<le> sn_now s then '', last seen '' @ tray_ago (sn_now s - t) @ '' ago'' else []
                  | None \<Rightarrow> [])
      in \<lparr>vw_icon = caution_icon (sn_icons s), vw_urgency = TrayAttention, vw_headline = ''UPS not connected'',
          vw_details = [name @ '' was connected before'' @ seen @ ''.'',
                        ''No battery is being watched until it is back.'',
                        ''Removed on purpose? sudo argonctl ups --forget''],
          vw_shutdown_pending = False\<rparr>)"

definition battery_headline :: "u8 \<Rightarrow> string \<Rightarrow> string" where
  \<comment> \<open>the separator is U+00B7\<close>
  "battery_headline percent what = ''Battery '' @ show_nat (unat percent) @ '' % '' @ [CHR 0xB7] @ '' '' @ what"

fun shown_level :: "u8 \<Rightarrow> icons \<Rightarrow> level_shown \<Rightarrow> string \<times> tray_urgency \<times> string" where
  "shown_level pct ics ShownOnMains = (level_icon pct True ics, TrayNormal, ''on mains'')"
| "shown_level pct ics ShownOnBattery = (level_icon pct False ics, TrayNormal, ''on battery'')"
| "shown_level pct ics ShownLow = (level_icon pct False ics, TrayAttention, ''low'')"
| "shown_level pct ics ShownCritical = (caution_icon ics, TrayAttention, ''critical'')"
| "shown_level pct ics (Unrecognised _) = (level_icon pct False ics, TrayNormal, ''unrecognised state'')"

fun no_data_view :: "icons \<Rightarrow> monitoring \<Rightarrow> view" where
  "no_data_view ics MonitoringOff =
     plain_view (missing_icon ics) TrayNormal ''No battery monitored''
       ''argond is running; this machine has no battery configured.''"
| "no_data_view ics (MonitoringSource src) =
     plain_view (missing_icon ics) TrayNormal ''Battery: no reading yet''
       (''argond is running and monitoring '' @ src @ '', but has published nothing yet.'')"
| "no_data_view ics MonitoringUnknown =
     plain_view (missing_icon ics) TrayNormal ''Battery: no data''
       ''argond is not publishing status, and did not answer on the bus. Is it running?''"

fun reading_view :: "snapshot \<Rightarrow> (systime \<Rightarrow> string) \<Rightarrow> status_reading \<Rightarrow> view" where
  "reading_view s hhmm NoData = no_data_view (sn_icons s) (sn_monitoring s)"
| "reading_view s hhmm (Stale age) =
     plain_view (missing_icon (sn_icons s)) TrayAttention (''Battery: no update for '' @ show_nat (as_secs age) @ '' s'')
       ''argond has stopped reporting: the battery is not being watched.''"
| "reading_view s hhmm NoUps =
     plain_view (missing_icon (sn_icons s)) TrayNormal ''No UPS connected''
       ''argond looks for an Argon UPS and picks one up when it is plugged in.''"
| "reading_view s hhmm (UpsMissing name last_seen) = missing_view s name last_seen"
| "reading_view s hhmm ReadFailed =
     plain_view (missing_icon (sn_icons s)) TrayNormal ''Battery: reading failed''
       ''The last battery read did not succeed.''"
| "reading_view s hhmm (PowerOffPending percent at) =
     \<lparr>vw_icon = caution_icon (sn_icons s), vw_urgency = TrayAttention,
      vw_headline = battery_headline percent (''powering off at '' @ hhmm at),
      vw_details = [''Restore mains power to cancel.''], vw_shutdown_pending = True\<rparr>"
| "reading_view s hhmm (CurrentReading percent level) =
     (let (icon, u, what) = shown_level percent (sn_icons s) level
      in \<lparr>vw_icon = icon, vw_urgency = u, vw_headline = battery_headline percent what, vw_details = [],
          vw_shutdown_pending = False\<rparr>)"

definition render_ups :: "snapshot \<Rightarrow> (systime \<Rightarrow> string) \<Rightarrow> view" where
  "render_ups s hhmm = reading_view s hhmm (interpret_status (sn_ups s) (sn_now s))"

definition tray_render :: "snapshot \<Rightarrow> (systime \<Rightarrow> string) \<Rightarrow> view" where
  "tray_render s hhmm =
     (let v = render_ups s hhmm;
          cpu = (case sn_cpu_decicelsius s of
                   Some dc \<Rightarrow> [''CPU '' @ show_int (trunc_div dc 10) @ '' '' @ [CHR 0xB0] @ ''C''] | None \<Rightarrow> []);
          fan = (case sn_fan s of Some f \<Rightarrow> [fan_line f] | None \<Rightarrow> [])
      in v\<lparr>vw_details := vw_details v @ cpu @ fan\<rparr>)"

section \<open>Powering off with a wake\<close>

record preset =
  ps_label :: string
  ps_at_unix :: nat

definition tray_offer :: "string option \<Rightarrow> bool \<Rightarrow> bool" where
  "tray_offer can shutdown_pending \<longleftrightarrow> \<not> shutdown_pending \<and> (can = Some ''yes'' \<or> can = Some ''challenge'')"

record tray_pending =
  tp_kind :: string
  tp_at_unix :: nat
  tp_wake_unix :: "nat option"

definition SAME_POWEROFF_S :: nat where "SAME_POWEROFF_S = 2"

definition abs_diff :: "nat \<Rightarrow> nat \<Rightarrow> nat" where
  "abs_diff a b = (if a \<le> b then b - a else a - b)"

definition tray_pending_of :: "(string \<times> nat) option \<Rightarrow> (nat \<times> nat) option \<Rightarrow> tray_pending option" where
  "tray_pending_of scheduled ours =
     (case scheduled of
        None \<Rightarrow> None
      | Some (kind, usec) \<Rightarrow>
          if kind = [] \<or> usec = 0 then None
          else
            let at_unix = usec div 1000000
            in Some \<lparr>tp_kind = kind, tp_at_unix = at_unix,
                     tp_wake_unix =
                       (case ours of
                          Some (wake, poweroff) \<Rightarrow>
                            if kind = ''poweroff'' \<and> abs_diff at_unix poweroff \<le> SAME_POWEROFF_S then Some wake else None
                        | None \<Rightarrow> None)\<rparr>)"

definition ellipsis :: string where \<comment> \<open>U+2026, in UTF-8\<close>
  "ellipsis = [CHR 0xE2, CHR 0x80, CHR 0xA6]"

definition presets :: "nat \<Rightarrow> (nat \<times> string) option \<Rightarrow> preset list" where
  "presets now_unix next_seven =
     [\<lparr>ps_label = ellipsis @ ''and wake in 1 hour'', ps_at_unix = now_unix + 3600\<rparr>,
      \<lparr>ps_label = ellipsis @ ''and wake in 8 hours'', ps_at_unix = now_unix + 8 * 3600\<rparr>] @
     (case next_seven of
        Some (at, when) \<Rightarrow>
          if now_unix + 8 * 3600 < at
          then [\<lparr>ps_label = ellipsis @ ''and wake '' @ when @ '' at 07:00'', ps_at_unix = at\<rparr>] else []
      | None \<Rightarrow> [])"

definition date_to_unix :: "(string \<Rightarrow> string option) \<Rightarrow> string \<Rightarrow> nat option" where
  \<comment> \<open>\<open>date\<close>: the output of the program when it succeeds\<close>
  "date_to_unix date spec = (case date spec of Some out \<Rightarrow> parse_uint U64_MAX (trim out) | None \<Rightarrow> None)"

fun next_seven_of :: "(string \<Rightarrow> string option) \<Rightarrow> nat \<Rightarrow> (string \<times> string) list \<Rightarrow> (nat \<times> string) option" where
  "next_seven_of date now_unix [] = None"
| "next_seven_of date now_unix ((spec, word) # rest) =
     (case date_to_unix date spec of
        None \<Rightarrow> None
      | Some at \<Rightarrow> if now_unix + 15 * 60 < at then Some (at, word) else next_seven_of date now_unix rest)"

definition next_seven :: "(string \<Rightarrow> string option) \<Rightarrow> nat \<Rightarrow> (nat \<times> string) option" where
  "next_seven date now_unix =
     next_seven_of date now_unix [(''today 07:00'', ''today''), (''tomorrow 07:00'', ''tomorrow'')]"

section \<open>The menu\<close>

datatype tray_command =
    CancelBatteryPoweroff | CancelOther bool | PowerOffAndWake nat | SwitchDisplay bool | OpenPage string | QuitTray

datatype menu_item =
    MenuLabel string
  | MenuSeparator
  | MenuItem string tray_command
  | MenuCheck string bool tray_command
  | SubMenu string "menu_item list"

record tray =
  tr_view :: view
  tr_last_action :: "string option"
  tr_can_wake :: "string option"
  tr_presets :: "preset list"
  tr_pending :: "tray_pending option"
  tr_oled :: "bool option"
  tr_ours :: "(nat \<times> nat) option"

definition tray_new :: "view \<Rightarrow> tray" where
  "tray_new v = \<lparr>tr_view = v, tr_last_action = None, tr_can_wake = None, tr_presets = [], tr_pending = None,
     tr_oled = None, tr_ours = None\<rparr>"

fun trim_dry :: "nat \<Rightarrow> string \<Rightarrow> string" where
  \<comment> \<open>\<open>trim_start_matches("dry-")\<close>; every round takes four characters away\<close>
  "trim_dry 0 s = s"
| "trim_dry (Suc n) s = (case strip_prefix ''dry-'' s of Some r \<Rightarrow> trim_dry n r | None \<Rightarrow> s)"

definition noun :: "string \<Rightarrow> string" where
  "noun kind =
     (let k = trim_dry (length kind) kind
      in if k = ''reboot'' then ''reboot'' else if k = ''halt'' then ''halt'' else ''poweroff'')"

definition pending_lines :: "(nat \<Rightarrow> string) \<Rightarrow> tray_pending \<Rightarrow> string list" where
  "pending_lines clock p =
     (''A '' @ noun (tp_kind p) @ '' is scheduled for '' @ clock (tp_at_unix p) @ ''.'') #
     (case tp_wake_unix p of Some w \<Rightarrow> [''The UPS will wake it at '' @ clock w @ ''.''] | None \<Rightarrow> [])"

definition power_off_menu :: "tray \<Rightarrow> menu_item option" where
  "power_off_menu t =
     (if tray_offer (tr_can_wake t) (vw_shutdown_pending (tr_view t) \<or> tr_pending t \<noteq> None) \<and> tr_presets t \<noteq> []
      then Some (SubMenu (''Power off now'' @ ellipsis)
             (map (\<lambda>p. MenuItem (ps_label p) (PowerOffAndWake (ps_at_unix p))) (tr_presets t)))
      else None)"

definition about_menu :: "string list \<Rightarrow> menu_item" where
  "about_menu components =
     SubMenu ''About''
       (map MenuLabel components @
        [MenuSeparator, MenuItem ''Project page on GitHub'' (OpenPage ''https://github.com/dc0sk/argon-utils''),
         MenuItem ''Donate via PayPal'' (OpenPage ''https://www.paypal.com/donate/?hosted_button_id=WY9U4MQ3ZAQWC''), MenuSeparator, MenuLabel ''GPL-3.0-or-later''])"

definition tray_menu :: "(nat \<Rightarrow> string) \<Rightarrow> string list \<Rightarrow> tray \<Rightarrow> menu_item list" where
  "tray_menu clock components t =
     (let v = tr_view t in
      MenuLabel (vw_headline v) # map MenuLabel (vw_details v) @
      (if vw_shutdown_pending v
       then [MenuSeparator,
             SubMenu ''Cancel the scheduled poweroff''
               [MenuItem ''Yes, keep running on battery'' CancelBatteryPoweroff,
                MenuLabel ''If mains stays off, the UPS will cut power when empty.'']]
       else []) @
      (case (vw_shutdown_pending v, tr_pending t) of
         (False, Some p) \<Rightarrow>
           MenuSeparator # map MenuLabel (pending_lines clock p) @
           [MenuItem (''Cancel the '' @ noun (tp_kind p)) (CancelOther (tp_wake_unix p \<noteq> None))]
       | _ \<Rightarrow> []) @
      (case power_off_menu t of Some m \<Rightarrow> [MenuSeparator, m] | None \<Rightarrow> []) @
      (case tr_oled t of Some on \<Rightarrow> [MenuSeparator, MenuCheck ''Case display'' on (SwitchDisplay (\<not> on))] | None \<Rightarrow> []) @
      (case tr_last_action t of Some msg \<Rightarrow> [MenuSeparator, MenuLabel msg] | None \<Rightarrow> []) @
      [MenuSeparator, about_menu components, MenuSeparator, MenuItem ''Quit the tray icon'' QuitTray])"

text \<open>What choosing an item does. \<open>ask\<close> is argond's answer to the request, \<open>cancel\<close> that of
  \<open>shutdown -c\<close> and \<open>switch\<close> that of the display's switch.\<close>

record tray_world =
  tw_ask :: "nat \<Rightarrow> string + nat \<times> nat"
  tw_cancel :: "string + unit"
  tw_switch :: "bool \<Rightarrow> string + unit"
  tw_clock :: "nat \<Rightarrow> string"

fun tray_choose :: "tray_world \<Rightarrow> tray_command \<Rightarrow> tray \<Rightarrow> tray" where
  "tray_choose w CancelBatteryPoweroff t =
     t\<lparr>tr_last_action := Some (case tw_cancel w of
         Inr _ \<Rightarrow> ''Poweroff cancelled. argond will not reschedule it during this outage.''
       | Inl e \<Rightarrow> ''Cancel failed: '' @ e)\<rparr>"
| "tray_choose w (CancelOther woken) t =
     (case tw_cancel w of
        Inr _ \<Rightarrow> t\<lparr>tr_last_action := Some (if woken then ''Cancelled. argond will clear the UPS wake before it comes due.''
                                         else ''Cancelled.''), tr_pending := None\<rparr>
      | Inl e \<Rightarrow> t\<lparr>tr_last_action := Some (''Cancel failed: '' @ e)\<rparr>)"
| "tray_choose w (PowerOffAndWake at) t =
     (case tw_ask w at of
        Inr (wake, poweroff) \<Rightarrow>
          t\<lparr>tr_last_action := Some (''Powering off at '' @ tw_clock w poweroff @ ''. The UPS will wake it at '' @
                                  tw_clock w wake @ ''.''),
            tr_ours := Some (wake, poweroff),
            tr_pending := Some \<lparr>tp_kind = ''poweroff'', tp_at_unix = poweroff, tp_wake_unix = Some wake\<rparr>\<rparr>
      | Inl e \<Rightarrow> t\<lparr>tr_last_action := Some (''Not powered off: '' @ e)\<rparr>)"
| "tray_choose w (SwitchDisplay on) t =
     (case tw_switch w on of
        Inr _ \<Rightarrow> t\<lparr>tr_oled := Some on\<rparr>
      | Inl e \<Rightarrow> t\<lparr>tr_last_action := Some (''Case display not switched: '' @ e)\<rparr>)"
| "tray_choose w (OpenPage _) t = t"
| "tray_choose w QuitTray t = t"

text \<open>Every command somewhere in a menu, and those one click away.\<close>

fun menu_commands :: "menu_item \<Rightarrow> tray_command list" where
  "menu_commands (MenuItem _ c) = [c]"
| "menu_commands (MenuCheck _ _ c) = [c]"
| "menu_commands (SubMenu _ ms) = concat (map menu_commands ms)"
| "menu_commands _ = []"

section \<open>What the tray may claim\<close>

text \<open>The least charge each icon stands for.\<close>

definition icon_charge :: "string \<Rightarrow> nat option" where
  "icon_charge =
     map_of (zip SYMBOLIC_ON_BATTERY [0, 10, 20, 30, 40, 50, 60, 70, 80, 90, 100] @
             zip SYMBOLIC_ON_MAINS [0, 10, 20, 30, 40, 50, 60, 70, 80, 90, 100] @
             [(''battery-full-charged'', 100), (''battery-full-charging'', 80), (''battery-good-charging'', 40),
              (''battery-low-charging'', 20), (''battery-caution-charging'', 0), (''battery-full'', 80),
              (''battery-good'', 40), (''battery-low'', 20), (''battery-caution'', 10), (''battery-empty'', 0)])"

lemma icon_charges:
  "i \<le> 10 \<Longrightarrow> icon_charge (SYMBOLIC_ON_BATTERY ! i) = Some (10 * i) \<and> icon_charge (SYMBOLIC_ON_MAINS ! i) = Some (10 * i)"
proof -
  have "list_all (\<lambda>i. icon_charge (SYMBOLIC_ON_BATTERY ! i) = Some (10 * i) \<and> icon_charge (SYMBOLIC_ON_MAINS ! i) = Some (10 * i))
      [0..<11]"
    by code_simp
  then show "i \<le> 10 \<Longrightarrow> ?thesis" by (simp add: list_all_iff)
qed


lemma no_percent: "CHR ''%'' \<notin> set (show_nat n)"
  using show_nat_digits[of n] by (auto simp: list_all_iff is_digit_def)

lemma machine_line_start: "machine_line input = Some l \<Longrightarrow> take 3 l = ''CPU'' \<or> take 3 l = ''FAN''"
  by (auto simp: machine_line_def fan_text_def Let_def split: option.splits if_splits)

text \<open>C30: the two displays agree. For one status at one time the tray names a charge exactly when the page
  on the case draws one, and then it is the same; and the tray offers to cancel a poweroff exactly when
  the page announces one.\<close>

theorem tray_agrees_with_page:
  "let same = input\<lparr>pi_status := sn_ups s, pi_now := sn_now s\<rparr>
   in (case pg_bar (page_of same hhmm) of
         Some percent \<Rightarrow> \<exists>what. vw_headline (tray_render s hhmm) = battery_headline percent what
       | None \<Rightarrow> CHR ''%'' \<notin> set (vw_headline (tray_render s hhmm)))
      \<and> vw_shutdown_pending (tray_render s hhmm) = (''Plug in mains to'' \<in> set (pg_lines (page_of same hhmm)))"
proof -
  let ?r = "interpret_status (sn_ups s) (sn_now s)"
  have m: "machine_line input \<noteq> Some ''Plug in mains to''"
    using machine_line_start[of input "''Plug in mains to''"] by auto
  have charge: "case pg_bar (reading_page hhmm now r) of
        Some percent \<Rightarrow> \<exists>what. vw_headline (reading_view s hhmm r) = battery_headline percent what
      | None \<Rightarrow> CHR ''%'' \<notin> set (vw_headline (reading_view s hhmm r))" for r now
  proof (cases r)
    case NoData
    then show ?thesis by (cases "sn_monitoring s") (simp_all add: plain_view_def)
  next
    case (CurrentReading p l)
    then show ?thesis by (cases l) auto
  qed (auto simp: plain_view_def missing_view_def Let_def no_percent)
  have pending: "vw_shutdown_pending (reading_view s hhmm r) =
      (''Plug in mains to'' \<in> set (take PAGE_LINES (pg_lines (reading_page hhmm now r) @
         (case machine_line input of Some line \<Rightarrow> [line] | None \<Rightarrow> []))))" for r now
  proof (cases r)
    case NoData
    then show ?thesis using m
      by (cases "sn_monitoring s") (auto simp: plain_view_def PAGE_LINES_def split: option.splits)
  next
    case (UpsMissing name seen)
    then show ?thesis using m
      by (auto simp: missing_view_def PAGE_LINES_def seen_ago_def Let_def split: option.splits)
  next
    case (CurrentReading p l)
    then show ?thesis using m by (cases l) (auto simp: PAGE_LINES_def split: option.splits)
  qed (use m in \<open>auto simp: plain_view_def PAGE_LINES_def split: option.splits\<close>)
  have view: "vw_headline (tray_render s hhmm) = vw_headline (reading_view s hhmm ?r)"
    "vw_shutdown_pending (tray_render s hhmm) = vw_shutdown_pending (reading_view s hhmm ?r)"
    by (simp_all add: tray_render_def render_ups_def Let_def)
  let ?same = "input\<lparr>pi_status := sn_ups s, pi_now := sn_now s\<rparr>"
  have page: "pg_bar (page_of ?same hhmm) = pg_bar (reading_page hhmm (sn_now s) ?r)"
    "pg_lines (page_of ?same hhmm) = take PAGE_LINES (pg_lines (reading_page hhmm (sn_now s) ?r) @
       (case machine_line input of Some line \<Rightarrow> [line] | None \<Rightarrow> []))"
    by (simp_all add: page_of_def Let_def machine_line_def)
  show ?thesis
    unfolding Let_def view page by (intro conjI charge pending)
qed

text \<open>no wake the tray offers is refused for coming too soon: argond, taking it up at any time
  within forty-four minutes of the menu being made, does not find the time left too short.\<close>

theorem preset_never_too_soon:
  assumes "p \<in> set (presets now seven)" and "later \<le> now + 44 * 60"
  shows "schedule_for (ps_at_unix p) later \<noteq> Inl (TooSoon lead)"
proof -
  have "now + 3600 \<le> ps_at_unix p"
    using assms(1) by (auto simp: presets_def split: option.splits if_splits)
  moreover have "ps_at_unix p - ps_at_unix p mod 60 > ps_at_unix p - 60" if "60 \<le> ps_at_unix p"
    using that mod_less_divisor[of 60 "ps_at_unix p"] by linarith
  ultimately have "later + 900 \<le> ps_at_unix p - ps_at_unix p mod 60"
    using assms(2) by linarith
  with schedule_for_TooSoon[of "ps_at_unix p" later] show ?thesis by fastforce
qed

theorem preset_never_too_soon_witness:
  "schedule_for (1000 + 8 * 3600) 3000 \<noteq> Inl (TooSoon 0)"
  using preset_never_too_soon[of "\<lparr>ps_label = ellipsis @ ''and wake in 8 hours'', ps_at_unix = 1000 + 8 * 3600\<rparr>" 1000 None 3000 0]
  by (simp add: presets_def)

text \<open>A wake is named beside a pending poweroff only when that poweroff is the one it was asked for with.\<close>

lemma pending_wake_is_ours:
  "map_option tp_wake_unix (tray_pending_of scheduled ours) = Some (Some wake) \<longleftrightarrow>
     (\<exists>usec poweroff. scheduled = Some (''poweroff'', usec) \<and> usec \<noteq> 0 \<and> ours = Some (wake, poweroff)
        \<and> usec div 1000000 \<le> poweroff + 2 \<and> poweroff \<le> usec div 1000000 + 2)"
  by (auto simp: tray_pending_of_def SAME_POWEROFF_S_def abs_diff_def Let_def split: option.splits if_splits)

lemma next_seven_later:
  "next_seven date now = Some (at, word) \<Longrightarrow> now + 900 < at \<and> word \<in> {''today'', ''tomorrow''}"
  by (auto simp: next_seven_def split: option.splits if_splits)

text \<open>C31: what the menu lets a user do. A poweroff is offered only with no shutdown pending of any kind,
  with polkit's consent or a password away, and only at the times of the presets; argond's battery
  poweroff can be cancelled exactly while one is pending, never with a single click; any other pending
  shutdown can be cancelled exactly while there is one and no battery poweroff.\<close>

theorem tray_menu_commands:
  "set (concat (map menu_commands (tray_menu clock components t))) - {QuitTray} - range OpenPage - range SwitchDisplay
    = (if vw_shutdown_pending (tr_view t) then {CancelBatteryPoweroff}
       else case tr_pending t of
         Some p \<Rightarrow> {CancelOther (tp_wake_unix p \<noteq> None)}
       | None \<Rightarrow> if tr_can_wake t = Some ''yes'' \<or> tr_can_wake t = Some ''challenge''
                then (\<lambda>p. PowerOffAndWake (ps_at_unix p)) ` set (tr_presets t) else {})
    \<and> (\<forall>label. MenuItem label CancelBatteryPoweroff \<notin> set (tray_menu clock components t))"
proof
  let ?v = "tr_view t"
  have labels: "concat (map (menu_commands \<circ> MenuLabel) ls) = []" for ls
    by (induction ls) simp_all
  have about: "set (menu_commands (about_menu components)) \<subseteq> range OpenPage"
    using labels[of components] by (auto simp: about_menu_def)
  have power: "set (concat (map menu_commands (case power_off_menu t of Some m \<Rightarrow> [MenuSeparator, m] | None \<Rightarrow> []))) =
      (if tray_offer (tr_can_wake t) (vw_shutdown_pending ?v \<or> tr_pending t \<noteq> None)
       then (\<lambda>p. PowerOffAndWake (ps_at_unix p)) ` set (tr_presets t) else {})"
    by (simp add: power_off_menu_def comp_def concat_map_singleton del: set_concat)
  have display: "set (concat (map menu_commands
      (case tr_oled t of Some on \<Rightarrow> [MenuSeparator, MenuCheck ''Case display'' on (SwitchDisplay (\<not> on))] | None \<Rightarrow> [])))
      \<subseteq> range SwitchDisplay"
    by (simp split: option.split del: set_concat)
  have action: "concat (map menu_commands
      (case tr_last_action t of Some msg \<Rightarrow> [MenuSeparator, MenuLabel msg] | None \<Rightarrow> [])) = []"
    by (cases "tr_last_action t") simp_all
  have cancel: "set (concat (map menu_commands (case (vw_shutdown_pending ?v, tr_pending t) of
         (False, Some p) \<Rightarrow>
           MenuSeparator # map MenuLabel (pending_lines clock p) @
           [MenuItem (''Cancel the '' @ noun (tp_kind p)) (CancelOther (tp_wake_unix p \<noteq> None))]
       | _ \<Rightarrow> []))) =
      (if vw_shutdown_pending ?v then {} else case tr_pending t of Some p \<Rightarrow> {CancelOther (tp_wake_unix p \<noteq> None)} | None \<Rightarrow> {})"
    by (simp add: labels split: option.split bool.split del: set_concat)
  have all: "set (concat (map menu_commands (tray_menu clock components t))) =
      (if vw_shutdown_pending ?v then {CancelBatteryPoweroff} else {})
      \<union> (if vw_shutdown_pending ?v then {} else case tr_pending t of Some p \<Rightarrow> {CancelOther (tp_wake_unix p \<noteq> None)} | None \<Rightarrow> {})
      \<union> (if tray_offer (tr_can_wake t) (vw_shutdown_pending ?v \<or> tr_pending t \<noteq> None)
         then (\<lambda>p. PowerOffAndWake (ps_at_unix p)) ` set (tr_presets t) else {})
      \<union> set (concat (map menu_commands
          (case tr_oled t of Some on \<Rightarrow> [MenuSeparator, MenuCheck ''Case display'' on (SwitchDisplay (\<not> on))] | None \<Rightarrow> [])))
      \<union> set (menu_commands (about_menu components)) \<union> {QuitTray}"
    unfolding tray_menu_def Let_def power[symmetric] cancel[symmetric]
    by (simp add: labels action Un_assoc del: set_concat)
  show "set (concat (map menu_commands (tray_menu clock components t))) - {QuitTray} - range OpenPage - range SwitchDisplay
    = (if vw_shutdown_pending ?v then {CancelBatteryPoweroff}
       else case tr_pending t of
         Some p \<Rightarrow> {CancelOther (tp_wake_unix p \<noteq> None)}
       | None \<Rightarrow> if tr_can_wake t = Some ''yes'' \<or> tr_can_wake t = Some ''challenge''
                then (\<lambda>p. PowerOffAndWake (ps_at_unix p)) ` set (tr_presets t) else {})"
    unfolding all using about display by (auto simp: tray_offer_def split: option.splits)
  show "\<forall>label. MenuItem label CancelBatteryPoweroff \<notin> set (tray_menu clock components t)"
    by (auto simp: tray_menu_def Let_def about_menu_def power_off_menu_def split: option.splits bool.splits if_splits)
qed

end
