(* ===== verification/Bus.thy ===== *)
theory Bus
  imports CpuCap OledPanel FanLoop UpsThread
begin

text \<open>
  The two ways into the daemon: its D-Bus object (\<open>crates/argon-daemon/src/dbus.rs\<close>), where polkit
  decides per call, and the control socket (\<open>crates/argon-daemon/src/control.rs\<close>,
  \<open>crates/argon-device/src/control.rs\<close>), which only root and argond may open. Polkit, the encoding of
  a request as JSON and the answer of the thread that owns the UPS are parameters.
\<close>

section \<open>Relaying to the UPS thread\<close>

text \<open>An answer on its way to a client, and the thread's own answer as one.\<close>

datatype control_answer = Scheduled nat nat | AnswerError string

fun answer_of :: "(hal_error + ups_time option \<Rightarrow> string) \<Rightarrow> control_response \<Rightarrow> control_answer" where
  "answer_of dbg (PoweroffScheduled wake poweroff) = Scheduled wake poweroff"
| "answer_of dbg (Refused r) = AnswerError (refusal_text dbg r)"

text \<open>The queue of the UPS thread, \<open>None\<close> once its receiving end is gone, and the flag that wakes it.\<close>

record relay_state =
  rs_queue :: "control_request list option"
  rs_waiting :: bool

definition relay :: "control_answer option \<Rightarrow> control_request \<Rightarrow> relay_state \<Rightarrow> control_answer \<times> relay_state" where
  "relay answer req s =
     (case rs_queue s of
        None \<Rightarrow> (AnswerError ''UPS monitoring is not running, so nothing can act on this'', s)
      | Some q \<Rightarrow>
          ((case answer of
              Some r \<Rightarrow> r
            | None \<Rightarrow> AnswerError ''the UPS thread did not answer in time; the request may not have run''),
           s\<lparr>rs_queue := Some (q @ [req]), rs_waiting := True\<rparr>))"

section \<open>The control socket\<close>

definition MAX_LINE :: nat where "MAX_LINE = 4096"

text \<open>What a client sends: its bytes, and how the reading ended if no line was complete before.\<close>

record client_input =
  ci_bytes :: string
  ci_failure :: "string option" \<comment> \<open>a read error, such as the timeout; otherwise the client closed\<close>

definition first_line :: "string \<Rightarrow> string" where
  "first_line s = takeWhile (\<lambda>c. c \<noteq> newline) s @ take 1 (dropWhile (\<lambda>c. c \<noteq> newline) s)"

definition read_request :: "(string \<Rightarrow> string + control_request) \<Rightarrow> client_input \<Rightarrow> string + control_request" where
  "read_request from_line i =
     (let line = first_line (take MAX_LINE (ci_bytes i));
          complete = (line \<noteq> [] \<and> last line = newline)
      in if \<not> complete \<and> length (ci_bytes i) < MAX_LINE \<and> ci_failure i \<noteq> None
         then Inl (''reading the request: '' @ the (ci_failure i))
         else if \<not> complete then Inl ''the request was not a single complete line''
         else map_err (\<lambda>e. ''not a request argond understands: '' @ e) (from_line (trim_end line)))"

definition handle_client ::
  "(string \<Rightarrow> string + control_request) \<Rightarrow> control_answer option \<Rightarrow> client_input \<Rightarrow> relay_state \<Rightarrow>
   control_answer \<times> relay_state" where
  "handle_client from_line answer i s =
     (case read_request from_line i of
        Inr req \<Rightarrow> relay answer req s
      | Inl why \<Rightarrow> (AnswerError why, s))"

section \<open>The D-Bus object\<close>

datatype polkit_verdict = VerdictYes | VerdictChallenge | VerdictNo

type_synonym authorize = "string \<Rightarrow> string \<Rightarrow> bool \<Rightarrow> string + polkit_verdict"

definition ACTION_POWEROFF_WITH_WAKE :: string where "ACTION_POWEROFF_WITH_WAKE = ''org.argonutils.poweroff-with-wake''"
definition ACTION_CPU_CAP :: string where "ACTION_CPU_CAP = ''org.argonutils.cpu-cap''"
definition ACTION_OLED :: string where "ACTION_OLED = ''org.argonutils.oled''"

datatype bus_error = AccessDenied string | BusFailed string

record ('f, 'g) daemon_object =
  do_relay :: relay_state
  do_wake_supported :: bool
  do_cpu :: "saved \<times> 'f"
  do_oled :: oled_control
  do_store :: 'g
  do_latest :: "ups_status option"
  do_fan :: loop_metrics
  do_ups_source :: string

text \<open>What the calls reach outside: polkit, the files of the processor and of the state directory, and
  the answer the UPS thread gives.\<close>

record ('f, 'g) daemon_env =
  de_check :: authorize
  de_read :: "'f file_read"
  de_write :: "'f file_write"
  de_policies :: "cpu_policy list"
  de_files :: "'g file_ops"
  de_answer :: "control_answer option"
  de_now :: systime

definition bus_can :: "authorize \<Rightarrow> string \<Rightarrow> bool \<Rightarrow> string" where
  "bus_can check sender wake_supported =
     (if \<not> wake_supported then ''na''
      else case check sender ACTION_POWEROFF_WITH_WAKE False of
        Inr VerdictYes \<Rightarrow> ''yes''
      | Inr VerdictChallenge \<Rightarrow> ''challenge''
      | Inr VerdictNo \<Rightarrow> ''no''
      | Inl _ \<Rightarrow> ''no'')"

definition authorised :: "authorize \<Rightarrow> string \<Rightarrow> string \<Rightarrow> bool \<Rightarrow> string \<Rightarrow> bus_error + unit" where
  "authorised check sender action interactive refusal =
     (case check sender action interactive of
        Inr VerdictYes \<Rightarrow> Inr ()
      | Inr _ \<Rightarrow> Inl (AccessDenied (''not authorised by polkit to '' @ refusal))
      | Inl e \<Rightarrow> Inl (AccessDenied (''could not check authorisation, so refusing: '' @ e)))"

definition bus_poweroff ::
  "('f, 'g) daemon_env \<Rightarrow> string \<Rightarrow> nat \<Rightarrow> ('f, 'g) daemon_object \<Rightarrow> (bus_error + nat \<times> nat) \<times> ('f, 'g) daemon_object" where
  "bus_poweroff e sender at d =
     (case authorised (de_check e) sender ACTION_POWEROFF_WITH_WAKE True ''power off with a wake'' of
        Inl denied \<Rightarrow> (Inl denied, d)
      | Inr _ \<Rightarrow>
          (let (r, s) = relay (de_answer e) (PoweroffWithWake at) (do_relay d)
           in (case r of
                 Scheduled wake poweroff \<Rightarrow> Inr (wake, poweroff)
               | AnswerError m \<Rightarrow> Inl (BusFailed m), d\<lparr>do_relay := s\<rparr>)))"

definition bus_set_oled ::
  "('f, 'g) daemon_env \<Rightarrow> string \<Rightarrow> bool \<Rightarrow> ('f, 'g) daemon_object \<Rightarrow> (bus_error + unit) \<times> ('f, 'g) daemon_object" where
  "bus_set_oled e sender on d =
     (case authorised (de_check e) sender ACTION_OLED False ''switch the case display'' of
        Inl denied \<Rightarrow> (Inl denied, d)
      | Inr _ \<Rightarrow>
          (let (r, c, g) = oled_set (de_files e) on (do_oled d) (do_store d)
           in (map_err BusFailed r, d\<lparr>do_oled := c, do_store := g\<rparr>)))"

definition bus_set_cpu_cap ::
  "('f, 'g) daemon_env \<Rightarrow> string \<Rightarrow> bool \<Rightarrow> ('f, 'g) daemon_object \<Rightarrow> (bus_error + unit) \<times> ('f, 'g) daemon_object" where
  "bus_set_cpu_cap e sender capped d =
     (case authorised (de_check e) sender ACTION_CPU_CAP False ''change the CPU frequency limit'' of
        Inl denied \<Rightarrow> (Inl denied, d)
      | Inr _ \<Rightarrow>
          (let (r, c) = (if capped then cap_apply (de_read e) (de_write e) (de_policies e) (do_cpu d)
                         else cap_lift (de_write e) (do_cpu d))
           in (map_err BusFailed r, d\<lparr>do_cpu := c\<rparr>)))"

definition optional_text :: "('a \<Rightarrow> string) \<Rightarrow> 'a option \<Rightarrow> string" where
  "optional_text g x = (case x of Some a \<Rightarrow> g a | None \<Rightarrow> [])"

definition decidegrees :: "i32 \<Rightarrow> string" where
  "decidegrees d = show_int (trunc_div d 10) @ ''.'' @ show_int \<bar>trunc_mod d 10\<bar>"

definition fan_fields :: "loop_metrics \<Rightarrow> systime \<Rightarrow> string \<Rightarrow> string option" where
  "fan_fields m now =
     (case lm_updated_unix m of
        None \<Rightarrow> [''available'' \<mapsto> ''no'']
      | Some updated \<Rightarrow>
          [''available'' \<mapsto> ''yes'',
           ''driving'' \<mapsto> (if lm_fan_driving m then ''yes'' else ''no''),
           ''duty_percent'' \<mapsto> optional_text (\<lambda>d. show_nat (unat d)) (lm_fan_duty_percent m),
           ''temperature_c'' \<mapsto> optional_text decidegrees (lm_cpu_decicelsius m),
           ''sensor_failures'' \<mapsto> show_nat (lm_sensor_failures m),
           ''age_s'' \<mapsto> show_nat (as_secs now - updated)])"

definition bus_status_fields :: "ups_status option \<Rightarrow> systime \<Rightarrow> string \<Rightarrow> string option" where
  "bus_status_fields latest now =
     (case latest of
        None \<Rightarrow> [''available'' \<mapsto> ''no'']
      | Some s \<Rightarrow>
          (let f = [''available'' \<mapsto> ''yes'',
                    ''level'' \<mapsto> us_level s,
                    ''source'' \<mapsto> source_of (us_level s),
                    ''percent'' \<mapsto> optional_text (\<lambda>p. show_nat (unat p)) (us_percent s),
                    ''updated_unix'' \<mapsto> show_nat (as_secs (us_updated s)),
                    ''age_s'' \<mapsto> show_nat (as_secs (now - us_updated s)),
                    ''shutdown_at_unix'' \<mapsto> optional_text (\<lambda>t. show_nat (as_secs t)) (us_shutdown_at s)]
           in case us_missing s of
                None \<Rightarrow> f
              | Some m \<Rightarrow> f(''missing_name'' \<mapsto> mu_name m,
                           ''last_seen_unix'' \<mapsto> optional_text (\<lambda>t. show_nat (as_secs t)) (mu_last_seen m))))"

datatype bus_call =
    BusVersion
  | CanPoweroffWithWake string
  | BusPoweroffWithWake string nat
  | BusUpsStatus
  | BusFanState
  | BusOledState
  | BusSetOled string bool
  | BusSetCpuCap string bool

datatype bus_reply =
    ReplyText string
  | ReplyPoweroff nat nat
  | ReplyFields "string \<Rightarrow> string option"
  | ReplyDone
  | ReplyError bus_error

fun bus_handle ::
  "string \<Rightarrow> ('f, 'g) daemon_env \<Rightarrow> bus_call \<Rightarrow> ('f, 'g) daemon_object \<Rightarrow> bus_reply \<times> ('f, 'g) daemon_object" where
  "bus_handle version e BusVersion d = (ReplyText version, d)"
| "bus_handle version e (CanPoweroffWithWake sender) d =
     (ReplyText (bus_can (de_check e) sender (do_wake_supported d)), d)"
| "bus_handle version e (BusPoweroffWithWake sender at) d =
     (case bus_poweroff e sender at d of
        (Inr (wake, poweroff), d1) \<Rightarrow> (ReplyPoweroff wake poweroff, d1)
      | (Inl err, d1) \<Rightarrow> (ReplyError err, d1))"
| "bus_handle version e BusUpsStatus d =
     (ReplyFields ((bus_status_fields (do_latest d) (de_now e))(''source_config'' \<mapsto> do_ups_source d)), d)"
| "bus_handle version e BusFanState d = (ReplyFields (fan_fields (do_fan d) (de_now e)), d)"
| "bus_handle version e BusOledState d = (ReplyText (oled_state (do_oled d)), d)"
| "bus_handle version e (BusSetOled sender on) d =
     (case bus_set_oled e sender on d of (Inr _, d1) \<Rightarrow> (ReplyDone, d1) | (Inl err, d1) \<Rightarrow> (ReplyError err, d1))"
| "bus_handle version e (BusSetCpuCap sender capped) d =
     (case bus_set_cpu_cap e sender capped d of (Inr _, d1) \<Rightarrow> (ReplyDone, d1) | (Inl err, d1) \<Rightarrow> (ReplyError err, d1))"

section \<open>What a caller may do\<close>

fun bus_guard :: "bus_call \<Rightarrow> (string \<times> string \<times> bool) option" where
  "bus_guard (BusPoweroffWithWake sender _) = Some (sender, ACTION_POWEROFF_WITH_WAKE, True)"
| "bus_guard (BusSetOled sender _) = Some (sender, ACTION_OLED, False)"
| "bus_guard (BusSetCpuCap sender _) = Some (sender, ACTION_CPU_CAP, False)"
| "bus_guard _ = None"

fun bus_frame :: "bus_call \<Rightarrow> ('f, 'g) daemon_object \<Rightarrow> ('f, 'g) daemon_object \<Rightarrow> bool" where
  "bus_frame (BusPoweroffWithWake _ at) d d' \<longleftrightarrow>
     d' = d\<lparr>do_relay := do_relay d'\<rparr> \<and> rs_queue (do_relay d') = map_option (\<lambda>q. q @ [PoweroffWithWake at]) (rs_queue (do_relay d))"
| "bus_frame (BusSetOled _ on) d d' \<longleftrightarrow>
     d' = d\<lparr>do_oled := do_oled d', do_store := do_store d'\<rparr>
     \<and> do_oled d' = (if oc_available (do_oled d) then (do_oled d)\<lparr>oc_on := on\<rparr> else do_oled d)"
| "bus_frame (BusSetCpuCap _ _) d d' \<longleftrightarrow> d' = d\<lparr>do_cpu := do_cpu d'\<rparr>"
| "bus_frame _ d d' \<longleftrightarrow> d' = d"

lemma authorised_yes: "check sender action interactive = Inr VerdictYes \<Longrightarrow> authorised check sender action interactive what = Inr ()"
  by (simp add: authorised_def)

lemma authorised_no:
  "check sender action interactive \<noteq> Inr VerdictYes \<Longrightarrow>
     \<exists>why. authorised check sender action interactive what = Inl (AccessDenied why)"
  by (auto simp: authorised_def split: sum.splits polkit_verdict.splits)

text \<open>C28: a call over D-Bus acts only with polkit's consent. A call that acts is denied, and changes nothing
  at all, unless polkit says yes to that caller for that action -- a question that could not be asked and a
  password that would be needed are no yes; with consent it is not denied and changes only its own part:
  the request in the queue of the UPS thread, the display's switch, or the processor's limit. Every other
  call changes nothing.\<close>

theorem bus_acts_only_authorised:
  "case bus_guard call of
     None \<Rightarrow> snd (bus_handle version e call d) = d
   | Some (sender, action, interactive) \<Rightarrow>
       if de_check e sender action interactive = Inr VerdictYes
       then bus_frame call d (snd (bus_handle version e call d))
         \<and> (\<forall>why. fst (bus_handle version e call d) \<noteq> ReplyError (AccessDenied why))
       else snd (bus_handle version e call d) = d
         \<and> (\<exists>why. fst (bus_handle version e call d) = ReplyError (AccessDenied why))"
proof (cases call)
  case (BusPoweroffWithWake sender at)
  show ?thesis
  proof (cases "de_check e sender ACTION_POWEROFF_WITH_WAKE True = Inr VerdictYes")
    case True
    from authorised_yes[where check = "de_check e", OF True] show ?thesis
      by (simp add: BusPoweroffWithWake True bus_poweroff_def relay_def split: option.split control_answer.split)
  next
    case False
    then obtain why where "authorised (de_check e) sender ACTION_POWEROFF_WITH_WAKE True ''power off with a wake'' = Inl (AccessDenied why)"
      using authorised_no[where check = "de_check e"] by blast
    with False show ?thesis by (simp add: BusPoweroffWithWake bus_poweroff_def)
  qed
next
  case (BusSetOled sender on)
  show ?thesis
  proof (cases "de_check e sender ACTION_OLED False = Inr VerdictYes")
    case True
    from authorised_yes[where check = "de_check e", OF True] show ?thesis
      by (simp add: BusSetOled True bus_set_oled_def oled_set_def)
  next
    case False
    then obtain why where "authorised (de_check e) sender ACTION_OLED False ''switch the case display'' = Inl (AccessDenied why)"
      using authorised_no[where check = "de_check e"] by blast
    with False show ?thesis by (simp add: BusSetOled bus_set_oled_def)
  qed
next
  case (BusSetCpuCap sender capped)
  show ?thesis
  proof (cases "de_check e sender ACTION_CPU_CAP False = Inr VerdictYes")
    case True
    from authorised_yes[where check = "de_check e", OF True] show ?thesis
      by (simp add: BusSetCpuCap True bus_set_cpu_cap_def map_err_def split: prod.split sum.split)
  next
    case False
    then obtain why where "authorised (de_check e) sender ACTION_CPU_CAP False ''change the CPU frequency limit'' = Inl (AccessDenied why)"
      using authorised_no[where check = "de_check e"] by blast
    with False show ?thesis by (simp add: BusSetCpuCap bus_set_cpu_cap_def)
  qed
qed simp_all

text \<open>On the socket: one request of one complete line of at most 4096 bytes is handed over, and anything else
  is answered without the UPS thread hearing of it.\<close>

lemma socket_relays_iff:
  "snd (handle_client from_line answer i s) \<noteq> s \<Longrightarrow>
     \<exists>req. read_request from_line i = Inr req \<and> rs_queue s \<noteq> None
       \<and> rs_queue (snd (handle_client from_line answer i s)) = map_option (\<lambda>q. q @ [req]) (rs_queue s)"
  by (auto simp: handle_client_def relay_def split: sum.splits option.splits)

lemma first_line_complete:
  assumes "first_line s \<noteq> []" and "last (first_line s) = newline"
  shows "\<exists>line rest. s = line @ newline # rest \<and> newline \<notin> set line \<and> first_line s = line @ [newline]"
proof -
  let ?l = "takeWhile (\<lambda>c. c \<noteq> newline) s" and ?r = "dropWhile (\<lambda>c. c \<noteq> newline) s"
  have no: "newline \<notin> set ?l" by (auto dest: set_takeWhileD)
  have "?r \<noteq> []"
  proof
    assume "?r = []"
    with assms have "?l \<noteq> []" "last ?l = newline" by (simp_all add: first_line_def)
    with no show False by (metis last_in_set)
  qed
  then obtain c rest where r: "?r = c # rest" by (cases ?r) auto
  then have "c = newline" using hd_dropWhile[of "\<lambda>c. c \<noteq> newline" s] by simp
  then have "s = ?l @ newline # rest" using takeWhile_dropWhile_id[of "\<lambda>c. c \<noteq> newline" s] r by metis
  moreover have "first_line s = ?l @ [newline]" using \<open>c = newline\<close> by (simp only: first_line_def r) simp
  ultimately show ?thesis using no by blast
qed

text \<open>C29: the control socket hands a request on only when the client sent it as one complete line of at most
  4096 bytes, the line feed included, that decodes to it; everything else is answered with an error, and
  the UPS thread is not disturbed.\<close>

theorem socket_relays_whole_lines:
  "case read_request from_line i of
     Inr req \<Rightarrow> \<exists>line rest. ci_bytes i = line @ newline # rest \<and> newline \<notin> set line \<and> length line < MAX_LINE
       \<and> from_line (trim_end (line @ [newline])) = Inr req
       \<and> rs_queue (snd (handle_client from_line answer i s)) = map_option (\<lambda>q. q @ [req]) (rs_queue s)
   | Inl why \<Rightarrow> handle_client from_line answer i s = (AnswerError why, s)"
proof (cases "read_request from_line i")
  case (Inr req)
  let ?b = "take MAX_LINE (ci_bytes i)"
  define l where "l = first_line ?b"
  note shape = read_request_def[of from_line i, folded l_def, unfolded Let_def]
  have complete: "l \<noteq> [] \<and> last l = newline"
  proof (rule ccontr)
    assume "\<not> ?thesis"
    then show False using Inr by (simp_all only: shape if_True if_False not_False_eq_True simp_thms split: if_splits) simp_all
  qed
  have "map_err (\<lambda>e. ''not a request argond understands: '' @ e) (from_line (trim_end l)) = Inr req"
    using Inr complete by (simp only: shape not_True_eq_False simp_thms if_False)
  then have "from_line (trim_end l) = Inr req"
    by (cases "from_line (trim_end l)") (simp_all add: map_err_def)
  with complete have c: "first_line ?b \<noteq> []" "last (first_line ?b) = newline" "from_line (trim_end (first_line ?b)) = Inr req"
    by (simp_all add: l_def)
  from first_line_complete[OF c(1,2)] obtain line rest
    where l: "?b = line @ newline # rest" "newline \<notin> set line" "first_line ?b = line @ [newline]" by blast
  have "length (line @ newline # rest) \<le> MAX_LINE" unfolding l(1)[symmetric] by simp
  then have "length line < MAX_LINE" by simp
  moreover have "ci_bytes i = line @ newline # (rest @ drop MAX_LINE (ci_bytes i))"
    using l(1) append_take_drop_id[of MAX_LINE "ci_bytes i"] by simp
  ultimately show ?thesis
    using Inr l(2,3) c(3) by (auto simp: handle_client_def relay_def split: option.splits)
qed (simp add: handle_client_def)

text \<open>A temperature between zero and minus one degree is reported without its sign.\<close>

lemma decidegrees_sign_lost: "decidegrees (-5) = decidegrees 5"
  by (simp add: decidegrees_def trunc_div_def trunc_mod_def)

end
