(* ===== verification/Telemetry.thy ===== *)
theory Telemetry
  imports Bus Drift
begin

text \<open>
  The metrics exporter: the text it renders (\<open>crates/argon-telemetry/src/render.rs\<close>), the answer to a
  request (\<open>crates/argon-telemetry/src/server.rs\<close>) and what the daemon puts into a snapshot
  (\<open>crates/argon-daemon/src/exporter.rs\<close>). The socket is the caller's.
\<close>

section \<open>The snapshot\<close>

record telemetry =
  tm_version :: string
  tm_mode :: string
  tm_cpu_decicelsius :: "i32 option"
  tm_fan_pwm :: "u8 option"
  tm_fan_rpm :: "nat option"
  tm_fan_backend :: "string option"
  tm_fan_writable :: "bool option"
  tm_governor_state :: "(nat \<times> nat) option"
  tm_vendor_units :: "(string \<times> bool) list"
  tm_devices :: "(string \<times> bool) list"
  tm_sensor_failures :: nat

text \<open>\<open>fan\<close>: whether the kernel has a fan, and its reading if it could be taken.\<close>

definition exporter_snapshot ::
  "string \<Rightarrow> mode \<Rightarrow> loop_metrics \<Rightarrow> fan_reading option option \<Rightarrow> (nat \<times> nat) list \<Rightarrow> bool \<Rightarrow> bool \<Rightarrow>
   (string \<Rightarrow> string option) \<Rightarrow> telemetry" where
  "exporter_snapshot version m l fan governor ups zigbee systemctl =
     (let reading = Option.bind fan id
      in \<lparr>tm_version = version, tm_mode = mode_text m, tm_cpu_decicelsius = lm_cpu_decicelsius l,
          tm_fan_pwm = map_option fr_pwm reading, tm_fan_rpm = Option.bind reading fr_rpm,
          tm_fan_backend = map_option (\<lambda>_. ''kernel-pwm'') fan, tm_fan_writable = map_option (\<lambda>_. False) fan,
          tm_governor_state = (case governor of [] \<Rightarrow> None | c # _ \<Rightarrow> Some c),
          tm_vendor_units = map (\<lambda>u. (un_unit u, unit_active u)) (vendor_units systemctl),
          tm_devices = [(''ups'', ups), (''zigbee'', zigbee)],
          tm_sensor_failures = lm_sensor_failures l\<rparr>)"

section \<open>Rendering\<close>

definition quote :: char where "quote = CHR 34"
definition backslash :: char where "backslash = CHR 92"

fun escape_char :: "char \<Rightarrow> string" where
  "escape_char c =
     (if c = backslash then [backslash, backslash]
      else if c = quote then [backslash, quote]
      else if c = newline then [backslash, CHR ''n'']
      else [c])"

definition escape :: "string \<Rightarrow> string" where
  "escape v = concat (map escape_char v)"

definition writeln :: "string \<Rightarrow> string \<Rightarrow> string" where
  "writeln out line = out @ line @ [newline]"

definition metric :: "string \<Rightarrow> string \<Rightarrow> string \<Rightarrow> string \<Rightarrow> string" where
  "metric out name kind help =
     writeln (writeln out (''# HELP '' @ name @ '' '' @ help)) (''# TYPE '' @ name @ '' '' @ kind)"

definition bit_text :: "bool \<Rightarrow> string" where
  "bit_text b = (if b then ''1'' else ''0'')"

text \<open>A label in braces, and a sample of a metric with labels and a value.\<close>

definition label_text :: "string \<times> string \<Rightarrow> string" where
  "label_text kv = fst kv @ ''='' @ [quote] @ escape (snd kv) @ [quote]"

definition sample_text :: "string \<Rightarrow> (string \<times> string) list \<Rightarrow> string \<Rightarrow> string" where
  "sample_text name labels val =
     name @ (if labels = [] then [] else ''{'' @ join '','' (map label_text labels) @ ''}'') @ '' '' @ val"

definition pwm_ratio :: "u8 \<Rightarrow> string" where
  \<comment> \<open>\<open>{:.3}\<close> of \<open>pwm / 255\<close>: thousandths, to the nearest; no value lies half-way\<close>
  "pwm_ratio pwm =
     (let t = (2000 * unat pwm + 255) div 510
      in show_nat (t div 1000) @ ''.'' @ zero_pad 3 (show_nat (t mod 1000)))"

definition render_identity :: "string \<Rightarrow> telemetry \<Rightarrow> string" where
  "render_identity out s =
     (let o1 = metric out ''argon_build_info'' ''gauge'' ''Build information. Always 1; the version is in the label.'';
          o2 = writeln o1 (sample_text ''argon_build_info'' [(''version'', tm_version s)] ''1'');
          o3 = metric o2 ''argon_mode_info'' ''gauge'' ''The daemon's operating mode.''
      in writeln o3 (sample_text ''argon_mode_info'' [(''mode'', tm_mode s)] ''1''))"

definition render_thermal :: "string \<Rightarrow> telemetry \<Rightarrow> string" where
  "render_thermal out s =
     (let o1 = (case tm_cpu_decicelsius s of
                  Some dc \<Rightarrow>
                    writeln (metric out ''argon_cpu_temperature_celsius'' ''gauge'' ''CPU temperature from the kernel thermal zone.'')
                      (sample_text ''argon_cpu_temperature_celsius'' [] (decidegrees dc))
                | None \<Rightarrow> out);
          o2 = (case tm_governor_state s of
                  Some (state, hi) \<Rightarrow>
                    writeln (metric
                      (writeln (metric o1 ''argon_thermal_governor_state'' ''gauge''
                          ''Cooling state the kernel thermal governor is calling for.'')
                        (sample_text ''argon_thermal_governor_state'' [] (show_nat state)))
                      ''argon_thermal_governor_max_state'' ''gauge'' ''Highest cooling state the governor can call for.'')
                      (sample_text ''argon_thermal_governor_max_state'' [] (show_nat hi))
                | None \<Rightarrow> o1);
          o3 = metric o2 ''argon_sensor_read_failures'' ''gauge''
                 ''Consecutive failed temperature reads. Non-zero means the fan is on its fallback.''
      in writeln o3 (sample_text ''argon_sensor_read_failures'' [] (show_nat (tm_sensor_failures s))))"

definition render_fan :: "string \<Rightarrow> telemetry \<Rightarrow> string" where
  "render_fan out s =
     (let o1 = (case tm_fan_pwm s of
                  Some pwm \<Rightarrow>
                    writeln (metric out ''argon_fan_pwm_ratio'' ''gauge'' ''Fan PWM duty as a ratio of full scale.'')
                      (sample_text ''argon_fan_pwm_ratio'' [] (pwm_ratio pwm))
                | None \<Rightarrow> out);
          o2 = (case tm_fan_rpm s of
                  Some rpm \<Rightarrow>
                    writeln (metric o1 ''argon_fan_speed_rpm'' ''gauge'' ''Measured fan speed.'')
                      (sample_text ''argon_fan_speed_rpm'' [] (show_nat rpm))
                | None \<Rightarrow> o1)
      in case tm_fan_backend s of
           Some b \<Rightarrow>
             writeln (metric o2 ''argon_fan_backend_info'' ''gauge''
                 ''Which backend drives the fan, and whether argon-utils may write to it.'')
               (sample_text ''argon_fan_backend_info''
                 [(''backend'', b), (''writable'', bit_text (tm_fan_writable s = Some True))] ''1'')
         | None \<Rightarrow> o2)"

definition render_inventory :: "string \<Rightarrow> telemetry \<Rightarrow> string" where
  "render_inventory out s =
     (let o1 = (if tm_vendor_units s = [] then out
                else foldl (\<lambda>o1 (unit_name, active).
                       writeln o1 (sample_text ''argon_vendor_daemon_active'' [(''unit'', unit_name)] (bit_text active)))
                  (metric out ''argon_vendor_daemon_active'' ''gauge''
                    ''Whether a vendor daemon is running and therefore contending for the hardware.'')
                  (tm_vendor_units s))
      in if tm_devices s = [] then o1
         else foldl (\<lambda>o1 (device, present).
                writeln o1 (sample_text ''argon_device_present'' [(''device'', device)] (bit_text present)))
           (metric o1 ''argon_device_present'' ''gauge'' ''Whether a device was discovered.'')
           (tm_devices s))"

definition telemetry_render :: "telemetry \<Rightarrow> string" where
  "telemetry_render s = render_inventory (render_fan (render_thermal (render_identity [] s) s) s) s"

section \<open>Answering a request\<close>

definition MAX_REQUEST_LINE :: nat where "MAX_REQUEST_LINE = 8 * 1024"

definition http_body :: "telemetry \<Rightarrow> string \<Rightarrow> string \<times> string \<times> string" where
  "http_body s line =
     (let parts = split_whitespace line;
          verb = (case parts of [] \<Rightarrow> [] | m # _ \<Rightarrow> m);
          path = (case parts of _ # p # _ \<Rightarrow> p | _ \<Rightarrow> [])
      in if verb = ''GET'' \<and> path = ''/metrics'' then (''200 OK'', ''text/plain; version=0.0.4'', telemetry_render s)
         else if verb = ''GET'' \<and> path = ''/''
           then (''200 OK'', ''text/plain; charset=utf-8'',
                 ''argon-utils exporter'' @ [newline] @ ''metrics at /metrics'' @ [newline])
         else if verb = ''GET'' then (''404 Not Found'', ''text/plain; charset=utf-8'', ''not found'' @ [newline])
         else (''405 Method Not Allowed'', ''text/plain; charset=utf-8'', ''only GET is supported'' @ [newline]))"

definition http_answer :: "telemetry \<Rightarrow> string \<Rightarrow> string" where
  "http_answer s sent =
     (let (status, content_type, body) = http_body s (first_line (take MAX_REQUEST_LINE sent));
          eol = [carriage, newline]
      in ''HTTP/1.1 '' @ status @ eol @ ''Content-Type: '' @ content_type @ eol @
         ''Content-Length: '' @ show_nat (length body) @ eol @ ''Connection: close'' @ eol @ eol @ body)"

section \<open>What a scraper reads\<close>

text \<open>The families of a snapshot: a name, a help text and the samples, each with its labels and value.\<close>

record family =
  fm_name :: string
  fm_help :: string
  fm_samples :: "((string \<times> string) list \<times> string) list"

definition family_lines :: "family \<Rightarrow> string list" where
  "family_lines f =
     [''# HELP '' @ fm_name f @ '' '' @ fm_help f, ''# TYPE '' @ fm_name f @ '' '' @ ''gauge''] @
     map (\<lambda>(labels, val). sample_text (fm_name f) labels val) (fm_samples f)"

definition one :: "string \<Rightarrow> string \<Rightarrow> (string \<times> string) list \<Rightarrow> string \<Rightarrow> family" where
  "one name help labels val = \<lparr>fm_name = name, fm_help = help, fm_samples = [(labels, val)]\<rparr>"

definition identity_families :: "telemetry \<Rightarrow> family list" where
  "identity_families s =
     [one ''argon_build_info'' ''Build information. Always 1; the version is in the label.'' [(''version'', tm_version s)] ''1'',
      one ''argon_mode_info'' ''The daemon's operating mode.'' [(''mode'', tm_mode s)] ''1'']"

definition thermal_families :: "telemetry \<Rightarrow> family list" where
  "thermal_families s =
     (case tm_cpu_decicelsius s of
        Some dc \<Rightarrow> [one ''argon_cpu_temperature_celsius'' ''CPU temperature from the kernel thermal zone.'' [] (decidegrees dc)]
      | None \<Rightarrow> []) @
     (case tm_governor_state s of
        Some (state, hi) \<Rightarrow>
          [one ''argon_thermal_governor_state'' ''Cooling state the kernel thermal governor is calling for.'' [] (show_nat state),
           one ''argon_thermal_governor_max_state'' ''Highest cooling state the governor can call for.'' [] (show_nat hi)]
      | None \<Rightarrow> []) @
     [one ''argon_sensor_read_failures''
        ''Consecutive failed temperature reads. Non-zero means the fan is on its fallback.'' [] (show_nat (tm_sensor_failures s))]"

definition fan_families :: "telemetry \<Rightarrow> family list" where
  "fan_families s =
     (case tm_fan_pwm s of
        Some pwm \<Rightarrow> [one ''argon_fan_pwm_ratio'' ''Fan PWM duty as a ratio of full scale.'' [] (pwm_ratio pwm)]
      | None \<Rightarrow> []) @
     (case tm_fan_rpm s of
        Some rpm \<Rightarrow> [one ''argon_fan_speed_rpm'' ''Measured fan speed.'' [] (show_nat rpm)]
      | None \<Rightarrow> []) @
     (case tm_fan_backend s of
        Some b \<Rightarrow>
          [one ''argon_fan_backend_info'' ''Which backend drives the fan, and whether argon-utils may write to it.''
             [(''backend'', b), (''writable'', bit_text (tm_fan_writable s = Some True))] ''1'']
      | None \<Rightarrow> [])"

definition inventory_families :: "telemetry \<Rightarrow> family list" where
  "inventory_families s =
     (if tm_vendor_units s = [] then [] else
        [\<lparr>fm_name = ''argon_vendor_daemon_active'',
          fm_help = ''Whether a vendor daemon is running and therefore contending for the hardware.'',
          fm_samples = map (\<lambda>(u, active). ([(''unit'', u)], bit_text active)) (tm_vendor_units s)\<rparr>]) @
     (if tm_devices s = [] then [] else
        [\<lparr>fm_name = ''argon_device_present'', fm_help = ''Whether a device was discovered.'',
          fm_samples = map (\<lambda>(d, present). ([(''device'', d)], bit_text present)) (tm_devices s)\<rparr>])"

definition families :: "telemetry \<Rightarrow> family list" where
  "families s = identity_families s @ thermal_families s @ fan_families s @ inventory_families s"

text \<open>How a scraper reads a label value, up to its closing quote.\<close>

fun read_value :: "string \<Rightarrow> (string \<times> string) option" where
  "read_value (c # cs) =
     (if c = quote then Some ([], cs)
      else if c = backslash then
        (case cs of
           d # ds \<Rightarrow>
             (if d = backslash \<or> d = quote then map_option (apfst ((#) d)) (read_value ds)
              else if d = CHR ''n'' then map_option (apfst ((#) newline)) (read_value ds)
              else None)
         | [] \<Rightarrow> None)
      else map_option (apfst ((#) c)) (read_value cs))"
| "read_value [] = None"

lemma read_escaped: "read_value (escape v @ quote # rest) = Some (v, rest)"
  by (induction v) (simp_all add: escape_def quote_def backslash_def)

lemma foldl_writeln:
  "foldl (\<lambda>o1 (a, b). writeln o1 (g a b)) out xs = out @ concat (map (\<lambda>(a, b). g a b @ [newline]) xs)"
  by (induction xs arbitrary: out) (auto simp: writeln_def)

definition block :: "family list \<Rightarrow> string" where
  "block fs = concat (map (\<lambda>l. l @ [newline]) (concat (map family_lines fs)))"

lemma block_append: "block (fs @ gs) = block fs @ block gs"
  by (simp add: block_def)

lemma block_Nil: "block [] = []"
  by (simp add: block_def)

lemma block_one:
  "writeln (metric out name ''gauge'' help) (sample_text name labels val) = out @ block [one name help labels val]"
  by (simp add: block_def family_lines_def one_def writeln_def metric_def)

lemma block_many:
  "foldl (\<lambda>o1 (a, b). writeln o1 (sample_text name [(key, a)] (bit_text b))) (metric out name ''gauge'' help) xs =
     out @ block [\<lparr>fm_name = name, fm_help = help, fm_samples = map (\<lambda>(a, b). ([(key, a)], bit_text b)) xs\<rparr>]"
  by (simp add: foldl_writeln) (simp add: block_def family_lines_def writeln_def metric_def comp_def case_prod_unfold)

lemma block_Cons: "gs \<noteq> [] \<Longrightarrow> block (f # gs) = block [f] @ block gs"
  using block_append[of "[f]" gs] by simp

lemma identity_block: "render_identity out s = out @ block (identity_families s)"
  unfolding render_identity_def Let_def block_one identity_families_def by (simp add: block_Cons)

lemma thermal_block: "render_thermal out s = out @ block (thermal_families s)"
  unfolding render_thermal_def Let_def block_one thermal_families_def
  by (cases "tm_cpu_decicelsius s"; cases "tm_governor_state s") (auto simp: block_append block_Cons block_Nil)

lemma fan_block: "render_fan out s = out @ block (fan_families s)"
  unfolding render_fan_def Let_def block_one fan_families_def
  by (cases "tm_fan_pwm s"; cases "tm_fan_rpm s"; cases "tm_fan_backend s") (simp_all add: block_append block_Cons block_Nil)

lemma inventory_block: "render_inventory out s = out @ block (inventory_families s)"
  unfolding render_inventory_def Let_def block_many inventory_families_def
  by (simp add: block_append block_Nil)

lemma telemetry_families: "telemetry_render s = block (families s)"
  by (simp add: telemetry_render_def identity_block thermal_block fan_block inventory_block families_def block_append)

definition clean_line :: "string \<Rightarrow> bool" where
  "clean_line l \<longleftrightarrow> newline \<notin> set l \<and> l \<noteq> [] \<and> last l \<noteq> carriage"

lemma unlines_clean: "list_all clean_line ls \<Longrightarrow> text_lines (concat (map (\<lambda>l. l @ [newline]) ls)) = ls"
  by (induction ls) (auto simp: text_lines_Cons clean_line_def strip_cr_def)

lemma escape_no_newline: "newline \<notin> set (escape v)"
  by (auto simp: escape_def backslash_def quote_def split: if_splits)

definition fixed_text :: "string \<Rightarrow> bool" where
  "fixed_text h \<longleftrightarrow> h \<noteq> [] \<and> newline \<notin> set h \<and> carriage \<notin> set h"

lemma fixed_clean: "fixed_text h \<Longrightarrow> clean_line h"
  by (metis fixed_text_def clean_line_def last_in_set)

definition clean_family :: "family \<Rightarrow> bool" where
  "clean_family f \<longleftrightarrow> newline \<notin> set (fm_name f) \<and> fixed_text (fm_help f)
     \<and> list_all (\<lambda>(labels, val). clean_line val \<and> list_all (\<lambda>kv. newline \<notin> set (fst kv)) labels) (fm_samples f)"

lemma clean_append: "newline \<notin> set a \<Longrightarrow> clean_line b \<Longrightarrow> clean_line (a @ b)"
  by (auto simp: clean_line_def)

lemma clean_Cons: "c \<noteq> newline \<Longrightarrow> clean_line b \<Longrightarrow> clean_line (c # b)"
  by (auto simp: clean_line_def)

lemma join_no_newline: "list_all (\<lambda>x. newline \<notin> set x) xs \<Longrightarrow> newline \<notin> set sep \<Longrightarrow> newline \<notin> set (join sep xs)"
  by (induction sep xs rule: join.induct) auto

lemma clean_sample:
  assumes "newline \<notin> set name" "list_all (\<lambda>kv. newline \<notin> set (fst kv)) labels" "clean_line val"
  shows "clean_line (sample_text name labels val)"
proof -
  have "newline \<notin> set (label_text kv)" if "newline \<notin> set (fst kv)" for kv
    using that escape_no_newline by (simp add: label_text_def quote_def)
  then have "newline \<notin> set (join '','' (map label_text labels))"
    using assms(2) by (intro join_no_newline) (auto simp: list_all_iff)
  then show ?thesis
    using assms(1,3) unfolding sample_text_def by (intro clean_append) auto
qed

lemma family_lines_clean:
  assumes "clean_family f"
  shows "list_all clean_line (family_lines f)"
proof -
  have name: "newline \<notin> set (fm_name f)" and ht: "clean_line (fm_help f)"
    using assms fixed_clean by (simp_all add: clean_family_def)
  have gauge: "clean_line ''gauge''" by (simp add: clean_line_def)
  have "clean_line (''# HELP '' @ fm_name f @ '' '' @ fm_help f)" "clean_line (''# TYPE '' @ fm_name f @ '' '' @ ''gauge'')"
    by ((rule clean_append, use name in simp)+, rule ht) ((rule clean_append, use name in simp)+, rule gauge)
  moreover have "list_all clean_line (map (\<lambda>(labels, val). sample_text (fm_name f) labels val) (fm_samples f))"
    using assms name by (auto simp: clean_family_def list_all_iff intro!: clean_sample)
  ultimately show ?thesis by (simp add: family_lines_def)
qed

lemma show_nat_clean: "clean_line (show_nat n)"
proof -
  have d: "is_digit c" if "c \<in> set (show_nat n)" for c
    using that show_nat_digits[of n] by (simp add: list_all_iff)
  have "is_digit (last (show_nat n))" using d show_nat_ne last_in_set by blast
  moreover have "\<not> is_digit newline" "\<not> is_digit carriage" by (simp_all add: is_digit_def)
  ultimately show ?thesis using d show_nat_ne unfolding clean_line_def by metis
qed

lemma show_int_no_newline: "newline \<notin> set (show_int i)"
  using show_nat_clean by (auto simp: show_int_def clean_line_def)

lemma decidegrees_clean: "clean_line (decidegrees d)"
proof -
  have "clean_line (show_int \<bar>trunc_mod d 10\<bar>)" using show_nat_clean by (simp add: show_int_def)
  then show ?thesis unfolding decidegrees_def using show_int_no_newline by (auto intro!: clean_append clean_Cons)
qed

lemma pwm_ratio_clean: "clean_line (pwm_ratio pwm)"
  using show_nat_clean unfolding pwm_ratio_def Let_def zero_pad_def
  by (auto intro!: clean_append simp: clean_line_def)

lemma bit_text_clean: "clean_line (bit_text b)"
  by (simp add: bit_text_def clean_line_def)

lemma clean_one:
  "clean_family (one name help labels val) \<longleftrightarrow>
     newline \<notin> set name \<and> fixed_text help \<and> clean_line val \<and> list_all (\<lambda>kv. newline \<notin> set (fst kv)) labels"
  by (auto simp: clean_family_def one_def)

lemma clean_one_text: "clean_line ''1''"
  by (simp add: clean_line_def)

lemma families_clean: "list_all clean_family (families s)"
proof -
  have "list_all clean_family (identity_families s)"
    by (simp add: identity_families_def clean_one clean_one_text fixed_text_def)
  moreover have "list_all clean_family (thermal_families s)"
    by (simp add: thermal_families_def clean_one decidegrees_clean show_nat_clean fixed_text_def split: option.split prod.split)
  moreover have "list_all clean_family (fan_families s)"
    by (simp add: fan_families_def clean_one clean_one_text pwm_ratio_clean show_nat_clean fixed_text_def split: option.split)
  moreover have "list_all clean_family (inventory_families s)"
    by (auto simp: inventory_families_def clean_family_def list_all_iff bit_text_clean fixed_text_def)
  ultimately show ?thesis by (simp add: families_def)
qed


text \<open>The length announced for a body is its length, and a body other than the metrics is no metrics.\<close>

lemma http_body_metrics:
  "fst (http_body s line) = ''200 OK'' \<Longrightarrow>
     \<exists>path rest. split_whitespace line = ''GET'' # path # rest \<and> path \<in> {''/metrics'', ''/''}"
  by (auto simp: http_body_def Let_def split: if_splits list.splits)

end
