(* ===== verification/Discovery.thy ===== *)
theory Discovery
  imports Mcu Drift "HOL-Library.Char_ord" "HOL-Library.List_Lexorder" "HOL-Library.Product_Lexorder"
begin

text \<open>
  What the program finds on the machine (\<open>discovery.rs\<close>, \<open>thermal.rs\<close>, \<open>fan_hwmon.rs\<close> and
  \<open>platform.rs\<close> of \<open>crates/argon-hal\<close>) and the fan back end it picks (\<open>fan_control.rs\<close>). The file
  system is a parameter: the names in a directory, the text of a file, the path a link leads to. A
  path is the list of its components; \<open>fs_error\<close> is the text of the error when a path cannot be read.
\<close>

section \<open>The file system\<close>

type_synonym path = "string list"

record file_system =
  fs_names :: "path \<Rightarrow> string list option"
  fs_text :: "path \<Rightarrow> string option"
  fs_real :: "path \<Rightarrow> path option"
  fs_link :: "path \<Rightarrow> path option"
  fs_is_file :: "path \<Rightarrow> bool"
  fs_error :: "path \<Rightarrow> string"

definition path_text :: "path \<Rightarrow> string" where
  "path_text p = concat (map (\<lambda>c. CHR ''/'' # c) p)"

definition trim_nul :: "string \<Rightarrow> string" where
  "trim_nul s = rev (dropWhile (\<lambda>c. is_ws c \<or> c = CHR 0x00) (rev (dropWhile (\<lambda>c. is_ws c \<or> c = CHR 0x00) s)))"

definition read_trimmed :: "file_system \<Rightarrow> path \<Rightarrow> string option" where
  "read_trimmed fs p = map_option trim_nul (fs_text fs p)"

definition unwrap_or :: "'a \<Rightarrow> 'a option \<Rightarrow> 'a" where
  "unwrap_or d x = (case x of None \<Rightarrow> d | Some v \<Rightarrow> v)"

text \<open>\<open>from_str_radix\<close> with radix 16.\<close>

definition hex_digit :: "char \<Rightarrow> nat option" where
  "hex_digit c =
     (let n = (of_char c :: nat)
      in if 48 \<le> n \<and> n \<le> 57 then Some (n - 48)
         else if 97 \<le> n \<and> n \<le> 102 then Some (n - 87)
         else if 65 \<le> n \<and> n \<le> 70 then Some (n - 55) else None)"

definition parse_hex :: "nat \<Rightarrow> string \<Rightarrow> nat option" where
  "parse_hex m s =
     (let ds = (case s of [] \<Rightarrow> [] | c # cs \<Rightarrow> if c = CHR ''+'' then cs else s);
          vs = List.map_filter hex_digit ds; v = fold (\<lambda>d n. 16 * n + d) vs 0
      in if ds = [] \<or> length vs < length ds \<or> v > m then None else Some v)"

section \<open>I2C adapters\<close>

record i2c_adapter =
  ia_number :: nat
  ia_name :: string
  ia_dev :: path
  ia_bound :: "(nat \<times> string) list"

definition file_name :: "path \<Rightarrow> string option" where
  "file_name p = (if p = [] then None else Some (last p))"

definition bound_client :: "file_system \<Rightarrow> nat \<Rightarrow> path \<Rightarrow> string \<Rightarrow> (nat \<times> string) option" where
  "bound_client fs number dir cname =
     (case split_once CHR ''-'' cname of
        None \<Rightarrow> None
      | Some (bus, addr) \<Rightarrow>
          if parse_uint U32_MAX bus \<noteq> Some number then None
          else map_option (\<lambda>a. (a,
                 case Option.bind (fs_link fs (dir @ [cname, ''driver''])) file_name of
                   Some d \<Rightarrow> d
                 | None \<Rightarrow> unwrap_or ''unknown'' (read_trimmed fs (dir @ [cname, ''name'']))))
               (parse_hex U16_MAX addr))"

definition i2c_adapter_of :: "file_system \<Rightarrow> string \<Rightarrow> i2c_adapter option" where
  "i2c_adapter_of fs entry =
     Option.bind (strip_prefix ''i2c-'' entry) (\<lambda>rest.
       map_option (\<lambda>number.
         let dir = [''sys'', ''bus'', ''i2c'', ''devices'', ''i2c-'' @ show_nat number]
         in \<lparr>ia_number = number,
             ia_name = unwrap_or [] (read_trimmed fs [''sys'', ''class'', ''i2c-dev'', entry, ''name'']),
             ia_dev = [''dev'', ''i2c-'' @ show_nat number],
             ia_bound = sort (List.map_filter (bound_client fs number dir) (unwrap_or [] (fs_names fs dir)))\<rparr>)
         (parse_uint U32_MAX rest))"

definition i2c_buses :: "file_system \<Rightarrow> i2c_adapter list" where
  "i2c_buses fs =
     (case fs_names fs [''sys'', ''class'', ''i2c-dev''] of
        None \<Rightarrow> []
      | Some entries \<Rightarrow> sort_key ia_number (List.map_filter (i2c_adapter_of fs) entries))"

definition pick_header_bus :: "i2c_adapter list \<Rightarrow> i2c_adapter option" where
  "pick_header_bus buses =
     find (\<lambda>b. str_contains ''DesignWare'' (ia_name b) \<or> str_contains ''bcm2835'' (ia_name b)) buses"

definition header_i2c_bus :: "file_system \<Rightarrow> path option" where
  "header_i2c_bus fs = map_option ia_dev (pick_header_bus (i2c_buses fs))"

section \<open>GPIO chips\<close>

record gpio_chip =
  gc_path :: path
  gc_label :: string
  gc_lines :: nat

text \<open>The name of a line of a chip is what the character device tells, if it can be asked.\<close>

definition header_gpio_chip :: "gpio_chip list \<Rightarrow> (path \<Rightarrow> nat \<Rightarrow> string option) \<Rightarrow> nat \<Rightarrow> gpio_chip option" where
  "header_gpio_chip chips line_name line =
     (case find (\<lambda>c. line_name (gc_path c) line = Some (''GPIO'' @ show_nat line)) chips of
        Some c \<Rightarrow> Some c
      | None \<Rightarrow>
          find (\<lambda>c. str_contains ''rp1'' (gc_label c) \<or> str_contains ''bcm27'' (gc_label c)
                     \<or> str_contains ''bcm2835'' (gc_label c)) chips)"

section \<open>USB devices\<close>

record usb_device =
  ud_kernel :: string
  ud_vid :: string
  ud_pid :: string
  ud_manufacturer :: "string option"
  ud_product :: "string option"
  ud_serial :: "string option"
  ud_controller :: "string option"
  ud_nodes :: "path list"

definition on_controller :: "usb_device \<Rightarrow> string \<Rightarrow> bool" where
  "on_controller d c \<longleftrightarrow> ud_controller d = Some c"

function usb_parent :: "file_system \<Rightarrow> path \<Rightarrow> path option" where
  "usb_parent fs p =
     (if fs_is_file fs (p @ [''idVendor'']) then Some p
      else if p = [] \<or> butlast p = [] then None
      else usb_parent fs (butlast p))"
  by auto
termination by (relation "measure (\<lambda>(fs, p). length p)") (auto simp: neq_Nil_conv)

declare usb_parent.simps [simp del]

definition path_extension :: "string \<Rightarrow> string option" where
  "path_extension s =
     (case rsplit_once CHR ''.'' s of None \<Rightarrow> None | Some (stem, ext) \<Rightarrow> if stem = [] \<or> s = ''..'' then None else Some ext)"

definition controller_of :: "path \<Rightarrow> string option" where
  "controller_of p = find (\<lambda>s. path_extension s = Some ''usb'') p"

definition usb_name :: "path \<Rightarrow> string" where
  "usb_name d = unwrap_or [] (file_name d)"

definition usb_device_of :: "file_system \<Rightarrow> path \<Rightarrow> usb_device" where
  "usb_device_of fs d =
     \<lparr>ud_kernel = usb_name d,
      ud_vid = unwrap_or [] (read_trimmed fs (d @ [''idVendor''])),
      ud_pid = unwrap_or [] (read_trimmed fs (d @ [''idProduct''])),
      ud_manufacturer = read_trimmed fs (d @ [''manufacturer'']),
      ud_product = read_trimmed fs (d @ [''product'']),
      ud_serial = read_trimmed fs (d @ [''serial'']),
      ud_controller = controller_of d, ud_nodes = []\<rparr>"

text \<open>The map of the devices by their kernel name, as its entries in the order they were made.\<close>

definition add_node :: "usb_device \<Rightarrow> string \<Rightarrow> path \<Rightarrow> (string \<times> usb_device) list \<Rightarrow> (string \<times> usb_device) list" where
  "add_node new kname node devs =
     (let devs1 = (if map_of devs kname = None then devs @ [(kname, new)] else devs)
      in map (\<lambda>(k, d). (k, if k = kname then d\<lparr>ud_nodes := ud_nodes d @ [node]\<rparr> else d)) devs1)"

definition usb_classes :: "(string \<times> string list) list" where
  "usb_classes = [(''tty'', [''ttyUSB'', ''ttyACM'']), (''hidraw'', [''hidraw''])]"

text \<open>One entry of a class directory: the directory of its USB device, if it is a node of one.\<close>

definition usb_dir_of :: "file_system \<Rightarrow> string \<Rightarrow> string list \<Rightarrow> string \<Rightarrow> path option" where
  "usb_dir_of fs cls prefixes node_name =
     (if \<not> list_ex (\<lambda>p. starts_with p node_name) prefixes then None
      else Option.bind (fs_real fs [''sys'', ''class'', cls, node_name]) (usb_parent fs))"

definition usb_entries :: "file_system \<Rightarrow> (path \<times> string) list" where
  "usb_entries fs =
     concat (map (\<lambda>(cls, prefixes).
       case fs_names fs [''sys'', ''class'', cls] of
         None \<Rightarrow> []
       | Some names \<Rightarrow> List.map_filter (\<lambda>n. map_option (\<lambda>d. (d, n)) (usb_dir_of fs cls prefixes n)) names) usb_classes)"

definition usb_devices :: "file_system \<Rightarrow> usb_device list" where
  "usb_devices fs =
     (let by_kernel = fold (\<lambda>(d, n). add_node (usb_device_of fs d) (usb_name d) [''dev'', n])
                        (usb_entries fs) []
      in map (\<lambda>(k, d). d\<lparr>ud_nodes := sort (ud_nodes d)\<rparr>) (sort_key fst by_kernel))"

definition INTERNAL_USB_CONTROLLER :: string where "INTERNAL_USB_CONTROLLER = ''1000480000.usb''"

definition is_argon_ups :: "usb_device \<Rightarrow> bool" where
  "is_argon_ups d \<longleftrightarrow> ud_manufacturer d = Some ''Argon''
     \<or> (case ud_product d of None \<Rightarrow> False | Some p \<Rightarrow> starts_with ''Argon'' p)"

definition find_argon_ups :: "usb_device list \<Rightarrow> usb_device option" where
  "find_argon_ups devices = find is_argon_ups devices"

definition find_argon_zigbee :: "usb_device list \<Rightarrow> usb_device option" where
  "find_argon_zigbee devices =
     find (\<lambda>d. ud_vid d = ''10c4'' \<and> ud_pid d = ''ea60'' \<and> on_controller d INTERNAL_USB_CONTROLLER) devices"

definition argon_ups_serial_path :: "file_system \<Rightarrow> path option" where
  "argon_ups_serial_path fs =
     (let dir = [''dev'', ''serial'', ''by-id''];
          hits = sort (map (\<lambda>n. dir @ [n]) (filter (str_contains ''Argon'') (unwrap_or [] (fs_names fs dir))))
      in case hits of
           p # _ \<Rightarrow> Some p
         | [] \<Rightarrow>
             Option.bind (find_argon_ups (usb_devices fs)) (\<lambda>d.
               find (\<lambda>n. starts_with ''ttyACM'' (unwrap_or [] (file_name n))) (ud_nodes d)))"

definition pi_power_button :: "file_system \<Rightarrow> path option" where
  "pi_power_button fs =
     (case fs_names fs [''sys'', ''class'', ''input''] of
        None \<Rightarrow> None
      | Some names \<Rightarrow>
          map_option (\<lambda>n. [''dev'', ''input'', n])
            (find (\<lambda>n. starts_with ''event'' n
                       \<and> read_trimmed fs [''sys'', ''class'', ''input'', n, ''device'', ''name''] = Some ''pwr_button'') names))"

section \<open>Temperatures and the kernel's fan\<close>

definition thermal_zone_of :: "file_system \<Rightarrow> string \<Rightarrow> (path \<times> string) option" where
  "thermal_zone_of fs n =
     (if starts_with ''thermal_zone'' n
      then map_option (Pair [''sys'', ''class'', ''thermal'', n]) (read_trimmed fs [''sys'', ''class'', ''thermal'', n, ''type''])
      else None)"

definition find_cpu_zone :: "file_system \<Rightarrow> hal_error + path \<times> string" where
  "find_cpu_zone fs =
     (case fs_names fs [''sys'', ''class'', ''thermal''] of
        None \<Rightarrow> Inl (Io (fs_error fs [''sys'', ''class'', ''thermal'']))
      | Some names \<Rightarrow>
          (let zones = List.map_filter (thermal_zone_of fs) names
           in case find (\<lambda>(p, kind). str_contains ''cpu'' kind \<or> str_contains ''soc'' kind) zones of
                Some z \<Rightarrow> Inr z
              | None \<Rightarrow> Inl (ParseError ''a CPU thermal zone'' (''zones present: '' @ join '', '' (map snd zones)))))"

definition read_decicelsius :: "file_system \<Rightarrow> path \<Rightarrow> hal_error + i32" where
  "read_decicelsius fs zone =
     (case read_trimmed fs (zone @ [''temp'']) of
        None \<Rightarrow> Inl (Io (fs_error fs (zone @ [''temp''])))
      | Some raw \<Rightarrow>
          (case parse_i32 raw of
             None \<Rightarrow> Inl (ParseError ''a thermal zone temperature'' raw)
           | Some millidegrees \<Rightarrow> Inr (trunc_div millidegrees 100)))"

definition find_pwm_fan :: "file_system \<Rightarrow> path option" where
  "find_pwm_fan fs =
     map_option (\<lambda>n. [''sys'', ''class'', ''hwmon'', n])
       (find (\<lambda>n. read_trimmed fs [''sys'', ''class'', ''hwmon'', n, ''name''] = Some ''pwmfan'')
          (unwrap_or [] (fs_names fs [''sys'', ''class'', ''hwmon''])))"

definition read_pwm_fan :: "file_system \<Rightarrow> path \<Rightarrow> (u8 \<times> u32 option) option" where
  "read_pwm_fan fs hwmon =
     map_option (\<lambda>pwm. (of_nat pwm,
         map_option of_nat (Option.bind (read_trimmed fs (hwmon @ [''fan1_input''])) (parse_uint U32_MAX))))
       (Option.bind (read_trimmed fs (hwmon @ [''pwm1''])) (parse_uint U8_MAX))"

definition pwm_spinning :: "u8 \<times> u32 option \<Rightarrow> bool" where
  "pwm_spinning r \<longleftrightarrow> (case snd r of None \<Rightarrow> False | Some rpm \<Rightarrow> 0 < rpm) \<or> 0 < fst r"

record cooling_device =
  cd_kind :: string
  cd_state :: nat
  cd_max_state :: nat

definition cooling_device_of :: "file_system \<Rightarrow> string \<Rightarrow> cooling_device option" where
  "cooling_device_of fs n =
     (let dir = [''sys'', ''class'', ''thermal'', n];
          num = (\<lambda>f. unwrap_or 0 (Option.bind (read_trimmed fs (dir @ [f])) (parse_uint U32_MAX)))
      in if starts_with ''cooling_device'' n
         then map_option (\<lambda>kind. \<lparr>cd_kind = kind, cd_state = num ''cur_state'', cd_max_state = num ''max_state''\<rparr>)
                (read_trimmed fs (dir @ [''type'']))
         else None)"

definition cooling_devices :: "file_system \<Rightarrow> cooling_device list" where
  "cooling_devices fs =
     List.map_filter (cooling_device_of fs) (unwrap_or [] (fs_names fs [''sys'', ''class'', ''thermal'']))"

section \<open>The fan, whatever drives it\<close>

text \<open>\<open>FanControl\<close>: the microcontroller, or the kernel's fan by its directory.\<close>

datatype 'b fan_backend = McuFan "'b mcu" | KernelFan path

definition governor_state :: "file_system \<Rightarrow> cooling_device list" where
  "governor_state fs = filter (\<lambda>c. str_contains ''fan'' (cd_kind c)) (cooling_devices fs)"

fun backend_set :: "'b i2c_ops \<Rightarrow> fan_duty \<Rightarrow> 'b fan_backend \<Rightarrow> (hal_error + unit) \<times> 'b fan_backend" where
  "backend_set bus duty (McuFan m) = (let (r, m1) = set_fan bus m duty in (r, McuFan m1))"
| "backend_set bus duty (KernelFan p) =
     (Inl (WriteBlocked (''kernel pwm fan <- '' @ duty_text duty)
        (''the kernel thermal governor owns this fan. Taking it over means disabling the whole thermal zone, which '' @
         ''also disables the 110C critical trip -- see docs/protocol/captures/OBS-2026-09-16-taking-the-pi5-fan.md'')), KernelFan p)"

fun backend_current :: "file_system \<Rightarrow> 'b fan_backend \<Rightarrow> fan_duty option" where
  "backend_current fs (McuFan m) = mc_shadow_duty m"
| "backend_current fs (KernelFan p) = map_option (\<lambda>r. duty_from_pwm (fst r)) (read_pwm_fan fs p)"

fun backend_rpm :: "file_system \<Rightarrow> 'b fan_backend \<Rightarrow> u32 option" where
  "backend_rpm fs (McuFan m) = None"
| "backend_rpm fs (KernelFan p) = Option.bind (read_pwm_fan fs p) snd"

fun backend_writable :: "'b fan_backend \<Rightarrow> bool" where
  "backend_writable (McuFan _) = True"
| "backend_writable (KernelFan _) = False"

fun backend_describe :: "file_system \<Rightarrow> 'b fan_backend \<Rightarrow> string" where
  "backend_describe fs (McuFan m) = ''Argon MCU at i2c 0x'' @ show_hex2 ADDR"
| "backend_describe fs (KernelFan p) =
     ''kernel pwm fan at '' @ path_text p @ '' (governor state '' @
     (case governor_state fs of [] \<Rightarrow> ''unbound'' | c # _ \<Rightarrow> show_nat (cd_state c) @ ''/'' @ show_nat (cd_max_state c)) @
     '', read-only)''"

definition detect_fan :: "'b i2c_ops \<Rightarrow> file_system \<Rightarrow> 'b mcu \<Rightarrow> hal_error + 'b fan_backend" where
  "detect_fan bus fs m =
     (let (r, m1) = is_present bus m
      in if r = Inr True then Inr (McuFan m1)
         else case find_pwm_fan fs of
           Some p \<Rightarrow> Inr (KernelFan p)
         | None \<Rightarrow> Inl (ParseError ''a fan controller'' ''no Argon MCU answered, and this machine has no kernel PWM fan''))"

section \<open>The platform\<close>

datatype pi_generation = Pi4 | Pi5 | OtherPi | NotAPi

fun has_pi5_eeprom :: "pi_generation \<Rightarrow> bool" where
  "has_pi5_eeprom g = (g = Pi5)"

record platform =
  pl_model :: string
  pl_revision :: "string option"
  pl_generation :: pi_generation
  pl_kernel :: string
  pl_os :: string
  pl_arch :: string

definition pi_generation_of :: "string \<Rightarrow> pi_generation" where
  "pi_generation_of compatible =
     (if str_contains ''bcm2712'' compatible then Pi5
      else if str_contains ''bcm2711'' compatible then Pi4
      else if str_contains ''raspberrypi'' compatible \<or> str_contains ''brcm,bcm2'' compatible then OtherPi
      else NotAPi)"

definition find_prefixed :: "string \<Rightarrow> string \<Rightarrow> string option" where
  "find_prefixed key t =
     (case List.map_filter (strip_prefix key) (text_lines t) of [] \<Rightarrow> None | l # _ \<Rightarrow> Some l)"

text \<open>\<open>split(':').nth(1)\<close>.\<close>

definition second_field :: "string \<Rightarrow> string option" where
  "second_field v = map_option (\<lambda>(_, rest). takeWhile (\<lambda>c. c \<noteq> CHR '':'') rest) (split_once CHR '':'' v)"

definition platform_detect :: "file_system \<Rightarrow> string \<Rightarrow> platform" where
  "platform_detect fs arch =
     \<lparr>pl_model = unwrap_or ''unknown'' (read_trimmed fs [''proc'', ''device-tree'', ''model'']),
      pl_revision =
        Option.bind (fs_text fs [''proc'', ''cpuinfo'']) (\<lambda>s.
          Option.bind (find_prefixed ''Revision'' s) (\<lambda>v. map_option trim (second_field v))),
      pl_generation = pi_generation_of (unwrap_or [] (fs_text fs [''proc'', ''device-tree'', ''compatible''])),
      pl_kernel = unwrap_or ''unknown'' (read_trimmed fs [''proc'', ''sys'', ''kernel'', ''osrelease'']),
      pl_os = unwrap_or ''unknown'' (Option.bind (fs_text fs [''etc'', ''os-release'']) (\<lambda>s.
                map_option (trim_matches CHR 0x22) (find_prefixed ''PRETTY_NAME='' s))),
      pl_arch = arch\<rparr>"

definition is_broken_stdout :: "string \<Rightarrow> bool" where
  "is_broken_stdout message \<longleftrightarrow> starts_with ''failed printing to stdout'' message \<and> str_contains ''Broken pipe'' message"

section \<open>Who holds a port\<close>

definition port_owner_of :: "file_system \<Rightarrow> path \<Rightarrow> string \<Rightarrow> (nat \<times> string) option" where
  "port_owner_of fs target name =
     Option.bind (parse_uint U32_MAX name) (\<lambda>pid.
       Option.bind (fs_names fs [''proc'', name, ''fd'']) (\<lambda>fds.
         if list_ex (\<lambda>fd. fs_link fs [''proc'', name, ''fd'', fd] = Some target) fds
         then Some (pid, unwrap_or ''?'' (read_trimmed fs [''proc'', name, ''comm''])) else None))"

definition port_owners :: "file_system \<Rightarrow> path \<Rightarrow> (nat \<times> string) list" where
  "port_owners fs dev =
     (case fs_real fs dev of
        None \<Rightarrow> []
      | Some target \<Rightarrow> List.map_filter (port_owner_of fs target) (unwrap_or [] (fs_names fs [''proc''])))"

definition can_see_all_processes :: "file_system \<Rightarrow> bool" where
  "can_see_all_processes fs \<longleftrightarrow> fs_names fs [''proc'', ''1'', ''fd''] \<noteq> None"

section \<open>What is found is what was looked for\<close>

lemma find_SomeD: "find P xs = Some x \<Longrightarrow> x \<in> set xs \<and> P x"
  by (induction xs) (auto split: if_splits)

text \<open>The bus taken for the header's is one that the kernel lists under the name of a header adapter;
  with none there is no bus, whatever others the machine has.\<close>

lemma header_bus_named:
  "header_i2c_bus fs = Some dev \<longleftrightarrow>
     (\<exists>b. pick_header_bus (i2c_buses fs) = Some b \<and> ia_dev b = dev)"
  by (auto simp: header_i2c_bus_def)

lemma header_bus_is_header:
  assumes "header_i2c_bus fs = Some dev"
  obtains number name where "dev = [''dev'', ''i2c-'' @ show_nat number]"
    "str_contains ''DesignWare'' name \<or> str_contains ''bcm2835'' name"
    "\<exists>b \<in> set (i2c_buses fs). ia_number b = number \<and> ia_name b = name"
proof -
  obtain b where b: "b \<in> set (i2c_buses fs)" "ia_dev b = dev"
    and n: "str_contains ''DesignWare'' (ia_name b) \<or> str_contains ''bcm2835'' (ia_name b)"
    using assms by (auto simp: header_i2c_bus_def pick_header_bus_def dest!: find_SomeD)
  have "ia_dev b = [''dev'', ''i2c-'' @ show_nat (ia_number b)]"
    using b(1) by (auto simp: i2c_buses_def i2c_adapter_of_def map_filter_def Let_def bind_eq_Some_conv split: option.splits)
  with b n show thesis using that[of "ia_number b" "ia_name b"] by blast
qed

text \<open>The directory found for a node is the nearest one above it that is a USB device.\<close>

lemma usb_parent_nearest:
  "usb_parent fs p = Some q \<Longrightarrow>
     (\<exists>r. p = q @ r \<and> fs_is_file fs (q @ [''idVendor''])
        \<and> (\<forall>k. length q < k \<and> k \<le> length p \<longrightarrow> \<not> fs_is_file fs (take k p @ [''idVendor''])))"
proof (induction fs p rule: usb_parent.induct)
  case (1 fs p)
  show ?case
  proof (cases "fs_is_file fs (p @ [''idVendor''])")
    case True
    then show ?thesis using 1(2) by (auto simp: usb_parent.simps[of fs p])
  next
    case False
    then have ne: "\<not> (p = [] \<or> butlast p = [])" and up: "usb_parent fs (butlast p) = Some q"
      using 1(2) by (auto simp: usb_parent.simps[of fs p] split: if_splits)
    from 1(1)[OF False ne up] obtain r where r: "butlast p = q @ r" "fs_is_file fs (q @ [''idVendor''])"
      and no: "\<And>k. length q < k \<Longrightarrow> k \<le> length (butlast p) \<Longrightarrow> \<not> fs_is_file fs (take k (butlast p) @ [''idVendor''])"
      by blast
    have p: "p = q @ r @ [last p]" using r(1) ne append_butlast_last_id[of p] by simp
    have "\<not> fs_is_file fs (take k p @ [''idVendor''])" if "length q < k" "k \<le> length p" for k
    proof (cases "k = length p")
      case False
      then have "k \<le> length (butlast p)" using that by simp
      moreover from this have "take k (butlast p) = take k p" by (simp add: butlast_conv_take)
      ultimately show ?thesis using no[OF that(1)] by simp
    qed (use \<open>\<not> fs_is_file fs (p @ _)\<close> in simp)
    with r(2) p show ?thesis by blast
  qed
qed

text \<open>The reference for the list of devices: one for each kernel name that an entry leads to, in order of
  the names, described by the first directory met under it, with the nodes of all its entries.\<close>

definition entries_of :: "(path \<times> string) list \<Rightarrow> string \<Rightarrow> (path \<times> string) list" where
  "entries_of es k = filter (\<lambda>(d, n). usb_name d = k) es"

definition usb_device_at :: "file_system \<Rightarrow> (path \<times> string) list \<Rightarrow> string \<Rightarrow> usb_device" where
  "usb_device_at fs es k =
     (usb_device_of fs (fst (hd (entries_of es k))))\<lparr>ud_nodes := map (\<lambda>(d, n). [''dev'', n]) (entries_of es k)\<rparr>"

definition by_kernel :: "file_system \<Rightarrow> (path \<times> string) list \<Rightarrow> (string \<times> usb_device) list" where
  "by_kernel fs es = fold (\<lambda>(d, n). add_node (usb_device_of fs d) (usb_name d) [''dev'', n]) es []"

lemma by_kernel_snoc:
  "by_kernel fs (es @ [(d, n)]) = add_node (usb_device_of fs d) (usb_name d) [''dev'', n] (by_kernel fs es)"
  by (simp add: by_kernel_def)

lemma add_node_keys [simp]: "fst ` set (add_node u k p devs) = insert k (fst ` set devs)"
proof -
  have "map_of devs k = None \<longleftrightarrow> k \<notin> fst ` set devs" by (rule map_of_eq_None_iff)
  then show ?thesis by (auto simp: add_node_def Let_def image_iff split: if_splits) force+
qed

lemma add_node_distinct: "distinct (map fst devs) \<Longrightarrow> distinct (map fst (add_node u k p devs))"
  by (auto simp: add_node_def Let_def comp_def split_beta map_of_eq_None_iff)

lemma map_of_add_node:
  "map_of (add_node u k p devs) k' =
     (if k' = k then Some (let d = (case map_of devs k of None \<Rightarrow> u | Some d \<Rightarrow> d) in d\<lparr>ud_nodes := ud_nodes d @ [p]\<rparr>)
      else map_of devs k')"
proof -
  have "map_of (map (\<lambda>(k', d). (k', if k' = k then d\<lparr>ud_nodes := ud_nodes d @ [p]\<rparr> else d)) xs) k' =
      map_option (\<lambda>d. if k' = k then d\<lparr>ud_nodes := ud_nodes d @ [p]\<rparr> else d) (map_of xs k')" for xs :: "(string \<times> usb_device) list"
    by (induction xs) auto
  then show ?thesis by (cases "map_of devs k"; cases "k' = k") (simp_all add: add_node_def Let_def map_add_def comp_def option.map_ident split: option.split)
qed

lemma by_kernel_spec:
  "distinct (map fst (by_kernel fs es)) \<and> fst ` set (by_kernel fs es) = usb_name ` fst ` set es
   \<and> (\<forall>k \<in> usb_name ` fst ` set es. map_of (by_kernel fs es) k = Some (usb_device_at fs es k))"
proof (induction es rule: rev_induct)
  case Nil
  show ?case by (simp add: by_kernel_def)
next
  case (snoc e es)
  obtain d n where e: "e = (d, n)" by (cases e)
  have keys: "map_of (by_kernel fs es) k = None \<longleftrightarrow> k \<notin> usb_name ` fst ` set es" for k
    using snoc by (simp add: map_of_eq_None_iff)
  have at: "entries_of (es @ [(d, n)]) k = entries_of es k @ (if usb_name d = k then [(d, n)] else [])" for k
    by (simp add: entries_of_def)
  have ne: "entries_of es k \<noteq> []" if "k \<in> usb_name ` fst ` set es" for k
    using that by (auto simp: entries_of_def filter_empty_conv)
  have none: "entries_of es k = []" if "k \<notin> usb_name ` fst ` set es" for k
    using that by (force simp: entries_of_def filter_empty_conv)
  have "map_of (by_kernel fs (es @ [e])) k = Some (usb_device_at fs (es @ [e]) k)"
    if k: "k \<in> usb_name ` fst ` set (es @ [e])" for k
  proof (cases "k = usb_name d")
    case True
    show ?thesis
    proof (cases "usb_name d \<in> usb_name ` fst ` set es")
      case old: True
      then have "map_of (by_kernel fs es) (usb_name d) = Some (usb_device_at fs es (usb_name d))" using snoc by blast
      then show ?thesis using True ne[OF old]
        by (simp add: e by_kernel_snoc map_of_add_node usb_device_at_def at)
    next
      case new: False
      then show ?thesis using keys[of "usb_name d"] True none[OF new]
        by (simp add: e by_kernel_snoc map_of_add_node usb_device_at_def at usb_device_of_def)
    qed
  next
    case False
    then have "k \<in> usb_name ` fst ` set es" using k e by auto
    then have "map_of (by_kernel fs es) k = Some (usb_device_at fs es k)" using snoc by blast
    then show ?thesis using False by (simp add: e by_kernel_snoc map_of_add_node usb_device_at_def at)
  qed
  then show ?case using snoc by (simp add: e by_kernel_snoc add_node_distinct)
qed

text \<open>The USB devices are the nodes grouped by the device they belong to: one entry for each kernel name
  that an accepted node leads to, in order, with all of its nodes in order and nothing else.\<close>

theorem usb_devices_group_nodes:
  "usb_devices fs =
     map (\<lambda>k. let d = usb_device_at fs (usb_entries fs) k in d\<lparr>ud_nodes := sort (ud_nodes d)\<rparr>)
       (sorted_list_of_set (usb_name ` fst ` set (usb_entries fs)))"
proof -
  let ?es = "usb_entries fs" and ?L = "sort_key fst (by_kernel fs (usb_entries fs))"
  note spec = by_kernel_spec[of fs ?es]
  have "map fst ?L = sorted_list_of_set (usb_name ` fst ` set ?es)"
  proof (rule sorted_distinct_set_unique)
    show "sorted (map fst ?L)" by simp
    show "distinct (map fst ?L)" using spec by (simp add: distinct_map)
    show "set (map fst ?L) = set (sorted_list_of_set (usb_name ` fst ` set ?es))" using spec by simp
  qed auto
  moreover have "snd x = usb_device_at fs ?es (fst x)" if "x \<in> set ?L" for x
  proof -
    have "map_of (by_kernel fs ?es) (fst x) = Some (snd x)" using that spec by (simp add: map_of_is_SomeI)
    moreover have "fst x \<in> usb_name ` fst ` set ?es" using that spec by force
    ultimately show ?thesis using spec by simp
  qed
  ultimately have "usb_devices fs =
      map (\<lambda>k. let d = usb_device_at fs ?es k in d\<lparr>ud_nodes := sort (ud_nodes d)\<rparr>) (map fst ?L)"
    unfolding usb_devices_def by_kernel_def[symmetric] Let_def map_map comp_def
    by (intro map_cong refl) (simp add: split_beta)
  then show ?thesis unfolding \<open>map fst ?L = _\<close> .
qed

text \<open>The serial port taken for the UPS is one that its name or the USB identity of its device says is Argon's.\<close>

lemma ups_serial_is_argon:
  assumes "argon_ups_serial_path fs = Some p"
  shows "(\<exists>n. p = [''dev'', ''serial'', ''by-id'', n] \<and> str_contains ''Argon'' n)
    \<or> (\<exists>d \<in> set (usb_devices fs). is_argon_ups d \<and> p \<in> set (ud_nodes d) \<and> starts_with ''ttyACM'' (unwrap_or [] (file_name p)))"
proof -
  let ?hits = "sort (map (\<lambda>n. [''dev'', ''serial'', ''by-id''] @ [n])
    (filter (str_contains ''Argon'') (unwrap_or [] (fs_names fs [''dev'', ''serial'', ''by-id'']))))"
  show ?thesis
  proof (cases ?hits)
    case Nil
    then obtain d where "find_argon_ups (usb_devices fs) = Some d"
      "find (\<lambda>n. starts_with ''ttyACM'' (unwrap_or [] (file_name n))) (ud_nodes d) = Some p"
      using assms by (auto simp: argon_ups_serial_path_def Let_def bind_eq_Some_conv)
    then show ?thesis unfolding find_argon_ups_def using find_SomeD by metis
  next
    case (Cons q qs)
    then have "q = p" using assms by (simp add: argon_ups_serial_path_def Let_def)
    then have "p \<in> set ?hits" using Cons by (metis list.set_intros(1))
    then show ?thesis by auto
  qed
qed

text \<open>A process is named as an owner exactly when one of its descriptors leads to the port.\<close>

lemma port_owner_of_Some:
  "port_owner_of fs target name = Some (pid, comm) \<longleftrightarrow>
     parse_uint U32_MAX name = Some pid
     \<and> (\<exists>fds. fs_names fs [''proc'', name, ''fd''] = Some fds \<and> (\<exists>fd \<in> set fds. fs_link fs [''proc'', name, ''fd'', fd] = Some target))
     \<and> comm = unwrap_or ''?'' (read_trimmed fs [''proc'', name, ''comm''])"
  by (auto simp: port_owner_of_def list_ex_iff bind_eq_Some_conv)

lemma port_owner_iff:
  "fs_real fs dev = Some target \<Longrightarrow> fs_names fs [''proc''] = Some procs \<Longrightarrow>
     (pid, comm) \<in> set (port_owners fs dev) \<longleftrightarrow> (\<exists>name \<in> set procs. port_owner_of fs target name = Some (pid, comm))"
  by (force simp: port_owners_def map_filter_def unwrap_or_def)

text \<open>The kernel's fan is never written: setting it is refused and changes nothing, and it says so.\<close>

lemma kernel_fan_untouched:
  "\<not> backend_writable f \<Longrightarrow> snd (backend_set bus duty f) = f \<and> \<not> is_ok (fst (backend_set bus duty f))"
  by (cases f) simp_all

lemma detect_prefers_mcu:
  "fst (is_present bus m) = Inr True \<Longrightarrow> detect_fan bus fs m = Inr (McuFan (snd (is_present bus m)))"
  by (simp add: detect_fan_def split_beta)

lemma backend_duty_ok: "backend_current fs (KernelFan p) = Some duty \<Longrightarrow> unat (duty_percent duty) \<le> 100"
proof -
  assume "backend_current fs (KernelFan p) = Some duty"
  then obtain r where r: "duty = duty_from_pwm r" by auto
  then show ?thesis using duty_from_pwm_value[of r] r by simp
qed

end
