(* ===== verification/LidAgent.thy ===== *)
theory LidAgent
  imports Lid Drift Wake Discovery
begin

unbundle bit_operations_syntax

text \<open>
  The lid agent of the desktop session (\<open>crates/argon-cli/src/lid_agent.rs\<close>): it carries out what the
  lid policy asks for, and remembers in a file which radios it switched off, through the kernel's
  radio switches (\<open>crates/argon-hal/src/rfkill.rs\<close>). The kernel, the file and the programs it runs
  are the operations of one record, \<open>agent_ops\<close>.
\<close>

section \<open>Radio switches\<close>

definition TYPE_ALL :: u8 where "TYPE_ALL = 0"
definition OP_CHANGE :: u8 where "OP_CHANGE = 2"

datatype radio_kind = Wlan | Bluetooth | OtherRadio

record radio =
  rk_index :: u32
  rk_kind :: radio_kind
  rk_name :: string
  rk_soft_blocked :: bool
  rk_hard_blocked :: bool

definition radio_kind_of :: "string \<Rightarrow> radio_kind" where
  "radio_kind_of t = (if t = ''wlan'' then Wlan else if t = ''bluetooth'' then Bluetooth else OtherRadio)"

text \<open>A directory of \<open>/sys/class/rfkill\<close> as the texts of its files; \<open>None\<close> for one that cannot be read.\<close>

definition read_radio :: "(string \<Rightarrow> string option) \<Rightarrow> radio option" where
  "read_radio dir =
     (let rd = (\<lambda>f. case dir f of Some s \<Rightarrow> trim s | None \<Rightarrow> [])
      in map_option (\<lambda>i. \<lparr>rk_index = of_nat i, rk_kind = radio_kind_of (rd ''type''), rk_name = rd ''name'',
                          rk_soft_blocked = (rd ''soft'' = ''1''), rk_hard_blocked = (rd ''hard'' = ''1'')\<rparr>)
           (parse_uint U32_MAX (rd ''index'')))"

definition radios_in :: "(string \<Rightarrow> string option) list option \<Rightarrow> radio list" where
  "radios_in entries =
     (case entries of None \<Rightarrow> [] | Some dirs \<Rightarrow> sort_key rk_index (List.map_filter read_radio dirs))"

definition change_event :: "u32 \<Rightarrow> bool \<Rightarrow> u8 list" where
  "change_event index blocked =
     [ucast index, ucast (drop_bit 8 index), ucast (drop_bit 16 index), ucast (drop_bit 24 index),
      TYPE_ALL, OP_CHANGE, if blocked then 1 else 0, 0]"

section \<open>The agent's surroundings\<close>

record 'k agent_ops =
  ao_radios :: "'k \<Rightarrow> radio list"
  ao_device :: "u8 list \<Rightarrow> 'k \<Rightarrow> (string + unit) \<times> 'k"
  ao_has_record :: bool
  ao_write :: "string \<Rightarrow> string option \<Rightarrow> (string + unit) \<times> string option"
  ao_remove :: "string option \<Rightarrow> string option"
  ao_display :: bool
  ao_outputs :: "string + bool \<times> string \<times> string"
  ao_wlopm :: "string \<Rightarrow> string \<Rightarrow> 'k \<Rightarrow> bool \<times> 'k"
  ao_cap :: "bool \<Rightarrow> string + unit"
  ao_notify :: "string \<Rightarrow> string \<Rightarrow> string + unit"
  ao_poweroff :: "string + unit"

record 'k agent_world =
  aw_kernel :: 'k
  aw_record :: "string option"

definition set_soft_block :: "'k agent_ops \<Rightarrow> u32 \<Rightarrow> bool \<Rightarrow> 'k \<Rightarrow> (hal_error + unit) \<times> 'k" where
  "set_soft_block ops index blocked k =
     (let (r, k1) = ao_device ops (change_event index blocked) k
      in (map_err (\<lambda>e. Io (''/dev/rfkill: '' @ e)) r, k1))"

fun kind_name :: "radio_kind \<Rightarrow> string option" where
  "kind_name Wlan = Some ''wlan''"
| "kind_name Bluetooth = Some ''bluetooth''"
| "kind_name OtherRadio = None"

definition radio_id :: "radio \<Rightarrow> string option" where
  "radio_id r = map_option (\<lambda>k. k @ '' '' @ rk_name r) (kind_name (rk_kind r))"

definition to_block :: "radio list \<Rightarrow> (u32 \<times> string) list" where
  "to_block rs =
     List.map_filter (\<lambda>r. map_option (Pair (rk_index r)) (radio_id r))
       (filter (\<lambda>r. \<not> rk_soft_blocked r \<and> \<not> rk_hard_blocked r) rs)"

definition wanted_lines :: "string \<Rightarrow> string list" where
  "wanted_lines rcd = filter (\<lambda>l. l \<noteq> []) (map trim (text_lines rcd))"

definition to_unblock :: "string \<Rightarrow> radio list \<Rightarrow> u32 list" where
  "to_unblock rcd rs =
     map rk_index
       (filter (\<lambda>r. rk_soft_blocked r \<and> (case radio_id r of Some i \<Rightarrow> i \<in> set (wanted_lines rcd) | None \<Rightarrow> False)) rs)"

section \<open>Carrying out effects\<close>

fun unblock_all :: "'k agent_ops \<Rightarrow> u32 list \<Rightarrow> 'k \<Rightarrow> string list \<times> 'k" where
  "unblock_all ops [] k = ([], k)"
| "unblock_all ops (i # is) k =
     (let (r, k1) = set_soft_block ops i False k;
          (failed, k2) = unblock_all ops is k1
      in (case r of Inl e \<Rightarrow> (''rfkill'' @ show_nat (unat i) @ '': '' @ hal_error_text e) # failed | Inr _ \<Rightarrow> failed, k2))"

definition restore_radios :: "'k agent_ops \<Rightarrow> 'k agent_world \<Rightarrow> (string + nat) \<times> 'k agent_world" where
  "restore_radios ops w =
     (if \<not> ao_has_record ops then (Inr 0, w)
      else case aw_record w of
        None \<Rightarrow> (Inr 0, w)
      | Some text \<Rightarrow>
          (let indices = to_unblock text (ao_radios ops (aw_kernel w));
               (failed, k) = unblock_all ops indices (aw_kernel w)
           in if failed = [] then (Inr (length indices), w\<lparr>aw_kernel := k, aw_record := ao_remove ops (aw_record w)\<rparr>)
              else (Inl (join ''; '' failed), w\<lparr>aw_kernel := k\<rparr>)))"

fun block_all :: "'k agent_ops \<Rightarrow> (u32 \<times> string) list \<Rightarrow> 'k \<Rightarrow> (string + unit) \<times> 'k" where
  "block_all ops [] k = (Inr (), k)"
| "block_all ops ((i, name) # rest) k =
     (case set_soft_block ops i True k of
        (Inl e, k1) \<Rightarrow> (Inl (hal_error_text e), k1)
      | (Inr _, k1) \<Rightarrow> block_all ops rest k1)"

definition radios_off :: "'k agent_ops \<Rightarrow> 'k agent_world \<Rightarrow> (string + unit) \<times> 'k agent_world" where
  "radios_off ops w =
     (let targets = to_block (ao_radios ops (aw_kernel w))
      in if \<not> ao_has_record ops then (Inl ''no place to record the radios'', w)
         else case ao_write ops (unlines (map snd targets)) (aw_record w) of
           (Inl e, f) \<Rightarrow> (Inl e, w\<lparr>aw_record := f\<rparr>)
         | (Inr _, f) \<Rightarrow>
             (let (r, k) = block_all ops targets (aw_kernel w) in (r, w\<lparr>aw_record := f, aw_kernel := k\<rparr>)))"

text \<open>The screens, through the compositor's \<open>wlopm\<close>: the listing is the error of starting it, or
  whether it succeeded, what it printed and what it complained of.\<close>

fun power_steps :: "'k agent_ops \<Rightarrow> (string \<times> string) list \<Rightarrow> 'k \<Rightarrow> (string + unit) \<times> 'k" where
  "power_steps ops [] k = (Inr (), k)"
| "power_steps ops ((output, step) # rest) k =
     (case ao_wlopm ops step output k of
        (True, k1) \<Rightarrow> power_steps ops rest k1
      | (False, k1) \<Rightarrow> (Inl (''wlopm '' @ step @ '' '' @ output @ '' failed''), k1))"

definition output_names :: "string \<Rightarrow> string list" where
  "output_names out = List.map_filter (\<lambda>l. case split_whitespace l of [] \<Rightarrow> None | n # _ \<Rightarrow> Some n) (text_lines out)"

definition screens :: "'k agent_ops \<Rightarrow> string \<Rightarrow> 'k \<Rightarrow> (string + unit) \<times> 'k" where
  "screens ops how k =
     (if \<not> ao_display ops
      then (Inl ''no Wayland display found (WAYLAND_DISPLAY unset, no socket in the runtime directory)'', k)
      else case ao_outputs ops of
        Inl e \<Rightarrow> (Inl (''wlopm: '' @ e), k)
      | Inr (False, out, err) \<Rightarrow> (Inl (''wlopm: '' @ trim err), k)
      | Inr (True, out, err) \<Rightarrow>
          (let names = output_names out; steps = (if how = ''--on'' then [''--off'', ''--on''] else [''--off''])
           in if names = [] then (Inl ''wlopm lists no outputs'', k)
              else power_steps ops [(n, s). n \<leftarrow> names, s \<leftarrow> steps] k))"

definition kernel_call :: "('k \<Rightarrow> 'r \<times> 'k) \<Rightarrow> 'k agent_world \<Rightarrow> 'r \<times> 'k agent_world" where
  "kernel_call f w = (let (r, k) = f (aw_kernel w) in (r, w\<lparr>aw_kernel := k\<rparr>))"

fun carry_one :: "'k agent_ops \<Rightarrow> lid_effect \<Rightarrow> 'k agent_world \<Rightarrow> (string + unit) \<times> 'k agent_world" where
  "carry_one ops ScreenOff w = kernel_call (screens ops ''--off'') w"
| "carry_one ops ScreenOn w = kernel_call (screens ops ''--on'') w"
| "carry_one ops RadiosOff w = radios_off ops w"
| "carry_one ops RadiosRestore w = (let (r, w1) = restore_radios ops w in (map_ok (\<lambda>_. ()) r, w1))"
| "carry_one ops (CpuCap capped) w = (map_err (\<lambda>e. ''argond: '' @ e) (ao_cap ops capped), w)"
| "carry_one ops (ShutdownAlert delay) w =
     (ao_notify ops ''Lid closed''
        (''Lid closed: powering off in '' @ show_nat (as_secs delay) @ '' s. Open the lid to cancel.''), w)"
| "carry_one ops ShutdownCancelled w = (ao_notify ops ''Lid opened'' ''Lid opened: the poweroff is cancelled.'', w)"
| "carry_one ops PowerOff w = (map_err (\<lambda>e. ''logind: '' @ e) (ao_poweroff ops), w)"

definition agent_all :: "bool \<Rightarrow> 'k agent_ops \<Rightarrow> lid_effect list \<Rightarrow> 'k agent_world \<Rightarrow> 'k agent_world" where
  "agent_all dry_run ops es w = (if dry_run then w else fold (\<lambda>e w. snd (carry_one ops e w)) es w)"

section \<open>The agent\<close>

text \<open>Whether the machine has a lid: the last word of an input device's switch capabilities, in
  hexadecimal, has bit 0.\<close>

definition reports_lid :: "string option \<Rightarrow> bool" where
  "reports_lid sw =
     (case sw of None \<Rightarrow> False
      | Some t \<Rightarrow>
          (case rev (split_whitespace t) of [] \<Rightarrow> False
           | w # _ \<Rightarrow> (case parse_hex U64_MAX w of None \<Rightarrow> False | Some bits \<Rightarrow> odd bits)))"

definition has_lid_switch :: "string option list option \<Rightarrow> bool" where
  "has_lid_switch devices = (case devices of None \<Rightarrow> False | Some sws \<Rightarrow> list_ex reports_lid sws)"

definition describe_lid :: "lid_config \<Rightarrow> string" where
  "describe_lid c =
     ''action '' @ lcf_action c @
     (if lcf_action c = ''shutdown'' then '', '' @ show_nat (lcf_shutdown_delay_s c) @ '' s after the alert''
      else (if lcf_radios_off c then '', radios off'' else []) @ (if lcf_cpu_throttle c then '', CPU capped'' else []))"

definition socket_name :: "string \<Rightarrow> bool" where
  "socket_name n = (case strip_prefix ''wayland-'' n of None \<Rightarrow> False | Some k \<Rightarrow> k \<noteq> [] \<and> list_all is_digit k)"

definition find_wayland_socket :: "string list option \<Rightarrow> string option" where
  "find_wayland_socket names =
     (case names of None \<Rightarrow> None
      | Some ns \<Rightarrow> (case sort (filter socket_name ns) of [] \<Rightarrow> None | n # _ \<Rightarrow> Some n))"

definition own_uid :: "string option \<Rightarrow> nat option" where
  "own_uid status =
     Option.bind status (\<lambda>t.
       case List.map_filter (strip_prefix ''Uid:'') (text_lines t) of [] \<Rightarrow> None
       | l # _ \<Rightarrow> (case split_whitespace l of [] \<Rightarrow> None | u # _ \<Rightarrow> parse_uint U32_MAX u))"

text \<open>The display to use, with the runtime directory to pass along when the socket was looked for:
  \<open>WAYLAND_DISPLAY\<close>, \<open>XDG_RUNTIME_DIR\<close>, the text of \<open>/proc/self/status\<close>, and the listing of a directory.\<close>

definition wayland_display :: "string option \<Rightarrow> string option \<Rightarrow> string option \<Rightarrow> (string \<Rightarrow> string list option)
    \<Rightarrow> (string \<times> string option) option" where
  "wayland_display var xdg status ls =
     (case var of
        Some (c # cs) \<Rightarrow> Some (c # cs, None)
      | _ \<Rightarrow>
          Option.bind (case xdg of Some d \<Rightarrow> Some d | None \<Rightarrow> map_option (\<lambda>u. ''/run/user/'' @ show_nat u) (own_uid status))
            (\<lambda>dir. map_option (\<lambda>s. (s, Some dir)) (find_wayland_socket (ls dir))))"

definition MAX_WAIT :: duration where "MAX_WAIT = from_secs 1"

definition agent_wait :: "lid \<Rightarrow> duration \<Rightarrow> duration" where
  "agent_wait l elapsed = min (case next_deadline l of Some d \<Rightarrow> d - elapsed | None \<Rightarrow> MAX_WAIT) MAX_WAIT"

text \<open>The calls of the policy: the state of the lid at the start if logind could tell it, in every round of
  the loop a change of the lid if one came, and a tick, and at the end the restoring.\<close>

definition agent_round :: "(bool \<times> duration) option \<times> duration \<Rightarrow> lid_call list" where
  "agent_round rd = (case fst rd of Some (closed, at) \<Rightarrow> [Report closed at] | None \<Rightarrow> []) @ [Tick (snd rd)]"

definition agent_calls :: "(bool \<times> duration) option \<Rightarrow> ((bool \<times> duration) option \<times> duration) list \<Rightarrow> lid_call list" where
  "agent_calls start rounds =
     (case start of Some (closed, at) \<Rightarrow> [Report closed at] | None \<Rightarrow> []) @ concat (map agent_round rounds) @ [RestoreAll]"

fun agent_steps :: "bool \<Rightarrow> 'k agent_ops \<Rightarrow> lid_call list \<Rightarrow> lid \<times> 'k agent_world \<Rightarrow> lid \<times> 'k agent_world" where
  "agent_steps dry_run ops [] s = s"
| "agent_steps dry_run ops (c # cs) (l, w) =
     (let (es, l1) = lid_step c l in agent_steps dry_run ops cs (l1, agent_all dry_run ops es w))"

definition agent_run :: "bool \<Rightarrow> 'k agent_ops \<Rightarrow> lid_config \<Rightarrow> (bool \<times> duration) option \<Rightarrow>
    ((bool \<times> duration) option \<times> duration) list \<Rightarrow> 'k agent_world \<Rightarrow> lid \<times> 'k agent_world" where
  "agent_run dry_run ops c start rounds w =
     agent_steps dry_run ops (agent_calls start rounds)
       (lid_new c, if dry_run then w else snd (restore_radios ops w))"

section \<open>What the kernel promises\<close>

text \<open>An event sets the soft block of the radio it names and of nothing else; powering an output leaves
  the radios alone. The record can be written, read back and removed.\<close>

definition set_soft :: "u32 set \<Rightarrow> bool \<Rightarrow> radio list \<Rightarrow> radio list" where
  "set_soft is b rs = map (\<lambda>r. if rk_index r \<in> is then r\<lparr>rk_soft_blocked := b\<rparr> else r) rs"

definition rfkill_works :: "'k agent_ops \<Rightarrow> bool" where
  "rfkill_works ops \<longleftrightarrow>
     (\<forall>i b k. fst (ao_device ops (change_event i b) k) = Inr ()
        \<and> ao_radios ops (snd (ao_device ops (change_event i b) k)) = set_soft {i} b (ao_radios ops k))
     \<and> (\<forall>s n k. ao_radios ops (snd (ao_wlopm ops s n k)) = ao_radios ops k)"

definition record_works :: "'k agent_ops \<Rightarrow> bool" where
  "record_works ops \<longleftrightarrow> ao_has_record ops \<and> (\<forall>t f. ao_write ops t f = (Inr (), Some t)) \<and> (\<forall>f. ao_remove ops f = None)"

definition plain_name :: "string \<Rightarrow> bool" where
  "plain_name n \<longleftrightarrow> n \<noteq> [] \<and> list_all (\<lambda>c. \<not> is_ws c) n"

definition radios_ok :: "radio list \<Rightarrow> bool" where
  "radios_ok rs \<longleftrightarrow> distinct (map rk_index rs) \<and> distinct (map (\<lambda>r. (rk_kind r, rk_name r)) rs)
     \<and> list_all (\<lambda>r. plain_name (rk_name r)) rs"

lemma set_soft_empty [simp]: "set_soft {} b rs = rs"
  by (simp add: set_soft_def)

lemma set_soft_twice: "set_soft is b (set_soft js b rs) = set_soft (is \<union> js) b rs"
  by (auto simp: set_soft_def)

lemma set_soft_block_works:
  assumes "rfkill_works ops"
  obtains k' where "set_soft_block ops i b k = (Inr (), k')" "ao_radios ops k' = set_soft {i} b (ao_radios ops k)"
proof (cases "ao_device ops (change_event i b) k")
  case (Pair r k')
  with assms have "r = Inr ()" "ao_radios ops k' = set_soft {i} b (ao_radios ops k)"
    unfolding rfkill_works_def by (metis fst_conv, metis snd_conv)
  with Pair that show ?thesis by (simp add: set_soft_block_def map_err_def)
qed

lemma unblock_all_works:
  assumes "rfkill_works ops"
  shows "\<exists>k'. unblock_all ops is k = ([], k') \<and> ao_radios ops k' = set_soft (set is) False (ao_radios ops k)"
proof (induction "is" arbitrary: k)
  case (Cons i "is")
  obtain k1 where k1: "set_soft_block ops i False k = (Inr (), k1)" "ao_radios ops k1 = set_soft {i} False (ao_radios ops k)"
    using set_soft_block_works[OF assms] .
  obtain k2 where "unblock_all ops is k1 = ([], k2)" "ao_radios ops k2 = set_soft (set is) False (ao_radios ops k1)"
    using Cons[of k1] by blast
  with k1 show ?case by (simp add: set_soft_twice)
qed simp

lemma block_all_works:
  assumes "rfkill_works ops"
  shows "\<exists>k'. block_all ops ts k = (Inr (), k') \<and> ao_radios ops k' = set_soft (fst ` set ts) True (ao_radios ops k)"
proof (induction ts arbitrary: k)
  case (Cons t ts)
  obtain i n where t: "t = (i, n)" by (cases t)
  obtain k1 where k1: "set_soft_block ops i True k = (Inr (), k1)" "ao_radios ops k1 = set_soft {i} True (ao_radios ops k)"
    using set_soft_block_works[OF assms] .
  obtain k2 where "block_all ops ts k1 = (Inr (), k2)" "ao_radios ops k2 = set_soft (fst ` set ts) True (ao_radios ops k1)"
    using Cons[of k1] by blast
  with k1 t show ?case by (simp add: set_soft_twice)
qed simp

lemma power_steps_radios:
  assumes "rfkill_works ops"
  shows "ao_radios ops (snd (power_steps ops ps k)) = ao_radios ops k"
proof (induction ps arbitrary: k)
  case (Cons p ps)
  obtain n s where p: "p = (n, s)" by (cases p)
  have "ao_radios ops (snd (ao_wlopm ops s n k)) = ao_radios ops k" using assms by (simp add: rfkill_works_def)
  with Cons p show ?case by (cases "ao_wlopm ops s n k") (auto split: bool.split)
qed simp

lemma screens_radios: "rfkill_works ops \<Longrightarrow> ao_radios ops (snd (screens ops how k)) = ao_radios ops k"
  by (auto simp: screens_def Let_def power_steps_radios split: sum.split bool.split)

section \<open>The record names exactly the radios that were switched off\<close>

lemma radio_id_clean:
  assumes "radio_id r = Some i" "plain_name (rk_name r)"
  shows "trim i = i" "newline \<notin> set i" "carriage \<notin> set i" "i \<noteq> []"
proof -
  obtain k where k: "kind_name (rk_kind r) = Some k" and i: "i = k @ '' '' @ rk_name r"
    using assms(1) by (auto simp: radio_id_def)
  have kn: "k = ''wlan'' \<or> k = ''bluetooth''" using k by (cases "rk_kind r") auto
  have n: "rk_name r \<noteq> []" "\<forall>c \<in> set (rk_name r). \<not> is_ws c"
    using assms(2) by (auto simp: plain_name_def list_all_iff)
  then have l: "\<not> is_ws (last i)" using i by simp
  show "trim i = i" using kn i l by (intro trim_ends) (auto simp: is_ws_def)
  have "is_ws newline" "is_ws carriage" by (simp_all add: is_ws_def)
  with n(2) kn i show "newline \<notin> set i" "carriage \<notin> set i" by auto
  show "i \<noteq> []" using i by simp
qed

lemma radio_id_inj:
  "radio_id r = Some i \<Longrightarrow> radio_id r' = Some i \<Longrightarrow> rk_kind r = rk_kind r' \<and> rk_name r = rk_name r'"
  by (cases "rk_kind r"; cases "rk_kind r'") (auto simp: radio_id_def)

definition target :: "radio \<Rightarrow> bool" where
  "target r \<longleftrightarrow> \<not> rk_soft_blocked r \<and> \<not> rk_hard_blocked r \<and> radio_id r \<noteq> None"

lemma set_to_block: "set (to_block rs) = {(rk_index r, the (radio_id r)) | r. r \<in> set rs \<and> target r}"
proof -
  have "x \<in> set (to_block rs) \<longleftrightarrow> (\<exists>r i. r \<in> set rs \<and> target r \<and> radio_id r = Some i \<and> x = (rk_index r, i))" for x
    by (fastforce simp: to_block_def target_def map_filter_def image_iff)
  then show ?thesis by (fastforce simp: target_def)
qed

lemma wanted_record:
  assumes "radios_ok rs"
  shows "set (wanted_lines (unlines (map snd (to_block rs)))) = {the (radio_id r) | r. r \<in> set rs \<and> target r}"
proof -
  let ?ls = "map snd (to_block rs)"
  have s: "set ?ls = {the (radio_id r) | r. r \<in> set rs \<and> target r}" by (auto simp: set_to_block image_iff)
  have c: "\<forall>l \<in> set ?ls. trim l = l \<and> newline \<notin> set l \<and> carriage \<notin> set l \<and> l \<noteq> []"
    unfolding s using assms radio_id_clean by (fastforce simp: radios_ok_def list_all_iff target_def)
  then have "text_lines (unlines ?ls) = ?ls" by (intro lines_unlines) (simp add: clean_lines_def)
  moreover have "map trim ?ls = ?ls" using c by (intro map_idI) blast
  moreover have "filter (\<lambda>l. l \<noteq> []) ?ls = ?ls" using c by (intro filter_True) blast
  ultimately have "wanted_lines (unlines ?ls) = ?ls" unfolding wanted_lines_def by (simp only:)
  then show ?thesis using s by simp
qed

text \<open>The radios as they are with the lid closed, some of those to switch off being off (all of them,
  unless the agent was killed on the way); and that the record undoes exactly the closing.\<close>

lemma target_index:
  assumes "radios_ok rs" "r \<in> set rs"
  shows "rk_index r \<in> fst ` set (to_block rs) \<longleftrightarrow> target r"
proof -
  have "r' = r" if "r' \<in> set rs" "rk_index r' = rk_index r" for r'
    using assms that by (auto simp: radios_ok_def distinct_map dest: inj_onD)
  then show ?thesis using assms(2) by (force simp: set_to_block image_iff)
qed

lemma radio_id_soft [simp]: "radio_id (r\<lparr>rk_soft_blocked := b\<rparr>) = radio_id r"
  by (simp add: radio_id_def)

lemma wanted_target:
  assumes "radios_ok rs" "r \<in> set rs" "radio_id r = Some i" "i \<in> set (wanted_lines (unlines (map snd (to_block rs))))"
  shows "target r"
proof -
  obtain r' where r': "r' \<in> set rs" "target r'" "i = the (radio_id r')"
    using assms(4) unfolding wanted_record[OF assms(1)] by blast
  then have "radio_id r' = Some i" by (auto simp: target_def)
  then have "rk_kind r = rk_kind r' \<and> rk_name r = rk_name r'" by (rule radio_id_inj[OF assms(3)])
  with assms(1,2) r'(1) have "r = r'" by (auto simp: radios_ok_def distinct_map dest: inj_onD)
  with r' show ?thesis by simp
qed

lemma restored:
  assumes "radios_ok rs" "is \<subseteq> fst ` set (to_block rs)"
  defines "rcd \<equiv> unlines (map snd (to_block rs))"
  shows "set_soft (set (to_unblock rcd (set_soft is True rs))) False (set_soft is True rs) = rs"
proof -
  let ?J = "set (to_unblock rcd (set_soft is True rs))"
  have idx: "r' = r" if "r \<in> set rs" "r' \<in> set rs" "rk_index r' = rk_index r" for r r'
    using assms(1) that by (auto simp: radios_ok_def distinct_map dest: inj_onD)
  have tgt: "target r" if "r \<in> set rs" "rk_index r \<in> is" for r
    using target_index[OF assms(1) that(1)] that(2) assms(2) by blast
  have on: "rk_index r \<in> ?J" if r: "r \<in> set rs" "rk_index r \<in> is" for r
  proof -
    have t: "target r" using tgt[OF r] .
    then obtain i where i: "radio_id r = Some i" by (auto simp: target_def)
    with r(1) t have "i \<in> set (wanted_lines rcd)" unfolding rcd_def wanted_record[OF assms(1)] by force
    moreover have "r\<lparr>rk_soft_blocked := True\<rparr> \<in> set (set_soft is True rs)" using r by (auto simp: set_soft_def)
    ultimately show ?thesis using i by (force simp: to_unblock_def image_iff)
  qed
  have tJ: "target r" if r: "r \<in> set rs" and J: "rk_index r \<in> ?J" for r
  proof -
    from J obtain q i where q: "q \<in> set (set_soft is True rs)" "rk_index q = rk_index r" "radio_id q = Some i"
      "i \<in> set (wanted_lines rcd)" by (auto simp: to_unblock_def split: option.splits)
    then obtain r' where r': "r' \<in> set rs" "q = (if rk_index r' \<in> is then r'\<lparr>rk_soft_blocked := True\<rparr> else r')"
      by (auto simp: set_soft_def)
    then have "rk_index r' = rk_index r" "radio_id r' = Some i" using q by (auto split: if_splits)
    with r r'(1) have "r' = r" by (intro idx)
    with \<open>radio_id r' = Some i\<close> r q(4) show ?thesis unfolding rcd_def using wanted_target[OF assms(1)] by blast
  qed
  have "(\<lambda>r. if rk_index r \<in> ?J then r\<lparr>rk_soft_blocked := False\<rparr> else r)
      (if rk_index r \<in> is then r\<lparr>rk_soft_blocked := True\<rparr> else r) = r" if "r \<in> set rs" for r
    using on[OF that] tJ[OF that] tgt[OF that] by (cases r) (auto simp: target_def)
  then have "map (\<lambda>r. if rk_index r \<in> ?J then r\<lparr>rk_soft_blocked := False\<rparr> else r)
      (map (\<lambda>r. if rk_index r \<in> is then r\<lparr>rk_soft_blocked := True\<rparr> else r) rs) = rs"
    unfolding map_map comp_def by (intro map_idI) blast
  then show ?thesis by (simp only: set_soft_def)
qed

section \<open>Radios come back\<close>

definition radios_at :: "bool \<Rightarrow> 'k agent_ops \<Rightarrow> radio list \<Rightarrow> 'k agent_world \<Rightarrow> bool" where
  "radios_at down ops rs w \<longleftrightarrow>
     (if down then (\<exists>is \<subseteq> fst ` set (to_block rs). ao_radios ops (aw_kernel w) = set_soft is True rs)
                  \<and> aw_record w = Some (unlines (map snd (to_block rs)))
      else ao_radios ops (aw_kernel w) = rs \<and> aw_record w = None)"

lemma restore_radios_at:
  assumes "rfkill_works ops" "record_works ops" "radios_ok rs" "radios_at b ops rs w"
  shows "radios_at False ops rs (snd (restore_radios ops w))"
proof (cases b)
  case True
  let ?rcd = "unlines (map snd (to_block rs))"
  obtain "is" where w: "is \<subseteq> fst ` set (to_block rs)" "ao_radios ops (aw_kernel w) = set_soft is True rs" "aw_record w = Some ?rcd"
    using assms(4) True by (auto simp: radios_at_def)
  obtain k where "unblock_all ops (to_unblock ?rcd (set_soft is True rs)) (aw_kernel w) = ([], k)"
    "ao_radios ops k = set_soft (set (to_unblock ?rcd (set_soft is True rs))) False (set_soft is True rs)"
    using unblock_all_works[OF assms(1)] w(2) by metis
  then show ?thesis using assms(2) w restored[OF assms(3) w(1)]
    by (simp add: restore_radios_def record_works_def radios_at_def)
qed (use assms(4) in \<open>simp add: radios_at_def restore_radios_def\<close>)

text \<open>Switching the radios off, cut short by a kill after \<open>n\<close> of them.\<close>

definition radios_off_cut :: "nat \<Rightarrow> 'k agent_ops \<Rightarrow> 'k agent_world \<Rightarrow> 'k agent_world" where
  "radios_off_cut n ops w =
     (let targets = to_block (ao_radios ops (aw_kernel w))
      in w\<lparr>aw_record := snd (ao_write ops (unlines (map snd targets)) (aw_record w)),
           aw_kernel := snd (block_all ops (take n targets) (aw_kernel w))\<rparr>)"

lemma radios_off_whole:
  assumes "record_works ops" "length (to_block (ao_radios ops (aw_kernel w))) \<le> n"
  shows "snd (radios_off ops w) = radios_off_cut n ops w"
  using assms by (simp add: radios_off_def radios_off_cut_def record_works_def Let_def split_beta)

lemma radios_off_cut_at:
  assumes "rfkill_works ops" "record_works ops" "radios_at False ops rs w"
  shows "radios_at True ops rs (radios_off_cut n ops w)"
proof -
  have w: "ao_radios ops (aw_kernel w) = rs" using assms(3) by (simp add: radios_at_def)
  obtain k where k: "block_all ops (take n (to_block rs)) (aw_kernel w) = (Inr (), k)"
    "ao_radios ops k = set_soft (fst ` set (take n (to_block rs))) True rs"
    using block_all_works[OF assms(1)] w by metis
  have "fst ` set (take n (to_block rs)) \<subseteq> fst ` set (to_block rs)" by (intro image_mono set_take_subset)
  with k assms(2) w show ?thesis by (auto simp: radios_off_cut_def record_works_def radios_at_def)
qed

lemma radios_off_at:
  assumes "rfkill_works ops" "record_works ops" "radios_at False ops rs w"
  shows "radios_at True ops rs (snd (radios_off ops w))"
  using radios_off_cut_at[OF assms] radios_off_whole[OF assms(2) order_refl] by metis

lemma carry_one_at:
  assumes "rfkill_works ops" "record_works ops" "radios_ok rs" "radios_at (dk_radios_down d) ops rs w"
    "e = RadiosOff \<Longrightarrow> \<not> dk_radios_down d"
  shows "radios_at (dk_radios_down (carry_out e d)) ops rs (snd (carry_one ops e w))"
proof (cases e)
  case RadiosOff
  then show ?thesis using assms radios_off_at by simp
next
  case RadiosRestore
  then show ?thesis using restore_radios_at[OF assms(1-4)] by (simp add: split_beta)
qed (use assms(4) screens_radios[OF assms(1)] in \<open>simp_all add: radios_at_def kernel_call_def split_beta\<close>)

fun radios_off_once :: "lid_effect list \<Rightarrow> desktop \<Rightarrow> bool" where
  "radios_off_once [] d = True"
| "radios_off_once (e # es) d = ((e \<noteq> RadiosOff \<or> \<not> dk_radios_down d) \<and> radios_off_once es (carry_out e d))"

lemma agent_all_at:
  assumes "rfkill_works ops" "record_works ops" "radios_ok rs"
  shows "radios_off_once es d \<Longrightarrow> radios_at (dk_radios_down d) ops rs w
    \<Longrightarrow> radios_at (dk_radios_down (carry_all es d)) ops rs (agent_all False ops es w)"
proof (induction es arbitrary: d w)
  case (Cons e es)
  then have "radios_at (dk_radios_down (carry_out e d)) ops rs (snd (carry_one ops e w))"
    by (intro carry_one_at[OF assms]) auto
  with Cons show ?case by (simp add: carry_all_def agent_all_def)
qed (simp add: carry_all_def agent_all_def)

lemma lid_radios_off_once: "lid_inv c l \<Longrightarrow> radios_off_once (fst (lid_step e l)) (desktop_of l)"
  by (cases e) (auto simp: lid_inv_def lid_ops Let_def desktop_of_def all_up_def
      split: lid_action.splits option.splits if_splits)

lemma agent_steps_at:
  assumes "rfkill_works ops" "record_works ops" "radios_ok rs"
  shows "lid_inv c l \<Longrightarrow> radios_at (dk_radios_down (desktop_of l)) ops rs w
    \<Longrightarrow> agent_steps False ops cs (l, w) = (l', w') \<Longrightarrow> radios_at (dk_radios_down (desktop_of l')) ops rs w'"
proof (induction cs arbitrary: l w)
  case (Cons e cs)
  obtain es l1 where s: "lid_step e l = (es, l1)" by fastforce
  have "radios_at (dk_radios_down (desktop_of l1)) ops rs (agent_all False ops es w)"
    using agent_all_at[OF assms lid_radios_off_once[OF Cons.prems(1), of e] Cons.prems(2)] carry_call[OF Cons.prems(1), of e] s
    by simp
  moreover have "lid_inv c l1" using lid_inv_call[OF Cons.prems(1), of e] s by simp
  ultimately show ?case using Cons s by simp
qed simp

lemma agent_steps_append: "agent_steps d ops (cs @ ds) s = agent_steps d ops ds (agent_steps d ops cs s)"
  by (induction cs arbitrary: s) (auto split: prod.split)

lemma agent_steps_saving: "ld_saving (fst (agent_steps d ops (cs @ [RestoreAll]) s)) = None"
  by (cases "agent_steps d ops cs s") (simp add: agent_steps_append restore_all_def)

lemma agent_run_at:
  assumes "rfkill_works ops" "record_works ops" "radios_ok rs" "radios_at b ops rs w"
  shows "radios_at False ops rs (snd (agent_run False ops c start rounds w))"
proof -
  let ?w = "snd (restore_radios ops w)"
  obtain l w' where r: "agent_run False ops c start rounds w = (l, w')" by fastforce
  have "radios_at (dk_radios_down (desktop_of (lid_new c))) ops rs ?w"
    using restore_radios_at[OF assms] by (simp add: desktop_of_def lid_new_def all_up_def)
  then have "radios_at (dk_radios_down (desktop_of l)) ops rs w'"
    using agent_steps_at[OF assms(1-3) lid_inv_new[of c]] r by (simp add: agent_run_def)
  moreover have "ld_saving l = None"
    using r agent_steps_saving[of False ops _ "(lid_new c, ?w)"] unfolding agent_run_def agent_calls_def append_assoc[symmetric]
    by (metis fst_conv)
  ultimately show ?thesis using r by (simp add: desktop_of_def all_up_def)
qed


text \<open>A kernel of two radios, one of which the user has switched off.\<close>

definition two_radios :: "radio list" where
  "two_radios =
     [\<lparr>rk_index = 0, rk_kind = Bluetooth, rk_name = ''hci0'', rk_soft_blocked = True, rk_hard_blocked = False\<rparr>,
      \<lparr>rk_index = 1, rk_kind = Wlan, rk_name = ''phy0'', rk_soft_blocked = False, rk_hard_blocked = False\<rparr>]"

definition event_index :: "u8 list \<Rightarrow> u32" where
  "event_index e = ucast (e ! 0) OR push_bit 8 (ucast (e ! 1)) OR push_bit 16 (ucast (e ! 2)) OR push_bit 24 (ucast (e ! 3))"

definition two_radio_ops :: "radio list agent_ops" where
  "two_radio_ops =
     \<lparr>ao_radios = (\<lambda>k. k), ao_device = (\<lambda>e k. (Inr (), set_soft {event_index e} (e ! 6 = 1) k)), ao_has_record = True,
      ao_write = (\<lambda>t f. (Inr (), Some t)), ao_remove = (\<lambda>f. None), ao_display = True,
      ao_outputs = Inr (True, ''HDMI-A-1'', []), ao_wlopm = (\<lambda>s n k. (True, k)),
      ao_cap = (\<lambda>b. Inr ()), ao_notify = (\<lambda>a b. Inr ()), ao_poweroff = Inr ()\<rparr>"

lemma event_index: "event_index (change_event i b) = i"
proof -
  have "event_index (change_event i b) =
      (ucast (ucast i :: u8) :: u32) OR push_bit 8 (ucast (ucast (drop_bit 8 i) :: u8))
      OR push_bit 16 (ucast (ucast (drop_bit 16 i) :: u8)) OR push_bit 24 (ucast (ucast (drop_bit 24 i) :: u8))"
    by (simp only: event_index_def change_event_def nth_Cons_numeral nth_Cons_0 nth_Cons_Suc One_nat_def
        pred_numeral_simps numeral_2_eq_2 numeral_3_eq_3 BitM.simps numeral_One)
  also have "\<dots> = i"
  proof (rule bit_word_eqI)
    fix n assume "n < LENGTH(32)"
    then consider "n < 8" | "8 \<le> n" "n < 16" | "16 \<le> n" "n < 24" | "24 \<le> n" "n < 32" by fastforce
    then show "bit ((ucast (ucast i :: u8) :: u32) OR push_bit 8 (ucast (ucast (drop_bit 8 i) :: u8))
        OR push_bit 16 (ucast (ucast (drop_bit 16 i) :: u8)) OR push_bit 24 (ucast (ucast (drop_bit 24 i) :: u8))) n = bit i n"
      by cases (auto simp: bit_simps)
  qed
  finally show ?thesis .
qed


text \<open>The record is written anew by every closing: what it named before, radios that could not be switched
  back on the last time, is forgotten.\<close>

lemma radios_off_forgets:
  assumes "record_works ops"
  shows "aw_record (snd (radios_off ops w)) = Some (unlines (map snd (to_block (ao_radios ops (aw_kernel w)))))"
  using assms by (simp add: radios_off_def record_works_def Let_def split_beta)

lemma forgotten_radio:
  assumes "record_works ops" "radios_ok (ao_radios ops (aw_kernel w))"
    and "r \<in> set (ao_radios ops (aw_kernel w))" "rk_soft_blocked r" "radio_id r = Some i"
    and "aw_record (snd (radios_off ops w)) = Some rcd"
  shows "i \<notin> set (wanted_lines rcd)"
proof
  assume "i \<in> set (wanted_lines rcd)"
  then have "target r" using assms(6) wanted_target[OF assms(2,3,5)] by (simp add: radios_off_forgets[OF assms(1)])
  with assms(4) show False by (simp add: target_def)
qed

end
