(* ===== verification/Json.thy ===== *)
theory Json
  imports Prelude
begin

text \<open>
  The values that the commands print with \<open>--json\<close>, before the serialiser writes them down. A
  floating-point number is kept as the quotient the code computes, so that nothing is said of its
  rounding.
\<close>

datatype json =
  JNull
| JBool bool
| JInt int
| JQuot int int
| JStr string
| JArr "json list"
| JObj "(string \<times> json) list"

definition opt_json :: "('a \<Rightarrow> json) \<Rightarrow> 'a option \<Rightarrow> json" where
  "opt_json f x = (case x of None \<Rightarrow> JNull | Some v \<Rightarrow> f v)"

fun json_field :: "string \<Rightarrow> json \<Rightarrow> json" where
  "json_field k (JObj fs) = (case map_of fs k of Some v \<Rightarrow> v | None \<Rightarrow> JNull)"
| "json_field k _ = JNull"

abbreviation jnat :: "nat \<Rightarrow> json" where "jnat n \<equiv> JInt (int n)"

lemma opt_json_null: "(\<And>v. f v \<noteq> JNull) \<Longrightarrow> opt_json f x = JNull \<longleftrightarrow> x = None"
  by (simp add: opt_json_def split: option.split)

end
