(* ===== verification/RtcCommand.thy ===== *)
theory RtcCommand
  imports UpsThread Drift Startup Json
begin

text \<open>
  \<open>argonctl rtc\<close> (\<open>crates/argon-cli/src/rtc.rs\<close>): reading the clock and the wake schedule of the
  UPS, and the two experiments that write to it. The link, the system clock and the sleeps are the
  operations of one record; what is printed is left out, except the JSON of a query. Its theorem
  speaks of everything that goes over the link.
\<close>

section \<open>What the command needs of the link\<close>

text \<open>\<open>write_and_collect\<close> of \<open>serial.rs\<close> over a script of the port: the bytes written, and every
  byte that arrives before the deadline; \<open>None\<close> if the script ends before that.\<close>

fun collect_window :: "instant \<Rightarrow> script \<Rightarrow> u8 list \<Rightarrow> (string + u8 list) option" where
  "collect_window deadline [] got = None"
| "collect_window deadline ((now, event) # rest) got =
     (if deadline \<le> now then Some (Inr got)
      else case event of
             Data bytes \<Rightarrow> collect_window deadline rest (got @ bytes)
           | TimedOut \<Rightarrow> collect_window deadline rest got
           | Interrupted \<Rightarrow> collect_window deadline rest got
           | PortError e \<Rightarrow> Some (Inl e))"

definition write_and_collect ::
  "u8 list \<Rightarrow> instant \<Rightarrow> string option \<Rightarrow> script \<Rightarrow> serial_link \<Rightarrow> u8 list \<times> (hal_error + u8 list) option \<times> serial_link"
where
  "write_and_collect out deadline werr script l =
     (out,
      case werr of Some e \<Rightarrow> Some (Inl (Io e)) | None \<Rightarrow> map_option (map_err Io) (collect_window deadline script []),
      l\<lparr>sl_reader := reader_reset (sl_reader l)\<rparr>)"

lemma collect_window_reads:
  "collect_window deadline s got = Some (Inr bs) \<Longrightarrow> bs = got @ read_bytes deadline s"
  by (induction deadline s got rule: collect_window.induct) (auto split: if_splits port_read.splits)

record 'w rtc_ops =
  ro_request :: "command \<Rightarrow> 'w \<Rightarrow> (hal_error + frame) \<times> 'w"
  ro_collect :: "u8 list \<Rightarrow> 'w \<Rightarrow> (hal_error + u8 list) \<times> 'w"
  ro_now :: "'w \<Rightarrow> nat \<times> 'w"
  ro_sleep :: "duration \<Rightarrow> 'w \<Rightarrow> 'w"
  ro_next_second :: "'w \<Rightarrow> 'w"

definition T15_OFFSET_S :: nat where "T15_OFFSET_S = 3600 + 17 * 60 + 29"
definition TOLERANCE_S :: int where "TOLERANCE_S = 2"
definition LISTEN :: duration where "LISTEN = from_millis 1500"

definition signed_diff :: "nat \<Rightarrow> nat \<Rightarrow> int" where "signed_diff a b = to_i64 a - to_i64 b"

definition rtc_fmt :: "ups_time \<Rightarrow> string" where
  "rtc_fmt t =
     zero_pad 4 (show_nat (unat (ut_year t))) @ ''-'' @ show2 (ut_month t) @ ''-'' @ show2 (ut_day t) @ '' '' @
     show2 (ut_hour t) @ '':'' @ show2 (ut_minute t) @ '':'' @ show2 (case ut_second t of Some s \<Rightarrow> s | None \<Rightarrow> 0) @ '' UTC''"

definition decode_error_debug :: "decode_error \<Rightarrow> string" where
  "decode_error_debug e =
     (case e of
        LengthError want got \<Rightarrow> ''Length { want: '' @ show_nat want @ '', got: '' @ show_nat got @ '' }''
      | BcdError (InvalidBcd b) \<Rightarrow> ''Bcd(InvalidBcd('' @ show_nat (unat b) @ ''))''
      | RangeError (out_of_range.OutOfRange v) \<Rightarrow> ''Range(OutOfRange('' @ show_nat (unat v) @ ''))''
      | YearOutOfRange y \<Rightarrow> ''YearOutOfRange('' @ show_nat (unat y) @ '')'')"

fun frame_error_text :: "frame_error \<Rightarrow> string" where
  "frame_error_text (PayloadTooLong n) = ''payload of '' @ show_nat n @ '' bytes exceeds '' @ show_nat MAX_PAYLOAD"
| "frame_error_text (BufferTooSmall need got) = ''output buffer holds '' @ show_nat got @ '' bytes, need '' @ show_nat need"
| "frame_error_text (BadChecksum got want) =
     ''checksum mismatch: device sent 0x'' @ show_hex2 got @ '', computed 0x'' @ show_hex2 want"
| "frame_error_text (Desync dropped) = ''resynchronised after discarding '' @ show_nat dropped @ '' bytes''"

section \<open>Queries\<close>

definition rtc_read_clock :: "'w rtc_ops \<Rightarrow> 'w \<Rightarrow> (string + ups_time) \<times> 'w" where
  "rtc_read_clock ops w =
     (let (r, w1) = ro_request ops GetRtc w
      in (rbind (map_err hal_error_text r) (\<lambda>f.
            rbind (map_err decode_error_debug (decode_clock (frame_payload f))) (\<lambda>t.
              if is_plausible t then Inr t
              else Inl (''the clock read back as an impossible date: '' @ rtc_fmt t))), w1))"

definition rtc_read_wake :: "'w rtc_ops \<Rightarrow> 'w \<Rightarrow> (string + ups_time option) \<times> 'w" where
  "rtc_read_wake ops w =
     (let (r, w1) = ro_request ops GetWake w
      in (rbind (map_err hal_error_text r) (\<lambda>f.
            map_err decode_error_debug (decode_optional_schedule (frame_payload f))), w1))"

fun read_offsets :: "'w rtc_ops \<Rightarrow> nat \<Rightarrow> 'w \<Rightarrow> (string + int list) \<times> 'w" where
  "read_offsets ops 0 w = (Inr [], w)"
| "read_offsets ops (Suc n) w =
     (case rtc_read_clock ops w of
        (Inl e, w1) \<Rightarrow> (Inl e, w1)
      | (Inr ups, w1) \<Rightarrow>
          (let (sys, w2) = ro_now ops w1
           in case to_unix_seconds ups of
                None \<Rightarrow> (Inl ''implausible clock'', w2)
              | Some s \<Rightarrow>
                  (let w3 = (if 0 < n then ro_sleep ops (from_millis 1100) w2 else w2);
                       (r, w4) = read_offsets ops n w3
                   in (map_ok (\<lambda>os. signed_diff s sys # os) r, w4))))"

section \<open>Writes\<close>

definition send_frame :: "'w rtc_ops \<Rightarrow> command \<Rightarrow> u8 list \<Rightarrow> 'w \<Rightarrow> (string + unit) \<times> 'w" where
  "send_frame ops cmd payload w =
     (case frame_new (as_byte cmd) payload of
        Inl e \<Rightarrow> (Inl (frame_error_text e), w)
      | Inr f \<Rightarrow>
          (case encode_into f (replicate 16 0) of
             Inl e \<Rightarrow> (Inl (frame_error_text e), w)
           | Inr (n, out) \<Rightarrow>
               (let (r, w1) = ro_collect ops (take n out) w
                in (map_err hal_error_text (map_ok (\<lambda>_. ()) r), w1))))"

definition send_set :: "'w rtc_ops \<Rightarrow> ups_time \<Rightarrow> 'w \<Rightarrow> (string + unit) \<times> 'w" where
  "send_set ops t w =
     (case encode_clock t of
        Inl e \<Rightarrow> (Inl (decode_error_debug e), w)
      | Inr payload \<Rightarrow> send_frame ops SetRtc payload w)"

definition readback_round :: "'w rtc_ops \<Rightarrow> nat \<Rightarrow> int \<Rightarrow> 'w \<Rightarrow> bool \<times> 'w" where
  "readback_round ops sent_at offset_s w =
     (let w1 = ro_sleep ops (from_millis 1100) w;
          (now, w2) = ro_now ops w1;
          expected = to_i64 sent_at + offset_s + signed_diff now sent_at;
          (r, w3) = rtc_read_clock ops w2
      in (case r of
            Inr t \<Rightarrow> \<bar>(case to_unix_seconds t of None \<Rightarrow> 0 | Some s \<Rightarrow> to_i64 s) - expected\<bar> \<le> TOLERANCE_S
          | Inl _ \<Rightarrow> False, w3))"

definition check_readback :: "'w rtc_ops \<Rightarrow> nat \<Rightarrow> int \<Rightarrow> 'w \<Rightarrow> bool \<times> 'w" where
  "check_readback ops sent_at offset_s w =
     (let (a, w1) = readback_round ops sent_at offset_s w;
          (b, w2) = readback_round ops sent_at offset_s w1
      in (a \<and> b, w2))"

section \<open>The first experiment: the clock\<close>

record t15_outcome =
  to_confirmed :: bool
  to_restored :: bool

text \<open>The configuration is what loading it gives, with the text of the error.\<close>

definition t15_preconditions :: "string + config \<Rightarrow> string + ups_time option \<Rightarrow> bool \<Rightarrow> int list \<Rightarrow> string + unit" where
  "t15_preconditions cfg wake synced baseline =
     (case cfg of
        Inl e \<Rightarrow> Inl (''cannot read /etc/argon-utils/config.toml to check the mode: '' @ e)
      | Inr c \<Rightarrow>
          if (case config_mode c of Inr m \<Rightarrow> m | Inl _ \<Rightarrow> ReadOnly) \<noteq> Full
          then Inl (''mode is '' @ debug_str (cf_mode c) @ '' in /etc/argon-utils/config.toml; setting the UPS clock is a full-mode operation'')
          else case wake of
            Inl e \<Rightarrow> Inl (''the wake schedule could not be read ('' @ e @ '')'')
          | Inr (Some t) \<Rightarrow> Inl (''a wake schedule is set ('' @ rtc_fmt t @ ''); a wrong clock could move or fire it'')
          | Inr None \<Rightarrow>
              if \<not> synced
              then Inl ''the system clock is not NTP-synchronised, so restoring the UPS clock from it would make it worse''
              else let spread = (case baseline of [] \<Rightarrow> 0 | b # bs \<Rightarrow> foldl max b bs - foldl min b bs)
                   in if TOLERANCE_S < spread
                      then Inl (''the baseline reads disagree by '' @ show_int spread @ '' s; the clock is not ticking steadily'')
                      else Inr ())"

text \<open>The subtraction of the target wraps in a release build.\<close>

definition t15_target :: "nat \<Rightarrow> ups_time option" where
  "t15_target now = from_unix_seconds ((now + 2 ^ 64 - T15_OFFSET_S) mod 2 ^ 64)"

definition set_and_check :: "'w rtc_ops \<Rightarrow> ups_time \<Rightarrow> nat \<Rightarrow> int \<Rightarrow> 'w \<Rightarrow> bool \<times> 'w" where
  "set_and_check ops t sent_at offset_s w =
     (case send_set ops t w of
        (Inl _, w1) \<Rightarrow> (False, w1)
      | (Inr _, w1) \<Rightarrow> check_readback ops sent_at offset_s w1)"

definition t15 :: "'w rtc_ops \<Rightarrow> 'w \<Rightarrow> t15_outcome \<times> 'w" where
  "t15 ops w =
     (let (wrong_sent_at, w1) = ro_now ops w
      in case t15_target wrong_sent_at of
        None \<Rightarrow> (\<lparr>to_confirmed = False, to_restored = False\<rparr>, w1)
      | Some target \<Rightarrow>
          (let (confirmed, w2) = set_and_check ops target wrong_sent_at (- int T15_OFFSET_S) w1;
               (right_sent_at, w3) = ro_now ops (ro_next_second ops w2);
               (restored, w4) =
                 (case from_unix_seconds right_sent_at of
                    None \<Rightarrow> (False, w3)
                  | Some now \<Rightarrow> set_and_check ops now right_sent_at 0 w3)
           in (\<lparr>to_confirmed = confirmed, to_restored = restored\<rparr>, w4)))"

section \<open>The second experiment: the wake schedule\<close>

definition T17_FIRST :: ups_time where
  "T17_FIRST = \<lparr>ut_year = 2098, ut_month = 7, ut_day = 13, ut_hour = 6, ut_minute = 29, ut_second = None\<rparr>"
definition T17_SECOND :: ups_time where
  "T17_SECOND = \<lparr>ut_year = 2097, ut_month = 3, ut_day = 21, ut_hour = 17, ut_minute = 42, ut_second = None\<rparr>"

definition t17_preconditions :: "string + config \<Rightarrow> string + ups_time option \<Rightarrow> string + unit" where
  "t17_preconditions cfg wake =
     (case cfg of
        Inl e \<Rightarrow> Inl (''cannot read /etc/argon-utils/config.toml to check the mode: '' @ e)
      | Inr c \<Rightarrow>
          if (case config_mode c of Inr m \<Rightarrow> m | Inl _ \<Rightarrow> ReadOnly) \<noteq> Full
          then Inl (''mode is '' @ debug_str (cf_mode c) @ '' in /etc/argon-utils/config.toml; setting a wake schedule is a full-mode operation'')
          else case wake of
            Inr None \<Rightarrow> Inr ()
          | Inr (Some t) \<Rightarrow>
              Inl (''a wake schedule is already set ('' @ rtc_fmt t @ ''); it would be overwritten and cannot be restored'')
          | Inl e \<Rightarrow> Inl (''the current wake schedule could not be read ('' @ e @ '')''))"

fun wake_readbacks :: "'w rtc_ops \<Rightarrow> ups_time \<Rightarrow> nat \<Rightarrow> 'w \<Rightarrow> bool \<times> 'w" where
  "wake_readbacks ops target 0 w = (True, w)"
| "wake_readbacks ops target (Suc n) w =
     (let (r, w1) = rtc_read_wake ops (ro_sleep ops (from_millis 500) w)
      in if (case r of Inr (Some got) \<Rightarrow> same_minute got target | _ \<Rightarrow> False)
         then wake_readbacks ops target n w1 else (False, w1))"

fun t17_rounds :: "'w rtc_ops \<Rightarrow> ups_time list \<Rightarrow> 'w \<Rightarrow> bool list \<times> 'w" where
  "t17_rounds ops [] w = ([], w)"
| "t17_rounds ops (target # rest) w =
     (case encode_schedule target of
        Inl _ \<Rightarrow> ([], w)
      | Inr payload \<Rightarrow>
          (case send_frame ops SetWake payload w of
             (Inl _, w1) \<Rightarrow> ([], w1)
           | (Inr _, w1) \<Rightarrow>
               (let (b, w2) = wake_readbacks ops target 2 w1; (bs, w3) = t17_rounds ops rest w2
                in (b # bs, w3))))"

text \<open>The two results, false where a round was not reached.\<close>

definition t17 :: "'w rtc_ops \<Rightarrow> 'w \<Rightarrow> (bool \<times> bool) \<times> 'w" where
  "t17 ops w =
     (let (bs, w1) = t17_rounds ops [T17_FIRST, T17_SECOND] w; rs = bs @ [False, False]
      in ((rs ! 0, rs ! 1), w1))"

definition run_t17 :: "'w rtc_ops \<Rightarrow> string + config \<Rightarrow> string + ups_time option \<Rightarrow> 'w \<Rightarrow> bool \<times> 'w" where
  "run_t17 ops cfg wake w =
     (case t17_preconditions cfg wake of
        Inl _ \<Rightarrow> (False, w)
      | Inr _ \<Rightarrow>
          (let ((first, second), w1) = t17 ops w; (_, w2) = rtc_read_wake ops w1
           in (first \<and> second, w2)))"

section \<open>The command\<close>

record rtc_args =
  ra_t15 :: bool
  ra_t17 :: bool
  ra_write :: bool
  ra_port :: string
  ra_json :: bool

definition resolve_port :: "string \<Rightarrow> string option \<Rightarrow> string option" where
  "resolve_port port discovered = (if port = ''auto'' then discovered else Some port)"

text \<open>Who may be reading the port: the vendor units, the daemon, and the processes that hold it,
  each with its number and its name.\<close>

definition port_is_free :: "unit_state list \<Rightarrow> bool \<Rightarrow> (nat \<times> string) list \<Rightarrow> string \<Rightarrow> string + unit" where
  "port_is_free units argond owners path =
     (if list_ex (\<lambda>u. un_unit u = ''argonupsrtcd.service'' \<and> unit_contends u) units
      then Inl ''argonupsrtcd is running and holds the UPS port. Stop it first.''
      else if argond
      then Inl (''argond is running and owns the UPS port. For the few seconds this takes, stop it:'' @ [newline, newline] @
                ''    sudo systemctl stop argond'' @ [newline, newline] @
                ''and start it again afterwards. Do this on mains: while it is stopped, nothing watches the battery.'')
      else case owners of
        (pid, comm) # _ \<Rightarrow>
          Inl (path @ '' is held by pid '' @ show_nat pid @ '' ('' @ comm @ ''). Two readers corrupt each other'' @ [CHR 0x27] @ ''s frames.'')
      | [] \<Rightarrow> Inr ())"

text \<open>What the command finds: the discovered port, who holds it, whether it opens, the configuration
  and whether the system clock is synchronised.\<close>

record rtc_env =
  rv_discovered :: "string option"
  rv_units :: "unit_state list"
  rv_argond :: bool
  rv_owners :: "string \<Rightarrow> (nat \<times> string) list"
  rv_opens :: "string \<Rightarrow> bool"
  rv_config :: "string + config"
  rv_synced :: bool

text \<open>\<open>run\<close>: whether it ends in success.\<close>

definition rtc_run :: "'w rtc_ops \<Rightarrow> rtc_args \<Rightarrow> rtc_env \<Rightarrow> 'w \<Rightarrow> bool \<times> 'w" where
  "rtc_run ops a v w =
     (let experiment = (ra_t15 a \<or> ra_t17 a)
      in if experiment \<and> \<not> ra_write a then (False, w)
         else if ra_write a \<and> \<not> experiment then (False, w)
         else case resolve_port (ra_port a) (rv_discovered v) of
           None \<Rightarrow> (False, w)
         | Some path \<Rightarrow>
             if \<not> is_ok (port_is_free (rv_units v) (rv_argond v) (rv_owners v path) path) then (False, w)
             else if \<not> rv_opens v path then (False, w)
             else case read_offsets ops 3 w of
               (Inl _, w1) \<Rightarrow> (False, w1)
             | (Inr baseline, w1) \<Rightarrow>
                 (let (wake, w2) = rtc_read_wake ops w1
                  in if ra_json a then (True, w2)
                     else if ra_t17 a then run_t17 ops (rv_config v) wake w2
                     else if \<not> ra_t15 a then (True, w2)
                     else if \<not> is_ok (t15_preconditions (rv_config v) wake (rv_synced v) baseline) then (False, w2)
                     else let (out, w3) = t15 ops w2 in (to_confirmed out \<and> to_restored out, w3)))"

text \<open>The answer of a query as JSON, with what the drift record holds.\<close>

definition json_query :: "string \<Rightarrow> int list \<Rightarrow> string + ups_time option \<Rightarrow> string \<Rightarrow> json" where
  "json_query port offsets wake record_text =
     (let entries = drift_read record_text; rate = rate_terms entries
      in JObj [(''route'', JStr ''rtc-serial''), (''port'', JStr port), (''offsets_s'', JArr (map JInt offsets)),
               (''wake_at'', opt_json (\<lambda>t. JStr (rtc_fmt t)) (case wake of Inr w \<Rightarrow> w | Inl _ \<Rightarrow> None)),
               (''wake_error'', (case wake of Inl e \<Rightarrow> JStr e | Inr _ \<Rightarrow> JNull)),
               (''drift_checks_recorded'', jnat (length entries)),
               (''drift_s_per_day'', opt_json (\<lambda>(gain, span). JQuot (gain * 86400) (int span)) rate),
               (''drift_span_days'', opt_json (\<lambda>(gain, span). JQuot (int span) 86400) rate)])"

section \<open>Everything that goes over the link\<close>

datatype rtc_event = Asked command "hal_error + frame" | Sent "u8 list"

text \<open>The same operations, with a log of what is asked and answered and of what is written.\<close>

definition tapped :: "'w rtc_ops \<Rightarrow> ('w \<times> rtc_event list) rtc_ops" where
  "tapped ops =
     \<lparr>ro_request = (\<lambda>c (w, log). let (r, w1) = ro_request ops c w in (r, (w1, log @ [Asked c r]))),
      ro_collect = (\<lambda>out (w, log). let (r, w1) = ro_collect ops out w in (r, (w1, log @ [Sent out]))),
      ro_now = (\<lambda>(w, log). let (n, w1) = ro_now ops w in (n, (w1, log))),
      ro_sleep = (\<lambda>d (w, log). (ro_sleep ops d w, log)),
      ro_next_second = (\<lambda>(w, log). (ro_next_second ops w, log))\<rparr>"

definition adds :: "(rtc_event \<Rightarrow> bool) \<Rightarrow> 'w \<times> rtc_event list \<Rightarrow> 'w \<times> rtc_event list \<Rightarrow> bool" where
  "adds P s s' \<longleftrightarrow> (\<exists>es. snd s' = snd s @ es \<and> list_all P es)"

lemma adds_refl [simp]: "adds P s s"
  by (simp add: adds_def)

lemma adds_trans: "adds P s s' \<Longrightarrow> adds P s' s'' \<Longrightarrow> adds P s s''"
  by (auto simp: adds_def)

lemma adds_mono: "adds P s s' \<Longrightarrow> (\<And>e. P e \<Longrightarrow> Q e) \<Longrightarrow> adds Q s s'"
  by (auto simp: adds_def list_all_iff)

lemma tapped_request: "snd (snd (ro_request (tapped ops) c s)) = snd s @ [Asked c (fst (ro_request (tapped ops) c s))]"
  by (cases s) (simp add: tapped_def split_beta)

lemma tapped_quiet [simp]:
  "snd (snd (ro_now (tapped ops) s)) = snd s" "snd (ro_sleep (tapped ops) d s) = snd s"
  "snd (ro_next_second (tapped ops) s) = snd s"
  by (cases s; simp add: tapped_def split_beta)+

lemma adds_quiet [simp]:
  "adds P s (snd (ro_now (tapped ops) s))" "adds P s (ro_sleep (tapped ops) d s)" "adds P s (ro_next_second (tapped ops) s)"
  by (simp_all add: adds_def)

lemma adds_request: "(\<And>r. P (Asked c r)) \<Longrightarrow> adds P s (snd (ro_request (tapped ops) c s))"
  by (auto simp: adds_def tapped_request)

lemma adds_collect: "P (Sent out) \<Longrightarrow> adds P s (snd (ro_collect (tapped ops) out s))"
  by (cases s) (auto simp: adds_def tapped_def split_beta)

definition clock_read :: "rtc_event \<Rightarrow> bool" where
  "clock_read e \<longleftrightarrow> (\<exists>r. e = Asked GetRtc r)"

lemma adds_read_clock: "adds clock_read s (snd (rtc_read_clock (tapped ops) s))"
  by (simp add: rtc_read_clock_def split_beta adds_request clock_read_def)

lemma read_wake_log:
  "\<exists>r. fst (rtc_read_wake (tapped ops) s) = rbind (map_err hal_error_text r) (\<lambda>f.
          map_err decode_error_debug (decode_optional_schedule (frame_payload f)))
     \<and> snd (snd (rtc_read_wake (tapped ops) s)) = snd s @ [Asked GetWake r]"
  by (auto simp: rtc_read_wake_def split_beta tapped_request)

lemma adds_read_wake: "(\<And>r. P (Asked GetWake r)) \<Longrightarrow> adds P s (snd (rtc_read_wake (tapped ops) s))"
  by (simp add: rtc_read_wake_def split_beta adds_request)

lemma adds_offsets: "adds clock_read s (snd (read_offsets (tapped ops) n s))"
proof (induction n arbitrary: s)
  case (Suc n)
  obtain r s1 where c: "rtc_read_clock (tapped ops) s = (r, s1)" by (metis surj_pair)
  then have a: "adds clock_read s s1" using adds_read_clock[of s ops] by simp
  obtain sys s2 where t: "ro_now (tapped ops) s1 = (sys, s2)" by (metis surj_pair)
  then have b: "adds clock_read s s2" using a adds_trans[OF a, of s2] adds_quiet(1)[of clock_read s1 ops] by simp
  let ?s3 = "if 0 < n then ro_sleep (tapped ops) (from_millis 1100) s2 else s2"
  have "adds clock_read s ?s3" using b adds_trans[OF b] by (auto intro: adds_quiet)
  then have "adds clock_read s (snd (read_offsets (tapped ops) n ?s3))" using Suc adds_trans by blast
  with c t a b show ?case by (cases r; cases "0 < n") (simp_all add: split_beta Let_def split: option.split)
qed simp

text \<open>The frames the experiments may write.\<close>

definition clock_frames :: "u8 list set" where
  "clock_frames = {wire (frame_of (as_byte SetRtc) p) | p t. encode_clock t = Inr p}"

definition wake_frames :: "u8 list set" where
  "wake_frames = {wire (frame_of (as_byte SetWake) p) | p t. t \<in> {T17_FIRST, T17_SECOND} \<and> encode_schedule t = Inr p}"

lemma adds_send_frame:
  assumes "length payload \<le> 12" "P (Sent (wire (frame_of (as_byte cmd) payload)))"
  shows "adds P s (snd (send_frame (tapped ops) cmd payload s))"
proof -
  have "frame_ok (frame_of (as_byte cmd) payload)" using assms(1) by simp
  moreover have "length (wire (frame_of (as_byte cmd) payload)) \<le> length (replicate 16 (0 :: u8))"
    using assms(1) by (simp add: frame_bytes_def)
  ultimately show ?thesis using assms
    by (simp add: send_frame_def encode_into_eq split_beta adds_collect del: length_replicate)
qed

lemma adds_send_set: "(\<And>b. b \<in> clock_frames \<Longrightarrow> P (Sent b)) \<Longrightarrow> adds P s (snd (send_set (tapped ops) t s))"
proof (cases "encode_clock t")
  case (Inr p)
  assume P: "\<And>b. b \<in> clock_frames \<Longrightarrow> P (Sent b)"
  have "length p = 6" using encode_clock_length6[OF Inr] .
  moreover have "wire (frame_of (as_byte SetRtc) p) \<in> clock_frames" using Inr by (auto simp: clock_frames_def)
  ultimately show ?thesis using P Inr by (simp add: send_set_def adds_send_frame)
qed (simp add: send_set_def)

lemma adds_round: "adds clock_read s (snd (readback_round (tapped ops) at off s))"
  unfolding readback_round_def Let_def split_beta snd_conv
  by (rule adds_trans[OF adds_quiet(2) adds_trans[OF adds_quiet(1) adds_read_clock]])

lemma adds_readback: "adds clock_read s (snd (check_readback (tapped ops) at off s))"
  unfolding check_readback_def Let_def split_beta snd_conv by (rule adds_trans[OF adds_round adds_round])

definition t15_event :: "rtc_event \<Rightarrow> bool" where
  "t15_event e \<longleftrightarrow> clock_read e \<or> (\<exists>b \<in> clock_frames. e = Sent b)"

definition t17_event :: "rtc_event \<Rightarrow> bool" where
  "t17_event e \<longleftrightarrow> (\<exists>r. e = Asked GetWake r) \<or> (\<exists>b \<in> wake_frames. e = Sent b)"

lemma adds_set_and_check: "adds t15_event s (snd (set_and_check (tapped ops) t at off s))"
proof -
  obtain r s1 where s1: "send_set (tapped ops) t s = (r, s1)" by (metis surj_pair)
  have "adds t15_event s s1" using adds_send_set[of t15_event s ops t] s1 by (simp add: t15_event_def)
  moreover have "adds t15_event s1 (snd (check_readback (tapped ops) at off s1))"
    by (rule adds_mono[OF adds_readback]) (simp add: t15_event_def)
  moreover from calculation have "adds t15_event s (snd (check_readback (tapped ops) at off s1))" by (rule adds_trans)
  ultimately show ?thesis using s1 by (cases r) (simp_all add: set_and_check_def)
qed

lemma adds_t15: "adds t15_event s (snd (t15 (tapped ops) s))"
proof -
  obtain n s1 where s1: "ro_now (tapped ops) s = (n, s1)" by (metis surj_pair)
  then have a1: "adds t15_event s s1" using adds_quiet(1)[of t15_event s ops] by simp
  show ?thesis
  proof (cases "t15_target n")
    case (Some t)
    obtain c s2 where s2: "set_and_check (tapped ops) t n (- int T15_OFFSET_S) s1 = (c, s2)" by (metis surj_pair)
    obtain m s3 where s3: "ro_now (tapped ops) (ro_next_second (tapped ops) s2) = (m, s3)" by (metis surj_pair)
    have "adds t15_event s s2" using a1 adds_set_and_check[of s1 ops t] s2 by (metis adds_trans snd_conv)
    moreover have "adds t15_event s2 s3"
      using adds_trans[OF adds_quiet(3) adds_quiet(1), of t15_event s2 ops ops] s3 by simp
    ultimately have a3: "adds t15_event s s3" by (rule adds_trans)
    have "adds t15_event s (snd (set_and_check (tapped ops) u m 0 s3))" for u
      by (rule adds_trans[OF a3 adds_set_and_check])
    with a3 show ?thesis by (simp add: t15_def s1 Some s2 s3 split_beta split: option.split)
  qed (use s1 a1 in \<open>simp add: t15_def\<close>)
qed

lemma adds_wake_readbacks: "adds t17_event s (snd (wake_readbacks (tapped ops) t n s))"
proof (induction n arbitrary: s)
  case (Suc n)
  let ?s1 = "snd (rtc_read_wake (tapped ops) (ro_sleep (tapped ops) (from_millis 500) s))"
  have "adds t17_event s ?s1"
    by (rule adds_trans[OF adds_quiet(2) adds_read_wake]) (simp add: t17_event_def)
  from adds_trans[OF this Suc] this show ?case by (simp add: split_beta Let_def)
qed simp

lemma encode_schedule_length5: "encode_schedule t = Inr p \<Longrightarrow> length p = 5"
  by (auto simp: encode_schedule_def rbind_Inr_iff)

lemma adds_t17_rounds: "set ts \<subseteq> {T17_FIRST, T17_SECOND} \<Longrightarrow> adds t17_event s (snd (t17_rounds (tapped ops) ts s))"
proof (induction ts arbitrary: s)
  case (Cons t ts)
  show ?case
  proof (cases "encode_schedule t")
    case (Inr p)
    have "wire (frame_of (as_byte SetWake) p) \<in> wake_frames" using Inr Cons.prems by (auto simp: wake_frames_def)
    then have f: "adds t17_event s (snd (send_frame (tapped ops) SetWake p s))" for s
      using encode_schedule_length5[OF Inr] by (intro adds_send_frame) (auto simp: t17_event_def)
    obtain r s1 where s1: "send_frame (tapped ops) SetWake p s = (r, s1)" by (metis surj_pair)
    let ?s2 = "snd (wake_readbacks (tapped ops) t 2 s1)"
    have "adds t17_event s s1" using f[of s] s1 by simp
    moreover have "adds t17_event s (snd (t17_rounds (tapped ops) ts ?s2))"
      using adds_trans[OF adds_trans[OF calculation adds_wake_readbacks] Cons.IH] Cons.prems by auto
    ultimately show ?thesis using Inr s1 by (cases r) (simp_all add: split_beta Let_def numeral_2_eq_2)
  qed simp
qed simp

lemma adds_t17: "adds t17_event s (snd (run_t17 (tapped ops) cfg wake s))"
proof -
  have a: "adds t17_event s (snd (t17 (tapped ops) s))"
    using adds_t17_rounds[of "[T17_FIRST, T17_SECOND]" s ops] by (simp add: t17_def split_beta Let_def)
  have "adds t17_event s (snd (rtc_read_wake (tapped ops) (snd (t17 (tapped ops) s))))"
    by (rule adds_trans[OF a adds_read_wake]) (simp add: t17_event_def)
  then show ?thesis by (simp add: run_t17_def split_beta Let_def split: sum.split)
qed

text \<open>The schedule was read, before anything was written, and there was none.\<close>

definition Sent_event :: "rtc_event \<Rightarrow> bool" where
  "Sent_event e = (case e of Sent _ \<Rightarrow> True | Asked _ _ \<Rightarrow> False)"

definition no_wake_read_first :: "rtc_event list \<Rightarrow> bool" where
  "no_wake_read_first log \<longleftrightarrow>
     (\<exists>f. Asked GetWake (Inr f) \<in> set (takeWhile (\<lambda>e. \<not> Sent_event e) log)
        \<and> decode_optional_schedule (frame_payload f) = Inr None)"

definition full_mode :: "string + config \<Rightarrow> bool" where
  "full_mode cfg = (case cfg of Inl _ \<Rightarrow> False | Inr c \<Rightarrow> config_mode c = Inr Full)"

definition may_write :: "rtc_args \<Rightarrow> rtc_env \<Rightarrow> rtc_event list \<Rightarrow> u8 list set" where
  "may_write a v log =
     (if ra_write a \<and> full_mode (rv_config v) \<and> no_wake_read_first log
      then if ra_t17 a then wake_frames else if ra_t15 a \<and> rv_synced v then clock_frames else {}
      else {})"

lemma t17_preconditions_ok: "is_ok (t17_preconditions cfg wake) \<Longrightarrow> full_mode cfg \<and> wake = Inr None"
  by (auto simp: t17_preconditions_def full_mode_def split: sum.splits if_splits option.splits)

lemma t15_preconditions_ok: "is_ok (t15_preconditions cfg wake synced bs) \<Longrightarrow> full_mode cfg \<and> wake = Inr None \<and> synced"
  by (auto simp: t15_preconditions_def full_mode_def Let_def split: sum.splits if_splits option.splits list.splits)

lemma asked_offsets:
  assumes "adds clock_read (w, []) (w1, log1)"
  shows "\<not> Sent b \<in> set log1" "Asked c r \<in> set log1 \<Longrightarrow> c = GetRtc" "list_all (\<lambda>e. \<not> Sent_event e) log1"
  using assms by (auto simp: adds_def clock_read_def list_all_iff Sent_event_def)

lemma t17_events: "t17_event e \<Longrightarrow> (\<exists>r. e = Asked GetWake r) \<or> (\<exists>b \<in> wake_frames. e = Sent b)"
  by (simp add: t17_event_def)

lemma t15_events: "t15_event e \<Longrightarrow> (\<exists>r. e = Asked GetRtc r) \<or> (\<exists>b \<in> clock_frames. e = Sent b)"
  by (auto simp: t15_event_def clock_read_def)

text \<open>What a run comes to: queries only, or queries of which one found no schedule and then one of the
  experiments.\<close>

lemma rtc_run_cases:
  obtains (queries) log where "snd (snd (rtc_run (tapped ops) a v (w, []))) = log"
      "\<forall>e \<in> set log. \<exists>r. e = Asked GetRtc r \<or> e = Asked GetWake r"
  | (trial) log r es where "snd (snd (rtc_run (tapped ops) a v (w, []))) = log @ Asked GetWake r # es"
      "\<forall>e \<in> set log. \<exists>r. e = Asked GetRtc r"
      "rbind (map_err hal_error_text r) (\<lambda>f.
          map_err decode_error_debug (decode_optional_schedule (frame_payload f))) = Inr None"
      "ra_write a" "full_mode (rv_config v)"
      "if ra_t17 a then list_all t17_event es else ra_t15 a \<and> rv_synced v \<and> list_all t15_event es"
proof -
  let ?run = "rtc_run (tapped ops) a v (w, [])"
  obtain o1 s1 where o1: "read_offsets (tapped ops) 3 (w, []) = (o1, s1)" by (metis surj_pair)
  have log1: "\<forall>e \<in> set (snd s1). \<exists>r. e = Asked GetRtc r"
    using adds_offsets[of "(w, [])" ops 3] o1 by (auto simp: adds_def clock_read_def list_all_iff)
  obtain wake s2 where s2: "rtc_read_wake (tapped ops) s1 = (wake, s2)" by (metis surj_pair)
  obtain r where r: "wake = rbind (map_err hal_error_text r) (\<lambda>f.
          map_err decode_error_debug (decode_optional_schedule (frame_payload f)))"
    "snd s2 = snd s1 @ [Asked GetWake r]" using read_wake_log[of ops s1] s2 by auto
  have stop: thesis if "snd (snd ?run) \<in> {[], snd s1, snd s2}"
    using that log1 r(2) queries by fastforce
  show thesis
  proof (cases "snd (snd ?run) \<in> {[], snd s1, snd s2}")
    case False
    then have w: "ra_write a" and run: "snd ?run = snd (if ra_t17 a then run_t17 (tapped ops) (rv_config v) wake s2
        else (let (out, s3) = t15 (tapped ops) s2 in (to_confirmed out \<and> to_restored out, s3)))"
      and pre: "if ra_t17 a then True else ra_t15 a \<and> is_ok (t15_preconditions (rv_config v) wake (rv_synced v) (case o1 of Inr b \<Rightarrow> b | Inl _ \<Rightarrow> []))"
      using o1 s2 by (auto simp: rtc_run_def Let_def split: if_splits option.splits sum.splits)
    show thesis
    proof (cases "ra_t17 a")
      case True
      then have run': "snd ?run = snd (run_t17 (tapped ops) (rv_config v) wake s2)" using run by simp
      have "is_ok (t17_preconditions (rv_config v) wake)"
        using False run' by (cases "t17_preconditions (rv_config v) wake") (simp_all add: run_t17_def)
      then have ok: "full_mode (rv_config v)" "wake = Inr None" using t17_preconditions_ok by blast+
      obtain es where "snd (snd ?run) = snd s2 @ es" "list_all t17_event es"
        using adds_t17[of s2 ops "rv_config v" wake] run' by (auto simp: adds_def)
      then show thesis using trial[of "snd s1" r es] r ok w True log1 by simp
    next
      case t15: False
      then have ok: "full_mode (rv_config v)" "wake = Inr None" "rv_synced v" "ra_t15 a"
        using pre t15_preconditions_ok by auto
      have run': "snd ?run = snd (t15 (tapped ops) s2)" using run t15 by (simp add: split_beta)
      obtain es where "snd (snd ?run) = snd s2 @ es" "list_all t15_event es"
        using adds_t15[of s2 ops] run' by (auto simp: adds_def)
      then show thesis using trial[of "snd s1" r es] r ok w t15 log1 by simp
    qed
  qed (rule stop)
qed

text \<open>C38: nothing goes over the link but queries of the clock and the schedule, except that an experiment
  asked for with \<open>--write\<close> may write, in full mode and only after the schedule was read and there was
  none: the two far-off wake times of T17, or, with the system clock synchronised, clock settings of T15.\<close>

theorem rtc_writes_only_permitted:
  "let log = snd (snd (rtc_run (tapped ops) a v (w, [])))
   in {c. \<exists>r. Asked c r \<in> set log} \<subseteq> {GetRtc, GetWake} \<and> {b. Sent b \<in> set log} \<subseteq> may_write a v log"
proof (cases rule: rtc_run_cases[of ops a v w])
  case (queries log)
  then have "{c. \<exists>r. Asked c r \<in> set log} \<subseteq> {GetRtc, GetWake}" "{b. Sent b \<in> set log} = {}" by auto
  then show ?thesis using queries(1) by simp
next
  case (trial log r es)
  let ?log = "log @ Asked GetWake r # es"
  have q: "\<forall>e \<in> set log. \<not> Sent_event e" using trial(2) by (auto simp: Sent_event_def)
  obtain f where f: "r = Inr f" "decode_optional_schedule (frame_payload f) = Inr None"
    using trial(3) by (auto simp: rbind_def map_err_def split: sum.splits)
  have "Asked GetWake (Inr f) \<in> set (takeWhile (\<lambda>e. \<not> Sent_event e) ?log)"
    using q f(1) by (simp add: Sent_event_def)
  then have n: "no_wake_read_first ?log" using f(2) unfolding no_wake_read_first_def by blast
  have "{c. \<exists>r. Asked c r \<in> set ?log} \<subseteq> {GetRtc, GetWake}"
    using trial(2,6) t15_events t17_events by (fastforce simp: list_all_iff split: if_splits)
  moreover have "{b. Sent b \<in> set ?log} \<subseteq> may_write a v ?log"
    using trial(2,4-6) n t15_events t17_events by (fastforce simp: may_write_def list_all_iff split: if_splits)
  ultimately show ?thesis using trial(1) by simp
qed

text \<open>The two wake times of T17 are far off: no schedule that it leaves behind is due before the nineties
  of the century.\<close>

lemma t17_times_far: "t \<in> {T17_FIRST, T17_SECOND} \<Longrightarrow> is_plausible t \<and> 2090 \<le> unat (ut_year t)"
  by (auto simp: T17_FIRST_def T17_SECOND_def is_plausible_def)

text \<open>T15 does not stop at a clock that did not take the wrong time: the setting of the right one is tried
  whatever the first set came to.\<close>

lemma t15_always_restores:
  assumes "ro_now ops w = (n, w1)" "t15_target n = Some target"
    and "set_and_check ops target n (- int T15_OFFSET_S) w1 = (c, w2)"
    and "ro_now ops (ro_next_second ops w2) = (m, w3)" "from_unix_seconds m = Some now"
  shows "t15 ops w = (\<lparr>to_confirmed = c, to_restored = fst (set_and_check ops now m 0 w3)\<rparr>, snd (set_and_check ops now m 0 w3))"
  using assms by (simp add: t15_def split_beta)

end
