(* ===== verification/FanCommand.thy ===== *)
theory FanCommand
  imports FanTask Startup Json
begin

text \<open>
  \<open>argonctl fan\<close> (\<open>crates/argon-cli/src/fan.rs\<close>): what the curve would do, the dry run of the
  controller, and the three paths that write to the bus, \<open>--safe\<close>, \<open>--set\<close> and \<open>--t5\<close>. The bus is
  a record of operations; the theorem speaks of everything that is written to it.
\<close>

section \<open>The command line and the machine\<close>

record fan_args =
  fa_watch :: bool
  fa_count :: nat
  fa_safe :: bool
  fa_json :: bool
  fa_set :: "u8 option"
  fa_t5 :: "string option"
  fa_write :: bool
  fa_probe :: bool

text \<open>The loaded configuration, if there is a file and it can be read, with the text of the error; the bus
  found by the name of its adapter; whether a device opens; whether the daemon runs; the CPU sensor.\<close>

record 't fan_env =
  fv_config :: "string + config"
  fv_discovered :: "string option"
  fv_opens :: "string \<Rightarrow> bool"
  fv_argond :: bool
  fv_sensor :: "'t option"
  fv_read :: "'t \<Rightarrow> (hal_error + i32) \<times> 't"

definition cli_load :: "'t fan_env \<Rightarrow> (config \<times> mode \<times> fan_curve) option" where
  "cli_load v =
     (case fv_config v of
        Inl _ \<Rightarrow> None
      | Inr c \<Rightarrow>
          (case config_mode c of
             Inl _ \<Rightarrow> None
           | Inr m \<Rightarrow> (case config_fan_curve c of Inl _ \<Rightarrow> None | Inr curve \<Rightarrow> Some (c, m, curve))))"

definition cli_resolve_bus :: "config \<Rightarrow> string option \<Rightarrow> string + string" where
  "cli_resolve_bus c discovered =
     (if mcf_bus (cf_mcu c) \<noteq> ''auto'' then Inr (mcf_bus (cf_mcu c))
      else case discovered of
        Some p \<Rightarrow> Inr p
      | None \<Rightarrow> Inl ''no I2C bus found; is dtparam=i2c_arm=on set?'')"

text \<open>The bus the command opens, if it can.\<close>

definition opened_bus :: "config \<Rightarrow> 't fan_env \<Rightarrow> string option" where
  "opened_bus c v =
     (case cli_resolve_bus c (fv_discovered v) of
        Inl _ \<Rightarrow> None
      | Inr p \<Rightarrow> if fv_opens v p then Some p else None)"

section \<open>The paths that write\<close>

text \<open>A test duty is sent as asked for, in the configured dialect.\<close>

definition duty_frame :: "config \<Rightarrow> u8 \<Rightarrow> u8 list" where
  "duty_frame c percent =
     (let byte = min percent 100
      in case configured_dialect (cf_mcu c) of Legacy \<Rightarrow> [byte] | Register \<Rightarrow> [0x80, byte])"

definition cli_set_duty :: "'b i2c_ops \<Rightarrow> 't fan_env \<Rightarrow> config \<Rightarrow> u8 \<Rightarrow> bool \<Rightarrow> 'b \<Rightarrow> bool \<times> 'b" where
  "cli_set_duty bus v c percent go b =
     (if \<not> go then (True, b)
      else if fv_argond v then (False, b)
      else case opened_bus c v of
        None \<Rightarrow> (False, b)
      | Some _ \<Rightarrow> (let (r, b1) = i2c_write bus b ADDR (duty_frame c percent) in (is_ok r, b1)))"

definition t5_duty :: "string \<Rightarrow> u8 option" where
  "t5_duty step =
     (if step = ''baseline'' then Some (as_mcu_byte (duty_clamped 25))
      else if step = ''restore'' then Some (as_mcu_byte (duty_clamped 50)) else None)"

text \<open>The register read of the second step goes through an operation of its own.\<close>

definition cli_t5 :: "'b i2c_ops \<Rightarrow> ('b \<Rightarrow> (hal_error + u8) \<times> 'b) \<Rightarrow> 't fan_env \<Rightarrow> config \<Rightarrow> string \<Rightarrow> bool \<Rightarrow> 'b \<Rightarrow> bool \<times> 'b" where
  "cli_t5 bus read_register v c step go b =
     (if step \<notin> {''baseline'', ''probe'', ''restore''} then (False, b)
      else if \<not> go then (True, b)
      else case opened_bus c v of
        None \<Rightarrow> (False, b)
      | Some _ \<Rightarrow>
          (case t5_duty step of
             None \<Rightarrow> (True, snd (read_register b))
           | Some byte \<Rightarrow> (let (r, b1) = i2c_write bus b ADDR [byte] in (is_ok r, b1))))"

definition cli_probe :: "'b i2c_ops \<Rightarrow> 't fan_env \<Rightarrow> config \<Rightarrow> 'b \<Rightarrow> bool \<times> 'b" where
  "cli_probe bus v c b =
     (case opened_bus c v of
        None \<Rightarrow> (False, b)
      | Some _ \<Rightarrow> (let (r, b1) = i2c_probe (read_only_ops bus) b ADDR in (is_ok r, b1)))"

definition cli_set_safe :: "'b i2c_ops \<Rightarrow> 't fan_env \<Rightarrow> config \<Rightarrow> mode \<Rightarrow> 'b \<Rightarrow> bool \<times> 'b" where
  "cli_set_safe bus v c m b =
     (if \<not> allows_writes m then (True, b)
      else case opened_bus c v of
        None \<Rightarrow> (False, b)
      | Some _ \<Rightarrow>
          (case is_present bus (mcu_new b (configured_dialect (cf_mcu c))) of
             (Inl _, mcu) \<Rightarrow> (False, mc_bus mcu)
           | (Inr False, mcu) \<Rightarrow> (True, mc_bus mcu)
           | (Inr True, mcu) \<Rightarrow>
               (let (r, mcu1) = set_fan bus mcu (duty_clamped (fcf_safe_duty (cf_fan c))) in (is_ok r, mc_bus mcu1))))"

section \<open>What is shown\<close>

definition fmt_c :: "i32 \<Rightarrow> string" where
  "fmt_c decicelsius = show_int (trunc_div decicelsius 10) @ ''.'' @ show_int \<bar>trunc_mod decicelsius 10\<bar>"

definition json_state :: "config \<Rightarrow> mode \<Rightarrow> fan_curve \<Rightarrow> string \<Rightarrow> i32 \<Rightarrow> json" where
  "json_state c m curve sensor decicelsius =
     JObj [(''route'', JStr ''fan-dry-run''), (''mode'', JStr (mode_text m)), (''sensor'', JStr sensor),
           (''temperature_c'', JQuot decicelsius 10),
           (''curve_duty_percent'', jnat (unat (duty_percent (duty_for curve decicelsius)))),
           (''curve'', JArr (map (\<lambda>p. JObj [(''celsius'', JInt (cp_celsius p)),
                                          (''duty_percent'', jnat (unat (duty_percent (cp_duty p))))]) curve)),
           (''hysteresis_c'', JInt (fcf_hysteresis_c (cf_fan c))),
           (''floor_percent'', jnat (unat (fcf_min_duty (cf_fan c)))),
           (''safe_percent'', jnat (unat (fcf_safe_duty (cf_fan c)))),
           (''stopping_allowed'', JBool (fcf_allow_stop (cf_fan c)))]"

fun json_step :: "fan_step_result \<Rightarrow> json" where
  "json_step (Applied decicelsius duty wrote) =
     JObj [(''temperature_c'', JQuot decicelsius 10), (''duty_percent'', jnat (unat (duty_percent duty))),
           (''would_write'', JBool wrote), (''sensor_ok'', JBool True)]"
| "json_step (SensorFailed fallback consecutive) =
     JObj [(''temperature_c'', JNull), (''duty_percent'', jnat (unat (duty_percent fallback))),
           (''would_write'', JBool True), (''sensor_ok'', JBool False), (''consecutive_failures'', jnat consecutive)]"

definition stopping_text :: "config \<Rightarrow> string" where
  "stopping_text c = (if fcf_allow_stop (cf_fan c) then ''allowed'' else ''not allowed'')"

definition now_line :: "config \<Rightarrow> fan_curve \<Rightarrow> i32 \<Rightarrow> string" where
  "now_line c curve current =
     (let fresh = controller_new curve (fcf_hysteresis_c (cf_fan c)) (fcf_min_duty (cf_fan c)) (fcf_allow_stop (cf_fan c));
          would_write = snd (controller_update fresh current)
      in ''Now:    '' @ fmt_c current @ ''C -> curve says '' @ duty_text (duty_for curve current) @
         '', would write '' @ duty_text would_write @
         (if would_write = duty_for curve current then []
          else '' (floor '' @ show_nat (unat (fcf_min_duty (cf_fan c))) @ ''%, stopping '' @ stopping_text c @ '')''))"

text \<open>What the daemon answers on the bus, as the map of its fields.\<close>

definition daemon_fan_state :: "(string \<Rightarrow> string option) \<Rightarrow> string" where
  "daemon_fan_state f =
     (let get = (\<lambda>k. case f k of Some v \<Rightarrow> v | None \<Rightarrow> []);
          temp = (if get ''temperature_c'' = [] then [] else '' at '' @ get ''temperature_c'' @ ''C'');
          duty = (if get ''duty_percent'' \<in> {[], ''0''} then ''off'' else get ''duty_percent'' @ ''%'')
      in if get ''available'' \<noteq> ''yes''
         then ''argond is running, but has not completed a control iteration yet.''
         else if get ''driving'' = ''yes''
         then ''argond has the fan '' @ duty @ temp @ '', decided '' @ get ''age_s'' @ ''s ago.''
         else ''argond is running'' @ temp @ '' but not driving the fan: it reports the fan rather than'' @ [newline] @
              ''setting it, which is what read-only mode does, and what any mode does with no MCU.'')"

section \<open>The dry run\<close>

text \<open>\<open>--watch\<close> over the bus that goes nowhere, for a number of iterations (with a count of zero, until it
  is interrupted): the steps shown, and the task at the end; it stops at an error.\<close>

fun watch_steps :: "('t \<Rightarrow> (hal_error + i32) \<times> 't) \<Rightarrow> nat \<Rightarrow> (unit dry_run, 't) fan_task \<Rightarrow>
    fan_step_result list \<times> bool \<times> (unit dry_run, 't) fan_task" where
  "watch_steps rd 0 t = ([], True, t)"
| "watch_steps rd (Suc n) t =
     (case fan_step rd (dry_run_ops (read_only_ops null_bus_ops)) t of
        (Inl _, t1) \<Rightarrow> ([], False, t1)
      | (Inr s, t1) \<Rightarrow> (let (ss, fine, t2) = watch_steps rd n t1 in (s # ss, fine, t2)))"

definition watch_task :: "config \<Rightarrow> fan_curve \<Rightarrow> 't \<Rightarrow> (unit dry_run, 't) fan_task" where
  "watch_task c curve source =
     fan_task_new (mcu_new (dry_run_new ()) (configured_dialect (cf_mcu c))) source
       (controller_new curve (fcf_hysteresis_c (cf_fan c)) (fcf_min_duty (cf_fan c)) (fcf_allow_stop (cf_fan c)))
       (duty_clamped (fcf_safe_duty (cf_fan c)))"

definition cli_watch :: "'t fan_env \<Rightarrow> nat \<Rightarrow> config \<Rightarrow> fan_curve \<Rightarrow> 't \<Rightarrow>
    fan_step_result list \<times> bool \<times> (u8 \<times> u8 list) list" where
  "cli_watch v iterations c curve source =
     (let (ss, fine, t) = watch_steps (fv_read v) iterations (watch_task c curve source)
      in (ss, fine, dr_writes (mc_bus (ft_mcu t))))"

text \<open>\<open>run\<close>: whether it ends in success, and the bus after it.\<close>

definition fan_run :: "'b i2c_ops \<Rightarrow> ('b \<Rightarrow> (hal_error + u8) \<times> 'b) \<Rightarrow> fan_args \<Rightarrow> 't fan_env \<Rightarrow> 'b \<Rightarrow> bool \<times> 'b" where
  "fan_run bus read_register a v b =
     (case cli_load v of
        None \<Rightarrow> (False, b)
      | Some (c, m, curve) \<Rightarrow>
          if fa_safe a then cli_set_safe bus v c m b
          else if fa_probe a then cli_probe bus v c b
          else case fa_t5 a of
            Some step \<Rightarrow> cli_t5 bus read_register v c step (fa_write a) b
          | None \<Rightarrow>
              (case fa_set a of
                 Some percent \<Rightarrow> cli_set_duty bus v c percent (fa_write a) b
               | None \<Rightarrow>
                   (case fv_sensor v of
                      None \<Rightarrow> (False, b)
                    | Some source \<Rightarrow>
                        (case fst (fv_read v source) of
                           Inl _ \<Rightarrow> (False, b)
                         | Inr _ \<Rightarrow>
                             (if fa_watch a then fst (snd (cli_watch v (fa_count a) c curve (snd (fv_read v source)))) else True, b)))))"

section \<open>Everything that is written\<close>

text \<open>A bus that also keeps what is written to it.\<close>

definition recording :: "'b i2c_ops \<Rightarrow> ('b \<times> (u8 \<times> u8 list) list) i2c_ops" where
  "recording bus =
     \<lparr>i2c_write = (\<lambda>(b, sent) addr data. let (r, b1) = i2c_write bus b addr data in (r, (b1, sent @ [(addr, data)]))),
      i2c_probe = (\<lambda>(b, sent) addr. let (r, b1) = i2c_probe bus b addr in (r, (b1, sent))),
      i2c_describe = (\<lambda>(b, sent). i2c_describe bus b)\<rparr>"

definition keeping :: "('b \<Rightarrow> (hal_error + u8) \<times> 'b) \<Rightarrow> 'b \<times> 'l \<Rightarrow> (hal_error + u8) \<times> ('b \<times> 'l)" where
  "keeping f = (\<lambda>(b, sent). let (r, b1) = f b in (r, (b1, sent)))"

text \<open>The one frame the command line asks for, where it may be written.\<close>

definition asked_frame :: "'b i2c_ops \<Rightarrow> fan_args \<Rightarrow> 't fan_env \<Rightarrow> 'b \<Rightarrow> u8 list option" where
  "asked_frame bus a v b =
     (case cli_load v of
        None \<Rightarrow> None
      | Some (c, m, curve) \<Rightarrow>
          if fa_safe a then
            (if allows_writes m \<and> fst (i2c_probe bus b ADDR) = Inr True
             then Some (let d = as_mcu_byte (duty_clamped (fcf_safe_duty (cf_fan c)))
                        in case configured_dialect (cf_mcu c) of Legacy \<Rightarrow> [d] | Register \<Rightarrow> [0x80, d])
             else None)
          else if fa_probe a \<or> \<not> fa_write a then None
          else case fa_t5 a of
            Some step \<Rightarrow> map_option (\<lambda>d. [d]) (t5_duty step)
          | None \<Rightarrow> if fv_argond v then None else map_option (duty_frame c) (fa_set a))"

lemma set_safe_sent:
  "snd (snd (cli_set_safe (recording bus) v c m (b, []))) =
     (if opened_bus c v \<noteq> None \<and> allows_writes m \<and> fst (i2c_probe bus b ADDR) = Inr True
      then [(ADDR, let d = as_mcu_byte (duty_clamped (fcf_safe_duty (cf_fan c)))
                   in case configured_dialect (cf_mcu c) of Legacy \<Rightarrow> [d] | Register \<Rightarrow> [0x80, d])] else [])"
proof -
  obtain r b1 where p: "i2c_probe bus b ADDR = (r, b1)" by fastforce
  have pr: "is_present (recording bus) (mcu_new (b, []) d) = (r, (mcu_new (b1, []) d))" for d
    using p by (simp add: is_present_def recording_def mcu_new_def)
  have sf: "snd (mc_bus (snd (set_fan (recording bus) (mcu_new (b1, []) d) duty))) =
      [(ADDR, case d of Legacy \<Rightarrow> [as_mcu_byte duty] | Register \<Rightarrow> [0x80, as_mcu_byte duty])]" for d duty
    by (cases d; cases "i2c_write bus b1 ADDR [as_mcu_byte duty]"; cases "i2c_write bus b1 ADDR [0x80, as_mcu_byte duty]")
      (simp_all add: set_fan_def mcu_write_def recording_def mcu_new_def split: sum.split)
  show ?thesis
    using pr[of "configured_dialect (cf_mcu c)"] sf p
    by (auto simp: cli_set_safe_def split_beta Let_def mcu_new_def split: option.split sum.split bool.split)
qed


text \<open>Watching writes to no device at all: what it would have written is what its own record holds.\<close>

lemma watch_never_fails_to_write:
  "fst (i2c_write (dry_run_ops bus) b addr data) = Inr ()"
  by (simp add: dry_run_ops_def)

lemma dry_write_ok: "\<exists>wrote. fst (write_if_changed (dry_run_ops bus) d t) = Inr wrote"
proof -
  have "fst (set_fan (dry_run_ops bus) m d) = Inr ()" for m
    by (cases "mc_dialect m") (simp_all add: set_fan_def mcu_write_def dry_run_ops_def)
  then show ?thesis by (auto simp: write_if_changed_def split_beta Let_def)
qed

lemma dry_step_ok: "\<exists>s. fst (fan_step rd (dry_run_ops bus) t) = Inr s"
proof -
  have m: "\<exists>s. map_ok f (fst (write_if_changed (dry_run_ops bus) d t)) = Inr s" for f :: "bool \<Rightarrow> fan_step_result" and d t
    using dry_write_ok[of bus d t] by (auto simp: map_ok_def)
  show ?thesis
    by (cases "fst (rd (ft_source t))") (simp_all add: fan_step_def split_beta Let_def m)
qed

lemma watch_fine: "fst (snd (watch_steps rd n t))"
proof (induction n arbitrary: t)
  case (Suc n)
  obtain s t1 where "fan_step rd (dry_run_ops (read_only_ops null_bus_ops)) t = (Inr s, t1)"
    using dry_step_ok[of rd "read_only_ops null_bus_ops" t] by (metis surj_pair fst_conv)
  with Suc[of t1] show ?case by (simp add: split_beta)
qed simp

text \<open>A temperature just below zero is shown without its sign.\<close>

lemma fmt_c_sign_lost: "fmt_c (-5) = ''0.5''"
  by code_simp

end
