(* ===== verification/UpsCommand.thy ===== *)
theory UpsCommand
  imports UpsSeen Hid Boot Startup Json
begin

text \<open>
  \<open>argonctl ups\<close> (\<open>crates/argon-cli/src/ups.rs\<close>): the daemon's answer as text and as JSON, the
  telemetry of the HID reports (with the usages of \<open>hid/usage.rs\<close>), and the serial route, which
  goes through the query-only link. The daemon's answer is a map of texts; the sockets, the
  device nodes and the printing are outside.
\<close>

section \<open>The daemon's answer\<close>

type_synonym answer = "string \<Rightarrow> string option"

definition answer_get :: "answer \<Rightarrow> string \<Rightarrow> string" where
  "answer_get f k = (case f k of Some v \<Rightarrow> v | None \<Rightarrow> [])"

definition STALE_AFTER_S :: nat where "STALE_AFTER_S = 120"

definition or_dash :: "string \<Rightarrow> string" where
  "or_dash v = (if v = [] then ''-'' else v)"

definition opt_text :: "string \<Rightarrow> string option" where
  "opt_text v = (if v = [] then None else Some v)"

definition age_text :: "string \<Rightarrow> string" where
  "age_text age_s =
     (case parse_uint U64_MAX age_s of
        None \<Rightarrow> ''-''
      | Some n \<Rightarrow>
          (let ago = (if n < 60 then show_nat n @ ''s ago''
                       else show_nat (n div 60) @ ''m '' @ show_nat (n mod 60) @ ''s ago'')
           in if 120 \<le> n then ago @ ''  (stale -- is argond still polling?)'' else ago))"

definition poweroff_text :: "string \<Rightarrow> nat \<Rightarrow> string" where
  "poweroff_text at_unix now_unix =
     (case parse_uint U64_MAX at_unix of
        None \<Rightarrow> ''none scheduled''
      | Some at \<Rightarrow> (let left = at - now_unix
                    in ''scheduled in '' @ show_nat (left div 60) @ ''m '' @ show_nat (left mod 60) @ ''s''))"

definition answer_line :: "string \<Rightarrow> string \<Rightarrow> string" where
  "answer_line label v = ''  '' @ left_align 14 label @ '' '' @ v"

text \<open>The lines of the answer.\<close>

definition answer_lines :: "answer \<Rightarrow> nat \<Rightarrow> string list" where
  "answer_lines f now_unix =
     (let get = answer_get f in
      [''From argond'', ''-----------''] @
      (if get ''available'' \<noteq> ''yes'' then
         (if get ''source_config'' = ''none'' then
            [''  argond is running, and UPS monitoring is off by configuration'',
             ''  ([ups] source = '' @ [CHR 0x22] @ ''none'' @ [CHR 0x22] @ '' in /etc/argon-utils/config.toml). Nothing is wrong.'']
          else if get ''source_config'' = [] then
            [''  argond is running but has no reading yet: it has not completed its first'',
             ''  poll, or the battery is unreachable.'']
          else
            [''  argond is running and configured to monitor '' @ debug_str (get ''source_config'') @ '', but has no reading'',
             ''  yet: either its first poll has not finished, or that source is unreachable.'',
             ''  `journalctl -u argond -n 20` says which.''])
       else if get ''level'' = ABSENT then
         [''  No UPS connected. argond keeps looking and picks one up when it is plugged in.'']
       else if get ''level'' = MISSING then
         [''  The UPS connected before ('' @ or_dash (get ''missing_name'') @
            (case parse_uint U64_MAX (get ''last_seen_unix'') of
               None \<Rightarrow> []
             | Some t \<Rightarrow> '', last read '' @ show_nat ((now_unix - t) div 60) @ '' min ago'') @ '') cannot be found.'',
          ''  No battery is being watched. If it was removed on purpose:'',
          ''  sudo argonctl ups --forget'']
       else
         [answer_line ''charge'' (if get ''percent'' = [] then ''unknown'' else get ''percent'' @ ''%''),
          answer_line ''source'' (or_dash (get ''source'')),
          answer_line ''level'' (or_dash (get ''level'')),
          answer_line ''last read'' (age_text (get ''age_s'')),
          answer_line ''poweroff'' (poweroff_text (get ''shutdown_at_unix'') now_unix)]))"

definition json_from_daemon :: "answer \<Rightarrow> nat \<Rightarrow> json" where
  "json_from_daemon f now_unix =
     (let get = answer_get f; num = (\<lambda>k. parse_uint U64_MAX (get k)); age = num ''age_s''; at = num ''shutdown_at_unix''
      in JObj [(''route'', JStr ''argond''), (''available'', JBool (get ''available'' = ''yes'')),
               (''level'', opt_json JStr (opt_text (get ''level''))),
               (''source'', opt_json JStr (opt_text (get ''source''))),
               (''percent'', opt_json jnat (parse_uint U8_MAX (get ''percent''))),
               (''updated_unix'', opt_json jnat (num ''updated_unix'')),
               (''age_s'', opt_json jnat age),
               (''stale'', JBool (case age of None \<Rightarrow> False | Some a \<Rightarrow> STALE_AFTER_S \<le> a)),
               (''shutdown_at_unix'', opt_json jnat at),
               (''shutdown_in_s'', opt_json (\<lambda>t. jnat (t - now_unix)) at),
               (''missing_name'', opt_json JStr (opt_text (get ''missing_name''))),
               (''last_seen_unix'', opt_json jnat (num ''last_seen_unix''))])"

section \<open>The telemetry of the HID reports\<close>

definition PAGE_POWER_DEVICE :: u16 where "PAGE_POWER_DEVICE = 0x84"
definition PAGE_BATTERY_SYSTEM :: u16 where "PAGE_BATTERY_SYSTEM = 0x85"
definition CHARGING :: u16 where "CHARGING = 0x44"
definition DISCHARGING :: u16 where "DISCHARGING = 0x45"
definition AC_PRESENT :: u16 where "AC_PRESENT = 0x42"
definition BATTERY_PRESENT :: u16 where "BATTERY_PRESENT = 0x43"
definition NEED_REPLACEMENT :: u16 where "NEED_REPLACEMENT = 0x4b"
definition FULLY_CHARGED :: u16 where "FULLY_CHARGED = 0x46"
definition FULLY_DISCHARGED :: u16 where "FULLY_DISCHARGED = 0x47"
definition RELATIVE_STATE_OF_CHARGE :: u16 where "RELATIVE_STATE_OF_CHARGE = 0x66"
definition FULL_CHARGE_CAPACITY :: u16 where "FULL_CHARGE_CAPACITY = 0x68"
definition RUN_TIME_TO_EMPTY :: u16 where "RUN_TIME_TO_EMPTY = 0x69"
definition CONFIG_VOLTAGE :: u16 where "CONFIG_VOLTAGE = 0x30"
definition SHUTDOWN_REQUESTED :: u16 where "SHUTDOWN_REQUESTED = 0x68"
definition SHUTDOWN_IMMINENT :: u16 where "SHUTDOWN_IMMINENT = 0x69"

lemmas hid_usages = PAGE_POWER_DEVICE_def PAGE_BATTERY_SYSTEM_def CHARGING_def DISCHARGING_def AC_PRESENT_def
  BATTERY_PRESENT_def NEED_REPLACEMENT_def FULLY_CHARGED_def FULLY_DISCHARGED_def RELATIVE_STATE_OF_CHARGE_def
  FULL_CHARGE_CAPACITY_def RUN_TIME_TO_EMPTY_def CONFIG_VOLTAGE_def SHUTDOWN_REQUESTED_def SHUTDOWN_IMMINENT_def

definition battery_flag :: "u16 \<Rightarrow> string option" where
  "battery_flag u =
     (if u = CHARGING then Some ''charging''
      else if u = DISCHARGING then Some ''discharging''
      else if u = AC_PRESENT then Some ''on mains''
      else if u = BATTERY_PRESENT then Some ''battery present''
      else if u = FULLY_CHARGED then Some ''fully charged''
      else if u = FULLY_DISCHARGED then Some ''fully discharged''
      else if u = NEED_REPLACEMENT then Some ''NEEDS REPLACEMENT''
      else None)"

definition format_seconds :: "int \<Rightarrow> string" where
  "format_seconds v =
     (if v < 0 then show_int v @ '' (negative '' @ em_dash @ '' unexpected)''
      else let n = nat v; h = n div 3600; m = n mod 3600 div 60; s = n mod 60
           in if 0 < h then show_nat h @ ''h '' @ zero_pad 2 (show_nat m) @ ''m''
              else if 0 < m then show_nat m @ ''m '' @ zero_pad 2 (show_nat s) @ ''s''
              else show_nat s @ ''s'')"

text \<open>What one field with its value contributes: a reading with its label, or a flag.\<close>

definition field_reading :: "u16 \<Rightarrow> u16 \<Rightarrow> int \<Rightarrow> (string \<times> string) option \<times> string option" where
  "field_reading page usage v =
     (if page = PAGE_BATTERY_SYSTEM \<and> usage = RELATIVE_STATE_OF_CHARGE then (Some (''charge'', show_int v @ ''%''), None)
      else if page = PAGE_BATTERY_SYSTEM \<and> usage = RUN_TIME_TO_EMPTY then (Some (''runtime left'', format_seconds v), None)
      else if page = PAGE_BATTERY_SYSTEM \<and> usage = FULL_CHARGE_CAPACITY then (Some (''full charge'', show_int v), None)
      else if page = PAGE_POWER_DEVICE \<and> usage = CONFIG_VOLTAGE then (Some (''voltage'', show_int v), None)
      else if page = PAGE_BATTERY_SYSTEM \<and> v \<noteq> 0 then (None, battery_flag usage)
      else if page = PAGE_POWER_DEVICE \<and> usage = SHUTDOWN_IMMINENT \<and> v \<noteq> 0 then (None, Some ''SHUTDOWN IMMINENT'')
      else if page = PAGE_POWER_DEVICE \<and> usage = SHUTDOWN_REQUESTED \<and> v \<noteq> 0 then (None, Some ''shutdown requested'')
      else (None, None))"

record hid_report =
  hr_id :: u8
  hr_payload :: "u8 list"

definition report_values :: "hid_field list \<Rightarrow> hid_report \<Rightarrow> (hid_field \<times> int) list" where
  "report_values fs r =
     List.map_filter (\<lambda>f. map_option (Pair f) (hid_extract f (hr_payload r)))
       (filter (\<lambda>f. hf_kind f = InputItem \<and> hf_report_id f = hr_id r) fs)"

definition hid_decode :: "hid_field list \<Rightarrow> hid_report list \<Rightarrow> (string \<times> string) list \<times> string list" where
  "hid_decode fs reports =
     (let outs = map (\<lambda>(f, v). field_reading (hf_usage_page f) (hf_usage f) v) (concat (map (report_values fs) reports))
      in (List.map_filter fst outs, List.map_filter snd outs))"

text \<open>A later reading of a label takes the place of an earlier one.\<close>

definition json_from_device :: "string \<Rightarrow> string option \<Rightarrow> (string \<times> string) list \<Rightarrow> string list \<Rightarrow> json" where
  "json_from_device node serial readings flags =
     JObj [(''route'', JStr ''hidraw''), (''node'', JStr node), (''serial'', opt_json JStr serial),
           (''readings'', JObj (fold (\<lambda>(k, v). AList.update k (JStr v)) readings [])),
           (''status'', JArr (map JStr flags))]"

section \<open>The serial route\<close>

record identity =
  id_firmware :: "string + string"
  id_clock :: "string + string \<times> bool"
  id_wake :: "string + string option"

definition ups_identity :: "'l ups_link \<Rightarrow> instant \<Rightarrow> 'l \<Rightarrow> identity \<times> 'l" where
  "ups_identity link now l =
     (let (f, l1) = ups_firmware link now l; (c, l2) = ups_clock link now l1; (w, l3) = ups_wake link now l2
      in (\<lparr>id_firmware = map_err hal_error_text (map_ok (\<lambda>v. show_nat (unat v)) f),
           id_clock = map_err hal_error_text (map_ok (\<lambda>t. (ups_time_text t, is_plausible t)) c),
           id_wake = map_err hal_error_text (map_ok (map_option ups_time_text) w)\<rparr>, l3))"

fun source_name :: "power_source \<Rightarrow> string" where
  "source_name Mains = ''mains''"
| "source_name Battery = ''battery''"

fun advice_name :: "advice \<Rightarrow> string" where
  "advice_name NoAdvice = ''none''"
| "advice_name Shutdown = ''shutdown''"
| "advice_name (HeldForUptime _) = ''held-for-uptime''"

definition json_from_serial :: "string \<Rightarrow> identity \<Rightarrow> poll \<Rightarrow> string \<Rightarrow> json" where
  "json_from_serial port i p time =
     JObj [(''route'', JStr ''serial''), (''port'', JStr port), (''time'', JStr time),
           (''firmware'', opt_json JStr (ok (id_firmware i))),
           (''clock'', opt_json (\<lambda>x. JStr (fst x)) (ok (id_clock i))),
           (''clock_plausible'', opt_json (\<lambda>x. JBool (snd x)) (ok (id_clock i))),
           (''wake_at'', opt_json JStr (Option.bind (ok (id_wake i)) id)),
           (''percent'', opt_json (\<lambda>b. jnat (unat (bs_percent b))) (po_battery p)),
           (''source'', opt_json (\<lambda>b. JStr (source_name (bs_source b))) (po_battery p)),
           (''level'', JStr (level_name (dc_level (po_decision p)))),
           (''advice'', JStr (advice_name (dc_advice (po_decision p)))),
           (''error'', opt_json (\<lambda>e. JStr (hal_error_text e)) (po_error p)),
           (''consecutive_failures'', jnat (po_consecutive_failures p))]"

text \<open>A line of \<open>--watch\<close>: charge, source, level, advice and change.\<close>

definition watch_line :: "string \<Rightarrow> poll \<Rightarrow> string list" where
  "watch_line time p =
     (let (pct, source) = (case po_battery p of
            None \<Rightarrow> (''-'', ''-'')
          | Some b \<Rightarrow> (show_nat (unat (bs_percent b)) @ ''%'', source_name (bs_source b)));
          advice = (case dc_advice (po_decision p) of
              NoAdvice \<Rightarrow> []
            | Shutdown \<Rightarrow> ''WOULD SHUT DOWN (not enabled)''
            | HeldForUptime remaining \<Rightarrow> ''critical, held '' @ show_nat (remaining div 1000000000) @ ''s after boot'');
          change = (case dc_changed_from (po_decision p) of None \<Rightarrow> [] | Some l \<Rightarrow> ''   <- was '' @ level_text l)
      in (''  '' @ left_align 8 time @ ''  '' @ replicate (4 - length pct) CHR '' '' @ pct @ ''  '' @ left_align 11 source @ ''  '' @
            left_align 16 (level_text (dc_level (po_decision p))) @ ''  '' @ advice @ change)
         # (case po_error p of None \<Rightarrow> []
            | Some e \<Rightarrow> [''            read failed ('' @ show_nat (po_consecutive_failures p) @ '' in a row): '' @ hal_error_text e]))"

text \<open>The polls of \<open>--watch\<close>, at the times and uptimes given: as many as are asked for, or, with none
  asked for, as many as there are before it is interrupted.\<close>

fun watch_polls :: "'l ups_link \<Rightarrow> (instant \<times> duration) list \<Rightarrow> 'l ups_monitor \<Rightarrow> poll list \<times> 'l ups_monitor" where
  "watch_polls link [] m = ([], m)"
| "watch_polls link ((now, uptime) # rest) m =
     (let (m1, p) = ups_poll link now m uptime; (ps, m2) = watch_polls link rest m1 in (p # ps, m2))"

definition serial_route :: "'l ups_link \<Rightarrow> config \<Rightarrow> bool \<Rightarrow> nat \<Rightarrow> instant \<Rightarrow> (instant \<times> duration) list \<Rightarrow> 'l \<Rightarrow>
    ((identity \<times> poll list) option) \<times> 'l" where
  "serial_route link c watch count start ticks l =
     (case policy_new (ups_policy (cf_ups c)) of
        Inl _ \<Rightarrow> (None, l)
      | Inr policy \<Rightarrow>
          (let lnk = query_only_request link;
               (i, l1) = ups_identity lnk start l;
               n = (if watch then if count = 0 then length ticks else count else 1);
               (ps, m) = watch_polls lnk (take n ticks) (ups_monitor_new l1 policy)
           in (Some (i, ps), um_ups m)))"

text \<open>Whether this process may talk to the UPS: the port, or the first line of what it says why not.\<close>

definition serial_path :: "string \<Rightarrow> string option \<Rightarrow> unit_state list \<Rightarrow> (string \<Rightarrow> (nat \<times> string) list) \<Rightarrow>
    (string \<Rightarrow> bool) \<Rightarrow> bool \<Rightarrow> string + string" where
  "serial_path port discovered units owners denied argond =
     (case (if port = ''auto'' then discovered else Some port) of
        None \<Rightarrow> Inl ''no Argon UPS serial port found''
      | Some path \<Rightarrow>
          if list_ex (\<lambda>u. un_unit u = ''argonupsrtcd.service'' \<and> unit_active u) units
          then Inl ''argonupsrtcd is running and holds the UPS serial port.''
          else case owners path of
            (pid, comm) # _ \<Rightarrow>
              Inl (path @ '' is held by pid '' @ show_nat pid @ '' ('' @ comm @ ''). Two readers corrupt each other'' @ [CHR 0x27] @ ''s frames.'')
          | [] \<Rightarrow>
              if denied path \<and> argond
              then Inl (path @ '' belongs to the argond service (group `argon`), which is holding it now.'')
              else Inr path)"

section \<open>Forgetting the UPS\<close>

datatype removal = Removed | NotFound | PermissionDenied | RemoveFailed string

text \<open>The record's text, if it can be read, and what removing the file comes to: the message, and whether
  it is a success; \<open>None\<close> where reading the record panics.\<close>

definition forget_ups :: "string option \<Rightarrow> removal \<Rightarrow> string \<Rightarrow> (bool \<times> string) option" where
  "forget_ups record_text r path =
     map_option (\<lambda>seen.
       let name = map_option su_name seen
       in case r of
            Removed \<Rightarrow> (True, ''Forgot '' @ (case name of Some n \<Rightarrow> n | None \<Rightarrow> ''the UPS'') @
                              ''. argond reports no UPS now, and records the next one it reads.'')
          | NotFound \<Rightarrow> (True, ''No UPS is remembered; nothing to forget.'')
          | PermissionDenied \<Rightarrow> (False, ''argonctl: '' @ path @ '' belongs to argond; run this with sudo.'')
          | RemoveFailed e \<Rightarrow> (False, ''argonctl: cannot remove '' @ path @ '': '' @ e))
       (case record_text of None \<Rightarrow> Some None | Some t \<Rightarrow> seen_parse t)"

section \<open>The two forms of the answer agree\<close>

definition stale_note :: string where "stale_note = ''  (stale -- is argond still polling?)''"

lemma starts_with_append: "starts_with p (p @ s)"
  by (simp add: starts_with_def)

lemma age_text_shape:
  "age_text s = (case parse_uint U64_MAX s of
       None \<Rightarrow> ''-''
     | Some n \<Rightarrow> (if n < 60 then show_nat n @ ''s ago''
                 else show_nat (n div 60) @ ''m '' @ show_nat (n mod 60) @ ''s ago'') @ (if STALE_AFTER_S \<le> n then stale_note else []))"
  by (simp add: age_text_def STALE_AFTER_S_def stale_note_def Let_def split: option.split)

lemma paren_not_in_age: "CHR ''('' \<notin> set (show_nat n)"
  using show_nat_digits[of n] by (auto simp: list_all_iff is_digit_def)

text \<open>The text calls a reading stale exactly when the JSON does.\<close>

lemma stale_agrees:
  "json_field ''stale'' (json_from_daemon f now) = JBool (CHR ''('' \<in> set (age_text (answer_get f ''age_s'')))"
  using paren_not_in_age
  by (auto simp: json_from_daemon_def age_text_shape STALE_AFTER_S_def stale_note_def Let_def split: option.split)

text \<open>A missing value is null and never a number: the percentage of the JSON is null exactly when the answer
  has none that is one.\<close>

lemma percent_null:
  "json_field ''percent'' (json_from_daemon f now) = JNull \<longleftrightarrow> parse_uint U8_MAX (answer_get f ''percent'') = None"
  by (simp add: json_from_daemon_def Let_def opt_json_null)

section \<open>Only what the device declares is shown\<close>

lemma report_values_iff:
  "(f, v) \<in> set (report_values fs r) \<longleftrightarrow>
     f \<in> set fs \<and> hf_kind f = InputItem \<and> hf_report_id f = hr_id r \<and> hid_extract f (hr_payload r) = Some v"
  by (force simp: report_values_def map_filter_def)

lemma in_map_filter: "y \<in> set (List.map_filter g xs) \<longleftrightarrow> (\<exists>x \<in> set xs. g x = Some y)"
  by (force simp: map_filter_def)

lemma in_hid_decode:
  "x \<in> set (fst (hid_decode fs reports)) \<longleftrightarrow>
     (\<exists>r \<in> set reports. \<exists>q \<in> set (report_values fs r).
        fst (field_reading (hf_usage_page (fst q)) (hf_usage (fst q)) (snd q)) = Some x)"
  by (simp add: hid_decode_def Let_def in_map_filter split_beta)

text \<open>A reading is shown exactly for an input field that the descriptor declares for a report that arrived,
  with the value its bits have.\<close>

lemma hid_decode_iff:
  "x \<in> set (fst (hid_decode fs reports)) \<longleftrightarrow>
     (\<exists>r \<in> set reports. \<exists>f \<in> set fs. \<exists>v. hf_kind f = InputItem \<and> hf_report_id f = hr_id r
        \<and> hid_extract f (hr_payload r) = Some v \<and> fst (field_reading (hf_usage_page f) (hf_usage f) v) = Some x)"
proof
  assume "x \<in> set (fst (hid_decode fs reports))"
  then obtain r f v where "r \<in> set reports" "(f, v) \<in> set (report_values fs r)"
    "fst (field_reading (hf_usage_page f) (hf_usage f) v) = Some x" unfolding in_hid_decode by fastforce
  then show "\<exists>r \<in> set reports. \<exists>f \<in> set fs. \<exists>v. hf_kind f = InputItem \<and> hf_report_id f = hr_id r
        \<and> hid_extract f (hr_payload r) = Some v \<and> fst (field_reading (hf_usage_page f) (hf_usage f) v) = Some x"
    unfolding report_values_iff by blast
next
  assume "\<exists>r \<in> set reports. \<exists>f \<in> set fs. \<exists>v. hf_kind f = InputItem \<and> hf_report_id f = hr_id r
        \<and> hid_extract f (hr_payload r) = Some v \<and> fst (field_reading (hf_usage_page f) (hf_usage f) v) = Some x"
  then obtain r f v where r: "r \<in> set reports" "(f, v) \<in> set (report_values fs r)"
    "fst (field_reading (hf_usage_page f) (hf_usage f) v) = Some x" unfolding report_values_iff by blast
  show "x \<in> set (fst (hid_decode fs reports))"
    unfolding in_hid_decode
    by (rule bexI[where x = r], rule bexI[where x = "(f, v)"]) (simp_all add: r)
qed

section \<open>The serial route asks and does nothing else\<close>

definition only_queries :: "'l ups_link \<Rightarrow> 'l \<Rightarrow> 'l \<Rightarrow> bool" where
  "only_queries link l l' \<longleftrightarrow> (\<exists>rs. list_all (\<lambda>(cmd, p, d). is_query cmd \<and> p = []) rs \<and> l' = run_requests link l rs)"

lemma run_requests_append: "run_requests link l (rs @ qs) = run_requests link (run_requests link l rs) qs"
  by (induction link l rs rule: run_requests.induct) simp_all

lemma only_queries_refl: "only_queries link l l"
  unfolding only_queries_def by (rule exI[where x = "[]"]) simp

lemma only_queries_trans: "only_queries link l l' \<Longrightarrow> only_queries link l' l'' \<Longrightarrow> only_queries link l l''"
proof -
  assume "only_queries link l l'" "only_queries link l' l''"
  then obtain rs qs where "list_all (\<lambda>(cmd, p, d). is_query cmd \<and> p = []) rs" "l' = run_requests link l rs"
    "list_all (\<lambda>(cmd, p, d). is_query cmd \<and> p = []) qs" "l'' = run_requests link l' qs"
    unfolding only_queries_def by blast
  then show ?thesis unfolding only_queries_def
    by (intro exI[where x = "rs @ qs"]) (simp add: run_requests_append)
qed

lemma only_queries_query:
  "is_query cmd \<Longrightarrow> only_queries link l (snd (ups_query (query_only_request link) now l cmd))"
  unfolding only_queries_def
  by (rule exI[of _ "[(cmd, [], now + REQUEST_DEADLINE)]"]) (simp add: ups_query_def query_only_request_def)

lemmas query_states = ups_battery_def ups_firmware_def ups_clock_def ups_wake_def

lemma only_queries_identity: "only_queries link l (snd (ups_identity (query_only_request link) now l))"
proof -
  let ?q = "query_only_request link"
  have f: "only_queries link l (snd (ups_firmware ?q now l))" and c: "only_queries link l (snd (ups_clock ?q now l))"
    and w: "only_queries link l (snd (ups_wake ?q now l))" for l
    using only_queries_query[of _ link l now] by (simp_all add: query_states split_beta)
  from only_queries_trans[OF only_queries_trans[OF f c] w] show ?thesis
    by (simp add: ups_identity_def split_beta Let_def)
qed

lemma only_queries_polls: "only_queries link (um_ups m) (um_ups (snd (watch_polls (query_only_request link) ticks m)))"
proof (induction ticks arbitrary: m)
  case (Cons t ticks)
  obtain now up where t: "t = (now, up)" by (cases t)
  have "only_queries link (um_ups m) (um_ups (fst (ups_poll (query_only_request link) now m up)))"
    using only_queries_query[of BatteryStatus link "um_ups m" now] by (simp add: ups_poll_def query_states split_beta Let_def)
  from only_queries_trans[OF this Cons] show ?case by (simp add: t split_beta)
qed (simp add: only_queries_refl)

text \<open>Whatever is asked for on the command line, the device ends as if some of the five queries, with empty
  payloads, had been sent to it and nothing else.\<close>

theorem serial_route_only_queries: "only_queries link l (snd (serial_route link c watch count start ticks l))"
proof (cases "policy_new (ups_policy (cf_ups c))")
  case (Inr policy)
  let ?i = "ups_identity (query_only_request link) start l"
  have "only_queries link (snd ?i) (um_ups (snd (watch_polls (query_only_request link) ts (ups_monitor_new (snd ?i) policy))))" for ts
    using only_queries_polls[of link "ups_monitor_new (snd ?i) policy" ts] by (simp add: ups_monitor_new_def)
  from only_queries_trans[OF only_queries_identity this] Inr show ?thesis
    by (simp add: serial_route_def split_beta Let_def)
qed (simp add: serial_route_def only_queries_refl)

end
