(* ===== verification/ZigbeeProbe.thy ===== *)
theory ZigbeeProbe
  imports Zigbee Serial Discovery Json "HOL-Library.Sublist"
begin

text \<open>
  \<open>argonctl zigbee\<close> (\<open>crates/argon-cli/src/zigbee.rs\<close>) over a raw serial port (\<open>RawPort\<close> in
  \<open>crates/argon-hal/src/serial.rs\<close>): finding the module, refusing a port that somebody holds, the
  probe, what its bytes mean, and the two forms of its report. The port itself is a parameter:
  whether each call on it succeeds, and a script of what its reads return and when.
\<close>

section \<open>The raw port\<close>

datatype port_event =
  PortOpen nat
| PortDtr bool
| PortRts bool
| PortWrite "u8 list"
| PortListen duration

text \<open>What was asked of the port so far, and what a step over it returned.\<close>

type_synonym 'a port_run = "port_event list \<times> (hal_error + 'a) outcome"

definition port_then :: "'a port_run \<Rightarrow> ('a \<Rightarrow> 'b port_run) \<Rightarrow> 'b port_run" where
  "port_then m k =
     (case snd m of
        Returned (Inr a) \<Rightarrow> (fst m @ fst (k a), snd (k a))
      | Returned (Inl e) \<Rightarrow> (fst m, Returned (Inl e))
      | Waiting \<Rightarrow> (fst m, Waiting)
      | Panicked \<Rightarrow> (fst m, Panicked))"

definition port_step :: "port_event list \<Rightarrow> string option \<Rightarrow> unit port_run" where
  "port_step evs failure = (evs, Returned (case failure of None \<Rightarrow> Inr () | Some e \<Rightarrow> Inl (Io e)))"

definition raw_open :: "string \<Rightarrow> nat \<Rightarrow> string option \<Rightarrow> unit port_run" where
  "raw_open path baud failure = port_step [PortOpen baud] (map_option (\<lambda>e. path @ '': '' @ e) failure)"

definition raw_set_lines :: "bool \<Rightarrow> bool \<Rightarrow> string option \<Rightarrow> string option \<Rightarrow> unit port_run" where
  "raw_set_lines dtr rts dtr_failure rts_failure =
     port_then (port_step [PortDtr dtr] dtr_failure) (\<lambda>_. port_step [PortRts rts] rts_failure)"

definition raw_write_all :: "u8 list \<Rightarrow> string option \<Rightarrow> string option \<Rightarrow> unit port_run" where
  "raw_write_all bytes write_failure flush_failure =
     port_then (port_step [PortWrite bytes] write_failure) (\<lambda>_. port_step [] flush_failure)"

text \<open>The loop of \<open>collect\<close>, over what the clock and the port say at each turn.\<close>

fun collect_loop :: "instant \<Rightarrow> script \<Rightarrow> u8 list \<Rightarrow> (hal_error + u8 list) outcome" where
  "collect_loop deadline [] got = Waiting"
| "collect_loop deadline ((now, event) # rest) got =
     (if deadline \<le> now then Returned (Inr got)
      else case event of
             Data bytes \<Rightarrow> collect_loop deadline rest (got @ bytes)
           | TimedOut \<Rightarrow> collect_loop deadline rest got
           | Interrupted \<Rightarrow> collect_loop deadline rest got
           | PortError e \<Rightarrow> Returned (Inl (Io e)))"

definition raw_collect :: "duration \<Rightarrow> instant \<Rightarrow> script \<Rightarrow> u8 list port_run" where
  "raw_collect window start script = ([PortListen window], collect_loop (start + window) script [])"

section \<open>The probe\<close>

definition ZIGBEE_BAUD :: nat where "ZIGBEE_BAUD = 115200"
definition ZIGBEE_LISTEN :: duration where "ZIGBEE_LISTEN = from_secs 3"
definition ZIGBEE_REPLY :: duration where "ZIGBEE_REPLY = from_secs 1"

record exchange_script =
  xs_write :: "string option"
  xs_flush :: "string option"
  xs_start :: instant
  xs_reads :: script

record probe_script =
  ps_path :: string
  ps_open :: "string option"
  ps_dtr :: "string option"
  ps_rts :: "string option"
  ps_start :: instant
  ps_reads :: script
  ps_ping :: exchange_script
  ps_version :: exchange_script

record capture =
  ca_listened :: "u8 list"
  ca_ping :: "u8 list"
  ca_version :: "u8 list"

record probe_findings =
  pf_reset_on_open :: "u8 option"
  pf_heard_anything :: bool
  pf_ping :: "u16 option"
  pf_version :: "mt_version option"
  pf_rejected :: nat

fun frames_from :: "mt_reader \<Rightarrow> u8 list \<Rightarrow> nat \<Rightarrow> (mt_frame list \<times> nat) option" where
  "frames_from r [] rejected = Some ([], rejected)"
| "frames_from r (b # bs) rejected =
     (case mt_push r b of
        None \<Rightarrow> None
      | Some (r1, out) \<Rightarrow>
          (case out of
             Some (Inr f) \<Rightarrow> map_option (\<lambda>(fs, n). (f # fs, n)) (frames_from r1 bs rejected)
           | Some (Inl _) \<Rightarrow> frames_from r1 bs (rejected + 1)
           | None \<Rightarrow> frames_from r1 bs rejected))"

definition mt_frames :: "u8 list \<Rightarrow> nat \<Rightarrow> (mt_frame list \<times> nat) option" where
  "mt_frames bytes rejected = frames_from mt_reader_new bytes rejected"

fun le_u16 :: "u8 list \<Rightarrow> u16 option" where
  "le_u16 [lo, hi] = Some (ucast lo OR push_bit 8 (ucast hi))"
| "le_u16 _ = None"

definition interpret_capture :: "capture \<Rightarrow> probe_findings option" where
  "interpret_capture c =
     Option.bind (mt_frames (ca_listened c) 0) (\<lambda>(heard, n1).
     Option.bind (mt_frames (ca_ping c) n1) (\<lambda>(pings, n2).
     Option.bind (mt_frames (ca_version c) n2) (\<lambda>(versions, n3).
       Some \<lparr>pf_reset_on_open =
               map_option (\<lambda>f. case mt_data f of [] \<Rightarrow> 0xFF | reason # _ \<Rightarrow> reason)
                 (find (\<lambda>f. mt_is f SYS_RESET_IND) heard),
             pf_heard_anything = (ca_listened c \<noteq> []),
             pf_ping = Option.bind (find (\<lambda>f. mt_is f SYS_PING_RSP) pings) (\<lambda>f. le_u16 (mt_data f)),
             pf_version = Option.bind (find (\<lambda>f. mt_is f SYS_VERSION_RSP) versions) (\<lambda>f. mt_version_decode (mt_data f)),
             pf_rejected = n3\<rparr>)))"

definition mt_request :: "u8 \<times> u8 \<Rightarrow> u8 list" where
  \<comment> \<open>the bytes \<open>exchange\<close> sends: nothing if the frame cannot be encoded\<close>
  "mt_request cmd =
     (case Option.bind (mt_new cmd []) (\<lambda>f. mt_encode_into f (replicate 16 0)) of
        None \<Rightarrow> []
      | Some (n, out) \<Rightarrow> take n out)"

definition mt_exchange :: "u8 \<times> u8 \<Rightarrow> exchange_script \<Rightarrow> u8 list port_run" where
  "mt_exchange cmd x =
     port_then (raw_write_all (mt_request cmd) (xs_write x) (xs_flush x)) (\<lambda>_.
       raw_collect ZIGBEE_REPLY (xs_start x) (xs_reads x))"

definition zigbee_probe :: "probe_script \<Rightarrow> probe_findings port_run" where
  "zigbee_probe s =
     port_then (raw_open (ps_path s) ZIGBEE_BAUD (ps_open s)) (\<lambda>_.
     port_then (raw_set_lines False False (ps_dtr s) (ps_rts s)) (\<lambda>_.
     port_then (raw_collect ZIGBEE_LISTEN (ps_start s) (ps_reads s)) (\<lambda>listened.
     port_then (mt_exchange SYS_PING (ps_ping s)) (\<lambda>ping.
     port_then (mt_exchange SYS_VERSION (ps_version s)) (\<lambda>version.
       ([], case interpret_capture \<lparr>ca_listened = listened, ca_ping = ping, ca_version = version\<rparr> of
              None \<Rightarrow> Panicked
            | Some f \<Rightarrow> Returned (Inr f)))))))"

section \<open>The command\<close>

record zigbee_found =
  zf_usb :: "string option"
  zf_bridge :: "(string option \<times> string option \<times> string option) option"
  zf_port :: string
  zf_held_by :: "(nat \<times> string) option"
  zf_all_visible :: bool

definition version_json :: "mt_version \<Rightarrow> json" where
  "version_json v = JObj
     [(''product'', jnat (unat (mv_product v))), (''major'', jnat (unat (mv_major v))),
      (''minor'', jnat (unat (mv_minor v))), (''maint'', jnat (unat (mv_maint v))),
      (''transport_rev'', jnat (unat (mv_transport_rev v))),
      (''revision'', opt_json (\<lambda>r. jnat (unat r)) (mv_revision v))]"

definition probe_json :: "probe_findings \<Rightarrow> json" where
  "probe_json f = JObj
     [(''restarted_on_open'', JBool (pf_reset_on_open f \<noteq> None)),
      (''reset_reason'', opt_json (\<lambda>r. jnat (unat r)) (pf_reset_on_open f)),
      (''heard_anything'', JBool (pf_heard_anything f)),
      (''ping_answered'', JBool (pf_ping f \<noteq> None)),
      (''capabilities'', opt_json (\<lambda>c. jnat (unat c)) (pf_ping f)),
      (''version'', opt_json version_json (pf_version f)),
      (''frames_rejected'', jnat (pf_rejected f))]"

definition json_identity :: "zigbee_found \<Rightarrow> probe_findings option \<Rightarrow> json" where
  "json_identity z findings =
     (let (manufacturer, product, serial) = (case zf_bridge z of Some b \<Rightarrow> b | None \<Rightarrow> (None, None, None))
      in JObj
        [(''route'', JStr ''zigbee''), (''usb'', opt_json JStr (zf_usb z)),
         (''bridge_manufacturer'', opt_json JStr manufacturer), (''bridge_product'', opt_json JStr product),
         (''bridge_serial'', opt_json JStr serial), (''port'', JStr (zf_port z)),
         (''held_by_pid'', opt_json (\<lambda>(pid, _). jnat pid) (zf_held_by z)),
         (''held_by'', opt_json (\<lambda>(_, comm). JStr comm) (zf_held_by z)),
         (''all_processes_visible'', JBool (zf_all_visible z)),
         (''probe'', opt_json probe_json findings)])"

definition show_hex4 :: "u16 \<Rightarrow> string" where
  "show_hex4 w = show_hex2 (ucast (drop_bit 8 w)) @ show_hex2 (ucast w)"

definition report_lines :: "probe_findings \<Rightarrow> string list" where
  "report_lines f =
     [[], ''T16 RESULT''] @
     (case pf_reset_on_open f of
        Some reason \<Rightarrow>
          [''  Opening the port RESTARTED the radio (SYS_RESET_IND, reason 0x'' @ show_hex2 reason
             @ ''): DTR/RTS reach its reset line.'']
      | None \<Rightarrow>
          if pf_heard_anything f then [''  Bytes arrived while listening, but no restart announcement among them.'']
          else [''  No restart announcement: opening the port did not visibly restart it.'']) @
     (case pf_ping f of
        Some caps \<Rightarrow> [''  Firmware ANSWERS: SYS_PING replied, capabilities 0x'' @ show_hex4 caps @ ''.'']
      | None \<Rightarrow>
          [''  NO ANSWER to SYS_PING.'',
           ''  Possible causes, none tested: a line rate other than '' @ show_nat ZIGBEE_BAUD @ '', firmware that'',
           ''  does not speak Z-Stack MT, or a radio held in reset or in its bootloader.'',
           ''  Nothing else was sent. DTR and RTS were left low.'']) @
     (case pf_version f of
        Some v \<Rightarrow>
          [''  Firmware version: product '' @ show_nat (unat (mv_product v)) @ '', release ''
             @ show_nat (unat (mv_major v)) @ ''.'' @ show_nat (unat (mv_minor v)) @ ''.'' @ show_nat (unat (mv_maint v))
             @ '', transport rev '' @ show_nat (unat (mv_transport_rev v))
             @ (case mv_revision v of Some r \<Rightarrow> '', revision '' @ show_nat (unat r) | None \<Rightarrow> [])]
      | None \<Rightarrow> if pf_ping f \<noteq> None then [''  SYS_VERSION did not return a decodable reply.''] else []) @
     (if pf_rejected f > 0 then [''  '' @ show_nat (pf_rejected f) @ '' frame(s) failed their check byte.''] else [])"

record zigbee_args =
  za_probe :: bool
  za_port :: "path option"
  za_json :: bool

text \<open>The module's name, its bridge and its port; what the user gave is taken as it is.\<close>

definition zigbee_port :: "file_system \<Rightarrow> path option \<Rightarrow>
    string + string option \<times> (string option \<times> string option \<times> string option) option \<times> path" where
  "zigbee_port fs given =
     (case given of
        Some p \<Rightarrow> Inr (None, None, p)
      | None \<Rightarrow>
          (case find_argon_zigbee (usb_devices fs) of
             None \<Rightarrow> Inl (''no Zigbee module found on the case's internal USB hub. Is it fitted, and is ''
                          @ ''dtoverlay=dwc2,dr_mode=host set in config.txt?'')
           | Some z \<Rightarrow>
               (case find (\<lambda>n. str_contains ''ttyUSB'' (path_text n)) (ud_nodes z) of
                  None \<Rightarrow> Inl ''the module has no serial node''
                | Some node \<Rightarrow> Inr (Some (ud_kernel z), Some (ud_manufacturer z, ud_product z, ud_serial z), node))))"

text \<open>How the command ends: whether it succeeded, and the object or the closing lines it printed.\<close>

datatype zigbee_output = ZigbeeFailed string | ZigbeeJson bool json | ZigbeeText bool "string list"

definition zigbee_run :: "file_system \<Rightarrow> zigbee_args \<Rightarrow> probe_script \<Rightarrow> port_event list \<times> zigbee_output outcome" where
  "zigbee_run fs args s =
     (case zigbee_port fs (za_port args) of
        Inl e \<Rightarrow> ([], Returned (ZigbeeFailed e))
      | Inr (usb, bridge, dev) \<Rightarrow>
          (let owners = port_owners fs dev;
               found = \<lparr>zf_usb = usb, zf_bridge = bridge, zf_port = path_text dev,
                        zf_held_by = (case owners of [] \<Rightarrow> None | o1 # _ \<Rightarrow> Some o1),
                        zf_all_visible = can_see_all_processes fs\<rparr>
           in if \<not> za_probe args then
                ([], Returned (if za_json args then ZigbeeJson True (json_identity found None)
                               else ZigbeeText True [[], ''Nothing was opened. The health probe is task T16:  argonctl zigbee --probe'']))
              else case owners of
                (pid, comm) # _ \<Rightarrow>
                  ([], Returned (ZigbeeFailed (path_text dev @ '' is held by pid '' @ show_nat pid @ '' ('' @ comm
                         @ ''); not probing a coordinator that something else is running.'')))
              | [] \<Rightarrow>
                  (let (evs, r) = zigbee_probe (s\<lparr>ps_path := path_text dev\<rparr>)
                   in (evs, case r of
                        Panicked \<Rightarrow> Panicked
                      | Waiting \<Rightarrow> Waiting
                      | Returned (Inl e) \<Rightarrow> Returned (ZigbeeFailed (hal_error_text e))
                      | Returned (Inr f) \<Rightarrow>
                          Returned (if za_json args then ZigbeeJson (pf_ping f \<noteq> None) (json_identity found (Some f))
                                    else ZigbeeText (pf_ping f \<noteq> None) (report_lines f))))))"

section \<open>What the bytes mean\<close>

definition good_frames :: "(mt_error + mt_frame) list \<Rightarrow> mt_frame list" where
  "good_frames outs = List.map_filter (\<lambda>x. case x of Inr f \<Rightarrow> Some f | Inl _ \<Rightarrow> None) outs"

definition bad_frames :: "(mt_error + mt_frame) list \<Rightarrow> nat" where
  "bad_frames outs = length (filter (\<lambda>x. case x of Inl _ \<Rightarrow> True | Inr _ \<Rightarrow> False) outs)"

lemma outs_simps [simp]:
  "good_frames [] = []" "good_frames (Inr f # outs) = f # good_frames outs" "good_frames (Inl e # outs) = good_frames outs"
  "bad_frames [] = 0" "bad_frames (Inr f # outs) = bad_frames outs" "bad_frames (Inl e # outs) = Suc (bad_frames outs)"
  by (simp_all add: good_frames_def bad_frames_def List.map_filter_def)

lemma frames_from_feed:
  "feed mt_push r bs = Some (r', outs) \<Longrightarrow> frames_from r bs n = Some (good_frames outs, n + bad_frames outs)"
proof (induction bs arbitrary: r outs n)
  case (Cons b bs)
  from Cons.prems obtain r1 out where p: "mt_push r b = Some (r1, out)"
    by (auto split: option.splits)
  from Cons.prems p obtain outs1 where o: "feed mt_push r1 bs = Some (r', outs1)"
    and outs: "outs = (case out of None \<Rightarrow> outs1 | Some x \<Rightarrow> x # outs1)"
    by (auto split: option.splits)
  show ?case using Cons.IH[OF o] p outs by (auto split: option.splits sum.splits)
qed simp

lemma mt_frames_scan: "mt_frames bytes n = Some (good_frames (mt_scan bytes), n + bad_frames (mt_scan bytes))"
  using zigbee_reader_computes_scan[of bytes] frames_from_feed unfolding mt_frames_def by blast

text \<open>The findings are read off the abstract parser's results, and reading them never panics.\<close>

lemma interpret_meaning:
  "\<exists>f. interpret_capture c = Some f
     \<and> (pf_reset_on_open f = None \<longleftrightarrow> (\<forall>x \<in> set (good_frames (mt_scan (ca_listened c))). \<not> mt_is x SYS_RESET_IND))
     \<and> (\<forall>caps. pf_ping f = Some caps \<longrightarrow>
          (\<exists>x \<in> set (good_frames (mt_scan (ca_ping c))). mt_is x SYS_PING_RSP \<and> le_u16 (mt_data x) = Some caps))
     \<and> pf_rejected f = bad_frames (mt_scan (ca_listened c)) + bad_frames (mt_scan (ca_ping c))
          + bad_frames (mt_scan (ca_version c))"
  by (auto simp: interpret_capture_def mt_frames_scan find_None_iff Option.bind_eq_Some_conv dest: find_SomeD)

text \<open>A module that answers properly, with anything but a start byte before the answer, is found to answer.\<close>

lemma collect_reads:
  "collect_loop deadline script got = Returned (Inr all) \<Longrightarrow> all = got @ read_bytes deadline script"
  by (induction deadline script got rule: collect_loop.induct) (auto split: if_splits port_read.splits)

lemma quiet_then_answer:
  assumes "SOF \<notin> set noise" and "length p \<le> 250"
  shows "mt_scan (noise @ mt_wire (mt_of c0 c1 p)) = [Inr (mt_of c0 c1 p)]"
  using assms(1)
proof (induction noise)
  case Nil
  from mt_feed_frame[OF mt_idle_new assms(2), of c0 c1 "fcs (tl (mt_head c0 c1 p))"]
    zigbee_reader_computes_scan[of "mt_wire (mt_of c0 c1 p)"]
  show ?case by (auto simp: mt_wire_of)
qed auto

lemma probe_finds_answer:
  assumes "SOF \<notin> set noise" and "ca_ping c = noise @ mt_wire (mt_of 0x61 0x01 [lo, hi])"
  shows "\<exists>f. interpret_capture c = Some f \<and> pf_ping f = le_u16 [lo, hi]"
proof -
  have "mt_scan (ca_ping c) = [Inr (mt_of 0x61 0x01 [lo, hi])]"
    unfolding assms(2) by (rule quiet_then_answer[OF assms(1)]) simp
  then show ?thesis
    by (simp add: interpret_capture_def mt_frames_scan mt_is_def SYS_PING_RSP_def)
qed

section \<open>What reaches the port\<close>

lemma fst_port_then_prefix:
  "prefix (fst m) a \<Longrightarrow> (\<And>x. snd m = Returned (Inr x) \<Longrightarrow> prefix (fst m @ fst (k x)) a) \<Longrightarrow> prefix (fst (port_then m k)) a"
  by (auto simp: port_then_def split: outcome.split sum.split)

lemma port_then_prefix:
  assumes "prefix (fst m) es" and "\<And>x. snd m = Returned (Inr x) \<Longrightarrow> fst m = es"
    and "\<And>x. prefix (fst (k x)) rest"
  shows "prefix (fst (port_then m k)) (es @ rest)"
  using assms by (intro fst_port_then_prefix) (auto intro: prefix_order.order_trans)

lemma port_then_all:
  "snd (port_then m k) = Returned (Inr x) \<Longrightarrow> (\<And>x. snd m = Returned (Inr x) \<Longrightarrow> fst m = es) \<Longrightarrow>
   (\<And>x y. snd (k x) = Returned (Inr y) \<Longrightarrow> fst (k x) = rest) \<Longrightarrow> fst (port_then m k) = es @ rest"
  by (auto simp: port_then_def split: outcome.splits sum.splits)

definition exchange_events :: "u8 \<times> u8 \<Rightarrow> port_event list" where
  "exchange_events cmd = [PortWrite (mt_request cmd), PortListen ZIGBEE_REPLY]"

definition probe_events :: "port_event list" where
  "probe_events =
     [PortOpen 115200, PortDtr False, PortRts False, PortListen (from_secs 3),
      PortWrite [0xFE, 0x00, 0x21, 0x01, 0x20], PortListen (from_secs 1),
      PortWrite [0xFE, 0x00, 0x21, 0x02, 0x23], PortListen (from_secs 1)]"

lemma requests: "mt_request SYS_PING = [0xFE, 0x00, 0x21, 0x01, 0x20]" "mt_request SYS_VERSION = [0xFE, 0x00, 0x21, 0x02, 0x23]"
  by code_simp+

lemma port_step_events: "fst (port_step evs x) = evs" "fst (raw_open p baud x) = [PortOpen baud]"
  "fst (raw_collect w t s) = [PortListen w]"
  by (simp_all add: port_step_def raw_open_def raw_collect_def)

lemma lines_events:
  "prefix (fst (raw_set_lines dtr rts x y)) [PortDtr dtr, PortRts rts]"
  "snd (raw_set_lines dtr rts x y) = Returned (Inr u) \<Longrightarrow> fst (raw_set_lines dtr rts x y) = [PortDtr dtr, PortRts rts]"
  by (auto simp: raw_set_lines_def port_then_def port_step_def split: option.splits)

lemma exchange_asks:
  "prefix (fst (mt_exchange cmd x)) (exchange_events cmd)"
  "snd (mt_exchange cmd x) = Returned (Inr u) \<Longrightarrow> fst (mt_exchange cmd x) = exchange_events cmd"
  by (auto simp: mt_exchange_def raw_write_all_def port_then_def port_step_def raw_collect_def exchange_events_def
      split: option.splits)

lemma probe_asks: "prefix (fst (zigbee_probe s)) probe_events"
proof -
  have ev: "probe_events = [PortOpen 115200] @ [PortDtr False, PortRts False] @ [PortListen (from_secs 3)]
      @ exchange_events SYS_PING @ exchange_events SYS_VERSION @ []"
    by (simp add: probe_events_def exchange_events_def requests ZIGBEE_REPLY_def)
  show ?thesis
    unfolding ev zigbee_probe_def
    by (intro port_then_prefix)
       (simp_all add: port_step_events lines_events exchange_asks ZIGBEE_BAUD_def ZIGBEE_LISTEN_def)
qed

text \<open>Nothing is asked of a Zigbee port unless a probe was asked for and nobody is seen to hold
  the port; and a probe asks, up to where it fails, exactly this and in this order: open, DTR low, RTS
  low, three seconds of listening, and only then the two requests that have no effect.\<close>

theorem zigbee_probe_asks_only:
  "prefix (fst (zigbee_run fs args s))
     (if za_probe args \<and> (case zigbee_port fs (za_port args) of Inl _ \<Rightarrow> False | Inr (_, _, dev) \<Rightarrow> port_owners fs dev = [])
      then probe_events else [])"
  by (auto simp: zigbee_run_def Let_def split_beta probe_asks split: sum.splits list.splits)

end
