(* ===== verification/NotifyAgent.thy ===== *)
theory NotifyAgent
  imports Status ShutdownNotice Poweroff Button
begin

text \<open>
  The desktop's notification agent (\<open>crates/argon-cli/src/notify.rs\<close>): one look at the status file
  and one at logind per turn, each handed to its watcher, and every notice delivered by the first
  mechanism the desktop has. External programs are the parameter \<open>exec\<close>, as for logind.
\<close>

section \<open>Delivery\<close>

definition ran_well :: "string + command_output \<Rightarrow> bool" where
  "ran_well r = (case r of Inl _ \<Rightarrow> False | Inr out \<Rightarrow> co_success out)"

definition deliver_titled :: "'x exec \<Rightarrow> 'x \<Rightarrow> string \<Rightarrow> notice \<Rightarrow> (string + string) \<times> 'x" where
  "deliver_titled exec x title n =
     (let panel_cmd = (case nt_urgency n of NormalUrgency \<Rightarrow> ''notify'' | CriticalUrgency \<Rightarrow> ''critical'');
          (panel, x1) = exec x ''busctl'' [''--user'', ''call'', ''--expect-reply=no'', ''org.wayfire.wfpanel'',
             ''/org/wayfire/wfpanel'', ''org.wayfire.wfpanel'', ''command'', ''ss'', panel_cmd, nt_text n]
      in if ran_well panel then (Inr ''the Pi panel'', x1)
         else
           let urgency = (case nt_urgency n of NormalUrgency \<Rightarrow> ''normal'' | CriticalUrgency \<Rightarrow> ''critical'');
               (sent, x2) = exec x1 ''notify-send'' [''--urgency'', urgency, ''--app-name'', ''argon-utils'', title, nt_text n]
           in if ran_well sent then (Inr ''notify-send'', x2)
              else (let why = (case panel of Inl e \<Rightarrow> e | Inr out \<Rightarrow> trim (co_stderr out))
                    in (Inl (''no notification service accepted it (panel: '' @ why @ '')''), x2)))"

definition deliver_battery :: "'x exec \<Rightarrow> 'x \<Rightarrow> notice \<Rightarrow> (string + string) \<times> 'x" where
  "deliver_battery exec x n = deliver_titled exec x ''Battery'' n"

definition send_notice :: "'x exec \<Rightarrow> 'x \<Rightarrow> string \<Rightarrow> notice \<Rightarrow> 'x" where
  \<comment> \<open>a delivery that fails is only printed\<close>
  "send_notice exec x title n = snd (deliver_titled exec x title n)"

definition notify_test :: "'x exec \<Rightarrow> 'x \<Rightarrow> (bool \<times> string) \<times> 'x" where
  \<comment> \<open>\<open>--test\<close>: whether it succeeded, and what it prints\<close>
  "notify_test exec x =
     (let (r, x1) = deliver_battery exec x
            \<lparr>nt_urgency = NormalUrgency, nt_text = ''argon-utils: notification test, no action needed.''\<rparr>
      in (case r of Inr how \<Rightarrow> (True, ''sent via '' @ how) | Inl e \<Rightarrow> (False, ''argonctl: '' @ e), x1))"

section \<open>The agent\<close>

record notify_agent =
  na_watcher :: watcher
  na_shutdowns :: shutdown_watcher

definition notify_agent_new :: notify_agent where
  "notify_agent_new = \<lparr>na_watcher = watcher_new, na_shutdowns = shutdown_watcher_new\<rparr>"

text \<open>The status file's text as read, \<open>None\<close> if it could not be; reading it may panic, the outer
  \<open>None\<close>.\<close>

definition current_status :: "string option \<Rightarrow> ups_status option option" where
  "current_status contents =
     (case contents of
        None \<Rightarrow> Some None
      | Some t \<Rightarrow> map_option ok (ups_status_parse t))"

definition seen_of :: "'x exec \<Rightarrow> systime \<Rightarrow> 'x \<Rightarrow> seen \<times> 'x" where
  "seen_of exec now x =
     (let ops = logind_ops exec now; (r, x1) = pw_pending ops x
      in case r of
           Inr None \<Rightarrow> (SeenNothing, x1)
         | Inr (Some at) \<Rightarrow>
             (let (m, x2) = pw_wall_message ops x1
              in (SeenPoweroff at (case m of Inr (Some text) \<Rightarrow> Some text | _ \<Rightarrow> None), x2))
         | Inl _ \<Rightarrow> (CannotTell, x1))"

definition send_some :: "'x exec \<Rightarrow> 'x \<Rightarrow> string \<Rightarrow> notice option \<Rightarrow> (string \<times> notice) list \<times> 'x" where
  "send_some exec x title n =
     (case n of None \<Rightarrow> ([], x) | Some n \<Rightarrow> ([(title, n)], send_notice exec x title n))"

text \<open>One turn: the notices sent, under their titles, and what is left.\<close>

definition notify_tick :: "'x exec \<Rightarrow> (systime \<Rightarrow> string) \<Rightarrow> string option \<times> systime \<Rightarrow> notify_agent \<Rightarrow> 'x \<Rightarrow>
    ((string \<times> notice) list \<times> notify_agent \<times> 'x) option" where
  "notify_tick exec hhmm look a x =
     map_option (\<lambda>current.
       let ups_shutdown_at = Option.bind current us_shutdown_at;
           (n, w) = watcher_observe (na_watcher a) current (snd look) hhmm;
           (sent1, x1) = send_some exec x ''Battery'' n;
           (seen, x2) = seen_of exec (snd look) x1;
           (m, sw) = shutdown_observe (na_shutdowns a) seen ups_shutdown_at hhmm BUTTON_MESSAGE;
           (sent2, x3) = send_some exec x2 ''Power'' m
       in (sent1 @ sent2, \<lparr>na_watcher = w, na_shutdowns = sw\<rparr>, x3))
     (current_status (fst look))"

fun notify_run :: "'x exec \<Rightarrow> (systime \<Rightarrow> string) \<Rightarrow> (string option \<times> systime) list \<Rightarrow> notify_agent \<Rightarrow> 'x \<Rightarrow>
    ((string \<times> notice) list \<times> notify_agent \<times> 'x) option" where
  "notify_run exec hhmm [] a x = Some ([], a, x)"
| "notify_run exec hhmm (look # looks) a x =
     (case notify_tick exec hhmm look a x of
        None \<Rightarrow> None
      | Some (sent, a1, x1) \<Rightarrow>
          (case notify_run exec hhmm looks a1 x1 of
             None \<Rightarrow> None
           | Some (sent', a2, x2) \<Rightarrow> Some (sent @ sent', a2, x2)))"

section \<open>What is said does not depend on delivery\<close>

definition titled :: "string \<Rightarrow> (string \<times> notice) list \<Rightarrow> notice list" where
  "titled t sent = map snd (filter (\<lambda>s. fst s = t) sent)"

lemma titled_append [simp]: "titled t (xs @ ys) = titled t xs @ titled t ys"
  by (simp add: titled_def)

lemma titled_send: "titled t (fst (send_some exec x title n)) = (if t = title then case n of None \<Rightarrow> [] | Some n \<Rightarrow> [n] else [])"
  by (simp add: send_some_def titled_def split: option.split)

definition said :: "notice option list \<Rightarrow> notice list" where
  "said ns = List.map_filter id ns"

lemma said_simps [simp]: "said [] = []" "said (None # ns) = said ns" "said (Some n # ns) = n # said ns"
  by (simp_all add: said_def List.map_filter_def)

definition agent_reads :: "(string option \<times> systime) list \<Rightarrow> (ups_status option \<times> systime) list" where
  "agent_reads looks = map (\<lambda>(t, now). (Option.bind (current_status t) id, now)) looks"

lemma tick_parts:
  assumes "notify_tick exec hhmm (t, now) a x = Some (sent, a1, x1)"
  shows "\<exists>current seen. current_status t = Some current
     \<and> titled ''Battery'' sent = said [fst (watcher_observe (na_watcher a) current now hhmm)]
     \<and> na_watcher a1 = snd (watcher_observe (na_watcher a) current now hhmm)
     \<and> titled ''Power'' sent =
         said [fst (shutdown_observe (na_shutdowns a) seen (Option.bind current us_shutdown_at) hhmm BUTTON_MESSAGE)]
     \<and> na_shutdowns a1 = snd (shutdown_observe (na_shutdowns a) seen (Option.bind current us_shutdown_at) hhmm BUTTON_MESSAGE)"
proof -
  from assms obtain current where c: "current_status t = Some current"
    by (auto simp: notify_tick_def)
  let ?n = "watcher_observe (na_watcher a) current now hhmm"
  let ?seen = "fst (seen_of exec now (snd (send_some exec x ''Battery'' (fst ?n))))"
  have "titled ''Battery'' sent = said [fst ?n] \<and> na_watcher a1 = snd ?n
     \<and> titled ''Power'' sent =
         said [fst (shutdown_observe (na_shutdowns a) ?seen (Option.bind current us_shutdown_at) hhmm BUTTON_MESSAGE)]
     \<and> na_shutdowns a1 = snd (shutdown_observe (na_shutdowns a) ?seen (Option.bind current us_shutdown_at) hhmm BUTTON_MESSAGE)"
    using assms by (auto simp: notify_tick_def c Let_def split_beta titled_send split: option.split)
  with c show ?thesis by blast
qed

lemma run_battery:
  "notify_run exec hhmm looks a x = Some (sent, a', x') \<Longrightarrow>
   titled ''Battery'' sent = said (fst (watch_all (na_watcher a) (agent_reads looks) hhmm))"
proof (induction looks arbitrary: a x sent)
  case (Cons look looks)
  obtain t now where l: "look = (t, now)" by (cases look)
  from Cons.prems obtain s1 a1 x1 s2 where
    1: "notify_tick exec hhmm (t, now) a x = Some (s1, a1, x1)" and
    2: "notify_run exec hhmm looks a1 x1 = Some (s2, a', x')" and s: "sent = s1 @ s2"
    by (auto simp: l split: option.splits)
  from tick_parts[OF 1] obtain current where c: "current_status t = Some current"
    "titled ''Battery'' s1 = said [fst (watcher_observe (na_watcher a) current now hhmm)]"
    "na_watcher a1 = snd (watcher_observe (na_watcher a) current now hhmm)" by blast
  from Cons.IH[OF 2] c show ?case
    by (cases "fst (watcher_observe (na_watcher a) current now hhmm)") (simp_all add: l s agent_reads_def split_beta)
qed (simp add: agent_reads_def titled_def)

lemma run_power:
  "notify_run exec hhmm looks a x = Some (sent, a', x') \<Longrightarrow>
   \<exists>seens. length seens = length looks \<and> titled ''Power'' sent =
     fst (shutdown_looks hhmm BUTTON_MESSAGE (na_shutdowns a)
           (zip seens (map (\<lambda>(s, _). Option.bind s us_shutdown_at) (agent_reads looks))))"
proof (induction looks arbitrary: a x sent)
  case (Cons look looks)
  obtain t now where l: "look = (t, now)" by (cases look)
  from Cons.prems obtain s1 a1 x1 s2 where
    1: "notify_tick exec hhmm (t, now) a x = Some (s1, a1, x1)" and
    2: "notify_run exec hhmm looks a1 x1 = Some (s2, a', x')" and s: "sent = s1 @ s2"
    by (auto simp: l split: option.splits)
  from tick_parts[OF 1] obtain current seen where c: "current_status t = Some current"
    "titled ''Power'' s1 = said [fst (shutdown_observe (na_shutdowns a) seen (Option.bind current us_shutdown_at) hhmm BUTTON_MESSAGE)]"
    "na_shutdowns a1 = snd (shutdown_observe (na_shutdowns a) seen (Option.bind current us_shutdown_at) hhmm BUTTON_MESSAGE)" by blast
  from Cons.IH[OF 2] obtain seens where i: "length seens = length looks" "titled ''Power'' s2 =
     fst (shutdown_looks hhmm BUTTON_MESSAGE (na_shutdowns a1)
           (zip seens (map (\<lambda>(s, _). Option.bind s us_shutdown_at) (agent_reads looks))))" by blast
  show ?case
  proof (intro exI[of _ "seen # seens"] conjI)
    show "length (seen # seens) = length (look # looks)" using i by simp
    show "titled ''Power'' sent = fst (shutdown_looks hhmm BUTTON_MESSAGE (na_shutdowns a)
           (zip (seen # seens) (map (\<lambda>(s, _). Option.bind s us_shutdown_at) (agent_reads (look # looks)))))"
      using c i(2) by (simp add: l s agent_reads_def split_beta split: option.split)
  qed
qed (simp add: agent_reads_def titled_def)

text \<open>What the agent says is what its two watchers say of what it read, whether or not anything could be
  delivered: the battery's notices are the status watcher's, the poweroff's are the shutdown
  watcher's for what logind answered, and only a status file that makes the reading panic ends it.\<close>

theorem notify_agent_says_what_it_saw:
  "case notify_run exec hhmm looks notify_agent_new x of
     None \<Rightarrow> None \<in> current_status ` fst ` set looks
   | Some (sent, _) \<Rightarrow>
       titled ''Battery'' sent = said (fst (watch_all watcher_new (agent_reads looks) hhmm))
       \<and> (\<exists>seens. length seens = length looks \<and> titled ''Power'' sent =
            fst (shutdown_looks hhmm BUTTON_MESSAGE shutdown_watcher_new
                  (zip seens (map (\<lambda>(s, _). Option.bind s us_shutdown_at) (agent_reads looks)))))"
proof (cases "notify_run exec hhmm looks notify_agent_new x")
  case None
  have "notify_run exec hhmm looks a x = None \<Longrightarrow> None \<in> current_status ` fst ` set looks" for a x
  proof (induction looks arbitrary: a x)
    case (Cons look looks)
    show ?case
    proof (cases "notify_tick exec hhmm look a x")
      case None
      then show ?thesis by (simp add: notify_tick_def)
    next
      case (Some r)
      with Cons show ?thesis by (cases r) (auto split: option.splits)
    qed
  qed simp
  with None show ?thesis by simp
next
  case (Some r)
  obtain sent a' x' where r: "r = (sent, a', x')" by (cases r)
  have new: "na_watcher notify_agent_new = watcher_new" "na_shutdowns notify_agent_new = shutdown_watcher_new"
    by (simp_all add: notify_agent_new_def)
  from run_battery[OF Some[unfolded r]] run_power[OF Some[unfolded r]] show ?thesis
    unfolding new by (simp add: Some r)
qed

text \<open>The standard mechanism is tried only where the Pi's panel did not take it, and every notice is put
  to the panel first.\<close>

lemma delivery_order:
  "\<exists>args x1 panel. exec x ''busctl'' args = (panel, x1) \<and> last args = nt_text n
     \<and> (ran_well panel \<longrightarrow> deliver_titled exec x title n = (Inr ''the Pi panel'', x1))"
proof -
  let ?args = "[''--user'', ''call'', ''--expect-reply=no'', ''org.wayfire.wfpanel'',
             ''/org/wayfire/wfpanel'', ''org.wayfire.wfpanel'', ''command'', ''ss'',
             (case nt_urgency n of NormalUrgency \<Rightarrow> ''notify'' | CriticalUrgency \<Rightarrow> ''critical''), nt_text n]"
  obtain panel x1 where e: "exec x ''busctl'' ?args = (panel, x1)" by (cases "exec x ''busctl'' ?args")
  show ?thesis by (intro exI conjI impI, rule e) (simp_all add: deliver_titled_def e)
qed

end
