(* ===== verification/PoweroffCommand.thy ===== *)
theory PoweroffCommand
  imports Bus
begin

text \<open>
  \<open>argonctl poweroff --wake-at TIME\<close> (\<open>crates/argon-cli/src/poweroff.rs\<close>): the time is resolved with
  the program \<open>date\<close>, checked against the same rule the daemon applies, and handed to the daemon over its
  control socket. \<open>date\<close>, the socket and the encoding of a line as JSON are parameters.
\<close>

section \<open>Times\<close>

definition cli_date_to_unix :: "'x exec \<Rightarrow> 'x \<Rightarrow> string \<Rightarrow> (string + nat) \<times> 'x" where
  "cli_date_to_unix exec x input =
     (let (r, x1) = exec x ''date'' [''-d'', input, ''+%s'']
      in (case r of
            Inl e \<Rightarrow> Inl (''cannot run date: '' @ e)
          | Inr out \<Rightarrow>
              if \<not> co_success out then
                Inl (''cannot understand '' @ debug_str input @ '' as a time: '' @ trim (co_stderr out))
              else (case parse_uint U64_MAX (trim (co_stdout out)) of
                      None \<Rightarrow> Inl (''date gave no timestamp for '' @ debug_str input)
                    | Some n \<Rightarrow> Inr n), x1))"

definition bare_time_of_day :: "string \<Rightarrow> bool" where
  "bare_time_of_day input \<longleftrightarrow> list_all (\<lambda>c. is_digit c \<or> c = CHR '':'') (trim input)"

definition resolve_time :: "'x exec \<Rightarrow> 'x \<Rightarrow> string \<Rightarrow> nat \<Rightarrow> (string + nat) \<times> 'x" where
  "resolve_time exec x input now =
     (let (r, x1) = cli_date_to_unix exec x input
      in case r of
           Inl e \<Rightarrow> (Inl e, x1)
         | Inr at \<Rightarrow>
             if bare_time_of_day input \<and> at < now + as_secs MIN_LEAD
             then cli_date_to_unix exec x1 (''tomorrow '' @ trim input)
             else (Inr at, x1))"

definition local_time :: "'x exec \<Rightarrow> 'x \<Rightarrow> nat \<Rightarrow> string \<times> 'x" where
  "local_time exec x unix =
     (let (r, x1) = exec x ''date'' [''-d'', CHR ''@'' # show_nat unix, ''+%a %Y-%m-%d %H:%M %Z'']
      in (case r of
            Inr out \<Rightarrow> if co_success out then trim (co_stdout out) else ''unix '' @ show_nat unix
          | Inl _ \<Rightarrow> ''unix '' @ show_nat unix, x1))"

section \<open>Asking the daemon\<close>

datatype connect_failure = ConnectDenied | ConnectNotFound | ConnectRefused | ConnectOther string

text \<open>The client's end: whether the connection and the writing succeed, and the line read back.\<close>

record client_socket =
  cs_connect :: "connect_failure option"
  cs_write :: "string option"
  cs_read :: "string + string"

definition SOCKET_PATH :: string where "SOCKET_PATH = ''/run/argon-utils/control.sock''"

definition control_to_line :: "(control_request \<Rightarrow> string + string) \<Rightarrow> control_request \<Rightarrow> string + string" where
  "control_to_line encode req = map_ok (\<lambda>s. s @ [newline]) (encode req)"

definition control_from_line :: "(string \<Rightarrow> string + 'm) \<Rightarrow> string \<Rightarrow> string + 'm" where
  "control_from_line decode line = decode (trim_end line)"

fun connect_text :: "connect_failure \<Rightarrow> string" where
  "connect_text ConnectDenied = SOCKET_PATH @ '' is argond's, and only root may use it: run this under sudo''"
| "connect_text ConnectNotFound = ''argond is not listening on '' @ SOCKET_PATH @ '' -- is the argond service running?''"
| "connect_text ConnectRefused = ''argond is not listening on '' @ SOCKET_PATH @ '' -- is the argond service running?''"
| "connect_text (ConnectOther e) = ''cannot reach argond: '' @ e"

text \<open>The line put on the socket, if it came to that, and the daemon's answer.\<close>

definition ask_daemon ::
  "(control_request \<Rightarrow> string + string) \<Rightarrow> (string \<Rightarrow> string + control_answer) \<Rightarrow> client_socket \<Rightarrow> control_request \<Rightarrow>
   string option \<times> (string + control_answer)"
where
  "ask_daemon encode decode s req =
     (case cs_connect s of
        Some f \<Rightarrow> (None, Inl (connect_text f))
      | None \<Rightarrow>
          (case control_to_line encode req of
             Inl e \<Rightarrow> (None, Inl e)
           | Inr line \<Rightarrow>
               (Some line,
                case cs_write s of
                  Some e \<Rightarrow> Inl (''sending the request: '' @ e)
                | None \<Rightarrow>
                    (case cs_read s of
                       Inl e \<Rightarrow> Inl (''waiting for argond's answer: '' @ e)
                     | Inr answer \<Rightarrow> map_err (\<lambda>e. ''argond's answer made no sense: '' @ e) (control_from_line decode answer)))))"

section \<open>The command\<close>

text \<open>The requests it put to the daemon, whether it succeeded, what it printed and its error.\<close>

record poweroff_run =
  pr_asked :: "control_request list"
  pr_ok :: bool
  pr_lines :: "string list"
  pr_error :: "string option"

definition plan_lines :: "string \<Rightarrow> ups_time \<Rightarrow> string list" where
  "plan_lines wake_local schedule =
     [''Plan:'',
      ''  power off        in '' @ show_nat (as_secs POWEROFF_DELAY) @ '' s, announced to logged-in users'',
      ''  wake             '' @ wake_local @ ''   ('' @ minute_text schedule @ '' UTC, as the UPS holds it)'']"

definition done_lines :: "string \<Rightarrow> string \<Rightarrow> string list" where
  "done_lines poweroff_local wake_local =
     [[], ''Done. The wake is set and was read back from the UPS.'',
      ''  powering off at  '' @ poweroff_local,
      ''  waking at        '' @ wake_local, [],
      ''To stay up after all:  sudo shutdown -c'',
      ''argond then moves the wake out of the way before it can come due.'']"

definition poweroff_command ::
  "'x exec \<Rightarrow> (control_request \<Rightarrow> string option \<times> (string + control_answer)) \<Rightarrow> string \<Rightarrow> bool \<Rightarrow> nat \<Rightarrow> 'x \<Rightarrow>
   poweroff_run \<times> 'x"
where
  "poweroff_command exec ask wake_at dry_run now x =
     (let failed = (\<lambda>asked ls e. \<lparr>pr_asked = asked, pr_ok = False, pr_lines = ls, pr_error = Some (''argonctl: '' @ e)\<rparr>);
          (r, x1) = resolve_time exec x wake_at now
      in case r of
           Inl e \<Rightarrow> (failed [] [] e, x1)
         | Inr at \<Rightarrow>
             (case schedule_for at now of
                Inl e \<Rightarrow> (failed [] [] (request_error_text e), x1)
              | Inr schedule \<Rightarrow>
                  (let wake_unix = (case to_unix_seconds schedule of Some w \<Rightarrow> w | None \<Rightarrow> at);
                       (wake_local, x2) = local_time exec x1 wake_unix;
                       plan = plan_lines wake_local schedule
                   in if dry_run then
                        (\<lparr>pr_asked = [], pr_ok = True, pr_lines = plan @ [[], ''Dry run: nothing was sent.''], pr_error = None\<rparr>, x2)
                      else
                        (let req = PoweroffWithWake at
                         in case snd (ask req) of
                              Inl e \<Rightarrow> (failed [req] plan e, x2)
                            | Inr (AnswerError message) \<Rightarrow> (failed [req] plan (''argond refused: '' @ message), x2)
                            | Inr (Scheduled wake poweroff) \<Rightarrow>
                                (let (poweroff_local, x3) = local_time exec x2 poweroff;
                                     (wake_local', x4) = local_time exec x3 wake
                                 in (\<lparr>pr_asked = [req], pr_ok = True, pr_lines = plan @ done_lines poweroff_local wake_local',
                                      pr_error = None\<rparr>, x4))))))"

section \<open>What is asked, and what is planned\<close>

text \<open>The daemon is asked at most once, never in a dry run, and only for a time that its own rule accepts;
  and without an answer that the poweroff is scheduled the command does not succeed.\<close>

theorem poweroff_command_asks:
  "case fst (poweroff_command exec ask wake_at dry_run now x) of r \<Rightarrow>
     pr_asked r = [] \<and> (pr_ok r \<longleftrightarrow> dry_run \<and> pr_error r = None)
     \<or> (\<exists>at t. pr_asked r = [PoweroffWithWake at] \<and> \<not> dry_run \<and> fst (resolve_time exec x wake_at now) = Inr at
         \<and> schedule_for at now = Inr t
         \<and> (pr_ok r \<longleftrightarrow> (\<exists>wake poweroff. snd (ask (PoweroffWithWake at)) = Inr (Scheduled wake poweroff))))"
proof (cases "resolve_time exec x wake_at now")
  case (Pair r x1)
  show ?thesis
    by (cases r) (auto simp: poweroff_command_def Pair Let_def split_beta split: sum.splits control_answer.splits)
qed

text \<open>The wake the command prints in its plan is the one the daemon sets, however much later the daemon
  comes to the request.\<close>

lemma plan_is_kept:
  assumes "schedule_for at now = Inr t"
    and "fst (handle_request net tick ops m (PoweroffWithWake at) pw wake_writes later) = PoweroffScheduled wake poweroff"
  shows "to_unix_seconds t = Some wake"
proof -
  from assms(2) obtain t' where t': "schedule_for at later = Inr t'" "to_unix_seconds t' = Some wake \<or> to_unix_seconds t' = None \<and> wake = 0"
    by (auto simp: handle_request_def Let_def split_beta split: if_splits sum.splits option.splits)
  from schedule_for_Inr(1)[OF t'(1)] schedule_for_Inr(1)[OF assms(1)] t'(2) show ?thesis by simp
qed

text \<open>What the client writes is what the daemon's socket takes for one request, whatever encoding the two share,
  as long as a request encodes to one short line without blanks at its end.\<close>

lemma client_line_is_read:
  assumes "encode req = Inr s" and "newline \<notin> set s" and "trim_end s = s" and "length s < MAX_LINE" and "decode s = Inr req"
    and "cs_connect c = None"
  shows "\<exists>line. fst (ask_daemon encode dec c req) = Some line
    \<and> read_request decode \<lparr>ci_bytes = line, ci_failure = None\<rparr> = Inr req"
proof -
  have l: "fst (ask_daemon encode dec c req) = Some (s @ [newline])"
    using assms(1,6) by (simp add: ask_daemon_def control_to_line_def)
  have "takeWhile (\<lambda>c. c \<noteq> newline) (s @ [newline]) = s \<and> dropWhile (\<lambda>c. c \<noteq> newline) (s @ [newline]) = [newline]"
    using assms(2) by (induction s) auto
  then have f: "first_line (s @ [newline]) = s @ [newline]" by (simp add: first_line_def)
  have tk: "take MAX_LINE (s @ [newline]) = s @ [newline]" using assms(4) by simp
  have "trim_end (s @ [newline]) = s" using assms(3) by (simp add: trim_end_def is_ws_def)
  then have "read_request decode \<lparr>ci_bytes = s @ [newline], ci_failure = None\<rparr> = Inr req"
    unfolding read_request_def Let_def client_input.simps tk f using assms(5) by simp
  with l show ?thesis by blast
qed

text \<open>A time with a date in it is taken as \<open>date\<close> gives it; a bare time of day is moved to tomorrow when it is
  past or too close, but tomorrow's is not looked at again.\<close>

lemma explicit_date_not_moved:
  "\<not> bare_time_of_day input \<Longrightarrow> resolve_time exec x input now = cli_date_to_unix exec x input"
  by (cases "cli_date_to_unix exec x input"; cases "fst (cli_date_to_unix exec x input)") (simp_all add: resolve_time_def)

lemma bare_time_moved_once:
  assumes "cli_date_to_unix exec x ''00:05'' = (Inr today, x1)" and "today < now"
  shows "resolve_time exec x ''00:05'' now = cli_date_to_unix exec x1 ''tomorrow 00:05''"
proof -
  have "trim ''00:05'' = ''00:05''" by code_simp
  moreover have "bare_time_of_day ''00:05''" by code_simp
  ultimately show ?thesis using assms by (simp add: resolve_time_def)
qed

end
