(* ===== verification/BatteryCommand.thy ===== *)
theory BatteryCommand
  imports Gauge Discovery Json
begin

text \<open>
  \<open>argonctl battery\<close> (\<open>crates/argon-cli/src/battery.rs\<close>): the gauge is identified, its health read once
  and its readings as often as asked, each printed as one object. The columns of the table for people
  are not modelled, only which readings it is printed from.
\<close>

fun cli_flow_name :: "flow \<Rightarrow> string" where
  "cli_flow_name Charging = ''charging''"
| "cli_flow_name Discharging = ''discharging''"
| "cli_flow_name Idle = ''idle''"

definition source_text :: "gauge_reading \<Rightarrow> string" where
  "source_text r = (case bs_source (reading_battery r) of Battery \<Rightarrow> ''battery'' | Mains \<Rightarrow> ''mains'')"

definition json_reading :: "string \<Rightarrow> health option \<Rightarrow> hal_error + gauge_reading \<Rightarrow> json" where
  "json_reading bus health reading =
     (let r = ok reading
      in JObj
        [(''route'', JStr ''cw2217''), (''bus'', JStr bus),
         (''cycles'', opt_json (\<lambda>h. jnat (unat (he_cycles h))) health),
         (''state_of_health_percent'', opt_json (\<lambda>h. jnat (unat (he_soh h))) health),
         (''percent'', opt_json (\<lambda>r. jnat (unat (gr_percent r))) r),
         (''vcell_uv'', opt_json (\<lambda>r. jnat (unat (gr_vcell_uv r))) r),
         (''current_raw'', opt_json (\<lambda>r. JInt (gr_current r)) r),
         (''flow'', opt_json (\<lambda>r. JStr (cli_flow_name (gr_flow r))) r),
         (''source'', opt_json (\<lambda>r. JStr (source_text r)) r),
         (''error'', case reading of Inl e \<Rightarrow> JStr (hal_error_text e) | Inr _ \<Rightarrow> JNull)])"

fun read_times :: "'b register_read \<Rightarrow> nat \<Rightarrow> 'b cw2217 \<Rightarrow> (hal_error + gauge_reading) list \<times> 'b cw2217" where
  "read_times bus 0 g = ([], g)"
| "read_times bus (Suc n) g =
     (let (r, g1) = read_now bus g; (rs, g2) = read_times bus n g1 in (r # rs, g2))"

text \<open>\<open>opened\<close> is what opening the bus by a path gives; \<open>auto\<close> stands for the header's bus.\<close>

definition battery_command ::
  "'b register_read \<Rightarrow> file_system \<Rightarrow> (string \<Rightarrow> hal_error + 'b) \<Rightarrow> string \<Rightarrow> nat \<Rightarrow>
   string + (hal_error + health) \<times> (hal_error + gauge_reading) list \<times> 'b cw2217"
where
  "battery_command bus fs open_bus given count =
     rbind (if given = ''auto'' then
              (case header_i2c_bus fs of
                 None \<Rightarrow> Inl ''no I2C bus found; is dtparam=i2c_arm=on set in config.txt?''
               | Some p \<Rightarrow> Inr (path_text p))
            else Inr given) (\<lambda>path.
     rbind (map_err (\<lambda>e. ''no CW2217 fuel gauge at 0x'' @ show_hex2 GAUGE_ADDR @ '' on '' @ path @ '': '' @ hal_error_text e @ [newline]
                  @ ''This command is for the Argon ONE UP; the PWR UPS is `argonctl ups --serial auto`.'')
             (rbind (open_bus path) (identify bus))) (\<lambda>g.
       let (health, g1) = gauge_health bus g; (rs, g2) = read_times bus (max count 1) g1
       in Inr (health, rs, g2)))"

definition battery_json :: "string \<Rightarrow> (hal_error + health) \<times> (hal_error + gauge_reading) list \<Rightarrow> json list" where
  "battery_json describe r = map (json_reading describe (ok (fst r))) (snd r)"

section \<open>What is read, and what is printed\<close>

text \<open>Every reading on the bus is one of the documented ones.\<close>

definition all_permitted :: "(u8 \<times> nat) list \<Rightarrow> bool" where
  "all_permitted log \<longleftrightarrow> (\<forall>(register, n) \<in> set log. is_permitted_read register n)"

lemma all_permitted_append [simp]: "all_permitted (xs @ ys) \<longleftrightarrow> all_permitted xs \<and> all_permitted ys"
  by (auto simp: all_permitted_def)

lemma gauge_read_permitted:
  "gauge_read (reads_logged bus) g register n = (r, g') \<Longrightarrow> all_permitted (gauge_log g) \<Longrightarrow> all_permitted (gauge_log g')"
  using gauge_read_logged(1)[of bus g register n r g'] by (auto simp: all_permitted_def split: if_splits)

lemma read_now_permitted:
  "read_now (reads_logged bus) g = (r, g') \<Longrightarrow> all_permitted (gauge_log g) \<Longrightarrow> all_permitted (gauge_log g')"
  by (auto simp: read_now_def Let_def dest!: gauge_read_permitted split: prod.splits sum.splits)

lemma health_permitted:
  "gauge_health (reads_logged bus) g = (r, g') \<Longrightarrow> all_permitted (gauge_log g) \<Longrightarrow> all_permitted (gauge_log g')"
  by (auto simp: gauge_health_def Let_def dest!: gauge_read_permitted split: prod.splits sum.splits)

lemma read_times_permitted:
  "all_permitted (gauge_log g) \<Longrightarrow> all_permitted (gauge_log (snd (read_times (reads_logged bus) n g)))
    \<and> length (fst (read_times (reads_logged bus) n g)) = n"
proof (induction n arbitrary: g)
  case (Suc n)
  obtain r g1 where r: "read_now (reads_logged bus) g = (r, g1)" by fastforce
  from Suc.IH[OF read_now_permitted[OF r Suc.prems]] show ?case by (simp add: r split_beta)
qed simp

lemma identify_permitted:
  "identify (reads_logged bus) (b, []) = Inr g \<Longrightarrow> all_permitted (gauge_log g)"
proof -
  assume i: "identify (reads_logged bus) (b, []) = Inr g"
  obtain r g1 where r: "gauge_read (reads_logged bus) \<lparr>cw_bus = (b, [])\<rparr> REG_VERSION 1 = (r, g1)" by fastforce
  have "all_permitted (gauge_log g1)"
    by (rule gauge_read_permitted[OF r]) (simp add: gauge_log_def all_permitted_def)
  moreover have "g = g1" using i unfolding identify_def r by (auto simp: rbind_Inr_iff split: if_splits)
  ultimately show ?thesis by simp
qed

lemma read_identified:
  "map_err f (rbind (map_ok (\<lambda>b. (b, [])) opened) k) = Inr g \<longleftrightarrow> (\<exists>b. opened = Inr b \<and> k (b, []) = Inr g)"
  by (cases opened; cases "k (projr opened, [])") (auto simp: rbind_def map_ok_def map_err_def)

text \<open>The command reads the gauge and nothing else of it: whatever the chip answers, it takes exactly as many
  readings as were asked for, at least one, and only documented registers are read.\<close>

theorem battery_command_reads:
  "case battery_command (reads_logged bus) fs (\<lambda>p. map_ok (\<lambda>b. (b, [])) (open_bus p)) given count of
     Inl _ \<Rightarrow> True
   | Inr (_, rs, g) \<Rightarrow> length rs = max count 1 \<and> all_permitted (gauge_log g)"
proof (cases "battery_command (reads_logged bus) fs (\<lambda>p. map_ok (\<lambda>b. (b, [])) (open_bus p)) given count")
  case (Inr x)
  from Inr obtain b g where i: "identify (reads_logged bus) (b, []) = Inr g"
    and x: "x = (let (health, g1) = gauge_health (reads_logged bus) g;
                     (rs, g2) = read_times (reads_logged bus) (max count 1) g1 in (health, rs, g2))"
    unfolding battery_command_def by (auto simp: read_identified rbind_Inr_iff split_beta Let_def)
  obtain h g1 where h: "gauge_health (reads_logged bus) g = (h, g1)" by fastforce
  from read_times_permitted[OF health_permitted[OF h identify_permitted[OF i]], of bus "max count 1"]
  show ?thesis by (simp add: Inr x h split_beta)
qed simp

text \<open>A failed reading prints its error and no numbers, and a good one numbers and no error.\<close>

lemma json_reading_honest:
  "json_field ''error'' (json_reading bus h r) = JNull \<longleftrightarrow> is_ok r"
  "json_field ''percent'' (json_reading bus h r) = JNull \<longleftrightarrow> \<not> is_ok r"
  "json_field ''flow'' (json_reading bus h r) = JNull \<longleftrightarrow> \<not> is_ok r"
  "json_field ''cycles'' (json_reading bus h r) = JNull \<longleftrightarrow> h = None"
  by (cases r; cases h; simp add: json_reading_def opt_json_def Let_def)+

end
