(* ===== verification/PulseWatch.thy ===== *)
theory PulseWatch
  imports Button Discovery
begin

text \<open>
  \<open>argonctl button watch\<close> (\<open>crates/argon-cli/src/button.rs\<close>): the widths of the pulses on the case button's
  line, their clusters and the thresholds proposed between them. The edges, and the kernel's knowledge of
  the line, are parameters. Times are nanoseconds, widths microseconds.
\<close>

definition BUTTON_LINE :: nat where "BUTTON_LINE = 4"

definition fmt_ms :: "nat \<Rightarrow> string" where
  "fmt_ms us = show_nat (us div 1000) @ ''.'' @ show_nat (us mod 1000 div 100)"

section \<open>Measuring\<close>

record pulse_watch =
  pu_widths_us :: "nat list"
  pu_rising_at :: "nat option"
  pu_last_pulse_ns :: "nat option"
  pu_lines :: "string list"

definition pulse_watch_new :: pulse_watch where
  "pulse_watch_new = \<lparr>pu_widths_us = [], pu_rising_at = None, pu_last_pulse_ns = None, pu_lines = []\<rparr>"

definition gap_text :: "nat option \<Rightarrow> nat \<Rightarrow> string" where
  "gap_text previous start =
     (case previous of
        None \<Rightarrow> []
      | Some prev \<Rightarrow>
          (let ms = (start - prev) div 1000000
           in ''   +'' @ show_nat (ms div 1000) @ ''.'' @ zero_pad 2 (show_nat (ms mod 1000 div 10)) @ ''s since the last''))"

definition pulse_edge :: "edge_event \<Rightarrow> pulse_watch \<Rightarrow> pulse_watch" where
  "pulse_edge e w =
     (case ee_edge e of
        Rising \<Rightarrow> w\<lparr>pu_rising_at := Some (ee_timestamp_ns e)\<rparr>
      | Falling \<Rightarrow>
          (case pu_rising_at w of
             None \<Rightarrow> w
           | Some start \<Rightarrow>
               (let us = (ee_timestamp_ns e - start) div 1000; widths = pu_widths_us w @ [us]
                in w\<lparr>pu_rising_at := None, pu_widths_us := widths, pu_last_pulse_ns := Some start,
                     pu_lines := pu_lines w @
                       [''  pulse '' @ right_align 3 (show_nat (length widths)) @ '': '' @ right_align 7 (show_nat us)
                          @ '' us  ('' @ fmt_ms us @ '' ms)'' @ gap_text (pu_last_pulse_ns w) start]\<rparr>)))"

fun pulse_loop :: "nat \<Rightarrow> nat \<Rightarrow> wait list \<Rightarrow> pulse_watch \<Rightarrow> pulse_watch" where
  "pulse_loop count timeout_s [] w = w"
| "pulse_loop count timeout_s (e # es) w =
     (if count \<le> length (pu_widths_us w) then w
      else case e of
             GotEdge ev \<Rightarrow> pulse_loop count timeout_s es (pulse_edge ev w)
           | NoEdge \<Rightarrow> w\<lparr>pu_lines := pu_lines w @ [[], ''(no pulse for '' @ show_nat timeout_s @ ''s '' @ em_dash @ '' stopping)'']\<rparr>
           | WaitFailed _ \<Rightarrow> w)"

section \<open>Clusters and thresholds\<close>

definition add_width :: "nat list list \<Rightarrow> nat \<Rightarrow> nat list list" where
  "add_width clusters w =
     (if clusters = [] then [[w]]
      else let c = last clusters
           in if w - (if c = [] then 0 else last c) \<le> 5000 then butlast clusters @ [c @ [w]] else clusters @ [[w]])"

definition clusters_of :: "nat list \<Rightarrow> nat list list" where
  "clusters_of widths = foldl add_width [] (sort widths)"

fun pairs_of :: "'a list \<Rightarrow> ('a \<times> 'a) list" where
  \<comment> \<open>\<open>windows(2)\<close>\<close>
  "pairs_of (a # b # xs) = (a, b) # pairs_of (b # xs)"
| "pairs_of _ = []"

definition boundary :: "nat list \<times> nat list \<Rightarrow> nat \<times> nat" where
  \<comment> \<open>the threshold between two clusters, and the margin\<close>
  "boundary p =
     (let hi = (if fst p = [] then 0 else last (fst p)); lo = (if snd p = [] then 0 else hd (snd p)); gap = lo - hi
      in (hi + gap div 2, gap div 2))"

definition cluster_line :: "nat list \<Rightarrow> string" where
  "cluster_line c =
     (let lo = (if c = [] then 0 else hd c); hi = (if c = [] then 0 else last c); mid = sum_list c div max (length c) 1
      in ''  '' @ right_align 3 (show_nat (length c)) @ '' pulse(s)  '' @ right_align 7 (show_nat lo) @ ''..''
           @ left_align 7 (show_nat hi) @ '' us   mean '' @ right_align 7 (show_nat mid) @ '' us  (''
           @ fmt_ms lo @ ''..'' @ fmt_ms hi @ '' ms)'')"

definition boundary_line :: "nat \<times> nat \<Rightarrow> string" where
  "boundary_line b =
     ''  boundary at '' @ right_align 7 (show_nat (fst b)) @ '' us ('' @ fmt_ms (fst b) @ '' ms), margin +/-'' @ fmt_ms (snd b) @ '' ms''"

definition pulse_report :: "nat list \<Rightarrow> string list" where
  "pulse_report widths =
     (let clusters = clusters_of widths
      in [[], ''Distribution ('' @ show_nat (length widths) @ '' pulses)'', ''-------------------------''] @
         map cluster_line clusters @
         [[], ''Proposed thresholds'', ''-------------------''] @
         (if length clusters < 2 then
            [''  Only one cluster. Press a wider variety of durations, or the MCU emits'',
             ''  a single pulse width and the action is encoded some other way.'']
          else map (boundary_line \<circ> boundary) (pairs_of clusters) @
            [[], ''Record these in docs/protocol/one-button.md and promote ARGON-GPIO-BTN-WINDOWS'',
             ''from `inferred` to `observed`.'']))"

section \<open>Thresholds separate what was measured\<close>

definition far :: "nat list \<Rightarrow> nat list \<Rightarrow> bool" where
  "far a b \<longleftrightarrow> (\<forall>x \<in> set a. \<forall>y \<in> set b. x + 5000 < y)"

definition clustered :: "nat list list \<Rightarrow> bool" where
  "clustered cs \<longleftrightarrow> [] \<notin> set cs \<and> sorted (concat cs) \<and> sorted_wrt far cs"

lemma add_width_clustered:
  assumes "clustered cs" and "\<forall>x \<in> set (concat cs). x \<le> w"
  shows "clustered (add_width cs w)" "concat (add_width cs w) = concat cs @ [w]"
proof -
  consider "cs = []" | ds c where "cs = ds @ [c]" by (cases cs rule: rev_cases) auto
  then have "clustered (add_width cs w) \<and> concat (add_width cs w) = concat cs @ [w]"
  proof cases
    case 1
    then show ?thesis by (simp add: add_width_def clustered_def)
  next
    case 2
    have c: "c \<noteq> []" "\<forall>x \<in> set c. x \<le> last c"
    proof -
      show "c \<noteq> []" using assms(1) by (auto simp: clustered_def 2)
      have "sorted c" using assms(1) by (simp add: clustered_def 2 sorted_append)
      with \<open>c \<noteq> []\<close> show "\<forall>x \<in> set c. x \<le> last c"
        by (cases c rule: rev_cases) (auto simp: sorted_append)
    qed
    have d: "\<forall>a \<in> set ds. far a c" using assms(1) by (simp add: clustered_def 2 sorted_wrt_append)
    have w: "last c \<le> w" using assms(2) c(1) by (simp add: 2)
    have st: "sorted (concat ds @ c @ [w])"
      using assms by (simp add: clustered_def 2 sorted_append)
    have ne: "[] \<notin> set ds" and far_ds: "sorted_wrt far ds"
      using assms(1) by (simp_all add: clustered_def 2 sorted_wrt_append)
    have below: "x + 5000 < w" if "a \<in> set ds" "x \<in> set a" for a x
    proof -
      have "far a c" using d that(1) by blast
      then have "x + 5000 < last c" using that(2) last_in_set[OF c(1)] unfolding far_def by blast
      then show ?thesis using w by simp
    qed
    show ?thesis
    proof (cases "w - last c \<le> 5000")
      case True
      have "\<forall>a \<in> set ds. far a (c @ [w])"
        using d below by (simp add: far_def)
      moreover have "add_width cs w = ds @ [c @ [w]]" using True c(1) by (simp add: add_width_def 2)
      ultimately show ?thesis using st ne far_ds by (simp add: clustered_def 2 sorted_wrt_append)
    next
      case False
      have "x + 5000 < w" if "x \<in> set c" for x
      proof -
        have "x \<le> last c" using c(2) that by blast
        then show ?thesis using False by linarith
      qed
      with below have "\<forall>a \<in> set (ds @ [c]). far a [w]" by (auto simp: far_def)
      moreover have "add_width cs w = ds @ [c, [w]]" using False c(1) by (simp add: add_width_def 2)
      ultimately show ?thesis using st ne far_ds c(1) d by (simp add: clustered_def 2 sorted_wrt_append)
    qed
  qed
  then show "clustered (add_width cs w)" "concat (add_width cs w) = concat cs @ [w]" by simp_all
qed

lemma clusters_from:
  "clustered cs \<Longrightarrow> sorted (concat cs @ ws) \<Longrightarrow>
   clustered (foldl add_width cs ws) \<and> concat (foldl add_width cs ws) = concat cs @ ws"
proof (induction ws arbitrary: cs)
  case (Cons w ws)
  have "\<forall>x \<in> set (concat cs). x \<le> w" using Cons.prems(2) by (auto simp: sorted_append)
  note a = add_width_clustered[OF Cons.prems(1) this]
  from Cons.IH[OF a(1)] a(2) Cons.prems(2) show ?case by simp
qed simp

lemma clusters_of_ok: "clustered (clusters_of ws)" "concat (clusters_of ws) = sort ws"
  using clusters_from[of "[]" "sort ws"] by (simp_all add: clusters_of_def clustered_def)

lemma boundaries_separate:
  assumes "clustered cs" and "p \<in> set (pairs_of cs)" and "w \<in> set (concat cs)"
  shows "w + 2500 \<le> fst (boundary p) \<or> fst (boundary p) + 2500 \<le> w"
  using assms
proof (induction cs rule: pairs_of.induct)
  case (1 a b xs)
  have ne: "a \<noteq> []" "b \<noteq> []" and cl: "clustered (b # xs)" and fab: "last a + 5000 < hd b"
    and sa: "\<forall>x \<in> set a. x \<le> last a" and sb: "\<forall>y \<in> set (concat (b # xs)). hd b \<le> y"
  proof -
    show "a \<noteq> []" "b \<noteq> []" "clustered (b # xs)" using "1.prems"(1) by (auto simp: clustered_def sorted_append)
    then show "last a + 5000 < hd b" using "1.prems"(1) by (simp add: clustered_def far_def)
    show "\<forall>x \<in> set a. x \<le> last a"
      using "1.prems"(1) \<open>a \<noteq> []\<close> by (cases a rule: rev_cases) (auto simp: clustered_def sorted_append)
    show "\<forall>y \<in> set (concat (b # xs)). hd b \<le> y"
      using "1.prems"(1) \<open>b \<noteq> []\<close> by (cases b) (auto simp: clustered_def sorted_append)
  qed
  show ?case
  proof (cases "p = (a, b)")
    case True
    then have v: "fst (boundary p) = last a + (hd b - last a) div 2" using ne by (simp add: boundary_def Let_def)
    from "1.prems"(3) consider "w \<in> set a" | "w \<in> set (concat (b # xs))" by auto
    then show ?thesis
    proof cases
      case 1
      with sa have "w \<le> last a" by blast
      with fab v show ?thesis by linarith
    next
      case 2
      with sb have "hd b \<le> w" by blast
      with fab v show ?thesis by linarith
    qed
  next
    case False
    with "1.prems"(2) have p: "p \<in> set (pairs_of (b # xs))" by simp
    from "1.prems"(3) consider "w \<in> set a" | "w \<in> set (concat (b # xs))" by auto
    then show ?thesis
    proof cases
      case 1
      have "fst p \<in> set (b # xs)" using p
        by (induction "b # xs" arbitrary: b xs rule: pairs_of.induct) auto
      moreover from this have ne: "fst p \<noteq> []" using cl by (auto simp: clustered_def)
      ultimately have "last (fst p) \<in> set (concat (b # xs))" using last_in_set[OF ne] by (simp only: set_concat) blast
      with sb have "hd b \<le> last (fst p)" by blast
      then have "hd b \<le> fst (boundary p)" using ne by (simp add: boundary_def Let_def)
      moreover have "w \<le> last a" using 1 sa by blast
      ultimately show ?thesis using fab by linarith
    next
      case 2
      from "1.IH"[OF cl p 2] show ?thesis .
    qed
  qed
qed simp_all

text \<open>Every threshold the command proposes lies at least two and a half milliseconds away from every width it
  measured, and the clusters it lists are the measured widths in order, none left out.\<close>

theorem thresholds_separate:
  "concat (clusters_of ws) = sort ws
   \<and> {b \<in> fst ` boundary ` set (pairs_of (clusters_of ws)). \<exists>w \<in> set ws. \<not> (w + 2500 \<le> b \<or> b + 2500 \<le> w)} = {}"
proof -
  have "w + 2500 \<le> b \<or> b + 2500 \<le> w"
    if "b \<in> fst ` boundary ` set (pairs_of (clusters_of ws))" and "w \<in> set ws" for b w
  proof -
    from that(1) obtain p where p: "p \<in> set (pairs_of (clusters_of ws))" "b = fst (boundary p)" by blast
    from boundaries_separate[OF clusters_of_ok(1) p(1), of w] that(2) show ?thesis
      by (simp add: clusters_of_ok(2) p(2))
  qed
  then show ?thesis using clusters_of_ok(2) by blast
qed

text \<open>The loop stops at the count, and every width it kept is of a rising and the falling edge after it.\<close>

lemma pulse_loop_count:
  "length (pu_widths_us w) \<le> count \<Longrightarrow> length (pu_widths_us (pulse_loop count t es w)) \<le> count"
proof (induction count t es w rule: pulse_loop.induct)
  case (2 count t e es w)
  have len: "length (pu_widths_us (pulse_edge ev w)) \<le> Suc (length (pu_widths_us w))" for ev
    by (simp add: pulse_edge_def Let_def split: edge.split option.split)
  show ?case
  proof (cases "count \<le> length (pu_widths_us w)")
    case False
    show ?thesis
    proof (cases e)
      case (GotEdge ev)
      have "length (pu_widths_us (pulse_edge ev w)) \<le> count" using len[of ev] False by simp
      from "2.IH"[OF False GotEdge this] show ?thesis using False GotEdge by simp
    qed (use "2.prems" False in simp_all)
  qed (use "2.prems" in simp)
qed simp

end
