(* ===== verification/OledCommand.thy ===== *)
theory OledCommand
  imports OledPanel Discovery
begin

text \<open>
  \<open>argonctl oled\<close> (\<open>crates/argon-cli/src/oled.rs\<close>): the preview, the test pattern or the status page put on the
  panel, and the panel switched off. The configuration as loaded, the vendor's units, the status file, the sensors
  and the opening of a bus are parameters; \<open>None\<close> is a panic.
\<close>

record oled_args =
  oa_write :: bool
  oa_off :: bool
  oa_flip :: bool
  oa_bus :: "path option"
  oa_status :: bool
  oa_if_enabled :: bool

text \<open>What the command finds when it looks.\<close>

record oled_surroundings =
  oz_config :: "config option" \<comment> \<open>\<open>None\<close>: no file, or one that does not load\<close>
  oz_text :: "string \<Rightarrow> string option" \<comment> \<open>the text of the status file\<close>
  oz_now :: systime
  oz_hhmm :: "systime \<Rightarrow> string"
  oz_units :: "unit_state list"
  oz_files :: file_system

definition fan_reading_of :: "u8 \<times> u32 option \<Rightarrow> fan_reading" where
  "fan_reading_of r = \<lparr>fr_pwm = fst r, fr_rpm = map_option unat (snd r)\<rparr>"

definition status_frame :: "oled_surroundings \<Rightarrow> frame_buffer option" where
  "status_frame z =
     (let config = (case oz_config z of Some c \<Rightarrow> c | None \<Rightarrow> config_default)
      in map_option (\<lambda>status.
           draw_page (page_of
             \<lparr>pi_status = status, pi_now = oz_now z,
              pi_cpu_decicelsius = Option.bind (ok (find_cpu_zone (oz_files z))) (\<lambda>(p, _). ok (read_decicelsius (oz_files z) p)),
              pi_fan = map_option fan_reading_of (Option.bind (find_pwm_fan (oz_files z)) (read_pwm_fan (oz_files z)))\<rparr>
             (oz_hhmm z)) (0, 0))
         (read_status (oz_text z (ucf_state_file (cf_ups config)))))"

definition config_enables_oled :: "config option \<Rightarrow> bool" where
  "config_enables_oled c = (case c of None \<Rightarrow> False | Some c \<Rightarrow> ocf_enabled (cf_oled c))"

definition vendor_holds_display :: "unit_state list \<Rightarrow> bool" where
  "vendor_holds_display units \<longleftrightarrow> filter (\<lambda>u. un_unit u = ''argononed.service'' \<and> unit_active u) units \<noteq> []"

text \<open>Half blocks, two rows of pixels a line: U+2588, U+2580 and U+2584, in UTF-8.\<close>

definition half_block :: "bool \<Rightarrow> bool \<Rightarrow> string" where
  "half_block upper lower =
     (if upper \<and> lower then [CHR 0xE2, CHR 0x96, CHR 0x88]
      else if upper then [CHR 0xE2, CHR 0x96, CHR 0x80]
      else if lower then [CHR 0xE2, CHR 0x96, CHR 0x84]
      else '' '')"

definition preview_lines :: "frame_buffer \<Rightarrow> string list" where
  "preview_lines fb =
     (let edge = ''  +'' @ replicate WIDTH CHR ''-'' @ ''+''
      in [edge] @ map (\<lambda>k. ''  |'' @ concat (map (\<lambda>x. half_block (pixel fb x (2 * k)) (pixel fb x (2 * k + 1))) [0..<WIDTH]) @ ''|'')
           [0..<HEIGHT div 2] @ [edge])"

datatype oled_result =
  OledPreview "string list"
| OledQuiet
| OledSent string
| OledFailed string

definition oled_what :: "oled_args \<Rightarrow> string" where
  "oled_what a = (if oa_status a then ''status page'' else ''test pattern'')"

text \<open>How the command ends, and the panel with its bus as it is left, if one was opened.\<close>

definition oled_command_run ::
  "'b i2c_ops \<Rightarrow> (string \<Rightarrow> hal_error + 'b) \<Rightarrow> oled_surroundings \<Rightarrow> oled_args \<Rightarrow> (oled_result \<times> 'b oled option) option"
where
  "oled_command_run io open_bus z a =
     (if oa_if_enabled a \<and> \<not> config_enables_oled (oz_config z) then Some (OledQuiet, None)
      else map_option (\<lambda>frame.
        if \<not> oa_write a \<and> \<not> oa_off a then
          (OledPreview
            ([''Preview of '' @ (if oa_status a then ''argond's status page, from its status file'' else ''the test pattern'')
                @ '' (nothing is sent to the panel):'', []] @ preview_lines frame @
             [[], ''Send it with:  argonctl oled'' @ (if oa_status a then '' --status'' else []) @ '' --write'']), None)
        else if vendor_holds_display (oz_units z) then
          (OledFailed ''argononed.service is running and also has code that drives this display.'', None)
        else
          case (case oa_bus a of Some p \<Rightarrow> Some p | None \<Rightarrow> header_i2c_bus (oz_files z)) of
            None \<Rightarrow> (OledFailed ''no I2C bus found; is dtparam=i2c_arm=on set in config.txt?'', None)
          | Some bus_path \<Rightarrow>
              (let bus_str = path_text bus_path
               in case open_bus bus_str of
                    Inl e \<Rightarrow> (OledFailed (''cannot open '' @ bus_str @ '': '' @ hal_error_text e), None)
                  | Inr bus \<Rightarrow>
                      (case oled_is_present io (oled_new bus (oa_flip a)) of
                         (Inl e, p) \<Rightarrow> (OledFailed (''probing 0x'' @ show_hex2 OLED_ADDR @ '' failed: '' @ hal_error_text e), Some p)
                       | (Inr False, p) \<Rightarrow> (OledFailed (''nothing answers at 0x'' @ show_hex2 OLED_ADDR @ '' on '' @ bus_str), Some p)
                       | (Inr True, p) \<Rightarrow>
                           if oa_off a then
                             (case oled_off io p of
                                (Inr _, p1) \<Rightarrow> (OledSent ''panel blanked and switched off'', Some p1)
                              | (Inl e, p1) \<Rightarrow> (OledFailed (hal_error_text e), Some p1))
                           else
                             (let level = (case oz_config z of Some c \<Rightarrow> ocf_contrast (cf_oled c) | None \<Rightarrow> 64)
                              in case draw_frame io frame level True p of
                                   (Inr _, p1) \<Rightarrow>
                                     (OledSent (oled_what a @ '' sent to 0x'' @ show_hex2 OLED_ADDR @ '' on '' @ bus_str
                                        @ (if oa_flip a then '' (rotated 180)'' else [])), Some p1)
                                 | (Inl e, p1) \<Rightarrow> (OledFailed (hal_error_text e), Some p1)))))
        (if oa_status a then status_frame z else Some test_pattern))"

section \<open>What reaches the bus\<close>

context wire_bus
begin

definition to_panel :: "'b \<Rightarrow> 'b oled \<Rightarrow> bool" where
  "to_panel b p \<longleftrightarrow> (\<exists>sent. wire (ol_bus p) = wire b @ sent \<and> fst ` set sent \<subseteq> {OLED_ADDR})"

lemma to_panel_write: "to_panel b p \<Longrightarrow> oled_write bus tx p = (r, p') \<Longrightarrow> to_panel b p'"
  by (auto simp: to_panel_def oled_write_wire)

lemma to_panel_then:
  "(\<And>r p1. f p = (r, p1) \<Longrightarrow> to_panel b p1) \<Longrightarrow> (\<And>p1 r p2. to_panel b p1 \<Longrightarrow> g p1 = (r, p2) \<Longrightarrow> to_panel b p2) \<Longrightarrow>
   oled_then f g p = (r, p') \<Longrightarrow> to_panel b p'"
  by (auto simp: oled_then_def split: prod.splits sum.splits)

lemma to_panel_send: "to_panel b p \<Longrightarrow> oled_send bus cs p = (r, p') \<Longrightarrow> to_panel b p'"
proof (induction cs arbitrary: p r p')
  case (Cons c cs)
  show ?case
    using Cons.prems(2) unfolding oled_send.simps
    by (rule to_panel_then[rotated 2]) (use Cons in \<open>auto intro: to_panel_write\<close>)
qed simp

lemma to_panel_command: "to_panel b p \<Longrightarrow> oled_command bus bytes p = (r, p') \<Longrightarrow> to_panel b p'"
  unfolding oled_command_def by (rule to_panel_write)

lemma to_panel_flush: "to_panel b p \<Longrightarrow> oled_flush bus frame p = (r, p') \<Longrightarrow> to_panel b p'"
  unfolding oled_flush_def by (rule to_panel_then[rotated 2]) (auto intro: to_panel_command to_panel_send)

lemma to_panel_off: "to_panel b p \<Longrightarrow> oled_off bus p = (r, p') \<Longrightarrow> to_panel b p'"
  unfolding oled_off_def by (rule to_panel_then[rotated 2]) (auto intro: to_panel_command to_panel_flush)

lemma to_panel_init: "to_panel b p \<Longrightarrow> oled_init bus p = (r, p') \<Longrightarrow> to_panel b p'"
  unfolding oled_init_def by (rule to_panel_then[rotated 2]) (auto intro: to_panel_command)

lemma to_panel_draw: "to_panel b p \<Longrightarrow> draw_frame bus frame level True p = (r, p') \<Longrightarrow> to_panel b p'"
  unfolding draw_frame_def if_True oled_set_contrast_def
  by (elim to_panel_then[rotated 2]) (auto intro: to_panel_init to_panel_command to_panel_flush)

lemma to_panel_present: "oled_is_present bus (oled_new b flip) = (r, p) \<Longrightarrow> to_panel b p"
  by (auto simp: oled_is_present_def oled_new_def to_panel_def probe_quiet split: prod.splits)

lemma oled_command_wire:
  assumes "oled_command_run bus open_bus z a = Some (result, Some p)"
  shows "\<exists>path b. open_bus path = Inr b \<and> to_panel b p"
  using assms unfolding oled_command_run_def
  by (auto simp: Let_def split: if_splits option.splits sum.splits prod.splits bool.splits
      dest!: to_panel_present intro: to_panel_off to_panel_draw)

end

text \<open>Without \<open>--write\<close> and \<open>--off\<close> no bus is opened, and with the vendor's daemon running none is either.\<close>

lemma oled_preview_opens_nothing:
  "\<not> oa_write a \<and> \<not> oa_off a \<or> vendor_holds_display (oz_units z) \<Longrightarrow>
   oled_command_run io open_bus z a = Some (result, p) \<Longrightarrow> p = None"
  by (auto simp: oled_command_run_def Let_def split: if_splits)

text \<open>On a bus that records instead of writing, what the command would have put on the wire goes to the panel's
  address and to no other.\<close>

theorem oled_command_writes_to_panel:
  "case oled_command_run (dry_run_ops bus) open_bus z a of
     Some (result, Some p) \<Rightarrow>
       \<exists>path b sent. open_bus path = Inr b \<and> dr_writes (ol_bus p) = dr_writes b @ sent \<and> fst ` set sent \<subseteq> {OLED_ADDR}
   | _ \<Rightarrow> True"
proof (cases "oled_command_run (dry_run_ops bus) open_bus z a")
  case (Some r)
  obtain result q where r: "r = (result, q)" by (cases r)
  show ?thesis
  proof (cases q)
    case (Some p)
    from dry.oled_command_wire[OF \<open>_ = Some r\<close>[unfolded r Some]] show ?thesis
      by (simp add: \<open>_ = Some r\<close> r Some dry.to_panel_def)
  qed (simp add: Some r)
qed simp

text \<open>The command takes a vendor's daemon that cannot be asked after for one that is not running, unlike the
  daemon, which counts it as contending and does not drive the display.\<close>

lemma unknown_vendor_not_respected:
  "\<not> vendor_holds_display (vendor_units (\<lambda>_. None))" "''argononed.service'' \<in> set (active_vendor_units (\<lambda>_. None))"
  by (simp_all add: vendor_holds_display_def vendor_units_def unit_answer_def unit_active_def VENDOR_UNITS_def
      active_vendor_units_def unit_contends_def unit_unknown_def)

end
