(* ===== verification/Doctor.thy ===== *)
theory Doctor
  imports Startup Discovery
begin

text \<open>
  \<open>argonctl doctor\<close> (\<open>crates/argon-cli/src/doctor.rs\<close>): the report of what the machine has and who uses it, and the
  same as JSON that the command writes itself. A report is its lines and the warnings its summary repeats. The
  file system and what a GPIO chip tells of its lines are parameters.
\<close>

section \<open>The report\<close>

definition LINES_OF_INTEREST :: "(nat \<times> string) list" where
  "LINES_OF_INTEREST =
     [(4, ''power button pulses from the MCU''), (17, ''power button (MCU side)''), (22, ''IR transmit''),
      (23, ''IR receive''), (27, ''lid switch (ONE UP only)'')]"

definition VENDOR_CONFIGS :: "(string \<times> string) list" where
  "VENDOR_CONFIGS =
     [(''argononed.conf'', ''CPU fan curve''), (''argononed-hdd.conf'', ''HDD fan curve (EON)''),
      (''argoneonoled.conf'', ''OLED display''), (''argonunits.conf'', ''temperature units''),
      (''argonupsrtc.conf'', ''UPS RTC schedules''), (''argonupsbattery.conf'', ''UPS battery meter'')]"

record gpio_line =
  gl_offset :: nat
  gl_name :: string
  gl_consumer :: "string option"
  gl_is_output :: bool

type_synonym report = "string list \<times> string list"

definition section_lines :: "string \<Rightarrow> string list" where
  "section_lines title = [[], title, replicate (length title) CHR ''-'']"

definition kv_line :: "string \<Rightarrow> string \<Rightarrow> string" where
  "kv_line k v = ''  '' @ left_align 12 k @ '' '' @ v"

fun generation_debug :: "pi_generation \<Rightarrow> string" where
  "generation_debug Pi4 = ''Pi4''"
| "generation_debug Pi5 = ''Pi5''"
| "generation_debug OtherPi = ''Other''"
| "generation_debug NotAPi = ''NotAPi''"

definition report_platform :: "platform \<Rightarrow> report" where
  "report_platform p =
     (section_lines ''Platform'' @
      [kv_line ''model'' (pl_model p), kv_line ''revision'' (unwrap_or ''unknown'' (pl_revision p)),
       kv_line ''generation'' (generation_debug (pl_generation p)), kv_line ''kernel'' (pl_kernel p),
       kv_line ''os'' (pl_os p @ '' ('' @ pl_arch p @ '')'')],
      if pl_generation p = NotAPi then [''this does not look like a Raspberry Pi; nothing here will apply''] else [])"

definition report_i2c :: "i2c_adapter list \<Rightarrow> report" where
  "report_i2c buses =
     (section_lines ''I2C buses'' @
      (if buses = [] then [''  none '' @ em_dash @ '' is `dtparam=i2c_arm=on` set in config.txt?''] else []) @
      concat (map (\<lambda>b. (''  '' @ path_text (ia_dev b) @ '' '' @ em_dash @ '' '' @ ia_name b) #
        map (\<lambda>(addr, driver). ''      0x'' @ zero_pad 2 (show_hex addr) @ '' claimed by kernel driver `'' @ driver
                @ ''` (will not be probed)'') (ia_bound b)) buses) @
      [[], ''  Not probed. A register read would put the register number on the bus as a write'',
       ''  first, which legacy MCU firmware reads as a fan duty. See docs/design/adr/0002.''],
      if buses = [] then [''no I2C buses found; fan and OLED control are impossible''] else [])"

definition gpio_line_text :: "gpio_line \<Rightarrow> string" where
  "gpio_line_text l =
     (let purpose = unwrap_or [] (map_of LINES_OF_INTEREST (gl_offset l));
          held = (case gl_consumer l of None \<Rightarrow> ''unheld'' | Some c \<Rightarrow> ''held by `'' @ c @ ''`'')
      in ''    line '' @ right_align 2 (show_nat (gl_offset l)) @ '' '' @ left_align 8 (gl_name l) @ '' ''
           @ left_align 6 (if gl_is_output l then ''out'' else ''in'') @ '' '' @ left_align 22 held @ '' '' @ purpose)"

definition report_gpio ::
  "gpio_chip list \<Rightarrow> (path \<Rightarrow> nat \<Rightarrow> string option) \<Rightarrow> (path \<Rightarrow> nat list \<Rightarrow> gpio_line list) \<Rightarrow> path option \<Rightarrow> report"
where
  "report_gpio chips line_name gpio_lines power_button =
     (let listed = section_lines ''GPIO'' @ (if chips = [] then [''  no gpiochips found''] else []) @
            map (\<lambda>c. ''  '' @ path_text (gc_path c) @ '' '' @ em_dash @ '' label `'' @ gc_label c @ ''`, ''
                  @ show_nat (gc_lines c) @ '' lines'') chips
      in case header_gpio_chip chips line_name 4 of
           None \<Rightarrow> (listed, [''could not identify the header GPIO chip''])
         | Some hdr \<Rightarrow>
             (let lines = gpio_lines (gc_path hdr) (map fst LINES_OF_INTEREST);
                  shown = listed @ [[], ''  Header lines on `'' @ gc_label hdr @ ''`:''] @ map gpio_line_text lines
              in case power_button of
                   Some dev \<Rightarrow>
                     (shown @
                      [[], ''  Power button: the Raspberry Pi's own button ('' @ path_text dev @ ''), handled by the OS.'',
                       ''  No Argon MCU is involved, so line 4 being unheld is expected here.'',
                       ''  Careful: on the Pi desktop a second press while the shutdown dialog is open runs'',
                       ''  `shutdown -h now`, and a logind inhibitor does not prevent it.''], [])
                 | None \<Rightarrow>
                     (shown,
                      if list_ex (\<lambda>l. gl_offset l = 4 \<and> gl_consumer l = None) lines
                      then [''line 4 has no consumer. On Pi 4-era Argon cases that is where the MCU signals ''
                            @ ''button presses, so nothing would be handling them'']
                      else [])))"

definition report_fan :: "file_system \<Rightarrow> report" where
  "report_fan fs =
     (case find_pwm_fan fs of
        None \<Rightarrow>
          (section_lines ''Fan'' @
           [''  no kernel PWM fan found'',
            ''  If this case has a fan, it is driven some other way -- on Pi 4-era cases'',
            ''  that is the Argon MCU over I2C.''], [])
      | Some fan \<Rightarrow>
          (section_lines ''Fan'' @ [''  kernel PWM fan at '' @ path_text fan] @
           (case read_pwm_fan fs fan of
              None \<Rightarrow> [''  (could not read its state)'']
            | Some r \<Rightarrow>
                [''  pwm '' @ show_nat (unat (fst r)) @ '' / 255, ''
                   @ (case snd r of None \<Rightarrow> ''no tachometer'' | Some v \<Rightarrow> show_nat (unat v) @ '' rpm'')] @
                (if pwm_spinning r then [''  the fan is currently turning''] else [])) @
           map (\<lambda>c. ''  thermal governor: '' @ cd_kind c @ '' at state '' @ show_nat (cd_state c) @ ''/''
                 @ show_nat (cd_max_state c)) (governor_state fs),
           if governor_state fs \<noteq> []
           then [''the kernel thermal governor is driving this fan. argon-utils does not control ''
                 @ ''it, and nothing needs to be at I2C 0x1a for the fan to work'']
           else []))"

definition usb_role :: "usb_device option \<Rightarrow> usb_device option \<Rightarrow> usb_device \<Rightarrow> string" where
  "usb_role ups zigbee d =
     (if Some (ud_kernel d) = map_option ud_kernel ups then ''  <- Argon PWR UPS''
      else if Some (ud_kernel d) = map_option ud_kernel zigbee then ''  <- Argon Industria Zigbee (CC2652P)''
      else [])"

definition report_usb :: "usb_device list \<Rightarrow> string list \<times> usb_device option" where
  "report_usb usb =
     (let ups = find_argon_ups usb; zigbee = find_argon_zigbee usb
      in (section_lines ''USB devices'' @
          concat (map (\<lambda>d.
            (let loc = (case ud_controller d of None \<Rightarrow> ''?''
                        | Some c \<Rightarrow> if c = INTERNAL_USB_CONTROLLER then ''internal'' else ''external'')
             in ''  '' @ left_align 8 (ud_kernel d) @ '' '' @ ud_vid d @ '':'' @ ud_pid d @ ''  '' @ left_align 8 loc @ '' ''
                  @ unwrap_or ''-'' (ud_product d) @ usb_role ups zigbee d)
            # map (\<lambda>n. ''      '' @ path_text n) (ud_nodes d)) usb) @
          (if ups = None then [[], ''  No Argon UPS found.''] else []) @
          (if zigbee = None \<and> usb \<noteq> [] then [''  No Argon Zigbee module found on the internal header.''] else []), ups))"

definition is_tty :: "path \<Rightarrow> bool" where
  "is_tty p = (case file_name p of None \<Rightarrow> False | Some n \<Rightarrow> starts_with ''ttyUSB'' n \<or> starts_with ''ttyACM'' n)"

definition node_lines :: "file_system \<Rightarrow> path \<Rightarrow> string list" where
  "node_lines fs node =
     (let owners = port_owners fs node
      in if owners = [] then
           [[], ''  '' @ path_text node @ '' '' @ em_dash @ '' ''
             @ (if can_see_all_processes fs then ''free''
                else ''no owner visible (not privileged '' @ em_dash @ '' inconclusive)'')]
         else concat (map (\<lambda>(pid, comm).
           [[], ''  '' @ path_text node @ '' '' @ em_dash @ '' held by pid '' @ show_nat pid @ '' ('' @ comm @ '')'']) owners))"

definition report_contention :: "file_system \<Rightarrow> unit_state list \<Rightarrow> usb_device option \<Rightarrow> string list \<times> bool" where
  "report_contention fs units ups =
     (let nodes = (case ups of None \<Rightarrow> [] | Some u \<Rightarrow> filter is_tty (ud_nodes u))
      in (section_lines ''Other software using this hardware'' @
          map (\<lambda>u. ''  '' @ (if unit_active u then ''ACTIVE'' else ''      '') @ ''  '' @ left_align 26 (un_unit u) @ '' ''
                @ left_align 14 (un_state u) @ '' '' @ un_owns u) units @
          concat (map (node_lines fs) nodes),
          list_ex unit_active units \<or> list_ex (\<lambda>n. port_owners fs n \<noteq> []) nodes))"

definition report_vendor_config :: "file_system \<Rightarrow> string list" where
  "report_vendor_config fs =
     (let found = filter (\<lambda>(f, _). fs_is_file fs [''etc'', f]) VENDOR_CONFIGS
      in section_lines ''Vendor configuration present'' @
         (if found = [] then [''  none'']
          else map (\<lambda>(f, what). ''  '' @ left_align 32 (path_text [''etc'', f]) @ '' '' @ what) found))"

definition report_summary :: "bool \<Rightarrow> string list \<Rightarrow> string list" where
  "report_summary contended warnings =
     section_lines ''Summary'' @
     (if contended then
        [''  The vendor software is currently driving this hardware. That is expected and'',
         ''  fine '' @ em_dash @ '' this report changed nothing. argon-utils will refuse to take control'',
         ''  until you run an explicit takeover.'']
      else []) @
     map (\<lambda>w. ''  warning: '' @ w) warnings @
     (if warnings = [] \<and> \<not> contended then [''  Nothing contending for the hardware.''] else [])"

definition doctor_report ::
  "file_system \<Rightarrow> string \<Rightarrow> gpio_chip list \<Rightarrow> (path \<Rightarrow> nat \<Rightarrow> string option) \<Rightarrow> (path \<Rightarrow> nat list \<Rightarrow> gpio_line list) \<Rightarrow>
   unit_state list \<Rightarrow> string list"
where
  "doctor_report fs arch chips line_name gpio_lines units =
     (let (l1, w1) = report_platform (platform_detect fs arch);
          (l2, w2) = report_i2c (i2c_buses fs);
          (l3, w3) = report_gpio chips line_name gpio_lines (pi_power_button fs);
          (l4, w4) = report_fan fs;
          (l5, ups) = report_usb (usb_devices fs);
          (l6, contended) = report_contention fs units ups
      in l1 @ l2 @ l3 @ l4 @ l5 @ l6 @ report_vendor_config fs @ report_summary contended (w1 @ w2 @ w3 @ w4))"

section \<open>The JSON the command writes itself\<close>

definition quote_char :: char where "quote_char = CHR 0x22"
definition json_backslash :: char where "json_backslash = CHR 0x5C"

definition json_esc :: "string \<Rightarrow> string" where
  "json_esc s =
     (let s1 = concat (map (\<lambda>c. if c = json_backslash then [json_backslash, json_backslash] else [c]) s)
      in concat (map (\<lambda>c. if c = quote_char then [json_backslash, quote_char] else [c]) s1))"

definition member :: "string \<Rightarrow> string \<Rightarrow> string" where
  \<comment> \<open>a name and an already escaped value, each in quotes\<close>
  "member k v = [quote_char] @ k @ [quote_char] @ '': '' @ [quote_char] @ v @ [quote_char]"

definition comma_all_but_last :: "string list \<Rightarrow> string list" where
  "comma_all_but_last ls = (if ls = [] then [] else map (\<lambda>l. l @ '','') (butlast ls) @ [last ls])"

definition named :: "string \<Rightarrow> string" where
  "named k = ''  '' @ [quote_char] @ k @ [quote_char] @ '': ''"

definition json_bool :: "bool \<Rightarrow> string" where
  "json_bool b = (if b then ''true'' else ''false'')"

definition json_lines :: "platform \<Rightarrow> i2c_adapter list \<Rightarrow> gpio_chip list \<Rightarrow> usb_device list \<Rightarrow> unit_state list \<Rightarrow> string list" where
  "json_lines p buses chips usb units =
     [''{'', named ''platform'' @ ''{''] @
     comma_all_but_last (map (\<lambda>m. ''    '' @ m)
       [member ''model'' (json_esc (pl_model p)), member ''revision'' (json_esc (unwrap_or [] (pl_revision p))),
        member ''generation'' (generation_debug (pl_generation p)), member ''kernel'' (json_esc (pl_kernel p)),
        member ''os'' (json_esc (pl_os p)), member ''arch'' (json_esc (pl_arch p))]) @
     [''  },'', named ''i2c'' @ ''[''] @
     comma_all_but_last (map (\<lambda>b. ''    { '' @ member ''dev'' (path_text (ia_dev b)) @ '', '' @ member ''name'' (json_esc (ia_name b)) @ '' }'') buses) @
     [''  ],'', named ''gpiochips'' @ ''[''] @
     comma_all_but_last (map (\<lambda>c. ''    { '' @ member ''path'' (path_text (gc_path c)) @ '', '' @ member ''label'' (json_esc (gc_label c)) @ '', ''
       @ [quote_char] @ ''lines'' @ [quote_char] @ '': '' @ show_nat (gc_lines c) @ '' }'') chips) @
     [''  ],'', named ''usb'' @ ''[''] @
     comma_all_but_last (map (\<lambda>d. ''    { '' @ member ''kernel'' (json_esc (ud_kernel d)) @ '', '' @ member ''vid'' (json_esc (ud_vid d)) @ '', ''
       @ member ''pid'' (json_esc (ud_pid d)) @ '', '' @ member ''product'' (json_esc (unwrap_or [] (ud_product d))) @ '', ''
       @ member ''serial'' (json_esc (unwrap_or [] (ud_serial d))) @ '', '' @ member ''controller'' (json_esc (unwrap_or [] (ud_controller d))) @ '', ''
       @ [quote_char] @ ''nodes'' @ [quote_char] @ '': ['' @ join '', '' (map (\<lambda>n. [quote_char] @ path_text n @ [quote_char]) (ud_nodes d)) @ ''] }'') usb) @
     [''  ],'', named ''vendor_units'' @ ''[''] @
     comma_all_but_last (map (\<lambda>u. ''    { '' @ member ''unit'' (json_esc (un_unit u)) @ '', '' @ member ''state'' (json_esc (un_state u)) @ '', ''
       @ [quote_char] @ ''active'' @ [quote_char] @ '': '' @ json_bool (unit_active u) @ '' }'') units) @
     [''  ]'', ''}'']"

section \<open>What escaping keeps\<close>

text \<open>What a JSON reader takes the inside of a string for, of the escapes that occur here: a control character
  inside it is an error, and so is a quote or a backslash that is not escaped.\<close>

fun json_read :: "string \<Rightarrow> string option" where
  "json_read [] = Some []"
| "json_read (c # cs) =
     (if c = json_backslash then
        (case cs of
           [] \<Rightarrow> None
         | d # ds \<Rightarrow> if d = json_backslash \<or> d = quote_char then map_option (Cons d) (json_read ds) else None)
      else if c = quote_char \<or> (of_char c :: nat) < 32 then None
      else map_option (Cons c) (json_read cs))"

lemma json_esc_simps:
  "json_esc [] = []"
  "json_esc (c # s) = (if c = json_backslash then [json_backslash, json_backslash] else if c = quote_char then [json_backslash, quote_char] else [c]) @ json_esc s"
  by (simp_all add: json_esc_def json_backslash_def quote_char_def)

text \<open>Escaped text is read back as it was, if it holds no control character; if it holds one, as a USB
  descriptor may, what the command prints is not JSON.\<close>

theorem json_esc_read:
  "json_read (json_esc s) = (if list_ex (\<lambda>c. (of_char c :: nat) < 32) s then None else Some s)"
proof (induction s)
  case (Cons c s)
  have "\<not> (of_char json_backslash :: nat) < 32" "\<not> (of_char quote_char :: nat) < 32" "json_backslash \<noteq> quote_char"
    by (simp_all add: json_backslash_def quote_char_def)
  with Cons show ?case by (auto simp: json_esc_simps)
qed (simp add: json_esc_simps)

text \<open>The report finds the hardware in use exactly when a vendor's unit is active or somebody is seen to hold a
  serial node of the UPS; a unit that could not be asked after does not count.\<close>

lemma contention_iff:
  "snd (report_contention fs units ups) \<longleftrightarrow>
     (\<exists>u \<in> set units. unit_active u) \<or>
     (\<exists>d n. ups = Some d \<and> n \<in> set (ud_nodes d) \<and> is_tty n \<and> port_owners fs n \<noteq> [])"
  by (auto simp: report_contention_def list_ex_iff split: option.split)

lemma unknown_units_not_contending:
  "\<not> snd (report_contention fs (vendor_units (\<lambda>_. None)) None)"
  "last (report_summary (snd (report_contention fs (vendor_units (\<lambda>_. None)) None)) []) = ''  Nothing contending for the hardware.''"
  by (simp_all add: report_contention_def vendor_units_def unit_answer_def unit_active_def VENDOR_UNITS_def report_summary_def)

end
