(* ===== verification/Spec2Isabelle.thy ===== *)
theory Spec2Isabelle
  imports Bcd Calendar Framing UpsFrame UpsTime Policy Hal Fan Mcu FanTask Serial Ups Poweroff Gauge Status ShutdownNotice Button
    Wake UpsSim UpsService UpsSeen ClockSync Drift UpsThread UpsLoop
    Zigbee Hid Config Lid VendorCurve Startup FanLoop GaugeLoop CpuCap FrameBuffer OledPage OledPanel Boot Tray Bus Telemetry
    LidAgent RtcCommand Discovery FanCommand UpsCommand Json
    ZigbeeProbe NotifyAgent PoweroffCommand BatteryCommand PulseWatch OledCommand Doctor
begin

text \<open>
  \<^bold>\<open>argon-utils\<close> drives the hardware of the Argon cases for the Raspberry Pi: the fan and its
  microcontroller, the battery of the UPS or of the ONE UP, the case button, the lid, the case
  display and the Zigbee module. This development models the Rust code under \<open>src/crates\<close> as
  functions of the logic and proves what makes it correct.

  \<^bold>\<open>The parts and how they interact.\<close> Below everything are the wire formats (\<open>argon-proto\<close>), which
  do no input or output. Drivers (\<open>argon-device\<close>) use them over the transports of \<open>argon-hal\<close>, each
  a trait that a decorator can wrap: a bus that refuses writes, one that only records them, one that
  limits their rate, a link that passes only queries. The daemon (\<open>argon-daemon\<close>) runs one thread per
  device. The fan loop reads a temperature, asks the controller and writes the duty; a guard shared
  with the signal thread puts a safe duty back. The UPS thread polls the battery, hands each reading to
  the policy and the policy's decision to the coordinator, which alone schedules and cancels
  poweroffs at logind; it publishes a status file, keeps the UPS clock right, moves a wake that is about
  to come due out of the way, and carries out requests that the control socket and the D-Bus object
  put into its queue. The displays (\<open>argon-tray\<close>, the case display, the notices) read the published
  status and never the device. The commands (\<open>argon-cli\<close>) and the lid agent use the same drivers
  or ask the daemon; \<open>argon-sim\<close> simulates the devices.

  \<^bold>\<open>Theories.\<close> Each opens with the files it models; definitions carry the names of the code.

  \<^item> Shared ground: \<open>Prelude\<close> (machine integers, results, text), \<open>Calendar\<close> (days by the rules of the
    calendar), \<open>Framing\<close> (feeding a byte-at-a-time reader), \<open>Json\<close> (values printed as JSON).
  \<^item> Wire formats: \<open>Bcd\<close>, \<open>UpsFrame\<close> and \<open>UpsTime\<close> (\<open>ups/frame.rs\<close>, \<open>ups/status.rs\<close>), \<open>Zigbee\<close>,
    \<open>Hid\<close> (\<open>hid/descriptor.rs\<close>), \<open>FrameBuffer\<close> (\<open>oled/\<close>), and the register decoding in \<open>Gauge\<close>.
    Readers are refined to abstract parsers, encodings round-trip, the descriptor parser ends on
    every input and its fields do not overlap.
  \<^item> Decisions without input or output: \<open>Policy\<close>, \<open>Fan\<close>, \<open>VendorCurve\<close>, \<open>Lid\<close>, \<open>Wake\<close>, \<open>ClockSync\<close>,
    \<open>Drift\<close>, \<open>Config\<close>, \<open>OledPage\<close>, \<open>Boot\<close>, \<open>Tray\<close>. The lemmas give their meaning over whole histories of
    inputs: when a shutdown can be advised, that the fan never cools less than the curve, that the desktop is
    restored, which configurations are accepted.
  \<^item> Transports and drivers: \<open>Hal\<close>, \<open>Serial\<close>, \<open>Ups\<close>, \<open>UpsSim\<close>, \<open>Mcu\<close>, \<open>FanTask\<close>, \<open>Gauge\<close>, \<open>OledPanel\<close>, \<open>CpuCap\<close>,
    \<open>Discovery\<close>. The lemmas say what can reach a device behind each decorator, and that what a driver
    believes to be in force is what was last put on the wire.
  \<^item> Acting on the machine: \<open>Poweroff\<close>, \<open>Button\<close>, \<open>Status\<close>, \<open>ShutdownNotice\<close>, \<open>UpsService\<close>, \<open>UpsSeen\<close>.
    The lemmas are about ownership: at most one poweroff per episode, only one's own is cancelled,
    and a file that has gone stale says nothing but its age.
  \<^item> Threads of the daemon: \<open>Startup\<close>, \<open>FanLoop\<close>, \<open>UpsThread\<close> and \<open>UpsLoop\<close>, \<open>GaugeLoop\<close>, \<open>Bus\<close>, \<open>Telemetry\<close>. Here the
    parts are composed: a poweroff of the running thread is traced back to confirmed readings on the open
    link, a wake request is either carried out whole or parked.
  \<^item> Commands and agents: \<open>FanCommand\<close>, \<open>RtcCommand\<close>, \<open>UpsCommand\<close>, \<open>PoweroffCommand\<close>, \<open>ZigbeeProbe\<close>, \<open>BatteryCommand\<close>,
    \<open>OledCommand\<close>, \<open>PulseWatch\<close>, \<open>Doctor\<close>, \<open>NotifyAgent\<close>, \<open>LidAgent\<close>. The lemmas say what each may send to a device and
    under which conditions.

  \<^bold>\<open>Interfaces.\<close> \<open>stream_decoder\<close> (Framing) is what both frame readers promise; it is interpreted for the
    UPS and the Zigbee reader. \<open>wire_bus\<close> and \<open>blocked_bus\<close> (Hal) are what a driver and a test rely on of a
    bus; they are interpreted for the recording bus, that bus behind the rate limiter, and the
    read-only bus. \<open>guarded_link\<close> (Ups) is the contract of a link that passes only some requests, interpreted for the
    query-only link and the write gate. \<open>wake_store\<close> (Ups) is a UPS that keeps its wake schedule, interpreted for the
    simulator behind its cable. \<open>monitor\<close> (UpsService) is a battery source that polls through the policy, interpreted for
    the UPS and the fuel gauge.

  \<^bold>\<open>Conventions.\<close> A result is a sum with the error on the left. A function that may panic returns an option,
  and \<open>None\<close> is the panic; where a property says that a result is returned, it excludes it. Bytes and registers are words.
  32-bit arithmetic that can overflow is wrapped as in a release build; 64-bit counters of seconds and
  lengths are natural numbers where nothing in the code can bring them near their bound. Times and spans are
  nanoseconds. Text is a list of characters below U+0100; the few characters above it that the program prints
  are written as their UTF-8 bytes.

  \<^bold>\<open>Parameters.\<close> What is not in the repository is an argument of the definitions that use it: the kernel's
  device nodes and files (\<open>file_system\<close>, buses, links, scripts of reads with their times), the programs the
  code runs (\<open>exec\<close>: logind's, \<open>date\<close>, \<open>notify-send\<close>), the clocks, polkit, the sockets, the TOML and JSON libraries. Most
  properties hold for every value of them. Where one relies on documented behaviour, such as a device that
  keeps its schedule, the behaviour is a named hypothesis or the \<open>assumes\<close> of a locale, and a
  witness evaluates the property on a concrete instance.

  \<^bold>\<open>Loops.\<close> Loops over data are structural or have a measure (the abstract parsers, the loop over
  descriptor items, the search for a parent device). A loop that waits for the world is run over the list of what it
  meets, and a statement about it holds for every such list, so no fuel is chosen. A request that has met
  no answer, no deadline and no failure yet is \<open>Waiting\<close>, a value of its own. The fan loop with its
  signal thread is a step relation.

  \<^bold>\<open>Not modelled.\<close> Argument parsing and dispatch (\<open>argon-cli/src/main.rs\<close>), the
  GPIO and HID node wrappers of \<open>argon-hal\<close>, the event loop, about window and display check of \<open>argon-tray\<close>, and the
  spawning and sleeping of threads: they decide nothing, or only call libraries. Log lines, and tables for people
  whose columns are floats, are left out too, as are the facts that \<open>argonctl setup\<close> gathers about the machine before its
  checks, which are the argument of the modelled checks.
\<close>

end
